(* ===== verification/Gnmic_Prelude.thy ===== *)
theory Gnmic_Prelude
  imports Main "HOL-Library.AList" "HOL-Library.Char_ord" "HOL-Library.List_Lexorder"
    "HOL-Library.Multiset" "HOL-Library.Word"
begin

text \<open>
  Shared vocabulary of the development: the Go values every component uses and the lemmas on
  them.

  \<^item> A Go \<^verbatim>\<open>map[K]V\<close> is an association list (\<open>('k, 'v) gomap\<close>). Its list order is the order
    in which a \<^verbatim>\<open>range\<close> loop visits it; Go leaves that order open, so every theorem that is
    stated for all lists holds for every iteration order. \<open>gget\<close>, \<open>gput\<close>, \<open>gdel\<close> are the
    index expression, the assignment and \<^verbatim>\<open>delete\<close>. The locale \<open>go_map\<close> states what the
    components rely on, and it is interpreted on those operations.
  \<^item> A Go \<^verbatim>\<open>string\<close> is a list of bytes, here \<open>string\<close>; \<^verbatim>\<open>sort.Strings\<close> is \<open>sort\<close> in the
    byte-wise lexicographic order of \<open>List_Lexorder\<close>.
  \<^item> A function with an \<^verbatim>\<open>error\<close> result returns a sum, \<open>Inl\<close> for the error.
  \<^item> \<^verbatim>\<open>int\<close> is \<open>int\<close>; \<^verbatim>\<open>int32\<close> arithmetic that can leave its range is wrapped by \<open>int32\<close>;
    division and remainder truncate towards zero.
\<close>

named_theorems gomap_simps \<open>lookup, update and key facts of Go maps\<close>
named_theorems string_simps \<open>facts on the string functions\<close>

section \<open>Go maps\<close>

type_synonym ('k, 'v) gomap = "('k \<times> 'v) list"

definition gget :: "('k, 'v) gomap \<Rightarrow> 'k \<Rightarrow> 'v option" where
  "gget m k = map_of m k"

definition gput :: "('k, 'v) gomap \<Rightarrow> 'k \<Rightarrow> 'v \<Rightarrow> ('k, 'v) gomap" where
  "gput m k v = AList.update k v m"

definition gdel :: "('k, 'v) gomap \<Rightarrow> 'k \<Rightarrow> ('k, 'v) gomap" where
  "gdel m k = AList.delete k m"

definition gkeys :: "('k, 'v) gomap \<Rightarrow> 'k list" where
  "gkeys m = map fst m"

definition gwf :: "('k, 'v) gomap \<Rightarrow> bool" where
  "gwf m = distinct (map fst m)"

text \<open>\<open>m[k]\<close> with the zero value for a missing key.\<close>

definition gget0 :: "'v \<Rightarrow> ('k, 'v) gomap \<Rightarrow> 'k \<Rightarrow> 'v" where
  "gget0 z m k = (case gget m k of None \<Rightarrow> z | Some v \<Rightarrow> v)"

text \<open>\<^verbatim>\<open>maps.Copy(dst, src)\<close>: every entry of \<open>src\<close> is assigned into \<open>dst\<close>.\<close>

definition maps_Copy :: "('k, 'v) gomap \<Rightarrow> ('k, 'v) gomap \<Rightarrow> ('k, 'v) gomap" where
  "maps_Copy dst src = fold (\<lambda>(k, v) m. gput m k v) src dst"

text \<open>\<^verbatim>\<open>maps.Equal(a, b)\<close>: same length, and every entry of \<open>a\<close> is an entry of \<open>b\<close>.\<close>

definition maps_Equal :: "('k, 'v) gomap \<Rightarrow> ('k, 'v) gomap \<Rightarrow> bool" where
  "maps_Equal a b \<longleftrightarrow> length a = length b \<and> list_all (\<lambda>(k, v). gget b k = Some v) a"

text \<open>What a client of a map relies on.\<close>

locale go_map =
  fixes get :: "'m \<Rightarrow> 'k \<Rightarrow> 'v option"
    and put :: "'m \<Rightarrow> 'k \<Rightarrow> 'v \<Rightarrow> 'm"
    and del :: "'m \<Rightarrow> 'k \<Rightarrow> 'm"
    and keys :: "'m \<Rightarrow> 'k list"
    and wf :: "'m \<Rightarrow> bool"
  assumes get_put: "get (put m k v) k' = (if k' = k then Some v else get m k')"
    and get_del: "get (del m k) k' = (if k' = k then None else get m k')"
    and wf_put: "wf m \<Longrightarrow> wf (put m k v)"
    and wf_del: "wf m \<Longrightarrow> wf (del m k)"
    and keys_iff: "k \<in> set (keys m) \<longleftrightarrow> get m k \<noteq> None"
    and keys_distinct: "wf m \<Longrightarrow> distinct (keys m)"
begin

lemma keys_put: "set (keys (put m k v)) = insert k (set (keys m))"
  by (auto simp: keys_iff get_put split: if_splits)

lemma keys_del: "set (keys (del m k)) = set (keys m) - {k}"
  by (auto simp: keys_iff get_del split: if_splits)

lemma length_keys: "wf m \<Longrightarrow> length (keys m) = card {k. get m k \<noteq> None}"
  using distinct_card [OF keys_distinct, of m] keys_iff [of _ m]
  by (metis (mono_tags, lifting) Collect_cong Collect_mem_eq)

lemma get_put_all:
  "get (fold (\<lambda>(k, v) m. put m k v) kvs m) k =
     (case map_of (rev kvs) k of None \<Rightarrow> get m k | Some v \<Rightarrow> Some v)"
  by (induction kvs arbitrary: m) (auto simp: get_put map_add_def split: option.splits)

lemma wf_put_all: "wf m \<Longrightarrow> wf (fold (\<lambda>(k, v) m. put m k v) kvs m)"
  by (induction kvs arbitrary: m) (auto simp: wf_put)

lemma get_del_all:
  "get (fold (\<lambda>k m. del m k) ks m) k = (if k \<in> set ks then None else get m k)"
  by (induction ks arbitrary: m) (auto simp: get_del)

end

interpretation gm: go_map gget gput gdel gkeys gwf
proof
  fix m :: "('k, 'v) gomap" and k k' v
  show "gget (gput m k v) k' = (if k' = k then Some v else gget m k')"
    by (simp add: gget_def gput_def update_conv)
  show "gget (gdel m k) k' = (if k' = k then None else gget m k')"
    by (simp add: gget_def gdel_def delete_conv)
  show "gwf m \<Longrightarrow> gwf (gput m k v)"
    by (simp add: gwf_def gput_def distinct_update)
  show "gwf m \<Longrightarrow> gwf (gdel m k)"
    by (simp add: gwf_def gdel_def distinct_delete)
  show "(k \<in> set (gkeys m)) = (gget m k \<noteq> None)"
    by (simp add: gkeys_def gget_def map_of_eq_None_iff)
  show "gwf m \<Longrightarrow> distinct (gkeys m)"
    by (simp add: gwf_def gkeys_def)
qed

lemmas [gomap_simps] = gm.get_put gm.get_del gm.keys_put gm.keys_del

lemma gget_Nil [simp]: "gget [] k = None"
  by (simp add: gget_def)

lemma gwf_Nil [simp]: "gwf []"
  by (simp add: gwf_def)

lemma gkeys_Nil [simp]: "gkeys [] = []"
  by (simp add: gkeys_def)

lemma gget_Some_in: "gget m k = Some v \<Longrightarrow> (k, v) \<in> set m"
  by (simp add: gget_def map_of_SomeD)

lemma gget_in: "gwf m \<Longrightarrow> (k, v) \<in> set m \<Longrightarrow> gget m k = Some v"
  by (simp add: gget_def gwf_def)

lemma gget_iff: "gwf m \<Longrightarrow> gget m k = Some v \<longleftrightarrow> (k, v) \<in> set m"
  by (meson gget_Some_in gget_in)

lemma gget0_put [gomap_simps]: "gget0 z (gput m k v) k' = (if k' = k then v else gget0 z m k')"
  by (simp add: gget0_def gm.get_put)

lemma gget0_Nil [simp]: "gget0 z [] k = z"
  by (simp add: gget0_def)

lemma gkeys_put_new: "gget m k = None \<Longrightarrow> gkeys (gput m k v) = gkeys m @ [k]"
  by (induction m) (auto simp: gget_def gput_def gkeys_def split: if_splits)

lemma gput_new: "gget m k = None \<Longrightarrow> gput m k v = m @ [(k, v)]"
  by (induction m) (auto simp: gget_def gput_def split: if_splits)

lemma gkeys_put_old: "gget m k \<noteq> None \<Longrightarrow> gkeys (gput m k v) = gkeys m"
  by (induction m) (auto simp: gget_def gput_def gkeys_def split: if_splits)

lemma gget_maps_Copy:
  "gwf src \<Longrightarrow> gget (maps_Copy dst src) k =
     (case gget src k of None \<Rightarrow> gget dst k | Some v \<Rightarrow> Some v)"
proof -
  assume "gwf src"
  then have "map_of (rev src) = map_of src"
    by (simp add: gwf_def map_of_inject_set flip: rev_map)
  then show ?thesis
    by (simp add: maps_Copy_def gm.get_put_all) (simp add: gget_def)
qed

lemma gwf_maps_Copy: "gwf dst \<Longrightarrow> gwf (maps_Copy dst src)"
  by (simp add: maps_Copy_def gm.wf_put_all)

lemma maps_Equal_iff:
  assumes "gwf a" and "gwf b"
  shows "maps_Equal a b \<longleftrightarrow> gget a = gget b"
proof
  assume eq: "maps_Equal a b"
  then have sub: "set a \<subseteq> set b"
    by (auto simp: maps_Equal_def list_all_iff dest: gget_Some_in)
  have "card (set a) = length a" "card (set b) = length b"
    using assms by (auto simp: gwf_def distinct_card distinct_map)
  with eq have "card (set a) = card (set b)"
    by (simp add: maps_Equal_def)
  with sub have "set a = set b"
    by (simp add: card_subset_eq)
  then show "gget a = gget b"
    using assms by (metis (no_types, opaque_lifting) ext gget_iff not_None_eq)
next
  assume eq: "gget a = gget b"
  then have "set a = set b"
    using assms by (metis gget_iff set_eqI surj_pair)
  moreover from this have "length a = length b"
    using assms by (metis distinct_card distinct_map gwf_def)
  ultimately show "maps_Equal a b"
    using assms eq by (auto simp: maps_Equal_def list_all_iff gget_iff)
qed

lemma gget0_in_keys: "x \<in> set (gget0 [] m k) \<Longrightarrow> k \<in> set (gkeys m)"
  by (cases "gget m k") (auto simp: gget0_def gm.keys_iff)

lemma gget0_in_Some: "x \<in> set (gget0 [] m k) \<Longrightarrow> \<exists>v. gget m k = Some v \<and> x \<in> set v"
  by (cases "gget m k") (auto simp: gget0_def)

section \<open>Sets of strings\<close>

text \<open>\<^verbatim>\<open>map[string]struct{}\<close>; its keys in list order are what a \<^verbatim>\<open>range\<close> over it visits.\<close>

type_synonym strset = "(string, unit) gomap"

definition addAll :: "strset \<Rightarrow> string list \<Rightarrow> strset" where
  "addAll s xs = fold (\<lambda>x m. gput m x ()) xs s"

lemma addAll_Cons: "addAll s (x # xs) = addAll (gput s x ()) xs"
  by (simp add: addAll_def)

lemma addAll_keys [simp]: "set (gkeys (addAll s xs)) = set (gkeys s) \<union> set xs"
  by (induction xs arbitrary: s) (auto simp: addAll_def gm.keys_put)

lemma addAll_wf [simp]: "gwf s \<Longrightarrow> gwf (addAll s xs)"
  by (induction xs arbitrary: s) (auto simp: addAll_def gm.wf_put)

section \<open>Errors and loops\<close>

text \<open>\<^verbatim>\<open>x, err := f(); if err != nil { return err }; ...\<close>\<close>

definition bindE :: "'e + 'a \<Rightarrow> ('a \<Rightarrow> 'e + 'b) \<Rightarrow> 'e + 'b" where
  "bindE r f = (case r of Inl e \<Rightarrow> Inl e | Inr x \<Rightarrow> f x)"

lemma bindE_Inr_iff: "bindE r f = Inr y \<longleftrightarrow> (\<exists>x. r = Inr x \<and> f x = Inr y)"
  by (cases r) (auto simp: bindE_def)

lemma bindE_Inr [simp]: "bindE (Inr x) f = f x"
  by (simp add: bindE_def)

lemma bindE_Inl [simp]: "bindE (Inl e) f = Inl e"
  by (simp add: bindE_def)

lemma bindE_ok: "\<exists>x. r = Inr x \<Longrightarrow> (\<And>x. \<exists>y. f x = Inr y) \<Longrightarrow> \<exists>y. bindE r f = Inr y"
  by auto

lemma Inr_ex: "\<exists>y. Inr x = Inr y"
  by simp

text \<open>A loop over a map or a slice whose body may return an error.\<close>

fun foldE :: "('x \<Rightarrow> 's \<Rightarrow> 'e + 's) \<Rightarrow> 'x list \<Rightarrow> 's \<Rightarrow> 'e + 's" where
  "foldE f [] s = Inr s"
| "foldE f (x # xs) s = bindE (f x s) (foldE f xs)"

lemma foldE_inv:
  assumes "foldE f xs s = Inr s'" and "I s"
    and "\<And>x s s'. x \<in> set xs \<Longrightarrow> I s \<Longrightarrow> f x s = Inr s' \<Longrightarrow> I s'"
  shows "I s'"
  using assms by (induction xs arbitrary: s) (auto simp: bindE_Inr_iff)

text \<open>An invariant indexed by the part of the list that has been visited.\<close>

lemma foldE_inv_done:
  assumes "foldE f xs s = Inr s'" and "I ys s"
    and "\<And>x ys s s'. I ys s \<Longrightarrow> f x s = Inr s' \<Longrightarrow> x \<in> set xs \<Longrightarrow> I (ys @ [x]) s'"
  shows "I (ys @ xs) s'"
  using assms
proof (induction xs arbitrary: s ys)
  case (Cons x xs)
  then obtain s1 where s1: "f x s = Inr s1" "foldE f xs s1 = Inr s'"
    by (auto simp: bindE_Inr_iff)
  have "I ((ys @ [x]) @ xs) s'"
    by (rule Cons.IH [OF s1(2)]) (use Cons.prems s1 in auto)
  then show ?case by simp
qed simp

lemma foldE_total:
  assumes "I s" and "\<And>x s. x \<in> set xs \<Longrightarrow> I s \<Longrightarrow> \<exists>s'. f x s = Inr s' \<and> I s'"
  shows "\<exists>s'. foldE f xs s = Inr s' \<and> I s'"
  using assms
proof (induction xs arbitrary: s)
  case (Cons x xs)
  then obtain s1 where "f x s = Inr s1" "I s1" by fastforce
  with Cons show ?case by simp
qed simp

text \<open>
  The loop of the plan builder: entries already in the target map are skipped, the body may fail
  or \<^verbatim>\<open>continue\<close> without an entry (\<open>Inr None\<close>).
\<close>

definition missing_step ::
  "('k \<Rightarrow> 's \<Rightarrow> 'e + 'c option) \<Rightarrow> 'k \<times> 's \<Rightarrow> ('k, 'c) gomap \<Rightarrow> 'e + ('k, 'c) gomap" where
  "missing_step f = (\<lambda>(k, s) m.
     if gget m k \<noteq> None then Inr m
     else bindE (f k s) (\<lambda>c. case c of None \<Rightarrow> Inr m | Some c \<Rightarrow> Inr (gput m k c)))"

definition build_missing ::
  "('k \<Rightarrow> 's \<Rightarrow> 'e + 'c option) \<Rightarrow> ('k, 's) gomap \<Rightarrow> ('k, 'c) gomap \<Rightarrow> 'e + ('k, 'c) gomap" where
  "build_missing f xs m = foldE (missing_step f) xs m"

lemma missing_step_get:
  assumes "missing_step f (k, s) m = Inr m'"
  shows "gget m' k' = (case gget m k' of
      Some c \<Rightarrow> Some c
    | None \<Rightarrow> if k' = k then projr (f k s) else None)"
proof (cases "gget m k")
  case None
  with assms obtain c where c: "f k s = Inr c"
    by (auto simp: missing_step_def bindE_Inr_iff)
  with assms None show ?thesis
    by (cases c) (auto simp: missing_step_def gm.get_put split: option.split)
qed (use assms in \<open>auto simp: missing_step_def split: option.split\<close>)

text \<open>What the loop leaves: old entries stay, new ones come from the body.\<close>

lemma build_missing_get:
  assumes "build_missing f xs m = Inr m'" and "gwf xs"
  shows "gget m' k = (case gget m k of
      Some c \<Rightarrow> Some c
    | None \<Rightarrow> Option.bind (gget xs k) (\<lambda>s. projr (f k s)))"
  using assms
proof (induction xs arbitrary: m)
  case Nil
  then show ?case by (auto simp: build_missing_def split: option.splits)
next
  case (Cons x xs)
  obtain k1 s1 where x [simp]: "x = (k1, s1)" by fastforce
  from Cons.prems obtain m1 where m1: "missing_step f (k1, s1) m = Inr m1"
    "build_missing f xs m1 = Inr m'"
    by (auto simp: build_missing_def bindE_Inr_iff)
  from Cons.prems have wf: "gwf xs" "gget xs k1 = None"
    by (auto simp: gwf_def gget_def map_of_eq_None_iff)
  show ?case
    using Cons.IH [OF m1(2) wf(1)] missing_step_get [OF m1(1), of k] wf(2)
    by (cases "k = k1") (auto simp: gget_def split: option.splits)
qed

lemma build_missing_wf: "build_missing f xs m = Inr m' \<Longrightarrow> gwf m \<Longrightarrow> gwf m'"
  unfolding build_missing_def
  by (erule foldE_inv)
    (auto simp: missing_step_def bindE_Inr_iff gm.wf_put split: if_splits option.splits)

lemma build_missing_mono: "build_missing f xs m = Inr m' \<Longrightarrow> gwf xs \<Longrightarrow> gget m k = Some c \<Longrightarrow> gget m' k = Some c"
  by (simp add: build_missing_get)

lemma build_missing_ok:
  assumes "\<And>k s. (k, s) \<in> set xs \<Longrightarrow> \<exists>c. f k s = Inr c"
  shows "\<exists>m'. build_missing f xs m = Inr m'"
  unfolding build_missing_def
proof -
  have "\<exists>s'. foldE (missing_step f) xs m = Inr s' \<and> True"
    using assms by (intro foldE_total) (fastforce simp: missing_step_def split: option.split)+
  then show "\<exists>m'. foldE (missing_step f) xs m = Inr m'" by blast
qed

lemma build_missing_no_error:
  assumes "build_missing f xs m = Inr m'" and "gwf xs" and "gget xs k = Some s" and "gget m k = None"
  shows "\<exists>c. f k s = Inr c"
  using assms
proof (induction xs arbitrary: m)
  case (Cons x xs)
  obtain k1 s1 where x [simp]: "x = (k1, s1)" by fastforce
  from Cons.prems obtain m1 where m1: "missing_step f (k1, s1) m = Inr m1"
    "build_missing f xs m1 = Inr m'"
    by (auto simp: build_missing_def bindE_Inr_iff)
  show ?case
  proof (cases "k = k1")
    case True
    with Cons.prems m1(1) show ?thesis
      by (auto simp: missing_step_def bindE_Inr_iff gget_def)
  next
    case False
    with Cons.prems missing_step_get [OF m1(1), of k] show ?thesis
      by (intro Cons.IH [OF m1(2)]) (auto simp: gget_def gwf_def)
  qed
qed simp

text \<open>
  What a map holds after the loop has run over several sources: an entry comes from one of them,
  up to later changes \<open>R\<close>, and a key without an entry was skipped by all of them.
\<close>

definition builtFrom ::
  "('c \<Rightarrow> 'c \<Rightarrow> bool) \<Rightarrow> (('k \<Rightarrow> 's \<Rightarrow> 'e + 'c option) \<times> ('k, 's) gomap) list \<Rightarrow> ('k, 'c) gomap \<Rightarrow> bool" where
  "builtFrom R srcs m \<longleftrightarrow>
     (\<forall>k. case gget m k of
        None \<Rightarrow> (\<forall>(f, xs) \<in> set srcs. \<forall>s. gget xs k = Some s \<longrightarrow> f k s = Inr None)
      | Some c \<Rightarrow> (\<exists>(f, xs) \<in> set srcs. \<exists>s c0. gget xs k = Some s \<and> f k s = Inr (Some c0) \<and> R c0 c))"

lemma builtFrom_Nil [simp]: "builtFrom R [] []"
  by (simp add: builtFrom_def)

lemma builtFrom_None:
  assumes "builtFrom R srcs m" and "gget m k = None" and "(f, xs) \<in> set srcs" and "gget xs k = Some s"
  shows "f k s = Inr None"
proof -
  have "\<forall>(f, xs) \<in> set srcs. \<forall>s. gget xs k = Some s \<longrightarrow> f k s = Inr None"
    using spec [OF assms(1) [unfolded builtFrom_def], of k] assms(2) by simp
  with assms(3,4) show ?thesis by fastforce
qed

lemma builtFrom_step:
  assumes "builtFrom R srcs m" and "build_missing f xs m = Inr m'" and "gwf xs" and "\<And>c. R c c"
  shows "builtFrom R (srcs @ [(f, xs)]) m'"
  unfolding builtFrom_def
proof
  fix k
  show "case gget m' k of
      None \<Rightarrow> \<forall>(f, xs) \<in> set (srcs @ [(f, xs)]). \<forall>s. gget xs k = Some s \<longrightarrow> f k s = Inr None
    | Some c \<Rightarrow> \<exists>(f, xs) \<in> set (srcs @ [(f, xs)]). \<exists>s c0. gget xs k = Some s \<and> f k s = Inr (Some c0) \<and> R c0 c"
  proof (cases "gget m k")
    case None
    then have get: "gget m' k = Option.bind (gget xs k) (\<lambda>s. projr (f k s))"
      using build_missing_get [OF assms(2,3), of k] by simp
    have old: "\<forall>(f, xs) \<in> set srcs. \<forall>s. gget xs k = Some s \<longrightarrow> f k s = Inr None"
      using builtFrom_None [OF assms(1) None] by blast
    show ?thesis
    proof (cases "gget xs k")
      case (Some s)
      then obtain c where "f k s = Inr c"
        using build_missing_no_error [OF assms(2,3) Some None] by blast
      with Some get old assms(4) show ?thesis by (cases c) auto
    qed (use get old in auto)
  next
    case (Some c)
    then have "gget m' k = Some c"
      by (rule build_missing_mono [OF assms(2,3)])
    with Some assms(1) show ?thesis
      by (auto simp: builtFrom_def dest!: spec [of _ k])
  qed
qed

lemma builtFrom_Some:
  assumes "builtFrom R srcs m" and "gget m k = Some c"
  obtains f xs s c0 where "(f, xs) \<in> set srcs" and "gget xs k = Some s" and "f k s = Inr (Some c0)"
    and "R c0 c"
proof -
  have "\<exists>(f, xs) \<in> set srcs. \<exists>s c0. gget xs k = Some s \<and> f k s = Inr (Some c0) \<and> R c0 c"
    using assms by (auto simp: builtFrom_def dest!: spec [of _ k])
  with that show thesis by blast
qed

section \<open>Multisets without repetition\<close>

lemma mset_once:
  assumes "\<And>t. count M t \<le> 1"
  shows "M = mset_set (set_mset M)"
proof (rule multiset_eqI)
  fix t
  show "count M t = count (mset_set (set_mset M)) t"
  proof (cases "t \<in># M")
    case True
    then have "0 < count M t" by simp
    with assms [of t] have "count M t = 1" by linarith
    with True show ?thesis by simp
  next
    case False
    then show ?thesis by (simp add: not_in_iff)
  qed
qed

lemma size_mset_once: "(\<And>t. count M t \<le> 1) \<Longrightarrow> size M = card (set_mset M)"
  by (metis mset_once size_mset_set)

end
