(* ===== verification/Go_Strings.thy ===== *)
theory Go_Strings
  imports Gnmic_Prelude
begin

text \<open>
  The parts of Go's \<^verbatim>\<open>strings\<close>, \<^verbatim>\<open>strconv\<close> and \<^verbatim>\<open>fmt\<close> packages that the operator uses, on
  byte strings, and its integer arithmetic. The round trip of the decimal printer and parser
  (\<open>ParseInt_Itoa\<close>) is what the pod names and the certificate names rest on.
\<close>

section \<open>Integers\<close>

definition go_div :: "int \<Rightarrow> int \<Rightarrow> int" where
  "go_div a b = sgn a * sgn b * (\<bar>a\<bar> div \<bar>b\<bar>)"

definition go_rem :: "int \<Rightarrow> int \<Rightarrow> int" where
  "go_rem a b = sgn a * (\<bar>a\<bar> mod \<bar>b\<bar>)"

text \<open>The value of an \<^verbatim>\<open>int32\<close> expression: two's complement wrap-around at 32 bits.\<close>

definition int32 :: "int \<Rightarrow> int" where
  "int32 x = signed_take_bit 31 x"

lemma int32_id: "- (2 ^ 31) \<le> x \<Longrightarrow> x < 2 ^ 31 \<Longrightarrow> int32 x = x"
  unfolding int32_def by (rule signed_take_bit_int_eq_self) simp_all

lemma int32_range: "- (2 ^ 31) \<le> int32 x \<and> int32 x < 2 ^ 31"
  using signed_take_bit_int_greater_eq_minus_exp [of 31 x] signed_take_bit_int_less_exp [of 31 x]
  by (simp add: int32_def)

lemma go_div_nonneg: "0 \<le> a \<Longrightarrow> 0 < b \<Longrightarrow> go_div a b = a div b"
  by (cases "a = 0") (auto simp: go_div_def)

lemma go_rem_nonneg: "0 \<le> a \<Longrightarrow> 0 < b \<Longrightarrow> go_rem a b = a mod b"
  by (cases "a = 0") (auto simp: go_rem_def)

section \<open>Prefixes, suffixes and separators\<close>

definition HasPrefix :: "string \<Rightarrow> string \<Rightarrow> bool" where
  "HasPrefix s p \<longleftrightarrow> take (length p) s = p"

definition HasSuffix :: "string \<Rightarrow> string \<Rightarrow> bool" where
  "HasSuffix s p \<longleftrightarrow> length p \<le> length s \<and> drop (length s - length p) s = p"

definition TrimPrefix :: "string \<Rightarrow> string \<Rightarrow> string" where
  "TrimPrefix s p = (if HasPrefix s p then drop (length p) s else s)"

definition TrimSuffix :: "string \<Rightarrow> string \<Rightarrow> string" where
  "TrimSuffix s p = (if HasSuffix s p then take (length s - length p) s else s)"

text \<open>\<^verbatim>\<open>strings.SplitN(s, sep, 2)\<close> for a one-byte separator.\<close>

fun SplitN2 :: "string \<Rightarrow> char \<Rightarrow> string list" where
  "SplitN2 s sep =
     (case dropWhile (\<lambda>c. c \<noteq> sep) s of
        [] \<Rightarrow> [s]
      | _ # rest \<Rightarrow> [takeWhile (\<lambda>c. c \<noteq> sep) s, rest])"

text \<open>\<^verbatim>\<open>strings.Join(xs, sep)\<close>.\<close>

fun Join :: "string list \<Rightarrow> string \<Rightarrow> string" where
  "Join [] sep = []"
| "Join [x] sep = x"
| "Join (x # y # ys) sep = x @ sep @ Join (y # ys) sep"

lemma TrimPrefix_append [simp, string_simps]: "TrimPrefix (p @ s) p = s"
  by (simp add: TrimPrefix_def HasPrefix_def)

lemma TrimSuffix_append [simp, string_simps]: "TrimSuffix (s @ p) p = s"
  by (simp add: TrimSuffix_def HasSuffix_def)

lemma HasPrefix_append [simp, string_simps]: "HasPrefix (p @ s) p"
  by (simp add: HasPrefix_def)

lemma HasPrefix_iff: "HasPrefix s p \<longleftrightarrow> (\<exists>r. s = p @ r)"
  by (metis HasPrefix_append HasPrefix_def append_take_drop_id)

lemma SplitN2_append [string_simps]:
  "sep \<notin> set a \<Longrightarrow> SplitN2 (a @ sep # b) sep = [a, b]"
proof -
  assume "sep \<notin> set a"
  then have "dropWhile (\<lambda>c. c \<noteq> sep) (a @ sep # b) = sep # b"
    and "takeWhile (\<lambda>c. c \<noteq> sep) (a @ sep # b) = a"
    by (induction a) auto
  then show ?thesis by simp
qed

lemma SplitN2_none [string_simps]: "sep \<notin> set s \<Longrightarrow> SplitN2 s sep = [s]"
proof -
  assume "sep \<notin> set s"
  then have "dropWhile (\<lambda>c. c \<noteq> sep) s = []"
    by (auto simp: dropWhile_eq_Nil_conv)
  then show ?thesis by (simp del: dropWhile_eq_Nil_conv)
qed

declare SplitN2.simps [simp del]

section \<open>Decimal printing and parsing\<close>

definition digit_char :: "nat \<Rightarrow> char" where
  "digit_char d = char_of (48 + d)"

definition digit_val :: "char \<Rightarrow> nat option" where
  "digit_val c = (let n = of_char c :: nat in if 48 \<le> n \<and> n \<le> 57 then Some (n - 48) else None)"

fun nat_dec :: "nat \<Rightarrow> string" where
  "nat_dec n = (if n < 10 then [digit_char n] else nat_dec (n div 10) @ [digit_char (n mod 10)])"

declare nat_dec.simps [simp del]

text \<open>\<^verbatim>\<open>strconv.Itoa\<close> and \<^verbatim>\<open>%d\<close>.\<close>

definition Itoa :: "int \<Rightarrow> string" where
  "Itoa i = (if i < 0 then CHR ''-'' # nat_dec (nat (- i)) else nat_dec (nat i))"

fun parse_digits :: "nat \<Rightarrow> string \<Rightarrow> nat option" where
  "parse_digits acc [] = Some acc"
| "parse_digits acc (c # cs) =
     (case digit_val c of None \<Rightarrow> None | Some d \<Rightarrow> parse_digits (acc * 10 + d) cs)"

text \<open>
  \<^verbatim>\<open>strconv.ParseInt(s, 10, bits)\<close>: an optional sign, at least one digit, no other byte, and a
  value in the range of a signed integer of that width. \<^verbatim>\<open>strconv.Atoi\<close> is the 64-bit case.
\<close>

definition ParseInt :: "string \<Rightarrow> nat \<Rightarrow> int option" where
  "ParseInt s bits =
     (let neg = (case s of [] \<Rightarrow> False | c # _ \<Rightarrow> c = CHR ''-'');
          body = (case s of [] \<Rightarrow> [] | c # cs \<Rightarrow> if c = CHR ''-'' \<or> c = CHR ''+'' then cs else s)
      in if body = [] then None
         else case parse_digits 0 body of
                None \<Rightarrow> None
              | Some n \<Rightarrow>
                  if neg then (if n \<le> 2 ^ (bits - 1) then Some (- int n) else None)
                  else if n < 2 ^ (bits - 1) then Some (int n) else None)"

definition Atoi :: "string \<Rightarrow> int option" where
  "Atoi s = ParseInt s 64"

lemma digit_val_char [simp]: "d < 10 \<Longrightarrow> digit_val (digit_char d) = Some d"
  by (simp add: digit_val_def digit_char_def Let_def)

lemma parse_digits_append:
  "parse_digits acc (xs @ ys) =
     (case parse_digits acc xs of None \<Rightarrow> None | Some n \<Rightarrow> parse_digits n ys)"
  by (induction acc xs rule: parse_digits.induct) (auto split: option.splits)

lemma parse_digits_nat_dec: "parse_digits 0 (nat_dec n) = Some n"
proof (induction n rule: nat_dec.induct)
  case (1 n)
  show ?case
  proof (cases "n < 10")
    case True
    then show ?thesis by (simp add: nat_dec.simps [of n])
  next
    case False
    with 1 have "parse_digits 0 (nat_dec (n div 10)) = Some (n div 10)" by simp
    with False show ?thesis
      by (simp add: nat_dec.simps [of n] parse_digits_append)
  qed
qed

lemma nat_dec_digits: "c \<in> set (nat_dec n) \<Longrightarrow> digit_val c \<noteq> None"
proof (induction n rule: nat_dec.induct)
  case (1 n)
  show ?case
  proof (cases "n < 10")
    case True
    with "1.prems" have "c = digit_char n" by (simp add: nat_dec.simps [of n])
    with True show ?thesis by simp
  next
    case False
    with "1.prems" have "c \<in> set (nat_dec (n div 10)) \<or> c = digit_char (n mod 10)"
      by (auto simp: nat_dec.simps [of n])
    with "1.IH" False show ?thesis by auto
  qed
qed

lemma nat_dec_not_Nil [simp]: "nat_dec n \<noteq> []"
  by (subst nat_dec.simps) simp

lemma digit_val_sign [simp]:
  "digit_val (CHR ''-'') = None" "digit_val (CHR ''+'') = None" "digit_val (CHR ''/'') = None"
  "digit_val (CHR '':'') = None" "digit_val (CHR ''.'') = None"
  by (simp_all add: digit_val_def)

lemma nat_dec_no_sep [simp]:
  "CHR ''-'' \<notin> set (nat_dec n)" "CHR ''+'' \<notin> set (nat_dec n)" "CHR ''/'' \<notin> set (nat_dec n)"
  "CHR '':'' \<notin> set (nat_dec n)" "CHR ''.'' \<notin> set (nat_dec n)"
  using nat_dec_digits [of _ n] digit_val_sign by fastforce+

lemma ParseInt_nat_dec: "n < 2 ^ (bits - 1) \<Longrightarrow> ParseInt (nat_dec n) bits = Some (int n)"
proof -
  assume n: "n < 2 ^ (bits - 1)"
  obtain c cs where dec: "nat_dec n = c # cs"
    by (cases "nat_dec n") auto
  then have "c \<noteq> CHR ''-''" "c \<noteq> CHR ''+''"
    using nat_dec_no_sep [of n] by (metis list.set_intros(1))+
  with n show ?thesis
    using parse_digits_nat_dec [of n] by (simp add: ParseInt_def dec)
qed

lemma ParseInt_Itoa:
  assumes "- (2 ^ (bits - 1)) \<le> i" and "i < 2 ^ (bits - 1)"
  shows "ParseInt (Itoa i) bits = Some i"
proof (cases "i < 0")
  case True
  then have "nat (- i) \<le> 2 ^ (bits - 1)"
    using assms(1) by (simp add: nat_le_iff)
  with True show ?thesis
    by (simp add: ParseInt_def Itoa_def parse_digits_nat_dec)
next
  case False
  then have "nat i < 2 ^ (bits - 1)"
    using assms(2) by (simp add: nat_less_iff)
  from ParseInt_nat_dec [OF this] False show ?thesis
    by (simp add: Itoa_def)
qed

lemma Atoi_Itoa: "- (2 ^ 63) \<le> i \<Longrightarrow> i < 2 ^ 63 \<Longrightarrow> Atoi (Itoa i) = Some i"
  using ParseInt_Itoa [of 64 i] by (simp add: Atoi_def)

lemma ParseInt_range:
  assumes "ParseInt s bits = Some i"
  shows "- (2 ^ (bits - 1)) \<le> i \<and> i < 2 ^ (bits - 1)"
proof -
  have pos: "(0 :: int) < 2 ^ (bits - 1)" by simp
  from assms obtain n :: nat where
    "(i = - int n \<and> n \<le> 2 ^ (bits - 1)) \<or> (i = int n \<and> n < 2 ^ (bits - 1))"
    by (auto simp: ParseInt_def Let_def split: if_splits option.splits list.splits)
  then show ?thesis
  proof
    assume "i = - int n \<and> n \<le> 2 ^ (bits - 1)"
    then have "int n \<le> 2 ^ (bits - 1)"
      by (metis of_nat_le_numeral_power_cancel_iff)
    with \<open>i = - int n \<and> _\<close> pos show ?thesis by linarith
  next
    assume "i = int n \<and> n < 2 ^ (bits - 1)"
    then have "int n < 2 ^ (bits - 1)"
      by (metis of_nat_less_numeral_power_cancel_iff)
    with \<open>i = int n \<and> _\<close> pos show ?thesis by linarith
  qed
qed

lemma Itoa_not_Nil [simp]: "Itoa i \<noteq> []"
  by (simp add: Itoa_def)

lemma Itoa_no_slash [simp]: "CHR ''/'' \<notin> set (Itoa i)"
  by (auto simp: Itoa_def)

lemma Itoa_inj: "Itoa i = Itoa j \<Longrightarrow> i = j"
proof -
  have inv: "nat_dec a = nat_dec b \<Longrightarrow> a = b" for a b
    by (metis option.inject parse_digits_nat_dec)
  have "nat_dec a \<noteq> CHR ''-'' # nat_dec b" for a b
    using nat_dec_no_sep(1) [of a] by (metis list.set_intros(1))
  then show "Itoa i = Itoa j \<Longrightarrow> i = j"
    by (auto simp: Itoa_def split: if_splits dest!: inv)
      (metis list.set_intros(1) nat_dec_no_sep(1))
qed

end
