(* ===== verification/Api_Types.thy ===== *)
theory Api_Types
  imports Go_Strings
begin

text \<open>
  The custom resources of \<^verbatim>\<open>api/v1alpha1\<close> as records, field by field, with a prefix per type so
  that the selectors do not clash. A pointer field is an option; a \<^verbatim>\<open>metav1.Duration\<close> is its number
  of nanoseconds; a \<^verbatim>\<open>metav1.Time\<close> is the number of nanoseconds after the zero time, so that
  \<^verbatim>\<open>IsZero\<close> is \<open>= 0\<close>; an \<^verbatim>\<open>apiextensionsv1.JSON\<close> is its \<^verbatim>\<open>Raw\<close> bytes, \<open>None\<close> for nil. Of
  \<^verbatim>\<open>metav1.ObjectMeta\<close> the fields the operator reads are kept.
\<close>

type_synonym labels = "(string, string) gomap"
type_synonym duration = int
type_synonym time = int

text \<open>The errors of the Kubernetes API that the operator tells apart.\<close>

datatype api_error = NotFound | Conflict | ApiError string

definition second :: duration where
  "second = 1000000000"

record object_meta =
  m_Name :: string
  m_Namespace :: string
  m_Labels :: labels
  m_Generation :: int
  m_ResourceVersion :: string
  m_Finalizers :: "string list"
  m_Deleting :: bool \<comment> \<open>\<^verbatim>\<open>!DeletionTimestamp.IsZero()\<close>\<close>

record label_selector =
  ls_MatchLabels :: labels
  ls_MatchExpressions :: "(string \<times> string \<times> string list) list"

section \<open>Cluster\<close>

record cluster_tls =
  ct_IssuerRef :: string
  ct_BundleRef :: string
  ct_UseCSIDriver :: bool

record service_config =
  sc_Type :: string
  sc_Annotations :: labels
  sc_Labels :: labels

record api_config =
  api_RestPort :: int
  api_GNMIPort :: int
  api_TLS :: "cluster_tls option"

record grpc_tunnel =
  gt_Port :: int
  gt_TLS :: "cluster_tls option"
  gt_Service :: "service_config option"

record target_distribution =
  td_PodCapacity :: int

text \<open>Of a container's resources the quantities by name, each as its value in the smallest unit.\<close>

record resource_requirements =
  rr_Requests :: "(string, int) gomap"
  rr_Limits :: "(string, int) gomap"

text \<open>An environment variable: a value, or a source such as a field of the pod.\<close>

datatype env_source = FieldRef string | OtherSource string

record env_var =
  ev_Name :: string
  ev_Value :: string
  ev_ValueFrom :: "env_source option"

record cluster_spec =
  cs_Image :: string
  cs_Replicas :: "int option"
  cs_API :: "api_config option"
  cs_ClientTLS :: "cluster_tls option"
  cs_GRPCTunnel :: "grpc_tunnel option"
  cs_Resources :: resource_requirements
  cs_Env :: "env_var list"
  cs_TargetDistribution :: "target_distribution option"

record condition =
  co_Type :: string
  co_Status :: string
  co_ObservedGeneration :: int
  co_LastTransitionTime :: time
  co_Reason :: string
  co_Message :: string

record cluster_status =
  cst_Conditions :: "condition list"
  cst_ReadyReplicas :: int
  cst_Selector :: string
  cst_PipelinesCount :: int
  cst_TargetsCount :: int
  cst_UnassignedTargets :: int
  cst_SubscriptionsCount :: int
  cst_InputsCount :: int
  cst_OutputsCount :: int

record cluster =
  cl_Meta :: object_meta
  cl_Spec :: cluster_spec
  cl_Status :: cluster_status

section \<open>Pipeline\<close>

record output_selector =
  os_OutputSelectors :: "label_selector list"
  os_OutputRefs :: "string list"
  os_ProcessorSelectors :: "label_selector list"
  os_ProcessorRefs :: "string list"

record input_selector =
  is_InputSelectors :: "label_selector list"
  is_InputRefs :: "string list"
  is_ProcessorSelectors :: "label_selector list"
  is_ProcessorRefs :: "string list"

record pipeline_spec =
  ps_ClusterRef :: string
  ps_Enabled :: bool
  ps_TargetSelectors :: "label_selector list"
  ps_TargetRefs :: "string list"
  ps_TunnelTargetPolicySelectors :: "label_selector list"
  ps_TunnelTargetPolicyRefs :: "string list"
  ps_SubscriptionSelectors :: "label_selector list"
  ps_SubscriptionRefs :: "string list"
  ps_Outputs :: output_selector
  ps_Inputs :: input_selector
  ps_Labels :: labels

record pipeline_status =
  pst_Status :: string
  pst_TargetsCount :: int
  pst_SubscriptionsCount :: int
  pst_InputsCount :: int
  pst_OutputsCount :: int
  pst_TunnelTargetPoliciesCount :: int
  pst_Conditions :: "condition list"

record pipeline =
  pl_Meta :: object_meta
  pl_Spec :: pipeline_spec
  pl_Status :: pipeline_status

section \<open>Target and TargetProfile\<close>

record target_spec =
  ts_Address :: string
  ts_Profile :: string

record cluster_target_state =
  cts_Pod :: string
  cts_State :: string
  cts_FailedReason :: string
  cts_ConnectionState :: string
  cts_Subscriptions :: "(string, string) gomap"
  cts_LastUpdated :: time

text \<open>\<open>None\<close> is the nil map of \<^verbatim>\<open>ClusterStates\<close>, which some loops test for.\<close>

record target_status =
  tst_Clusters :: int
  tst_State :: string
  tst_ClusterStates :: "(string, cluster_target_state) gomap option"

record target =
  t_Meta :: object_meta
  t_Spec :: target_spec
  t_Status :: target_status

record target_tls =
  tt_ServerName :: string
  tt_MaxVersion :: string
  tt_MinVersion :: string
  tt_CipherSuites :: "string list"

record grpc_keepalive =
  gk_Time :: duration
  gk_Timeout :: duration
  gk_PermitWithoutStream :: bool

record target_profile_spec =
  tp_CredentialsRef :: string
  tp_TLS :: "target_tls option"
  tp_Timeout :: duration
  tp_RetryTimer :: duration
  tp_Encoding :: string
  tp_Labels :: labels
  tp_Proxy :: string
  tp_GzipCompression :: bool
  tp_TCPKeepAlive :: "duration option"
  tp_GRCPKeepAlive :: "grpc_keepalive option"

section \<open>Subscription, Output, Input, Processor, TunnelTargetPolicy\<close>

record history_config =
  hc_Snapshot :: time
  hc_Start :: time
  hc_End :: time

record subscription_spec =
  ss_Prefix :: string
  ss_Target :: string
  ss_Paths :: "string list"
  ss_Mode :: string
  ss_SampleInterval :: duration
  ss_HeartbeatInterval :: duration
  ss_UpdatesOnly :: bool
  ss_StreamSubscriptions :: "string list"
  ss_Depth :: int
  ss_Encoding :: string
  ss_Qos :: "int option"
  ss_SuppressRedundant :: bool
  ss_History :: "history_config option"

record service_reference =
  sr_Name :: string
  sr_Namespace :: string
  sr_Port :: string
  sr_URL :: string

record service_selector =
  sel_MatchLabels :: labels
  sel_Namespace :: string
  sel_Port :: string
  sel_URL :: string

record output_spec =
  o_Type :: string
  o_Config :: "string option"
  o_Service :: "service_config option"
  o_ServiceRef :: "service_reference option"
  o_ServiceSelector :: "service_selector option"

record input_spec =
  i_Type :: string
  i_Config :: "string option"

record processor_spec =
  pr_Type :: string
  pr_Config :: "string option"

record tunnel_match =
  tm_Type :: string
  tm_ID :: string

record tunnel_policy_spec =
  tpol_Match :: "tunnel_match option"
  tpol_Profile :: string

section \<open>The targets of a cluster as a store\<close>

text \<open>The Target resources by namespace and name, the abstraction of what an API server holds.\<close>

type_synonym store = "string \<times> string \<Rightarrow> target option"

definition keyOf :: "target \<Rightarrow> string \<times> string" where
  "keyOf t = (m_Namespace (t_Meta t), m_Name (t_Meta t))"

definition namedStore :: "store \<Rightarrow> bool" where
  "namedStore A \<longleftrightarrow> (\<forall>ns n t. A (ns, n) = Some t \<longrightarrow> m_Namespace (t_Meta t) = ns \<and> m_Name (t_Meta t) = n)"

lemma namedStore_key: "namedStore A \<Longrightarrow> A k = Some t \<Longrightarrow> keyOf t = k"
  by (cases k) (auto simp: namedStore_def keyOf_def)

text \<open>A store in memory: the first resource of a list with the namespace and the name.\<close>

definition isObject :: "string \<Rightarrow> string \<Rightarrow> target \<Rightarrow> bool" where
  "isObject ns n t \<longleftrightarrow> m_Namespace (t_Meta t) = ns \<and> m_Name (t_Meta t) = n"

definition memStore :: "target list \<Rightarrow> store" where
  "memStore w = (\<lambda>(ns, n). find (isObject ns n) w)"

lemma memStore_Some: "memStore w (ns, n) = Some t \<Longrightarrow> t \<in> set w \<and> isObject ns n t"
  by (auto simp: memStore_def find_Some_iff)

lemma memStore_filter:
  "memStore (filter (\<lambda>t. \<not> isObject ns n t) w) = (memStore w)((ns, n) := None)"
proof (rule ext, clarify)
  fix s k
  show "memStore (filter (\<lambda>t. \<not> isObject ns n t) w) (s, k) = ((memStore w)((ns, n) := None)) (s, k)"
    by (induction w) (auto simp: memStore_def isObject_def)
qed

lemma memStore_Cons: "memStore (t # w) = (memStore w)((m_Namespace (t_Meta t), m_Name (t_Meta t)) := Some t)"
proof (rule ext, clarify)
  fix a b
  show "memStore (t # w) (a, b) = ((memStore w)((m_Namespace (t_Meta t), m_Name (t_Meta t)) := Some t)) (a, b)"
    by (cases "isObject a b t") (auto simp: memStore_def isObject_def)
qed

lemma memStore_key: "memStore w (ns, n) = Some t \<Longrightarrow> memStore w (ns, m_Name (t_Meta t)) = Some t \<and> t \<in> set w"
  using memStore_Some [of w ns n t] by (simp add: isObject_def)

lemma memStore_named [simp]: "namedStore (memStore w)"
  by (auto simp: namedStore_def isObject_def dest: memStore_Some)

end
