(* ===== verification/Naming.thy ===== *)
theory Naming
  imports Go_Strings
begin

text \<open>
  The names the operator composes and takes apart again: namespaced names
  (\<^verbatim>\<open>internal/utils/utils.go\<close>), pod identities (\<^verbatim>\<open>internal/gnmic/plan.go\<close>), stream keys and
  reported target names (\<^verbatim>\<open>internal/controller/targetstate_controller.go\<close>) and certificate names
  (\<^verbatim>\<open>internal/controller/cluster_controller.go\<close>). The lemmas are round trips and the
  non-confusion of names of different objects.
\<close>

definition Delimiter :: string where
  "Delimiter = ''/''"

definition resourcePrefix :: string where
  "resourcePrefix = ''gnmic-''"

section \<open>Namespaced names\<close>

definition SplitNN :: "string \<Rightarrow> string \<times> string" where
  "SplitNN nn = (case SplitN2 nn (CHR ''/'') of [a, b] \<Rightarrow> (a, b) | _ \<Rightarrow> ([], nn))"

definition nsname :: "string \<Rightarrow> string \<Rightarrow> string" where
  "nsname ns name = ns @ Delimiter @ name"

definition parseTargetName :: "string \<Rightarrow> (string \<times> string) option" where
  "parseTargetName name = (case SplitN2 name (CHR ''/'') of [a, b] \<Rightarrow> Some (a, b) | _ \<Rightarrow> None)"

definition streamKey :: "string \<Rightarrow> string \<Rightarrow> int \<Rightarrow> string" where
  "streamKey namespace clusterName podIndex =
     namespace @ ''/'' @ clusterName @ ''/'' @ Itoa podIndex"

text \<open>The prefix \<^verbatim>\<open>stopStreamsForCluster\<close> matches stream keys with.\<close>

definition streamPrefix :: "string \<Rightarrow> string \<Rightarrow> string" where
  "streamPrefix namespace clusterName = namespace @ ''/'' @ clusterName @ ''/''"

section \<open>Pod and certificate names\<close>

definition statefulSetName :: "string \<Rightarrow> string" where
  "statefulSetName clusterName = resourcePrefix @ clusterName"

definition podNameOf :: "string \<Rightarrow> int \<Rightarrow> string" where
  "podNameOf stsName i = stsName @ ''-'' @ Itoa i"

text \<open>
  The loop over \<^verbatim>\<open>podID\<close> from its end to the last dash, then \<^verbatim>\<open>strconv.Atoi\<close>: no dash leaves the
  empty suffix, which does not parse.
\<close>

definition lastDashSuffix :: "string \<Rightarrow> string" where
  "lastDashSuffix podID =
     (if CHR ''-'' \<in> set podID then rev (takeWhile (\<lambda>c. c \<noteq> CHR ''-'') (rev podID)) else [])"

definition podIndexOfID :: "string \<Rightarrow> int option" where
  "podIndexOfID podID = (if podID = [] then None else Atoi (lastDashSuffix podID))"

definition apiCertName :: "string \<Rightarrow> string" where
  "apiCertName podName = podName @ ''-tls''"

definition tunnelCertName :: "string \<Rightarrow> string" where
  "tunnelCertName podName = podName @ ''-tunnel-tls''"

definition clientCertName :: "string \<Rightarrow> string" where
  "clientCertName clusterName = resourcePrefix @ clusterName @ ''-client-tls''"

definition extractOrdinalFromCertName :: "string \<Rightarrow> string \<Rightarrow> int" where
  "extractOrdinalFromCertName certName stsName =
     (let suffix = TrimSuffix (TrimPrefix certName (stsName @ ''-'')) ''-tls''
      in case Atoi suffix of None \<Rightarrow> - 1 | Some ordinal \<Rightarrow> ordinal)"

definition extractOrdinalFromTunnelCertName :: "string \<Rightarrow> string \<Rightarrow> int" where
  "extractOrdinalFromTunnelCertName certName stsName =
     (let suffix = TrimSuffix (TrimPrefix certName (stsName @ ''-'')) ''-tunnel-tls''
      in case Atoi suffix of None \<Rightarrow> - 1 | Some ordinal \<Rightarrow> ordinal)"

section \<open>Round trips and non-confusion\<close>

lemma SplitNN_nsname [simp]: "CHR ''/'' \<notin> set ns \<Longrightarrow> SplitNN (nsname ns name) = (ns, name)"
  by (simp add: SplitNN_def nsname_def Delimiter_def SplitN2_append)

lemma parseTargetName_nsname:
  "CHR ''/'' \<notin> set ns \<Longrightarrow> parseTargetName (nsname ns name) = Some (ns, name)"
  by (simp add: parseTargetName_def nsname_def Delimiter_def SplitN2_append)

lemma SplitN2_parts: "SplitN2 s sep = [a, b] \<longleftrightarrow> s = a @ sep # b \<and> sep \<notin> set a"
proof
  assume eq: "SplitN2 s sep = [a, b]"
  then obtain r where drop: "dropWhile (\<lambda>c. c \<noteq> sep) s = r # b"
    and take: "takeWhile (\<lambda>c. c \<noteq> sep) s = a"
    by (auto simp: SplitN2.simps split: list.splits)
  have "r = sep"
    using hd_dropWhile [of "\<lambda>c. c \<noteq> sep" s] drop by simp
  moreover have "s = takeWhile (\<lambda>c. c \<noteq> sep) s @ dropWhile (\<lambda>c. c \<noteq> sep) s"
    by (rule takeWhile_dropWhile_id [symmetric])
  moreover have "sep \<notin> set (takeWhile (\<lambda>c. c \<noteq> sep) s)"
    by (auto dest: set_takeWhileD)
  ultimately show "s = a @ sep # b \<and> sep \<notin> set a"
    using drop take by simp
qed (simp add: SplitN2_append)

lemma parseTargetName_Some:
  "parseTargetName s = Some (ns, name) \<longleftrightarrow> s = nsname ns name \<and> CHR ''/'' \<notin> set ns"
  using SplitN2_parts [of s "CHR ''/''" ns name]
  by (auto simp: parseTargetName_def nsname_def Delimiter_def split: list.splits)

lemma nsname_inj:
  "CHR ''/'' \<notin> set a \<Longrightarrow> CHR ''/'' \<notin> set b \<Longrightarrow> nsname a x = nsname b y \<longleftrightarrow> a = b \<and> x = y"
  by (metis SplitNN_nsname prod.inject)

lemma streamKey_prefix: "streamKey ns c i = streamPrefix ns c @ Itoa i"
  by (simp add: streamKey_def streamPrefix_def)

lemma streamKey_other_cluster:
  assumes "CHR ''/'' \<notin> set ns" "CHR ''/'' \<notin> set c" "CHR ''/'' \<notin> set ns'" "CHR ''/'' \<notin> set c'"
  shows "HasPrefix (streamKey ns c i) (streamPrefix ns' c') \<longleftrightarrow> ns = ns' \<and> c = c'"
proof
  assume "HasPrefix (streamKey ns c i) (streamPrefix ns' c')"
  then obtain r where "nsname ns (nsname c (Itoa i)) = nsname ns' (nsname c' r)"
    by (auto simp: HasPrefix_iff streamKey_def streamPrefix_def nsname_def Delimiter_def)
  with assms show "ns = ns' \<and> c = c'"
    by (simp add: nsname_inj)
qed (simp add: streamKey_prefix)

lemma streamKey_inj:
  assumes "CHR ''/'' \<notin> set ns" "CHR ''/'' \<notin> set c" "CHR ''/'' \<notin> set ns'" "CHR ''/'' \<notin> set c'"
  shows "streamKey ns c i = streamKey ns' c' j \<longleftrightarrow> ns = ns' \<and> c = c' \<and> i = j"
proof
  assume eq: "streamKey ns c i = streamKey ns' c' j"
  then have "nsname ns (nsname c (Itoa i)) = nsname ns' (nsname c' (Itoa j))"
    by (simp add: streamKey_def nsname_def Delimiter_def)
  with assms show "ns = ns' \<and> c = c' \<and> i = j"
    by (auto simp: nsname_inj dest: Itoa_inj)
qed simp

lemma lastDashSuffix_append:
  "CHR ''-'' \<notin> set t \<Longrightarrow> lastDashSuffix (s @ CHR ''-'' # t) = t"
proof -
  assume "CHR ''-'' \<notin> set t"
  then have "takeWhile (\<lambda>c. c \<noteq> CHR ''-'') (rev t @ CHR ''-'' # rev s) = rev t"
    by (subst takeWhile_append2) auto
  then show ?thesis
    by (simp add: lastDashSuffix_def)
qed

lemma podIndexOfID_podNameOf:
  assumes "0 \<le> i" and "i < 2 ^ 63"
  shows "podIndexOfID (podNameOf sts i) = Some i"
proof -
  have "CHR ''-'' \<notin> set (Itoa i)"
    using assms by (simp add: Itoa_def)
  then have "lastDashSuffix (podNameOf sts i) = Itoa i"
    by (simp add: podNameOf_def lastDashSuffix_append)
  moreover have "Atoi (Itoa i) = Some i"
    using assms by (simp add: Atoi_Itoa)
  ultimately show ?thesis
    by (simp add: podIndexOfID_def podNameOf_def)
qed

lemma ordinal_of_apiCertName:
  assumes "0 \<le> i" and "i < 2 ^ 63"
  shows "extractOrdinalFromCertName (apiCertName (podNameOf sts i)) sts = i"
proof -
  have "apiCertName (podNameOf sts i) = (sts @ ''-'') @ (Itoa i @ ''-tls'')"
    by (simp add: apiCertName_def podNameOf_def)
  then have "TrimSuffix (TrimPrefix (apiCertName (podNameOf sts i)) (sts @ ''-'')) ''-tls'' = Itoa i"
    by (simp only: TrimPrefix_append TrimSuffix_append)
  with assms show ?thesis
    by (simp add: extractOrdinalFromCertName_def Atoi_Itoa)
qed

lemma ordinal_of_tunnelCertName:
  assumes "0 \<le> i" and "i < 2 ^ 63"
  shows "extractOrdinalFromTunnelCertName (tunnelCertName (podNameOf sts i)) sts = i"
proof -
  have "tunnelCertName (podNameOf sts i) = (sts @ ''-'') @ (Itoa i @ ''-tunnel-tls'')"
    by (simp add: tunnelCertName_def podNameOf_def)
  then have
    "TrimSuffix (TrimPrefix (tunnelCertName (podNameOf sts i)) (sts @ ''-'')) ''-tunnel-tls'' = Itoa i"
    by (simp only: TrimPrefix_append TrimSuffix_append)
  with assms show ?thesis
    by (simp add: extractOrdinalFromTunnelCertName_def Atoi_Itoa)
qed

lemma parse_digits_non_digit:
  "c \<in> set s \<Longrightarrow> digit_val c = None \<Longrightarrow> parse_digits acc s = None"
  by (induction acc s rule: parse_digits.induct) (auto split: option.splits)

lemma ParseInt_non_digit:
  assumes "c \<in> set (tl s)" and "digit_val c = None"
  shows "ParseInt s bits = None"
proof (cases s)
  case (Cons x xs)
  with assms have "parse_digits 0 xs = None" "parse_digits 0 s = None"
    by (auto intro!: parse_digits_non_digit [of c] simp del: parse_digits.simps)
  with Cons show ?thesis
    by (simp add: ParseInt_def Let_def)
qed (simp add: ParseInt_def)

text \<open>
  A tunnel certificate of the same cluster carries the cluster label too, so the scale-down loop
  of the API certificates sees it: its name has no ordinal there.
\<close>

lemma ordinal_of_tunnelCert_as_apiCert:
  "extractOrdinalFromCertName (tunnelCertName (podNameOf sts i)) sts = - 1"
proof -
  have "tunnelCertName (podNameOf sts i) = (sts @ ''-'') @ ((Itoa i @ ''-tunnel'') @ ''-tls'')"
    by (simp add: tunnelCertName_def podNameOf_def)
  then have
    trim: "TrimSuffix (TrimPrefix (tunnelCertName (podNameOf sts i)) (sts @ ''-'')) ''-tls''
             = Itoa i @ ''-tunnel''"
    by (simp only: TrimPrefix_append TrimSuffix_append)
  have "CHR ''t'' \<in> set (tl (Itoa i @ ''-tunnel''))"
    by (cases "Itoa i") auto
  then have "Atoi (Itoa i @ ''-tunnel'') = None"
    unfolding Atoi_def by (rule ParseInt_non_digit) (simp add: digit_val_def)
  with trim show ?thesis
    by (simp add: extractOrdinalFromCertName_def)
qed

lemma ordinal_of_clientCert_as_apiCert:
  "extractOrdinalFromCertName (clientCertName c) (statefulSetName c) = - 1"
proof -
  have "clientCertName c = (statefulSetName c @ ''-'') @ (''client'' @ ''-tls'')"
    by (simp add: clientCertName_def statefulSetName_def)
  then have
    trim: "TrimSuffix (TrimPrefix (clientCertName c) (statefulSetName c @ ''-'')) ''-tls'' = ''client''"
    by (simp only: TrimPrefix_append TrimSuffix_append)
  have "Atoi ''client'' = None"
    unfolding Atoi_def by (rule ParseInt_non_digit [of "CHR ''l''"]) (simp_all add: digit_val_def)
  with trim show ?thesis
    by (simp add: extractOrdinalFromCertName_def)
qed

lemma Itoa_no_t: "CHR ''t'' \<notin> set (Itoa i)"
proof -
  have "digit_val (CHR ''t'') = None" by (simp add: digit_val_def)
  then have "CHR ''t'' \<notin> set (nat_dec m)" for m
    using nat_dec_digits [of "CHR ''t''" m] by auto
  then show ?thesis by (simp add: Itoa_def)
qed

text \<open>The tunnel loop finds no ordinal in the name of an API certificate either.\<close>

lemma ordinal_of_apiCert_as_tunnelCert:
  "extractOrdinalFromTunnelCertName (apiCertName (podNameOf sts i)) sts = - 1"
proof -
  have "apiCertName (podNameOf sts i) = (sts @ ''-'') @ (Itoa i @ ''-tls'')"
    by (simp add: apiCertName_def podNameOf_def)
  then have pre: "TrimPrefix (apiCertName (podNameOf sts i)) (sts @ ''-'') = Itoa i @ ''-tls''"
    by (simp only: TrimPrefix_append)
  have t: "CHR ''t'' \<in> set (tl (Itoa i @ ''-tls''))"
    by (cases "Itoa i") auto
  have "\<not> HasSuffix (Itoa i @ ''-tls'') ''-tunnel-tls''"
  proof
    assume "HasSuffix (Itoa i @ ''-tls'') ''-tunnel-tls''"
    then obtain p where "Itoa i @ ''-tls'' = p @ ''-tunnel-tls''"
      unfolding HasSuffix_def by (metis append_take_drop_id)
    then have "(Itoa i) @ ''-tls'' = (p @ ''-tunnel'') @ ''-tls''" by simp
    then have "Itoa i = p @ ''-tunnel''" by (simp only: append_same_eq)
    then have "CHR ''t'' \<in> set (Itoa i)" by simp
    with Itoa_no_t show False by blast
  qed
  then have "TrimSuffix (Itoa i @ ''-tls'') ''-tunnel-tls'' = Itoa i @ ''-tls''"
    by (simp add: TrimSuffix_def)
  moreover have "Atoi (Itoa i @ ''-tls'') = None"
    unfolding Atoi_def by (rule ParseInt_non_digit [OF t]) (simp add: digit_val_def)
  ultimately show ?thesis
    using pre by (simp add: extractOrdinalFromTunnelCertName_def)
qed

lemma ordinal_of_clientCert_as_tunnelCert:
  "extractOrdinalFromTunnelCertName (clientCertName c) (statefulSetName c) = - 1"
proof -
  have "clientCertName c = (statefulSetName c @ ''-'') @ ''client-tls''"
    by (simp add: clientCertName_def statefulSetName_def)
  then have "TrimPrefix (clientCertName c) (statefulSetName c @ ''-'') = ''client-tls''"
    by (simp only: TrimPrefix_append)
  moreover have "TrimSuffix ''client-tls'' ''-tunnel-tls'' = ''client-tls''"
    by (simp add: TrimSuffix_def HasSuffix_def)
  moreover have "Atoi ''client-tls'' = None"
    unfolding Atoi_def by (rule ParseInt_non_digit [of "CHR ''l''"]) (simp_all add: digit_val_def)
  ultimately show ?thesis
    by (simp add: extractOrdinalFromTunnelCertName_def)
qed

end
