(* ===== verification/Discovery_Core.thy ===== *)
theory Discovery_Core
  imports Api_Types Naming
begin

text \<open>
  The shared parts of target discovery: the messages (\<^verbatim>\<open>discovery/core/types.go\<close>), the TargetSource
  resource, the mapping of discovered targets to Target resources (\<^verbatim>\<open>mapper.go\<close>), the chunked sending
  of snapshots and events (\<^verbatim>\<open>loaders/utils/send.go\<close>), the registry of running sources
  (\<^verbatim>\<open>registry.go\<close>) and the access to Secrets and ConfigMaps (\<^verbatim>\<open>ressource_fetcher.go\<close>).
\<close>

section \<open>TargetSource\<close>

record key_selector =
  ks_Name :: string
  ks_Key :: string

record client_tls_config =
  ctc_InsecureSkipVerify :: bool
  ctc_CABundleRef :: "key_selector option"

record token_auth =
  ta_Scheme :: string
  ta_TokenSecretRef :: "key_selector option"

record authentication_spec =
  au_Basic :: "key_selector option option"
  au_Token :: "token_auth option"

record pagination_spec =
  pg_NextField :: string
  pg_RequestParam :: string

record response_mapping =
  rm_TargetsField :: string
  rm_Name :: string
  rm_Address :: string
  rm_Port :: string
  rm_Labels :: string
  rm_TargetProfile :: string

record http_config =
  hc_URL :: string
  hc_Method :: string
  hc_Headers :: labels
  hc_Body :: string
  hc_Authentication :: "authentication_spec option"
  hc_Interval :: "duration option"
  hc_Timeout :: "duration option"
  hc_TLS :: "client_tls_config option"
  hc_Pagination :: "pagination_spec option"
  hc_ResponseMapping :: "response_mapping option"
  hc_PushEnabled :: "bool option" \<comment> \<open>\<^verbatim>\<open>Push.Enabled\<close>, \<open>None\<close> without a \<^verbatim>\<open>Push\<close> section\<close>

record target_source_spec =
  tss_HTTP :: "http_config option"
  tss_TargetPort :: int
  tss_TargetLabels :: labels
  tss_TargetProfile :: string

record target_source_status =
  tsst_Status :: string
  tsst_ObservedGeneration :: int
  tsst_TargetsCount :: int
  tsst_LastSync :: time

record target_source =
  tso_Meta :: object_meta
  tso_Spec :: target_source_spec
  tso_Status :: target_source_status

section \<open>Messages\<close>

datatype event_action = EventDelete | EventApply

record discovered_target =
  dt_Name :: string
  dt_Address :: string
  dt_Port :: int
  dt_Labels :: labels
  dt_TargetProfile :: string

record discovery_event =
  de_Target :: discovered_target
  de_Event :: event_action

record discovery_snapshot =
  ds_SnapshotID :: string
  ds_ChunkIndex :: int
  ds_TotalChunks :: int
  ds_Targets :: "discovered_target list"

datatype discovery_message = Snapshot discovery_snapshot | Event discovery_event

section \<open>Mapping to Target resources\<close>

definition LabelTargetSourceName :: string where
  "LabelTargetSourceName = ''operator.gnmic.dev/targetsource''"

text \<open>\<^verbatim>\<open>net.JoinHostPort\<close>: a host with a colon is taken for an IPv6 literal.\<close>

definition JoinHostPort :: "string \<Rightarrow> string \<Rightarrow> string" where
  "JoinHostPort host port =
     (if CHR '':'' \<in> set host then ''['' @ host @ '']:'' @ port else host @ '':'' @ port)"

definition generateTargetResource :: "discovered_target \<Rightarrow> target_source \<Rightarrow> target" where
  "generateTargetResource d ts =
     (let targetPort = (if dt_Port d \<noteq> 0 then dt_Port d else tss_TargetPort (tso_Spec ts));
          targetProfile = (if dt_TargetProfile d \<noteq> [] then dt_TargetProfile d
                           else tss_TargetProfile (tso_Spec ts));
          lbls = maps_Copy (maps_Copy [] (tss_TargetLabels (tso_Spec ts))) (dt_Labels d);
          lbls = gput lbls LabelTargetSourceName (m_Name (tso_Meta ts))
      in \<lparr>t_Meta = \<lparr>m_Name = dt_Name d, m_Namespace = m_Namespace (tso_Meta ts), m_Labels = lbls,
                    m_Generation = 0, m_ResourceVersion = [], m_Finalizers = [], m_Deleting = False\<rparr>,
          t_Spec = \<lparr>ts_Address = JoinHostPort (dt_Address d) (Itoa targetPort), ts_Profile = targetProfile\<rparr>,
          t_Status = \<lparr>tst_Clusters = 0, tst_State = [], tst_ClusterStates = None\<rparr>\<rparr>)"

definition deleteEvent :: "string \<Rightarrow> discovery_event" where
  "deleteEvent name = \<lparr>de_Target = \<lparr>dt_Name = name, dt_Address = [], dt_Port = 0, dt_Labels = [],
     dt_TargetProfile = []\<rparr>, de_Event = EventDelete\<rparr>"

definition applyEventOf :: "discovered_target \<Rightarrow> discovery_event" where
  "applyEventOf d = \<lparr>de_Target = d, de_Event = EventApply\<rparr>"

definition generateEvents :: "target list \<Rightarrow> discovered_target list \<Rightarrow> discovery_event list" where
  "generateEvents existing discovered =
     (let discoveredMap = fold (\<lambda>d m. gput m (dt_Name d) d) discovered []
      in map (\<lambda>e. deleteEvent (m_Name (t_Meta e)))
           (filter (\<lambda>e. gget discoveredMap (m_Name (t_Meta e)) = None) existing)
         @ map applyEventOf discovered)"

definition normalizeTarget :: "discovered_target \<Rightarrow> string \<Rightarrow> discovered_target" where
  "normalizeTarget t tsName = t\<lparr>dt_Name := tsName @ ''-'' @ dt_Name t\<rparr>"

section \<open>Sending in chunks\<close>

datatype send_error = ContextCanceled | NoTargets | NoEvents | SlicePanic | DividePanic

text \<open>
  The channel is the list of the batches sent so far; \<open>cancelAt\<close> is the number of sends that go
  through before the context is cancelled, if it ever is.
\<close>

definition sendMessages ::
  "nat option \<Rightarrow> discovery_message list \<Rightarrow> discovery_message list list \<Rightarrow>
   send_error + discovery_message list list" where
  "sendMessages cancelAt messages out =
     (case cancelAt of
        Some k \<Rightarrow> if k \<le> length out then Inl ContextCanceled else Inr (out @ [messages])
      | None \<Rightarrow> Inr (out @ [messages]))"

text \<open>
  \<^verbatim>\<open>forEachChunk\<close> ends for a positive chunk size only, so it is a partial function: \<open>None\<close> is a loop
  that does not return.
\<close>

partial_function (option) forEachChunk ::
  "int \<Rightarrow> int \<Rightarrow> (int \<Rightarrow> int \<Rightarrow> 's \<Rightarrow> send_error + 's) \<Rightarrow> int \<Rightarrow> 's \<Rightarrow> (send_error + 's) option"
where
  [code]: "forEachChunk tot chunkSize fn i s =
     (if i < tot
      then case fn i (if tot < i + chunkSize then tot else i + chunkSize) s of
             Inl e \<Rightarrow> Some (Inl e)
           | Inr s' \<Rightarrow> forEachChunk tot chunkSize fn (i + chunkSize) s'
      else Some (Inr s))"

text \<open>The slice expression \<^verbatim>\<open>xs[i:j]\<close>, which panics out of range.\<close>

definition slice :: "'a list \<Rightarrow> int \<Rightarrow> int \<Rightarrow> 'a list option" where
  "slice xs i j = (if 0 \<le> i \<and> i \<le> j \<and> j \<le> int (length xs)
                   then Some (take (nat (j - i)) (drop (nat i) xs)) else None)"

definition snapshotChunk ::
  "discovered_target list \<Rightarrow> string \<Rightarrow> int \<Rightarrow> int \<Rightarrow> int \<Rightarrow> int \<Rightarrow> discovery_snapshot list \<Rightarrow>
   send_error + discovery_snapshot list" where
  "snapshotChunk targets snapshotID chunkSize totalChunks i j snapshots =
     (case slice targets i j of
        None \<Rightarrow> Inl SlicePanic
      | Some chunk \<Rightarrow> Inr (snapshots @ [\<lparr>ds_SnapshotID = snapshotID, ds_ChunkIndex = go_div i chunkSize,
                           ds_TotalChunks = totalChunks, ds_Targets = chunk\<rparr>]))"

definition createDiscoverySnapshots ::
  "discovered_target list \<Rightarrow> string \<Rightarrow> int \<Rightarrow> (send_error + discovery_snapshot list) option" where
  "createDiscoverySnapshots targets snapshotID chunkSize =
     (if chunkSize = 0 then Some (Inl DividePanic)
      else let totalTargets = int (length targets);
               totalChunks = go_div (totalTargets + chunkSize - 1) chunkSize
           in forEachChunk totalTargets chunkSize
                (snapshotChunk targets snapshotID chunkSize totalChunks) 0 [])"

definition SendSnapshot ::
  "nat option \<Rightarrow> discovered_target list \<Rightarrow> string \<Rightarrow> int \<Rightarrow> discovery_message list list \<Rightarrow>
   (send_error + discovery_message list list) option" where
  "SendSnapshot cancelAt targets snapshotID chunkSize out =
     (if targets = [] then Some (Inl NoTargets)
      else case createDiscoverySnapshots targets snapshotID chunkSize of
             None \<Rightarrow> None
           | Some (Inl e) \<Rightarrow> Some (Inl e)
           | Some (Inr snapshots) \<Rightarrow>
               Some (foldE (\<lambda>s. sendMessages cancelAt [Snapshot s]) snapshots out))"

definition eventsToMessages :: "discovery_event list \<Rightarrow> discovery_message list" where
  "eventsToMessages events = map Event events"

definition SendEvents ::
  "nat option \<Rightarrow> discovery_event list \<Rightarrow> int \<Rightarrow> discovery_message list list \<Rightarrow>
   (send_error + discovery_message list list) option" where
  "SendEvents cancelAt events chunkSize out =
     (if events = [] then Some (Inl NoEvents)
      else let messages = eventsToMessages events
           in forEachChunk (int (length messages)) chunkSize
                (\<lambda>i j out. case slice messages i j of
                             None \<Rightarrow> Inl SlicePanic
                           | Some ms \<Rightarrow> sendMessages cancelAt ms out) 0 out)"

section \<open>The registry of running sources\<close>

definition Register :: "'k \<Rightarrow> 'v \<Rightarrow> ('k, 'v) gomap \<Rightarrow> string + ('k, 'v) gomap" where
  "Register key val r = (if gget r key \<noteq> None then Inl ''already registered'' else Inr (gput r key val))"

definition Unregister :: "'k \<Rightarrow> ('k, 'v) gomap \<Rightarrow> ('k, 'v) gomap" where
  "Unregister key r = gdel r key"

definition Get :: "'k \<Rightarrow> ('k, 'v) gomap \<Rightarrow> 'v option" where
  "Get key r = gget r key"

definition Exists :: "'k \<Rightarrow> ('k, 'v) gomap \<Rightarrow> bool" where
  "Exists key r = (gget r key \<noteq> None)"

section \<open>Secrets and ConfigMaps\<close>

text \<open>
  \<open>getObject ns name\<close> is the client's \<^verbatim>\<open>Get\<close> for the object: its \<^verbatim>\<open>Data\<close> map or an error. Both fetchers have the
  same body but for the kind of the object.
\<close>

definition GetObjectKey ::
  "(string \<Rightarrow> string \<Rightarrow> string + labels) \<Rightarrow> string \<Rightarrow> key_selector option \<Rightarrow> string + string" where
  "GetObjectKey getObject namespace selector =
     (case selector of
        None \<Rightarrow> Inr []
      | Some sel \<Rightarrow>
          bindE (getObject namespace (ks_Name sel)) (\<lambda>data.
            if ks_Key sel = [] then Inl ''key selector has empty key''
            else case gget data (ks_Key sel) of
                   None \<Rightarrow> Inl ''does not contain key''
                 | Some val \<Rightarrow> Inr val))"

definition GetSecretKey ::
  "(string \<Rightarrow> string \<Rightarrow> string + labels) \<Rightarrow> string \<Rightarrow> key_selector option \<Rightarrow> string + string" where
  "GetSecretKey getSecret = GetObjectKey getSecret"

definition GetConfigMapKey ::
  "(string \<Rightarrow> string \<Rightarrow> string + labels) \<Rightarrow> string \<Rightarrow> key_selector option \<Rightarrow> string + string" where
  "GetConfigMapKey getConfigMap = GetObjectKey getConfigMap"

section \<open>Chunks\<close>

lemma forEachChunk_inv:
  fixes I :: "nat \<Rightarrow> 's \<Rightarrow> bool"
  assumes "0 < cs" and "I k s" and "k = 0 \<or> int (k - 1) * cs < tot"
    and step: "\<And>k s. int k * cs < tot \<Longrightarrow> I k s \<Longrightarrow>
      \<exists>s'. fn (int k * cs) (if tot < int k * cs + cs then tot else int k * cs + cs) s = Inr s' \<and> I (Suc k) s'"
  shows "\<exists>k' s'. forEachChunk tot cs fn (int k * cs) s = Some (Inr s') \<and> I k' s' \<and>
    tot \<le> int k' * cs \<and> (k' = 0 \<or> int (k' - 1) * cs < tot)"
  using assms(2,3)
proof (induction "nat (tot - int k * cs)" arbitrary: k s rule: less_induct)
  case less
  show ?case
  proof (cases "int k * cs < tot")
    case True
    then obtain s1 where s1: "fn (int k * cs) (if tot < int k * cs + cs then tot else int k * cs + cs) s = Inr s1"
      "I (Suc k) s1"
      using step less.prems(1) by blast
    have eq: "int (Suc k) * cs = int k * cs + cs" by (simp add: algebra_simps)
    have "nat (tot - int (Suc k) * cs) < nat (tot - int k * cs)"
      using True assms(1) unfolding eq by linarith
    from less.hyps [OF this s1(2)] True
    have "\<exists>k' s'. forEachChunk tot cs fn (int (Suc k) * cs) s1 = Some (Inr s') \<and> I k' s' \<and>
      tot \<le> int k' * cs \<and> (k' = 0 \<or> int (k' - 1) * cs < tot)" by simp
    then show ?thesis
      using True s1(1) unfolding eq by (subst forEachChunk.simps) simp
  next
    case False
    then show ?thesis
      using less.prems by (intro exI [of _ k] exI [of _ s]) (subst forEachChunk.simps, simp)
  qed
qed

text \<open>The chunk number \<open>j\<close> of a snapshot of \<open>n\<close> chunks.\<close>

definition chunkOf :: "discovered_target list \<Rightarrow> string \<Rightarrow> int \<Rightarrow> int \<Rightarrow> nat \<Rightarrow> discovery_snapshot" where
  "chunkOf targets snapshotID chunkSize totalChunks j =
     \<lparr>ds_SnapshotID = snapshotID, ds_ChunkIndex = int j, ds_TotalChunks = totalChunks,
      ds_Targets = take (nat chunkSize) (drop (j * nat chunkSize) targets)\<rparr>"

lemma concat_chunks:
  "concat (map (\<lambda>j. take c (drop (j * c) xs)) [0..<k]) = take (k * c) xs"
proof (induction k)
  case (Suc k)
  have "take (k * c) xs @ take c (drop (k * c) xs) = take (k * c + c) xs"
    by (simp add: take_add)
  with Suc show ?case by (simp add: add.commute)
qed simp

lemma snapshotChunk_ok:
  assumes "0 < cs" and "int k * cs < int (length targets)"
  shows "snapshotChunk targets sid cs n (int k * cs)
      (if int (length targets) < int k * cs + cs then int (length targets) else int k * cs + cs) acc =
    Inr (acc @ [chunkOf targets sid cs n k])"
proof -
  have idx: "go_div (int k * cs) cs = int k"
    using assms(1) by (simp add: go_div_nonneg)
  have k: "nat (int k * cs) = k * nat cs"
    using assms(1) by (simp add: nat_mult_distrib)
  have "take (nat (int (length targets) - int k * cs)) (drop (k * nat cs) targets) =
      take (nat cs) (drop (k * nat cs) targets)" if "int (length targets) < int k * cs + cs"
    using that assms(1) by (subst (1 2) take_all) (auto simp: k [symmetric])
  moreover have "0 \<le> int k * cs" using assms(1) by simp
  ultimately show ?thesis
    using assms by (simp add: snapshotChunk_def slice_def chunkOf_def idx k)
qed

lemma createDiscoverySnapshots_chunks:
  assumes "0 < cs"
  shows "\<exists>n. createDiscoverySnapshots targets sid cs = Some (Inr (map (chunkOf targets sid cs (int n)) [0..<n]))
    \<and> length targets \<le> n * nat cs \<and> (n = 0 \<or> (n - 1) * nat cs < length targets)"
proof -
  define tot where "tot = int (length targets)"
  define n where "n = go_div (tot + cs - 1) cs"
  have step: "\<exists>s'. snapshotChunk targets sid cs n (int k * cs)
      (if tot < int k * cs + cs then tot else int k * cs + cs) s = Inr s' \<and>
      s' = map (chunkOf targets sid cs n) [0..<Suc k]"
    if "int k * cs < tot" "s = map (chunkOf targets sid cs n) [0..<k]" for k s
    using snapshotChunk_ok [OF assms, of k targets sid n s] that by (auto simp: tot_def split: if_splits)
  have "\<exists>k' s'. forEachChunk tot cs (snapshotChunk targets sid cs n) (int 0 * cs) [] = Some (Inr s') \<and>
      s' = map (chunkOf targets sid cs n) [0..<k'] \<and> tot \<le> int k' * cs \<and> (k' = 0 \<or> int (k' - 1) * cs < tot)"
    by (rule forEachChunk_inv [where I = "\<lambda>k s. s = map (chunkOf targets sid cs n) [0..<k]", OF assms])
      (simp_all only: step, simp_all)
  then obtain k s where "forEachChunk tot cs (snapshotChunk targets sid cs n) (int 0 * cs) [] = Some (Inr s)"
    "s = map (chunkOf targets sid cs n) [0..<k]" and k': "tot \<le> int k * cs" "k = 0 \<or> int (k - 1) * cs < tot"
    by blast
  then have k: "forEachChunk tot cs (snapshotChunk targets sid cs n) 0 [] =
      Some (Inr (map (chunkOf targets sid cs n) [0..<k]))" "tot \<le> int k * cs" "k = 0 \<or> int (k - 1) * cs < tot"
    by simp_all
  have "n = int k"
  proof -
    have "n = (tot + cs - 1) div cs"
      using assms by (simp add: n_def go_div_nonneg tot_def)
    also have "\<dots> = int k"
    proof (cases k)
      case 0
      with k(2) have "tot = 0" by (simp add: tot_def)
      with 0 assms show ?thesis by simp
    next
      case (Suc m)
      with k(2,3) have "int m * cs < tot" "tot \<le> int m * cs + cs" by (auto simp: algebra_simps)
      then have "(tot + cs - 1) div cs = int m + 1"
        by (intro int_div_pos_eq [of _ _ _ "tot - 1 - int m * cs"]) (auto simp: algebra_simps)
      with Suc show ?thesis by simp
    qed
    finally show ?thesis .
  qed
  moreover have "int (j * nat cs) = int j * cs" for j
    using assms by simp
  then have "length targets \<le> k * nat cs" "k = 0 \<or> (k - 1) * nat cs < length targets"
    using k(2,3) unfolding tot_def by (metis of_nat_le_iff, metis of_nat_less_iff)
  ultimately show ?thesis
    using k(1) assms by (auto simp: createDiscoverySnapshots_def tot_def [symmetric] n_def [symmetric] Let_def)
qed

section \<open>Properties\<close>

text \<open>
  C31: Cutting targets into snapshot chunks loses nothing: for every positive chunk size the loop ends,
  the chunks put together are the targets, they are numbered from 0, carry their total number, and
  each holds between one and chunk size many targets.
\<close>

theorem createDiscoverySnapshots_roundtrip:
  assumes "0 < chunkSize"
  shows "\<exists>ss. createDiscoverySnapshots targets sid chunkSize = Some (Inr ss)
    \<and> concat (map ds_Targets ss) = targets
    \<and> (\<forall>i < length ss. ds_ChunkIndex (ss ! i) = int i \<and> ds_TotalChunks (ss ! i) = int (length ss)
         \<and> ds_SnapshotID (ss ! i) = sid
         \<and> ds_Targets (ss ! i) \<noteq> [] \<and> int (length (ds_Targets (ss ! i))) \<le> chunkSize)"
proof -
  obtain n where n: "createDiscoverySnapshots targets sid chunkSize =
      Some (Inr (map (chunkOf targets sid chunkSize (int n)) [0..<n]))"
    "length targets \<le> n * nat chunkSize" "n = 0 \<or> (n - 1) * nat chunkSize < length targets"
    using createDiscoverySnapshots_chunks [OF assms] by blast
  have "concat (map ds_Targets (map (chunkOf targets sid chunkSize (int n)) [0..<n])) = targets"
    using n(2) by (simp add: chunkOf_def comp_def concat_chunks)
  moreover have "ds_Targets (chunkOf targets sid chunkSize (int n) i) \<noteq> []" if "i < n" for i
  proof -
    have "i * nat chunkSize \<le> (n - 1) * nat chunkSize" using that by (intro mult_le_mono1) linarith
    also have "\<dots> < length targets" using n(3) that by simp
    finally show ?thesis using assms by (simp add: chunkOf_def)
  qed
  ultimately show ?thesis
    using n(1) assms by (auto simp: chunkOf_def)
qed

theorem createDiscoverySnapshots_roundtrip_witness:
  "\<exists>ss. createDiscoverySnapshots
       (replicate 5 \<lparr>dt_Name = ''a'', dt_Address = ''h'', dt_Port = 0, dt_Labels = [], dt_TargetProfile = []\<rparr>) ''id'' 2 =
       Some (Inr ss) \<and> length (concat (map ds_Targets ss)) = 5"
  using createDiscoverySnapshots_roundtrip [of 2
      "replicate 5 \<lparr>dt_Name = ''a'', dt_Address = ''h'', dt_Port = 0, dt_Labels = [], dt_TargetProfile = []\<rparr>" "''id''"]
  by (metis length_replicate zero_less_numeral)

text \<open>
  The Target made of a discovered target belongs to its source whatever labels it was discovered
  with; discovered labels win over those of the source, and a missing port or profile falls back to
  the source's.
\<close>

theorem generateTargetResource_spec:
  assumes "gwf (tss_TargetLabels (tso_Spec ts))" and "gwf (dt_Labels d)"
  shows "let t = generateTargetResource d ts; lbls = m_Labels (t_Meta t)
    in gget lbls LabelTargetSourceName = Some (m_Name (tso_Meta ts))
     \<and> (\<forall>k. k \<noteq> LabelTargetSourceName \<longrightarrow>
          gget lbls k = (case gget (dt_Labels d) k of
                           Some v \<Rightarrow> Some v
                         | None \<Rightarrow> gget (tss_TargetLabels (tso_Spec ts)) k))
     \<and> ts_Address (t_Spec t) = JoinHostPort (dt_Address d)
          (Itoa (if dt_Port d = 0 then tss_TargetPort (tso_Spec ts) else dt_Port d))
     \<and> ts_Profile (t_Spec t) = (if dt_TargetProfile d = [] then tss_TargetProfile (tso_Spec ts)
          else dt_TargetProfile d)"
  using assms
  by (auto simp: generateTargetResource_def Let_def gm.get_put gget_maps_Copy split: option.splits)

theorem generateTargetResource_spec_witness:
  "gget (m_Labels (t_Meta (generateTargetResource
      \<lparr>dt_Name = ''a'', dt_Address = ''::1'', dt_Port = 0, dt_Labels = [(''env'', ''prod'')], dt_TargetProfile = []\<rparr>
      \<lparr>tso_Meta = \<lparr>m_Name = ''s'', m_Namespace = ''n'', m_Labels = [], m_Generation = 0, m_ResourceVersion = [], m_Finalizers = [], m_Deleting = False\<rparr>,
       tso_Spec = \<lparr>tss_HTTP = None, tss_TargetPort = 57400, tss_TargetLabels = [(''env'', ''lab'')], tss_TargetProfile = ''p''\<rparr>,
       tso_Status = \<lparr>tsst_Status = [], tsst_ObservedGeneration = 0, tsst_TargetsCount = 0, tsst_LastSync = 0\<rparr>\<rparr>)))
     ''env'' = Some ''prod''"
proof -
  let ?d = "\<lparr>dt_Name = ''a'', dt_Address = ''::1'', dt_Port = 0, dt_Labels = [(''env'', ''prod'')], dt_TargetProfile = []\<rparr>"
  let ?ts = "\<lparr>tso_Meta = \<lparr>m_Name = ''s'', m_Namespace = ''n'', m_Labels = [], m_Generation = 0, m_ResourceVersion = [], m_Finalizers = [], m_Deleting = False\<rparr>,
       tso_Spec = \<lparr>tss_HTTP = None, tss_TargetPort = 57400, tss_TargetLabels = [(''env'', ''lab'')], tss_TargetProfile = ''p''\<rparr>,
       tso_Status = \<lparr>tsst_Status = [], tsst_ObservedGeneration = 0, tsst_TargetsCount = 0, tsst_LastSync = 0\<rparr>\<rparr>"
  have "gwf (tss_TargetLabels (tso_Spec ?ts))" "gwf (dt_Labels ?d)" "''env'' \<noteq> LabelTargetSourceName"
    by (simp_all add: gwf_def LabelTargetSourceName_def)
  then show ?thesis
    using generateTargetResource_spec [of ?ts ?d] by (simp add: Let_def gget_def)
qed

end
