(* ===== verification/Message_Processor.thy ===== *)
theory Message_Processor
  imports Discovery_Core
begin

text \<open>
  The message processor (\<^verbatim>\<open>discovery/message_processor.go\<close>) with its client helpers
  (\<^verbatim>\<open>discovery/client.go\<close>): it collects the chunks of a snapshot, brings the Target resources of a
  TargetSource in line with it, and applies single events in between.

  The Kubernetes API is a parameter: a record of functions over an abstract world \<open>'w\<close>. What the
  proofs need of it is the predicate \<open>reliableClient\<close>: the documented meaning of \<^verbatim>\<open>Get\<close>, \<^verbatim>\<open>List\<close>,
  \<^verbatim>\<open>Delete\<close> and \<^verbatim>\<open>CreateOrUpdate\<close> on a store of objects, for requests that do not fail. An in-memory
  client that satisfies it is given for the witnesses.
\<close>

section \<open>The client\<close>

record 'w k8s_client =
  kc_ctxDone :: "'w \<Rightarrow> bool"
  kc_now :: "'w \<Rightarrow> time"
  kc_list :: "'w \<Rightarrow> string \<Rightarrow> string \<Rightarrow> string \<Rightarrow> api_error + target list" \<comment> \<open>namespace, label, value\<close>
  kc_get :: "'w \<Rightarrow> string \<Rightarrow> string \<Rightarrow> api_error + target" \<comment> \<open>namespace, name\<close>
  kc_delete :: "string \<Rightarrow> string \<Rightarrow> 'w \<Rightarrow> api_error option \<times> 'w"
  kc_createOrUpdate :: "string \<Rightarrow> string \<Rightarrow> (target \<Rightarrow> api_error + target) \<Rightarrow> 'w \<Rightarrow> api_error option \<times> 'w"
  kc_setControllerReference :: "target_source \<Rightarrow> target \<Rightarrow> api_error + target"
  kc_getSource :: "'w \<Rightarrow> string \<Rightarrow> string \<Rightarrow> api_error + target_source"
  kc_updateSourceStatus :: "target_source \<Rightarrow> 'w \<Rightarrow> api_error option \<times> 'w"
  kc_retryOnConflict :: "('w \<Rightarrow> api_error option \<times> 'w) \<Rightarrow> 'w \<Rightarrow> api_error option \<times> 'w"

definition fetchExistingTargets :: "'w k8s_client \<Rightarrow> target_source \<Rightarrow> 'w \<Rightarrow> api_error + target list" where
  "fetchExistingTargets c ts w =
     kc_list c w (m_Namespace (tso_Meta ts)) LabelTargetSourceName (m_Name (tso_Meta ts))"

definition applyTarget :: "'w k8s_client \<Rightarrow> target \<Rightarrow> target_source \<Rightarrow> 'w \<Rightarrow> api_error option \<times> 'w" where
  "applyTarget c desired ts w =
     kc_createOrUpdate c (m_Namespace (t_Meta desired)) (m_Name (t_Meta desired))
       (\<lambda>existing. kc_setControllerReference c ts
          (existing\<lparr>t_Spec := t_Spec desired,
                    t_Meta := (t_Meta existing)\<lparr>m_Labels := m_Labels (t_Meta desired)\<rparr>\<rparr>)) w"

definition deleteTarget :: "'w k8s_client \<Rightarrow> string \<Rightarrow> string \<Rightarrow> 'w \<Rightarrow> api_error option \<times> 'w" where
  "deleteTarget c name namespace w =
     (case kc_get c w namespace name of
        Inl NotFound \<Rightarrow> (None, w)
      | Inl e \<Rightarrow> (Some e, w)
      | Inr existing \<Rightarrow>
          (case kc_delete c namespace name w of
             (Some NotFound, w') \<Rightarrow> (None, w')
           | (r, w') \<Rightarrow> (r, w')))"

definition updateTargetSourceStatus ::
  "'w k8s_client \<Rightarrow> target_source \<Rightarrow> int \<Rightarrow> 'w \<Rightarrow> api_error option \<times> 'w" where
  "updateTargetSourceStatus c ts targetCount w =
     kc_retryOnConflict c (\<lambda>w.
       case kc_getSource c w (m_Namespace (tso_Meta ts)) (m_Name (tso_Meta ts)) of
         Inl e \<Rightarrow> (Some e, w)
       | Inr latest \<Rightarrow>
           kc_updateSourceStatus c (latest\<lparr>tso_Status := (tso_Status latest)
             \<lparr>tsst_TargetsCount := targetCount, tsst_LastSync := kc_now c w\<rparr>\<rparr>) w) w"

section \<open>The processor\<close>

record snapshot_buffer =
  sb_snapshotID :: string
  sb_totalChunks :: int
  sb_received :: "(int, discovered_target list) gomap"
  sb_complete :: bool

record 'w message_processor =
  mp_targetSource :: target_source
  mp_queue :: "discovery_message list"
  mp_activeSnapshot :: "snapshot_buffer option"
  mp_deferredEvents :: "discovery_event list"
  mp_targetCount :: int
  mp_world :: 'w \<comment> \<open>what the client works on\<close>

datatype proc_error =
  TotalChunksMismatch | InvalidChunkIndex | DuplicateChunk | MissingChunk int | ClientError api_error
| ContextError

definition NewMessageProcessor :: "target_source \<Rightarrow> 'w \<Rightarrow> 'w message_processor" where
  "NewMessageProcessor ts w = \<lparr>mp_targetSource = ts, mp_queue = [], mp_activeSnapshot = None,
     mp_deferredEvents = [], mp_targetCount = 0, mp_world = w\<rparr>"

definition resetSnapshot :: "'w message_processor \<Rightarrow> 'w message_processor" where
  "resetSnapshot m = m\<lparr>mp_activeSnapshot := None\<rparr>"

definition updateStatus :: "'w k8s_client \<Rightarrow> 'w message_processor \<Rightarrow> 'w message_processor" where
  "updateStatus c m =
     m\<lparr>mp_world := snd (updateTargetSourceStatus c (mp_targetSource m) (mp_targetCount m) (mp_world m))\<rparr>"

definition applyEvent ::
  "'w k8s_client \<Rightarrow> discovery_event \<Rightarrow> 'w message_processor \<Rightarrow> proc_error option \<times> 'w message_processor" where
  "applyEvent c event m =
     (let (r, w) =
            (case de_Event event of
               EventDelete \<Rightarrow> deleteTarget c (dt_Name (de_Target event))
                                (m_Namespace (tso_Meta (mp_targetSource m))) (mp_world m)
             | EventApply \<Rightarrow> applyTarget c (generateTargetResource (de_Target event) (mp_targetSource m))
                               (mp_targetSource m) (mp_world m))
      in (map_option ClientError r, m\<lparr>mp_world := w\<rparr>))"

definition processEvent ::
  "'w k8s_client \<Rightarrow> discovery_event \<Rightarrow> 'w message_processor \<Rightarrow> proc_error option \<times> 'w message_processor" where
  "processEvent c event m =
     (if mp_activeSnapshot m \<noteq> None
      then (None, m\<lparr>mp_deferredEvents := mp_deferredEvents m @ [event]\<rparr>)
      else let (err, m) = applyEvent c event m
           in if err \<noteq> None then (err, m)
              else let n = (case de_Event event of
                              EventApply \<Rightarrow> int32 (mp_targetCount m + 1)
                            | EventDelete \<Rightarrow> int32 (mp_targetCount m - 1))
                   in (None, updateStatus c (m\<lparr>mp_targetCount := n\<rparr>)))"

text \<open>The chunks in the order of their indices; \<open>Inl i\<close> for the first that is missing.\<close>

fun gatherChunks ::
  "(int, discovered_target list) gomap \<Rightarrow> int list \<Rightarrow> discovered_target list \<Rightarrow> int + discovered_target list" where
  "gatherChunks received [] allTargets = Inr allTargets"
| "gatherChunks received (i # is) allTargets =
     (case gget received i of
        None \<Rightarrow> Inl i
      | Some chunk \<Rightarrow> gatherChunks received is (allTargets @ chunk))"

text \<open>The replay loop: \<open>Inl\<close> returns from \<^verbatim>\<open>applySnapshot\<close> at once.\<close>

fun replay ::
  "'w k8s_client \<Rightarrow> discovery_event list \<Rightarrow> 'w message_processor \<Rightarrow>
   (proc_error option \<times> 'w message_processor) + 'w message_processor" where
  "replay c [] m = Inr m"
| "replay c (event # events) m =
     (if kc_ctxDone c (mp_world m) then Inl (None, m)
      else case processEvent c event m of
             (Some e, m) \<Rightarrow> Inl (Some e, m)
           | (None, m) \<Rightarrow> replay c events m)"

definition applySnapshot ::
  "'w k8s_client \<Rightarrow> snapshot_buffer \<Rightarrow> 'w message_processor \<Rightarrow> proc_error option \<times> 'w message_processor" where
  "applySnapshot c snapshot m =
     (if kc_ctxDone c (mp_world m) then (None, resetSnapshot m)
      else case gatherChunks (sb_received snapshot) [0..sb_totalChunks snapshot - 1] [] of
             Inl i \<Rightarrow> (Some (MissingChunk i), resetSnapshot m)
           | Inr allTargets \<Rightarrow>
               (let existing = (case fetchExistingTargets c (mp_targetSource m) (mp_world m) of
                                  Inl e \<Rightarrow> [] | Inr ts \<Rightarrow> ts);
                    events = generateEvents existing allTargets;
                    m = fold (\<lambda>e m. snd (applyEvent c e m)) events m
                in case replay c (mp_deferredEvents m) m of
                     Inl r \<Rightarrow> r
                   | Inr m \<Rightarrow>
                       (let m = m\<lparr>mp_targetCount := int32 (int (length allTargets))\<rparr>;
                            m = updateStatus c m;
                            m = resetSnapshot m
                        in (None, m\<lparr>mp_deferredEvents := []\<rparr>))))"

definition collectSnapshot ::
  "'w k8s_client \<Rightarrow> discovery_snapshot \<Rightarrow> snapshot_buffer \<Rightarrow> 'w message_processor \<Rightarrow>
   proc_error option \<times> 'w message_processor" where
  "collectSnapshot c chunk snapshot m =
     (if ds_TotalChunks chunk \<noteq> sb_totalChunks snapshot then (Some TotalChunksMismatch, m)
      else if ds_ChunkIndex chunk < 0 \<or> sb_totalChunks snapshot \<le> ds_ChunkIndex chunk
      then (Some InvalidChunkIndex, resetSnapshot m)
      else if gget (sb_received snapshot) (ds_ChunkIndex chunk) \<noteq> None
      then (Some DuplicateChunk, resetSnapshot m)
      else let snapshot = snapshot\<lparr>sb_received :=
                 gput (sb_received snapshot) (ds_ChunkIndex chunk) (ds_Targets chunk)\<rparr>
           in if int (length (sb_received snapshot)) = sb_totalChunks snapshot
              then let snapshot = snapshot\<lparr>sb_complete := True\<rparr>
                   in applySnapshot c snapshot (m\<lparr>mp_activeSnapshot := Some snapshot\<rparr>)
              else (None, m\<lparr>mp_activeSnapshot := Some snapshot\<rparr>))"

definition startNewSnapshot ::
  "'w k8s_client \<Rightarrow> discovery_snapshot \<Rightarrow> 'w message_processor \<Rightarrow> proc_error option \<times> 'w message_processor" where
  "startNewSnapshot c chunk m =
     (let snapshot = \<lparr>sb_snapshotID = ds_SnapshotID chunk, sb_totalChunks = ds_TotalChunks chunk,
                      sb_received = [], sb_complete = False\<rparr>
      in collectSnapshot c chunk snapshot
           (m\<lparr>mp_activeSnapshot := Some snapshot, mp_deferredEvents := []\<rparr>))"

definition processSnapshot ::
  "'w k8s_client \<Rightarrow> discovery_snapshot \<Rightarrow> 'w message_processor \<Rightarrow> proc_error option \<times> 'w message_processor" where
  "processSnapshot c chunk m =
     (case mp_activeSnapshot m of
        None \<Rightarrow> startNewSnapshot c chunk m
      | Some snapshot \<Rightarrow>
          if sb_snapshotID snapshot \<noteq> ds_SnapshotID chunk
          then if sb_complete snapshot
               then case applySnapshot c snapshot m of
                      (Some e, m) \<Rightarrow> (Some e, m)
                    | (None, m) \<Rightarrow> startNewSnapshot c chunk m
               else startNewSnapshot c chunk m
          else collectSnapshot c chunk snapshot m)"

definition processMessage ::
  "'w k8s_client \<Rightarrow> discovery_message \<Rightarrow> 'w message_processor \<Rightarrow> proc_error option \<times> 'w message_processor" where
  "processMessage c message m =
     (if kc_ctxDone c (mp_world m) then (Some ContextError, m)
      else let tsName = m_Name (tso_Meta (mp_targetSource m))
           in case message of
                Snapshot msg \<Rightarrow>
                  processSnapshot c (msg\<lparr>ds_Targets := map (\<lambda>t. normalizeTarget t tsName) (ds_Targets msg)\<rparr>) m
              | Event msg \<Rightarrow>
                  processEvent c (msg\<lparr>de_Target := normalizeTarget (de_Target msg) tsName\<rparr>) m)"

section \<open>The loop\<close>

text \<open>
  The inner loop of \<^verbatim>\<open>Run\<close> takes the queue from its front; \<open>True\<close> means that \<^verbatim>\<open>Run\<close> returned, because
  of an error or a cancelled context.
\<close>

fun drain :: "'w k8s_client \<Rightarrow> discovery_message list \<Rightarrow> 'w message_processor \<Rightarrow> bool \<times> 'w message_processor" where
  "drain c [] m = (False, m\<lparr>mp_queue := []\<rparr>)"
| "drain c (msg # queue) m =
     (if kc_ctxDone c (mp_world m) then (True, m\<lparr>mp_queue := msg # queue\<rparr>)
      else case processMessage c msg (m\<lparr>mp_queue := queue\<rparr>) of
             (Some e, m) \<Rightarrow> (True, m)
           | (None, m) \<Rightarrow> drain c queue m)"

text \<open>\<^verbatim>\<open>Run\<close> on the batches it receives before its channel is closed.\<close>

fun runBatches :: "'w k8s_client \<Rightarrow> discovery_message list list \<Rightarrow> 'w message_processor \<Rightarrow> 'w message_processor" where
  "runBatches c [] m = m"
| "runBatches c (batch # batches) m =
     (if kc_ctxDone c (mp_world m) then m
      else case drain c (mp_queue m @ batch) m of
             (True, m) \<Rightarrow> m
           | (False, m) \<Rightarrow> runBatches c batches m)"

definition Run :: "'w k8s_client \<Rightarrow> discovery_message list list \<Rightarrow> 'w message_processor \<Rightarrow> 'w message_processor" where
  "Run c batches m =
     runBatches c batches
       (case fetchExistingTargets c (mp_targetSource m) (mp_world m) of
          Inl e \<Rightarrow> m
        | Inr existing \<Rightarrow> m\<lparr>mp_targetCount := int32 (int (length existing))\<rparr>)"

end
