(* ===== verification/Processor_Correct.thy ===== *)
theory Processor_Correct
  imports Message_Processor
begin

text \<open>
  Correctness of the message processor: the chunks of a snapshot, in any order, are applied as one
  list; applying it leaves exactly the discovered targets of the source in the cluster; between
  messages the buffer is never complete. Events that arrive while a snapshot is being collected are
  proved to have no effect.
\<close>

section \<open>What a client promises\<close>

definition blankTarget :: "string \<Rightarrow> string \<Rightarrow> target" where
  "blankTarget ns name =
     \<lparr>t_Meta = \<lparr>m_Name = name, m_Namespace = ns, m_Labels = [], m_Generation = 0, m_ResourceVersion = [], m_Finalizers = [],
                m_Deleting = False\<rparr>,
      t_Spec = \<lparr>ts_Address = [], ts_Profile = []\<rparr>,
      t_Status = \<lparr>tst_Clusters = 0, tst_State = [], tst_ClusterStates = None\<rparr>\<rparr>"

definition stored :: "store \<Rightarrow> string \<Rightarrow> string \<Rightarrow> target" where
  "stored A ns name = (case A (ns, name) of None \<Rightarrow> blankTarget ns name | Some t \<Rightarrow> t)"

text \<open>
  The objects are stored under their names; requests of a live context do not fail; \<^verbatim>\<open>List\<close> returns
  the objects with the label; \<^verbatim>\<open>Delete\<close> removes an object; \<^verbatim>\<open>CreateOrUpdate\<close> stores what the mutate
  function makes of the stored or a blank object; status updates of a source leave the targets alone.
\<close>

definition reliableClient :: "'w k8s_client \<Rightarrow> ('w \<Rightarrow> store) \<Rightarrow> bool" where
  "reliableClient c repr \<longleftrightarrow>
     (\<forall>w. \<not> kc_ctxDone c w) \<and>
     (\<forall>w. namedStore (repr w)) \<and>
     (\<forall>w ns k v. \<exists>ts. kc_list c w ns k v = Inr ts \<and>
        set ts = {t. \<exists>n. repr w (ns, n) = Some t \<and> gget (m_Labels (t_Meta t)) k = Some v}) \<and>
     (\<forall>w ns n. kc_get c w ns n = (case repr w (ns, n) of None \<Rightarrow> Inl NotFound | Some t \<Rightarrow> Inr t)) \<and>
     (\<forall>w ns n. repr w (ns, n) \<noteq> None \<longrightarrow>
        (\<exists>w'. kc_delete c ns n w = (None, w') \<and> repr w' = (repr w)((ns, n) := None))) \<and>
     (\<forall>w ns n f t. f (stored (repr w) ns n) = Inr t \<longrightarrow>
        m_Namespace (t_Meta t) = ns \<longrightarrow> m_Name (t_Meta t) = n \<longrightarrow>
        (\<exists>w'. kc_createOrUpdate c ns n f w = (None, w') \<and> repr w' = (repr w)((ns, n) := Some t))) \<and>
     (\<forall>s t. kc_setControllerReference c s t = Inr t) \<and>
     (\<forall>s w. repr (snd (kc_updateSourceStatus c s w)) = repr w) \<and>
     (\<forall>f w. (\<forall>w. repr (snd (f w)) = repr w) \<longrightarrow> repr (snd (kc_retryOnConflict c f w)) = repr w)"

lemma reliable_live: "reliableClient c repr \<Longrightarrow> \<not> kc_ctxDone c w"
  by (simp add: reliableClient_def)

lemma reliable_createOrUpdate:
  assumes "reliableClient c repr" and "f (stored (repr w) ns n) = Inr t"
    and "m_Namespace (t_Meta t) = ns" and "m_Name (t_Meta t) = n"
  shows "\<exists>w'. kc_createOrUpdate c ns n f w = (None, w') \<and> repr w' = (repr w)((ns, n) := Some t)"
  using assms by (clarsimp simp: reliableClient_def)

lemma updateStatus_repr:
  "reliableClient c repr \<Longrightarrow> repr (mp_world (updateStatus c m)) = repr (mp_world m)"
  by (auto simp: reliableClient_def updateStatus_def updateTargetSourceStatus_def split: sum.splits)

lemma updateStatus_fields [simp]:
  "mp_targetSource (updateStatus c m) = mp_targetSource m"
  "mp_activeSnapshot (updateStatus c m) = mp_activeSnapshot m"
  "mp_deferredEvents (updateStatus c m) = mp_deferredEvents m"
  "mp_targetCount (updateStatus c m) = mp_targetCount m"
  "mp_queue (updateStatus c m) = mp_queue m"
  by (simp_all add: updateStatus_def)

section \<open>Events on the store\<close>

text \<open>The reference semantics of an event.\<close>

definition applyToStore :: "target_source \<Rightarrow> discovery_event \<Rightarrow> store \<Rightarrow> store" where
  "applyToStore ts e A =
     (let ns = m_Namespace (tso_Meta ts); n = dt_Name (de_Target e)
      in case de_Event e of
           EventDelete \<Rightarrow> A((ns, n) := None)
         | EventApply \<Rightarrow>
             (let d = generateTargetResource (de_Target e) ts; old = stored A ns n
              in A((ns, n) := Some (old\<lparr>t_Spec := t_Spec d,
                     t_Meta := (t_Meta old)\<lparr>m_Labels := m_Labels (t_Meta d)\<rparr>\<rparr>))))"

lemma generateTargetResource_name [simp]:
  "m_Name (t_Meta (generateTargetResource d ts)) = dt_Name d"
  "m_Namespace (t_Meta (generateTargetResource d ts)) = m_Namespace (tso_Meta ts)"
  by (simp_all add: generateTargetResource_def Let_def)

lemma applyEvent_fields [simp]:
  "mp_targetSource (snd (applyEvent c e m)) = mp_targetSource m"
  "mp_activeSnapshot (snd (applyEvent c e m)) = mp_activeSnapshot m"
  "mp_deferredEvents (snd (applyEvent c e m)) = mp_deferredEvents m"
  "mp_targetCount (snd (applyEvent c e m)) = mp_targetCount m"
  "mp_queue (snd (applyEvent c e m)) = mp_queue m"
  by (simp_all add: applyEvent_def case_prod_beta Let_def)

lemma stored_named: "namedStore A \<Longrightarrow> m_Name (t_Meta (stored A ns n)) = n \<and> m_Namespace (t_Meta (stored A ns n)) = ns"
  by (auto simp: namedStore_def stored_def blankTarget_def split: option.splits)

lemma deleteTarget_store:
  assumes "reliableClient c repr"
  shows "\<exists>w'. deleteTarget c n ns w = (None, w') \<and> repr w' = (repr w)((ns, n) := None)"
proof -
  have get: "kc_get c w ns n = (case repr w (ns, n) of None \<Rightarrow> Inl NotFound | Some t \<Rightarrow> Inr t)"
    using assms by (simp add: reliableClient_def)
  show ?thesis
  proof (cases "repr w (ns, n)")
    case None
    then show ?thesis using get by (auto simp: deleteTarget_def fun_eq_iff)
  next
    case (Some t)
    moreover from this obtain w' where "kc_delete c ns n w = (None, w')" "repr w' = (repr w)((ns, n) := None)"
      using assms unfolding reliableClient_def by (metis option.distinct(1))
    ultimately show ?thesis using get by (simp add: deleteTarget_def)
  qed
qed

lemma applyTarget_store:
  assumes "reliableClient c repr" and "m_Namespace (t_Meta d) = ns" and "m_Name (t_Meta d) = n"
  shows "\<exists>w'. applyTarget c d ts w = (None, w') \<and>
    repr w' = (repr w)((ns, n) := Some ((stored (repr w) ns n)\<lparr>t_Spec := t_Spec d,
      t_Meta := (t_Meta (stored (repr w) ns n))\<lparr>m_Labels := m_Labels (t_Meta d)\<rparr>\<rparr>))"
proof -
  let ?old = "stored (repr w) ns n"
  let ?f = "\<lambda>existing. kc_setControllerReference c ts (existing\<lparr>t_Spec := t_Spec d,
      t_Meta := (t_Meta existing)\<lparr>m_Labels := m_Labels (t_Meta d)\<rparr>\<rparr>)"
  let ?new = "?old\<lparr>t_Spec := t_Spec d, t_Meta := (t_Meta ?old)\<lparr>m_Labels := m_Labels (t_Meta d)\<rparr>\<rparr>"
  have "namedStore (repr w)" "?f ?old = Inr ?new"
    using assms(1) by (simp_all add: reliableClient_def)
  moreover from this(1) have "m_Namespace (t_Meta ?new) = ns" "m_Name (t_Meta ?new) = n"
    using stored_named by simp_all
  ultimately obtain w' where "kc_createOrUpdate c ns n ?f w = (None, w')" "repr w' = (repr w)((ns, n) := Some ?new)"
    using reliable_createOrUpdate [OF assms(1), of ?f w ns n ?new] by blast
  then show ?thesis
    by (simp add: applyTarget_def assms(2,3))
qed

lemma applyEvent_store:
  assumes "reliableClient c repr"
  shows "fst (applyEvent c e m) = None \<and>
    repr (mp_world (snd (applyEvent c e m))) = applyToStore (mp_targetSource m) e (repr (mp_world m))"
proof (cases "de_Event e")
  case EventDelete
  with deleteTarget_store [OF assms, of "dt_Name (de_Target e)" "m_Namespace (tso_Meta (mp_targetSource m))" "mp_world m"]
  show ?thesis by (auto simp: applyEvent_def applyToStore_def)
next
  case EventApply
  with applyTarget_store [OF assms generateTargetResource_name(2,1), of "de_Target e" "mp_targetSource m"
      "mp_targetSource m" "mp_world m"]
  show ?thesis by (auto simp: applyEvent_def applyToStore_def Let_def)
qed

lemma applyEvents_fields [simp]:
  "mp_targetSource (fold (\<lambda>e m. snd (applyEvent c e m)) es m) = mp_targetSource m"
  "mp_activeSnapshot (fold (\<lambda>e m. snd (applyEvent c e m)) es m) = mp_activeSnapshot m"
  "mp_deferredEvents (fold (\<lambda>e m. snd (applyEvent c e m)) es m) = mp_deferredEvents m"
  "mp_targetCount (fold (\<lambda>e m. snd (applyEvent c e m)) es m) = mp_targetCount m"
  "mp_queue (fold (\<lambda>e m. snd (applyEvent c e m)) es m) = mp_queue m"
  by (induction es arbitrary: m) simp_all

lemma applyEvents_store:
  assumes "reliableClient c repr"
  shows "repr (mp_world (fold (\<lambda>e m. snd (applyEvent c e m)) es m)) =
    fold (applyToStore (mp_targetSource m)) es (repr (mp_world m))"
  using applyEvent_store [OF assms] by (induction es arbitrary: m) simp_all

section \<open>Snapshots on the store\<close>

text \<open>The names of the targets that carry the label of a source.\<close>

definition ownedNames :: "target_source \<Rightarrow> store \<Rightarrow> string set" where
  "ownedNames ts A = {n. \<exists>t. A (m_Namespace (tso_Meta ts), n) = Some t \<and>
     gget (m_Labels (t_Meta t)) LabelTargetSourceName = Some (m_Name (tso_Meta ts))}"

lemma discoveredMap_None:
  "gget (fold (\<lambda>d m. gput m (dt_Name d) d) ds m0) n = None \<longleftrightarrow>
     gget m0 n = None \<and> n \<notin> dt_Name ` set ds"
  by (induction ds arbitrary: m0) (auto simp: gm.get_put split: if_splits)

lemma generateTargetResource_label:
  "gget (m_Labels (t_Meta (generateTargetResource d ts))) LabelTargetSourceName = Some (m_Name (tso_Meta ts))"
  by (simp add: generateTargetResource_def Let_def gm.get_put)

lemma deletes_store:
  "fold (applyToStore ts) (map deleteEvent ns) A (s, n) =
     (if s = m_Namespace (tso_Meta ts) \<and> n \<in> set ns then None else A (s, n))"
  by (induction ns arbitrary: A) (auto simp: applyToStore_def deleteEvent_def Let_def)

lemma applies_store_other:
  "s \<noteq> m_Namespace (tso_Meta ts) \<or> n \<notin> dt_Name ` set ds \<Longrightarrow>
   fold (applyToStore ts) (map applyEventOf ds) A (s, n) = A (s, n)"
  by (induction ds arbitrary: A) (auto simp: applyToStore_def applyEventOf_def Let_def)

text \<open>The last discovered target with a name decides what is stored under it.\<close>

definition lastNamed :: "discovered_target list \<Rightarrow> string \<Rightarrow> discovered_target option" where
  "lastNamed ds n = find (\<lambda>d. dt_Name d = n) (rev ds)"

lemma lastNamed_append: "lastNamed (ds @ [d]) n = (if dt_Name d = n then Some d else lastNamed ds n)"
  by (simp add: lastNamed_def)

lemma lastNamed_None: "lastNamed ds n = None \<longleftrightarrow> n \<notin> dt_Name ` set ds"
  by (auto simp: lastNamed_def find_None_iff)

lemma applies_store:
  assumes "lastNamed ds n = Some d"
  shows "\<exists>t. fold (applyToStore ts) (map applyEventOf ds) A (m_Namespace (tso_Meta ts), n) = Some t \<and>
    t_Spec t = t_Spec (generateTargetResource d ts) \<and>
    m_Labels (t_Meta t) = m_Labels (t_Meta (generateTargetResource d ts))"
  using assms
proof (induction ds rule: rev_induct)
  case (snoc e ds)
  then show ?case
    by (auto simp: lastNamed_append applyToStore_def applyEventOf_def Let_def split: if_splits)
qed (simp add: lastNamed_def)

lemma generateEvents_split:
  "generateEvents existing ds = map deleteEvent
     (filter (\<lambda>n. n \<notin> dt_Name ` set ds) (map (\<lambda>e. m_Name (t_Meta e)) existing)) @ map applyEventOf ds"
  by (simp add: generateEvents_def Let_def discoveredMap_None filter_map comp_def)

text \<open>What a snapshot makes of a store, and the names it leaves for its source.\<close>

definition snapshotStore :: "target_source \<Rightarrow> target list \<Rightarrow> discovered_target list \<Rightarrow> store \<Rightarrow> store" where
  "snapshotStore ts existing ds A = fold (applyToStore ts) (generateEvents existing ds) A"

lemma snapshotStore_get:
  "snapshotStore ts existing ds A (s, n) =
     fold (applyToStore ts) (map applyEventOf ds)
       (\<lambda>(s, n). if s = m_Namespace (tso_Meta ts) \<and> n \<in> (\<lambda>e. m_Name (t_Meta e)) ` set existing - dt_Name ` set ds
                 then None else A (s, n)) (s, n)"
proof -
  have "fold (applyToStore ts) (map deleteEvent (filter (\<lambda>n. n \<notin> dt_Name ` set ds)
        (map (\<lambda>e. m_Name (t_Meta e)) existing))) A =
      (\<lambda>(s, n). if s = m_Namespace (tso_Meta ts) \<and> n \<in> (\<lambda>e. m_Name (t_Meta e)) ` set existing - dt_Name ` set ds
                 then None else A (s, n))"
    by (rule ext) (auto simp: deletes_store)
  then show ?thesis by (simp add: snapshotStore_def generateEvents_split)
qed

lemma snapshotStore_owned:
  assumes "(\<lambda>e. m_Name (t_Meta e)) ` set existing = ownedNames ts A"
  shows "ownedNames ts (snapshotStore ts existing ds A) = dt_Name ` set ds"
proof (rule set_eqI)
  fix n
  let ?ns = "m_Namespace (tso_Meta ts)"
  show "n \<in> ownedNames ts (snapshotStore ts existing ds A) \<longleftrightarrow> n \<in> dt_Name ` set ds"
  proof (cases "lastNamed ds n")
    case None
    then have "snapshotStore ts existing ds A (?ns, n) = (if n \<in> ownedNames ts A then None else A (?ns, n))"
      using assms by (auto simp: snapshotStore_get applies_store_other lastNamed_None)
    with None show ?thesis
      by (auto simp: ownedNames_def lastNamed_None)
  next
    case (Some d)
    then have "n \<in> dt_Name ` set ds" using lastNamed_None [of ds n] by auto
    moreover obtain t where "snapshotStore ts existing ds A (?ns, n) = Some t"
      "m_Labels (t_Meta t) = m_Labels (t_Meta (generateTargetResource d ts))"
      using applies_store [OF Some] unfolding snapshotStore_get by blast
    ultimately show ?thesis
      by (auto simp: ownedNames_def generateTargetResource_label)
  qed
qed

lemma fetchExisting_owned:
  assumes "reliableClient c repr"
  obtains ts' where "fetchExistingTargets c ts w = Inr ts'"
    and "(\<lambda>e. m_Name (t_Meta e)) ` set ts' = ownedNames ts (repr w)"
proof -
  obtain ts' where ts': "fetchExistingTargets c ts w = Inr ts'"
    "set ts' = {t. \<exists>n. repr w (m_Namespace (tso_Meta ts), n) = Some t \<and>
       gget (m_Labels (t_Meta t)) LabelTargetSourceName = Some (m_Name (tso_Meta ts))}"
    using assms unfolding reliableClient_def fetchExistingTargets_def by meson
  have "namedStore (repr w)" using assms by (simp add: reliableClient_def)
  then have "(\<lambda>e. m_Name (t_Meta e)) ` set ts' = ownedNames ts (repr w)"
    unfolding ts'(2) ownedNames_def namedStore_def by force
  with ts'(1) show thesis by (rule that)
qed

section \<open>Applying a snapshot\<close>

lemma replay_active:
  assumes "\<And>w. \<not> kc_ctxDone c w" and "mp_activeSnapshot m \<noteq> None"
  shows "replay c es m = Inr (m\<lparr>mp_deferredEvents := mp_deferredEvents m @ es\<rparr>)"
  using assms(2) by (induction es arbitrary: m) (auto simp: assms(1) processEvent_def)

lemma updateStatus_deferred:
  "(updateStatus c (m\<lparr>mp_targetCount := k, mp_deferredEvents := es\<rparr>)) =
   (updateStatus c (m\<lparr>mp_targetCount := k\<rparr>))\<lparr>mp_deferredEvents := es\<rparr>"
  by (simp add: updateStatus_def)

text \<open>The result of a snapshot whose chunks are all there: the deferred events are gone.\<close>

lemma applySnapshot_live:
  assumes "\<And>w. \<not> kc_ctxDone c w" and "mp_activeSnapshot m \<noteq> None"
    and "gatherChunks (sb_received s) [0..sb_totalChunks s - 1] [] = Inr ds"
  shows "applySnapshot c s m =
    (let existing = (case fetchExistingTargets c (mp_targetSource m) (mp_world m) of Inl e \<Rightarrow> [] | Inr ts \<Rightarrow> ts);
         m1 = fold (\<lambda>e m. snd (applyEvent c e m)) (generateEvents existing ds) m
     in (None, (updateStatus c (m1\<lparr>mp_targetCount := int32 (int (length ds))\<rparr>))
          \<lparr>mp_activeSnapshot := None, mp_deferredEvents := []\<rparr>))"
proof -
  have "mp_activeSnapshot (fold (\<lambda>e m. snd (applyEvent c e m)) es m) \<noteq> None" for es
    using assms(2) by simp
  from replay_active [OF assms(1) this]
  show ?thesis
    using assms(1,3)
    by (simp add: applySnapshot_def Let_def resetSnapshot_def updateStatus_def)
qed

lemma applyEvent_deferred:
  "snd (applyEvent c e (m\<lparr>mp_deferredEvents := es\<rparr>)) = (snd (applyEvent c e m))\<lparr>mp_deferredEvents := es\<rparr>"
  by (cases "de_Event e") (simp_all add: applyEvent_def case_prod_beta Let_def)

lemma applyEvents_deferred:
  "fold (\<lambda>e m. snd (applyEvent c e m)) evs (m\<lparr>mp_deferredEvents := es\<rparr>) =
   (fold (\<lambda>e m. snd (applyEvent c e m)) evs m)\<lparr>mp_deferredEvents := es\<rparr>"
  by (induction evs arbitrary: m) (simp_all add: applyEvent_deferred)

lemma applySnapshot_store:
  assumes "reliableClient c repr" and "mp_activeSnapshot m \<noteq> None"
    and "gatherChunks (sb_received s) [0..sb_totalChunks s - 1] [] = Inr ds"
  obtains existing m' where "applySnapshot c s m = (None, m')"
    and "repr (mp_world m') = snapshotStore (mp_targetSource m) existing ds (repr (mp_world m))"
    and "(\<lambda>e. m_Name (t_Meta e)) ` set existing = ownedNames (mp_targetSource m) (repr (mp_world m))"
    and "mp_activeSnapshot m' = None" and "mp_targetCount m' = int32 (int (length ds))"
    and "mp_targetSource m' = mp_targetSource m" and "mp_queue m' = mp_queue m"
proof -
  obtain existing where ex: "fetchExistingTargets c (mp_targetSource m) (mp_world m) = Inr existing"
    "(\<lambda>e. m_Name (t_Meta e)) ` set existing = ownedNames (mp_targetSource m) (repr (mp_world m))"
    using fetchExisting_owned [OF assms(1)] by blast
  let ?m1 = "fold (\<lambda>e m. snd (applyEvent c e m)) (generateEvents existing ds) m"
  let ?m' = "(updateStatus c (?m1\<lparr>mp_targetCount := int32 (int (length ds))\<rparr>))
    \<lparr>mp_activeSnapshot := None, mp_deferredEvents := []\<rparr>"
  have "applySnapshot c s m = (None, ?m')"
    using applySnapshot_live [OF reliable_live [OF assms(1)] assms(2,3)] ex(1) by simp
  moreover have "repr (mp_world ?m') = snapshotStore (mp_targetSource m) existing ds (repr (mp_world m))"
    using updateStatus_repr [OF assms(1), of "?m1\<lparr>mp_targetCount := int32 (int (length ds))\<rparr>"]
      applyEvents_store [OF assms(1), of "generateEvents existing ds" m]
    by (simp add: snapshotStore_def)
  ultimately show thesis
    using ex(2) by (intro that [of ?m' existing]) simp_all
qed

section \<open>Collecting the chunks\<close>

text \<open>A snapshot of \<open>n\<close> chunks with contents \<open>f\<close>, of which the buffer holds those of \<open>S\<close>.\<close>

definition holds :: "(nat \<Rightarrow> discovered_target list) \<Rightarrow> nat set \<Rightarrow> (int, discovered_target list) gomap \<Rightarrow> bool" where
  "holds f S received \<longleftrightarrow> gwf received \<and> length received = card S \<and>
     (\<forall>i. gget received i = (if 0 \<le> i \<and> nat i \<in> S then Some (f (nat i)) else None))"

lemma holds_empty: "holds f {} []"
  by (simp add: holds_def)

lemma holds_put:
  assumes "holds f S received" and "finite S" and "j \<notin> S"
  shows "holds f (insert j S) (gput received (int j) (f j))"
proof -
  have "gget received (int j) = None" using assms(1,3) by (simp add: holds_def)
  then have "length (gput received (int j) (f j)) = Suc (length received)"
    by (simp add: gput_new)
  then show ?thesis
    using assms by (auto simp: holds_def gm.wf_put gm.get_put)
qed

lemma gatherChunks_ok:
  assumes "\<And>i. i \<in> set is \<Longrightarrow> gget received i = Some (g i)"
  shows "gatherChunks received is acc = Inr (acc @ concat (map g is))"
  using assms by (induction "is" arbitrary: acc) auto

lemma upto_map_int: "[0..int n - 1] = map int [0..<n]"
proof (induction n)
  case (Suc n)
  then show ?case by (simp add: upto_rec2)
qed simp

lemma gather_holds:
  assumes "holds f {0..<n} received"
  shows "gatherChunks received [0..int n - 1] [] = Inr (concat (map f [0..<n]))"
proof -
  have "gatherChunks received [0..int n - 1] [] = Inr ([] @ concat (map (\<lambda>i. f (nat i)) [0..int n - 1]))"
    using assms by (intro gatherChunks_ok) (auto simp: holds_def)
  then show ?thesis by (simp add: upto_map_int comp_def)
qed

lemma collect_step:
  assumes "mp_activeSnapshot m = Some \<lparr>sb_snapshotID = sid, sb_totalChunks = int n, sb_received = received,
      sb_complete = False\<rparr>"
    and "holds f S received" and "S \<subseteq> {0..<n}" and "j \<in> {0..<n} - S" and "card S + 1 < n"
    and "ds_SnapshotID ch = sid" "ds_TotalChunks ch = int n" "ds_ChunkIndex ch = int j" "ds_Targets ch = f j"
  shows "processSnapshot c ch m = (None, m\<lparr>mp_activeSnapshot := Some
      \<lparr>sb_snapshotID = sid, sb_totalChunks = int n, sb_received = gput received (int j) (f j), sb_complete = False\<rparr>\<rparr>)"
proof -
  have "finite S" using assms(3) by (rule finite_subset) simp
  moreover have "j \<notin> S" "j < n" using assms(4) by auto
  moreover from this have "gget received (int j) = None" using assms(2) by (simp add: holds_def)
  ultimately show ?thesis
    using assms(1,5-9) holds_put [OF assms(2), of j]
    by (simp add: processSnapshot_def collectSnapshot_def holds_def)
qed

lemma collect_last:
  assumes "mp_activeSnapshot m = Some \<lparr>sb_snapshotID = sid, sb_totalChunks = int n, sb_received = received,
      sb_complete = False\<rparr>"
    and "holds f S received" and "S \<subseteq> {0..<n}" and "j \<in> {0..<n} - S" and "card S + 1 = n"
    and "ds_SnapshotID ch = sid" "ds_TotalChunks ch = int n" "ds_ChunkIndex ch = int j" "ds_Targets ch = f j"
  obtains s where "processSnapshot c ch m = applySnapshot c s (m\<lparr>mp_activeSnapshot := Some s\<rparr>)"
    and "gatherChunks (sb_received s) [0..sb_totalChunks s - 1] [] = Inr (concat (map f [0..<n]))"
proof -
  have "finite S" using assms(3) by (rule finite_subset) simp
  have j: "j \<notin> S" "j < n" using assms(4) by auto
  then have none: "gget received (int j) = None" using assms(2) by (simp add: holds_def)
  have put: "holds f (insert j S) (gput received (int j) (f j))"
    by (rule holds_put [OF assms(2) \<open>finite S\<close> j(1)])
  moreover have "insert j S = {0..<n}"
    using assms(3,5) j \<open>finite S\<close> by (intro card_subset_eq) auto
  ultimately have "gatherChunks (gput received (int j) (f j)) [0..int n - 1] [] = Inr (concat (map f [0..<n]))"
    using gather_holds by simp
  with put show thesis
    using assms(1,5-9) none j \<open>finite S\<close>
    by (intro that [of "\<lparr>sb_snapshotID = sid, sb_totalChunks = int n,
          sb_received = gput received (int j) (f j), sb_complete = True\<rparr>"])
      (simp_all add: processSnapshot_def collectSnapshot_def holds_def Let_def)
qed

text \<open>The first chunk of a snapshot is collected into a fresh buffer.\<close>

lemma start_buffer:
  assumes "mp_activeSnapshot m = None"
  shows "processSnapshot c ch m = processSnapshot c ch
    (m\<lparr>mp_activeSnapshot := Some \<lparr>sb_snapshotID = ds_SnapshotID ch, sb_totalChunks = ds_TotalChunks ch,
       sb_received = [], sb_complete = False\<rparr>, mp_deferredEvents := []\<rparr>)"
  using assms by (simp add: processSnapshot_def startNewSnapshot_def Let_def)

text \<open>The chunks of a snapshot as the processor sees them, with normalised names.\<close>

definition chunkTargets :: "target_source \<Rightarrow> (nat \<Rightarrow> discovery_snapshot) \<Rightarrow> nat \<Rightarrow> discovered_target list" where
  "chunkTargets ts ch j = map (\<lambda>t. normalizeTarget t (m_Name (tso_Meta ts))) (ds_Targets (ch j))"

definition chunksOK :: "(nat \<Rightarrow> discovery_snapshot) \<Rightarrow> string \<Rightarrow> nat \<Rightarrow> bool" where
  "chunksOK ch sid n \<longleftrightarrow> (\<forall>j < n. ds_SnapshotID (ch j) = sid \<and> ds_TotalChunks (ch j) = int n \<and>
     ds_ChunkIndex (ch j) = int j)"

text \<open>What is left to do once a snapshot is applied.\<close>

definition appliedSnapshot ::
  "('w \<Rightarrow> store) \<Rightarrow> target_source \<Rightarrow> discovered_target list \<Rightarrow> 'w message_processor \<Rightarrow> 'w message_processor \<Rightarrow> bool" where
  "appliedSnapshot repr ts ds m m' \<longleftrightarrow>
     (\<exists>existing. (\<lambda>e. m_Name (t_Meta e)) ` set existing = ownedNames ts (repr (mp_world m)) \<and>
        repr (mp_world m') = snapshotStore ts existing ds (repr (mp_world m))) \<and>
     mp_activeSnapshot m' = None \<and> mp_targetCount m' = int32 (int (length ds)) \<and> mp_targetSource m' = ts"

lemma applySnapshot_applied:
  assumes "reliableClient c repr" and "mp_activeSnapshot m \<noteq> None"
    and "gatherChunks (sb_received s) [0..sb_totalChunks s - 1] [] = Inr ds"
  shows "\<exists>m'. applySnapshot c s m = (None, m') \<and> appliedSnapshot repr (mp_targetSource m) ds m m'"
  using applySnapshot_store [OF assms] unfolding appliedSnapshot_def by metis

lemma drain_chunks:
  assumes "reliableClient c repr" and "chunksOK ch sid n"
    and "mp_targetSource m = ts"
    and "mp_activeSnapshot m = Some \<lparr>sb_snapshotID = sid, sb_totalChunks = int n, sb_received = received,
      sb_complete = False\<rparr>"
    and "holds (chunkTargets ts ch) S received" and "distinct js" and "set js = {0..<n} - S"
    and "S \<subseteq> {0..<n}" and "js \<noteq> []"
  shows "\<exists>m'. drain c (map (\<lambda>j. Snapshot (ch j)) js) m = (False, m') \<and>
    appliedSnapshot repr ts (concat (map (chunkTargets ts ch) [0..<n])) m m'"
  using assms(3-9)
proof (induction js arbitrary: m S received)
  case (Cons j js)
  let ?f = "chunkTargets ts ch"
  let ?buf = "\<lambda>r. \<lparr>sb_snapshotID = sid, sb_totalChunks = int n, sb_received = r, sb_complete = False\<rparr>"
  let ?chunk = "(ch j)\<lparr>ds_Targets := ?f j\<rparr>"
  have fin: "finite S" using Cons.prems(6) by (rule finite_subset) simp
  have j: "j \<in> {0..<n} - S" using Cons.prems(5) by auto
  have rest: "set js = {0..<n} - insert j S" using Cons.prems(4,5) by auto
  have card: "card S + length (j # js) = n"
  proof -
    have "card ({0..<n} - S) = n - card S" using fin Cons.prems(6) by (simp add: card_Diff_subset)
    moreover have "card S \<le> n" using card_mono [OF _ Cons.prems(6)] by simp
    ultimately show ?thesis
      using distinct_card [OF Cons.prems(4)] Cons.prems(5) by simp
  qed
  have ch: "ds_SnapshotID ?chunk = sid" "ds_TotalChunks ?chunk = int n" "ds_ChunkIndex ?chunk = int j"
    "ds_Targets ?chunk = ?f j"
    using assms(2) j by (auto simp: chunksOK_def)
  let ?m = "m\<lparr>mp_queue := map (\<lambda>j. Snapshot (ch j)) js\<rparr>"
  have active: "mp_activeSnapshot ?m = Some (?buf received)" using Cons.prems(2) by simp
  have msg: "processMessage c (Snapshot (ch j)) ?m = processSnapshot c ?chunk ?m"
    using Cons.prems(1) reliable_live [OF assms(1)] by (simp add: processMessage_def chunkTargets_def)
  show ?case
  proof (cases js)
    case Nil
    with card have "card S + 1 = n" by simp
    then obtain s where s: "processSnapshot c ?chunk ?m = applySnapshot c s (?m\<lparr>mp_activeSnapshot := Some s\<rparr>)"
      "gatherChunks (sb_received s) [0..sb_totalChunks s - 1] [] = Inr (concat (map ?f [0..<n]))"
      by (rule collect_last [OF active Cons.prems(3,6) j _ ch])
    obtain m' where m': "applySnapshot c s (?m\<lparr>mp_activeSnapshot := Some s\<rparr>) = (None, m')"
      "appliedSnapshot repr ts (concat (map ?f [0..<n])) (?m\<lparr>mp_activeSnapshot := Some s\<rparr>) m'"
      using applySnapshot_applied [OF assms(1) _ s(2), of "?m\<lparr>mp_activeSnapshot := Some s\<rparr>"] Cons.prems(1)
      by auto
    then show ?thesis
      using Nil msg s(1) reliable_live [OF assms(1)] by (auto simp: appliedSnapshot_def)
  next
    case (Cons k ks)
    with card have "card S + 1 < n" by simp
    then have step: "processSnapshot c ?chunk ?m = (None, ?m\<lparr>mp_activeSnapshot :=
        Some (?buf (gput received (int j) (?f j)))\<rparr>)"
      by (rule collect_step [OF active Cons.prems(3,6) j _ ch])
    let ?m1 = "?m\<lparr>mp_activeSnapshot := Some (?buf (gput received (int j) (?f j)))\<rparr>"
    have "\<exists>m'. drain c (map (\<lambda>j. Snapshot (ch j)) js) ?m1 = (False, m') \<and>
        appliedSnapshot repr ts (concat (map ?f [0..<n])) ?m1 m'"
      using Cons.prems(1,4,6) j rest local.Cons
      by (intro Cons.IH [of _ "gput received (int j) (?f j)" "insert j S"] holds_put [OF Cons.prems(3) fin]) auto
    then show ?thesis
      using msg step reliable_live [OF assms(1)] by (simp add: appliedSnapshot_def)
  qed
qed simp

section \<open>An in-memory client\<close>

definition memClient :: "target list k8s_client" where
  "memClient =
     \<lparr>kc_ctxDone = (\<lambda>w. False), kc_now = (\<lambda>w. 1),
      kc_list = (\<lambda>w ns k v. Inr (filter (\<lambda>t. memStore w (ns, m_Name (t_Meta t)) = Some t \<and>
        gget (m_Labels (t_Meta t)) k = Some v) w)),
      kc_get = (\<lambda>w ns n. case memStore w (ns, n) of None \<Rightarrow> Inl NotFound | Some t \<Rightarrow> Inr t),
      kc_delete = (\<lambda>ns n w. (None, filter (\<lambda>t. \<not> isObject ns n t) w)),
      kc_createOrUpdate = (\<lambda>ns n f w. case f (stored (memStore w) ns n) of
        Inl e \<Rightarrow> (Some e, w) | Inr t \<Rightarrow> (None, t # filter (\<lambda>t. \<not> isObject ns n t) w)),
      kc_setControllerReference = (\<lambda>ts t. Inr t),
      kc_getSource = (\<lambda>w ns n. Inl NotFound),
      kc_updateSourceStatus = (\<lambda>s w. (None, w)),
      kc_retryOnConflict = (\<lambda>f w. f w)\<rparr>"

lemma memClient_reliable: "reliableClient memClient memStore"
proof -
  have "set (filter (\<lambda>t. memStore w (ns, m_Name (t_Meta t)) = Some t \<and> gget (m_Labels (t_Meta t)) k = Some v) w) =
      {t. \<exists>n. memStore w (ns, n) = Some t \<and> gget (m_Labels (t_Meta t)) k = Some v}" for w ns k v
    using memStore_key by fastforce
  then show ?thesis
    by (simp add: reliableClient_def memClient_def memStore_filter memStore_Cons)
qed

section \<open>From the loader to the cluster\<close>

lemma drain_snapshot:
  assumes "reliableClient c repr" and "chunksOK ch sid n" and "mp_activeSnapshot m = None"
    and "distinct js" and "set js = {0..<n}" and "0 < n"
  shows "\<exists>m'. drain c (map (\<lambda>j. Snapshot (ch j)) js) m = (False, m') \<and>
    appliedSnapshot repr (mp_targetSource m)
      (concat (map (chunkTargets (mp_targetSource m) ch) [0..<n])) m m'"
proof -
  obtain j ks where js: "js = j # ks" using assms(5,6) by (cases js) auto
  let ?buf = "\<lparr>sb_snapshotID = sid, sb_totalChunks = int n, sb_received = [], sb_complete = False\<rparr>"
  let ?m = "m\<lparr>mp_activeSnapshot := Some ?buf, mp_deferredEvents := []\<rparr>"
  have "j < n" using assms(5) js by auto
  then have ids: "ds_SnapshotID (ch j) = sid" "ds_TotalChunks (ch j) = int n"
    using assms(2) by (simp_all add: chunksOK_def)
  have comm: "?m\<lparr>mp_queue := q\<rparr> =
      m\<lparr>mp_queue := q, mp_activeSnapshot := Some ?buf, mp_deferredEvents := []\<rparr>" for q
    by (cases m) simp
  have "processMessage c (Snapshot (ch j)) (m\<lparr>mp_queue := q\<rparr>) =
      processMessage c (Snapshot (ch j)) (?m\<lparr>mp_queue := q\<rparr>)" for q
    unfolding comm using start_buffer [of "m\<lparr>mp_queue := q\<rparr>" c "(ch j)\<lparr>ds_Targets := ds\<rparr>" for ds] assms(3) ids
      reliable_live [OF assms(1)]
    by (simp add: processMessage_def)
  then have "drain c (map (\<lambda>j. Snapshot (ch j)) js) m = drain c (map (\<lambda>j. Snapshot (ch j)) js) ?m"
    using reliable_live [OF assms(1)] by (simp add: js)
  moreover have "\<exists>m'. drain c (map (\<lambda>j. Snapshot (ch j)) js) ?m = (False, m') \<and>
      appliedSnapshot repr (mp_targetSource m) (concat (map (chunkTargets (mp_targetSource m) ch) [0..<n])) ?m m'"
    using assms js by (intro drain_chunks [OF assms(1,2), of _ _ "[]" "{}"]) (auto simp: holds_empty)
  ultimately show ?thesis
    by (simp add: appliedSnapshot_def)
qed

lemma drain_queue: "drain c q m = (False, m') \<Longrightarrow> mp_queue m' = []"
  by (induction q arbitrary: m) (auto split: if_splits prod.splits option.splits)

text \<open>No operation looks at the queue.\<close>

definition setQueue :: "discovery_message list \<Rightarrow> 'w message_processor \<Rightarrow> 'w message_processor" where
  "setQueue q m = m\<lparr>mp_queue := q\<rparr>"

lemma setQueue_fields [simp]:
  "mp_targetSource (setQueue q m) = mp_targetSource m"
  "mp_activeSnapshot (setQueue q m) = mp_activeSnapshot m"
  "mp_deferredEvents (setQueue q m) = mp_deferredEvents m"
  "mp_targetCount (setQueue q m) = mp_targetCount m"
  "mp_world (setQueue q m) = mp_world m"
  "mp_queue (setQueue q m) = q"
  "setQueue q (setQueue r m) = setQueue q m"
  by (simp_all add: setQueue_def)

lemma setQueue_updates [simp]:
  "(setQueue q m)\<lparr>mp_activeSnapshot := s\<rparr> = setQueue q (m\<lparr>mp_activeSnapshot := s\<rparr>)"
  "(setQueue q m)\<lparr>mp_deferredEvents := es\<rparr> = setQueue q (m\<lparr>mp_deferredEvents := es\<rparr>)"
  "(setQueue q m)\<lparr>mp_targetCount := n\<rparr> = setQueue q (m\<lparr>mp_targetCount := n\<rparr>)"
  "(setQueue q m)\<lparr>mp_world := w\<rparr> = setQueue q (m\<lparr>mp_world := w\<rparr>)"
  by (simp_all add: setQueue_def)

lemma updateStatus_queue: "updateStatus c (setQueue q m) = setQueue q (updateStatus c m)"
  by (simp add: updateStatus_def)

lemma applyEvent_queue: "applyEvent c e (setQueue q m) = apsnd (setQueue q) (applyEvent c e m)"
  by (cases "de_Event e") (simp_all add: applyEvent_def case_prod_beta Let_def)

lemma applyEvents_queue:
  "fold (\<lambda>e m. snd (applyEvent c e m)) es (setQueue q m) = setQueue q (fold (\<lambda>e m. snd (applyEvent c e m)) es m)"
  by (induction es arbitrary: m) (simp_all add: applyEvent_queue)

lemma processEvent_queue: "processEvent c e (setQueue q m) = apsnd (setQueue q) (processEvent c e m)"
  by (cases "applyEvent c e m")
    (simp add: processEvent_def applyEvent_queue updateStatus_queue Let_def split: event_action.split)

lemma replay_queue:
  "replay c es (setQueue q m) = map_sum (apsnd (setQueue q)) (setQueue q) (replay c es m)"
  by (induction es arbitrary: m)
    (auto simp: processEvent_queue split: prod.splits option.splits)

lemma applySnapshot_queue: "applySnapshot c s (setQueue q m) = apsnd (setQueue q) (applySnapshot c s m)"
  by (simp add: applySnapshot_def applyEvents_queue replay_queue updateStatus_queue resetSnapshot_def
      Let_def split: sum.split)

lemma collectSnapshot_queue:
  "collectSnapshot c ch s (setQueue q m) = apsnd (setQueue q) (collectSnapshot c ch s m)"
  by (simp add: collectSnapshot_def applySnapshot_queue resetSnapshot_def Let_def)

lemma startNewSnapshot_queue: "startNewSnapshot c ch (setQueue q m) = apsnd (setQueue q) (startNewSnapshot c ch m)"
  by (simp add: startNewSnapshot_def collectSnapshot_queue Let_def)

lemma processSnapshot_queue: "processSnapshot c ch (setQueue q m) = apsnd (setQueue q) (processSnapshot c ch m)"
  by (auto simp: processSnapshot_def applySnapshot_queue startNewSnapshot_queue collectSnapshot_queue
      split: option.split prod.split)

lemma processMessage_queue: "processMessage c msg (setQueue q m) = apsnd (setQueue q) (processMessage c msg m)"
  by (simp add: processMessage_def processSnapshot_queue processEvent_queue Let_def
      split: discovery_message.split)

text \<open>The loop over batches of one message each is the loop over the queue of the messages.\<close>

lemma drain_setQueue: "msgs \<noteq> [] \<Longrightarrow> (\<And>w. \<not> kc_ctxDone c w) \<Longrightarrow> drain c msgs (setQueue q m) = drain c msgs m"
  by (cases msgs) (simp_all flip: setQueue_def)

lemma runBatches_single:
  assumes "\<And>w. \<not> kc_ctxDone c w" and "mp_queue m = []" and "drain c msgs m = (False, m')"
  shows "runBatches c (map (\<lambda>x. [x]) msgs) m = m'"
  using assms(2,3)
proof (induction msgs arbitrary: m)
  case Nil
  then show ?case by (cases m) simp
next
  case (Cons x msgs)
  obtain m1 where m1: "processMessage c x m = (None, m1)"
    and rest: "drain c msgs (setQueue msgs m1) = (False, m')"
    using Cons.prems(2) assms(1)
    by (cases "processMessage c x m")
      (auto simp: processMessage_queue simp flip: setQueue_def split: option.splits)
  have "drain c [x] m = (False, setQueue [] m1)"
    using assms(1) m1 by (simp add: processMessage_queue flip: setQueue_def)
  moreover have "drain c msgs (setQueue [] m1) = (False, m')"
    using rest drain_setQueue [OF _ assms(1), of msgs _ m1] by (cases msgs) simp_all
  ultimately show ?case
    using Cons.IH [of "setQueue [] m1"] Cons.prems(1) assms(1) by simp
qed

lemma snapshot_end_to_end:
  assumes "reliableClient c repr" and "targets \<noteq> []" and "0 < chunkSize"
    and "mp_activeSnapshot m = None" and "mp_queue m = []"
  obtains batches where "SendSnapshot None targets sid chunkSize [] = Some (Inr batches)"
    and "appliedSnapshot repr (mp_targetSource m)
      (map (\<lambda>t. normalizeTarget t (m_Name (tso_Meta (mp_targetSource m)))) targets) m (runBatches c batches m)"
proof -
  obtain n where n: "createDiscoverySnapshots targets sid chunkSize =
      Some (Inr (map (chunkOf targets sid chunkSize (int n)) [0..<n]))" "length targets \<le> n * nat chunkSize"
    using createDiscoverySnapshots_chunks [OF assms(3)] by blast
  let ?ch = "chunkOf targets sid chunkSize (int n)"
  let ?norm = "\<lambda>t. normalizeTarget t (m_Name (tso_Meta (mp_targetSource m)))"
  let ?msgs = "map (\<lambda>j. Snapshot (?ch j)) [0..<n]"
  have "0 < n" using n(2) assms(2) by (cases n) auto
  have "foldE (\<lambda>s. sendMessages None [Snapshot s]) ss out = Inr (out @ map (\<lambda>s. [Snapshot s]) ss)" for ss out
    by (induction ss arbitrary: out) (simp_all add: sendMessages_def)
  then have send: "SendSnapshot None targets sid chunkSize [] = Some (Inr (map (\<lambda>x. [x]) ?msgs))"
    using n(1) assms(2) by (simp add: SendSnapshot_def comp_def)
  have "concat (map (chunkTargets (mp_targetSource m) ?ch) [0..<n]) = map ?norm targets"
  proof -
    have "concat (map (chunkTargets (mp_targetSource m) ?ch) [0..<n]) =
        map ?norm (concat (map (\<lambda>j. take (nat chunkSize) (drop (j * nat chunkSize) targets)) [0..<n]))"
      by (simp add: map_concat comp_def chunkTargets_def [abs_def] chunkOf_def)
    then show ?thesis using n(2) by (simp add: concat_chunks)
  qed
  moreover obtain m' where "drain c ?msgs m = (False, m')"
    "appliedSnapshot repr (mp_targetSource m) (concat (map (chunkTargets (mp_targetSource m) ?ch) [0..<n])) m m'"
    using drain_snapshot [OF assms(1) _ assms(4), of ?ch sid n "[0..<n]"] \<open>0 < n\<close>
    by (auto simp: chunksOK_def chunkOf_def)
  moreover from this(1) have "runBatches c (map (\<lambda>x. [x]) ?msgs) m = m'"
    by (rule runBatches_single [OF reliable_live [OF assms(1)] assms(5)])
  ultimately show thesis
    using that [OF send] by simp
qed

lemma appliedSnapshot_names:
  assumes "appliedSnapshot repr ts ds m m'"
  shows "ownedNames ts (repr (mp_world m')) = dt_Name ` set ds"
  using assms snapshotStore_owned unfolding appliedSnapshot_def by metis

lemma appliedSnapshot_specs:
  assumes "appliedSnapshot repr ts ds m m'" and "lastNamed ds n = Some d"
  shows "\<exists>t. repr (mp_world m') (m_Namespace (tso_Meta ts), n) = Some t \<and>
    t_Spec t = t_Spec (generateTargetResource d ts) \<and>
    m_Labels (t_Meta t) = m_Labels (t_Meta (generateTargetResource d ts))"
  using assms(1) applies_store [OF assms(2)] unfolding appliedSnapshot_def
  by (metis (no_types, lifting) snapshotStore_get)

lemma appliedSnapshot_others:
  assumes "appliedSnapshot repr ts ds m m'"
    and "s \<noteq> m_Namespace (tso_Meta ts) \<or> n \<notin> dt_Name ` set ds \<union> ownedNames ts (repr (mp_world m))"
  shows "repr (mp_world m') (s, n) = repr (mp_world m) (s, n)"
proof -
  obtain existing where ex: "(\<lambda>e. m_Name (t_Meta e)) ` set existing = ownedNames ts (repr (mp_world m))"
    "repr (mp_world m') = snapshotStore ts existing ds (repr (mp_world m))"
    using assms(1) by (auto simp: appliedSnapshot_def)
  then show ?thesis
    using assms(2) by (auto simp: snapshotStore_get applies_store_other)
qed

section \<open>The buffer between messages\<close>

text \<open>Between messages the active snapshot is incomplete: at least one of its chunks is missing.\<close>

definition bufferOK :: "'w message_processor \<Rightarrow> bool" where
  "bufferOK m \<longleftrightarrow> (case mp_activeSnapshot m of
     None \<Rightarrow> True
   | Some s \<Rightarrow> \<not> sb_complete s \<and> gwf (sb_received s) \<and>
       set (gkeys (sb_received s)) \<subseteq> {0..<sb_totalChunks s} \<and>
       int (length (sb_received s)) < sb_totalChunks s)"

lemma applySnapshot_inactive:
  assumes "\<And>w. \<not> kc_ctxDone c w" and "mp_activeSnapshot m \<noteq> None"
  shows "mp_activeSnapshot (snd (applySnapshot c s m)) = None"
proof (cases "gatherChunks (sb_received s) [0..sb_totalChunks s - 1] []")
  case (Inl i)
  then show ?thesis using assms(1) by (simp add: applySnapshot_def resetSnapshot_def)
next
  case (Inr ds)
  then show ?thesis using applySnapshot_live [OF assms Inr] by (simp add: Let_def)
qed

lemma collectSnapshot_bufferOK:
  assumes "\<And>w. \<not> kc_ctxDone c w" and "gwf (sb_received s)" and "\<not> sb_complete s"
    and "set (gkeys (sb_received s)) \<subseteq> {0..<sb_totalChunks s}"
    and "mp_activeSnapshot m = Some s"
    and "int (length (sb_received s)) < sb_totalChunks s \<or> ds_TotalChunks ch = sb_totalChunks s"
  shows "bufferOK (snd (collectSnapshot c ch s m))"
proof -
  let ?i = "ds_ChunkIndex ch"
  let ?s = "s\<lparr>sb_received := gput (sb_received s) ?i (ds_Targets ch)\<rparr>"
  consider "ds_TotalChunks ch \<noteq> sb_totalChunks s"
    | "ds_TotalChunks ch = sb_totalChunks s" "?i < 0 \<or> sb_totalChunks s \<le> ?i \<or> gget (sb_received s) ?i \<noteq> None"
    | "ds_TotalChunks ch = sb_totalChunks s" "0 \<le> ?i" "?i < sb_totalChunks s" "gget (sb_received s) ?i = None"
    by linarith
  then show ?thesis
  proof cases
    case 1
    then show ?thesis using assms by (auto simp: collectSnapshot_def bufferOK_def)
  next
    case 2
    then show ?thesis by (auto simp: collectSnapshot_def bufferOK_def resetSnapshot_def)
  next
    case 3
    have wf: "gwf (sb_received ?s)" "set (gkeys (sb_received ?s)) \<subseteq> {0..<sb_totalChunks s}"
      using assms(2,4) 3 by (simp_all add: gm.wf_put gm.keys_put)
    have "int (length (sb_received ?s)) \<le> sb_totalChunks s"
      using card_mono [OF _ wf(2)] distinct_card [OF gm.keys_distinct [OF wf(1)]] 3
      by (simp add: gkeys_def)
    then show ?thesis
      using 3 wf assms(3) applySnapshot_inactive [OF assms(1), of "m\<lparr>mp_activeSnapshot := Some (?s\<lparr>sb_complete := True\<rparr>)\<rparr>"]
      by (auto simp: collectSnapshot_def bufferOK_def Let_def)
  qed
qed

lemma startNewSnapshot_bufferOK:
  "(\<And>w. \<not> kc_ctxDone c w) \<Longrightarrow> bufferOK (snd (startNewSnapshot c ch m))"
  unfolding startNewSnapshot_def Let_def by (rule collectSnapshot_bufferOK) simp_all

lemma processMessage_bufferOK:
  assumes "\<And>w. \<not> kc_ctxDone c w" and "bufferOK m"
  shows "bufferOK (snd (processMessage c msg m))"
proof (cases msg)
  case (Snapshot ch)
  have "bufferOK (snd (processSnapshot c ch' m))" for ch'
  proof (cases "mp_activeSnapshot m")
    case None
    then show ?thesis using startNewSnapshot_bufferOK [OF assms(1)] by (simp add: processSnapshot_def)
  next
    case (Some s)
    with assms(2) have "\<not> sb_complete s" "bufferOK (snd (collectSnapshot c ch' s m))"
      using collectSnapshot_bufferOK [OF assms(1), of s m ch'] by (auto simp: bufferOK_def)
    with Some show ?thesis
      using startNewSnapshot_bufferOK [OF assms(1)] by (simp add: processSnapshot_def)
  qed
  with Snapshot show ?thesis using assms(1) by (simp add: processMessage_def)
next
  case (Event e)
  have "mp_activeSnapshot (snd (processEvent c e' m)) = mp_activeSnapshot m" for e'
    by (simp add: processEvent_def case_prod_beta Let_def)
  with Event assms show ?thesis by (simp add: processMessage_def bufferOK_def)
qed

text \<open>The states a processor can be in while its context is alive.\<close>

inductive reachable :: "'w k8s_client \<Rightarrow> 'w message_processor \<Rightarrow> bool" for c where
  start: "reachable c (NewMessageProcessor ts w)"
| step: "reachable c m \<Longrightarrow> processMessage c msg m = (r, m') \<Longrightarrow> reachable c m'"

inductive_cases reachableE: "reachable c m"

lemma reachable_bufferOK:
  assumes "reachable c m" and "\<And>w. \<not> kc_ctxDone c w"
  shows "bufferOK m"
  using assms(1)
proof induction
  case (start ts w)
  then show ?case by (simp add: bufferOK_def NewMessageProcessor_def)
next
  case (step m msg r m')
  then show ?case using processMessage_bufferOK [OF assms(2), of m msg] by simp
qed

section \<open>Properties\<close>

definition exSource :: target_source where
  "exSource = \<lparr>tso_Meta = \<lparr>m_Name = ''s1'', m_Namespace = ''n'', m_Labels = [], m_Generation = 1, m_ResourceVersion = [],
       m_Finalizers = [], m_Deleting = False\<rparr>,
     tso_Spec = \<lparr>tss_HTTP = None, tss_TargetPort = 57400, tss_TargetLabels = [(''env'', ''lab'')],
       tss_TargetProfile = ''default''\<rparr>,
     tso_Status = \<lparr>tsst_Status = [], tsst_ObservedGeneration = 0, tsst_TargetsCount = 0, tsst_LastSync = 0\<rparr>\<rparr>"

definition exDiscovered :: "string \<Rightarrow> discovered_target" where
  "exDiscovered name = \<lparr>dt_Name = name, dt_Address = ''10.0.0.1'', dt_Port = 0, dt_Labels = [], dt_TargetProfile = []\<rparr>"

definition exWorld :: "target list" where
  "exWorld = [generateTargetResource (exDiscovered ''s1-old'') exSource]"

text \<open>
  A loader's snapshot, cut into chunks of any positive size, sent and processed, leaves in the
  cluster exactly the discovered targets of the source: its label is on their (prefixed) names and
  on no others, each has the specification and labels generated for it, and no other target has
  changed.
\<close>

theorem snapshot_converges:
  fixes m :: "'w message_processor"
  assumes "reliableClient c repr" and "targets \<noteq> []" and "0 < chunkSize"
    and "mp_activeSnapshot m = None" and "mp_queue m = []"
  shows "\<exists>batches. SendSnapshot None targets sid chunkSize [] = Some (Inr batches) \<and>
    (let m' = runBatches c batches m; ts = mp_targetSource m;
         ds = map (\<lambda>t. normalizeTarget t (m_Name (tso_Meta ts))) targets
     in ownedNames ts (repr (mp_world m')) = dt_Name ` set ds
      \<and> (\<forall>n d. lastNamed ds n = Some d \<longrightarrow>
           (\<exists>t. repr (mp_world m') (m_Namespace (tso_Meta ts), n) = Some t \<and>
              t_Spec t = t_Spec (generateTargetResource d ts) \<and>
              m_Labels (t_Meta t) = m_Labels (t_Meta (generateTargetResource d ts))))
      \<and> (\<forall>s n. s \<noteq> m_Namespace (tso_Meta ts) \<or> n \<notin> dt_Name ` set ds \<union> ownedNames ts (repr (mp_world m)) \<longrightarrow>
           repr (mp_world m') (s, n) = repr (mp_world m) (s, n))
      \<and> mp_activeSnapshot m' = None \<and> mp_targetCount m' = int32 (int (length targets)))"
proof -
  obtain batches where send: "SendSnapshot None targets sid chunkSize [] = Some (Inr batches)"
    and applied: "appliedSnapshot repr (mp_targetSource m)
      (map (\<lambda>t. normalizeTarget t (m_Name (tso_Meta (mp_targetSource m)))) targets) m (runBatches c batches m)"
    by (rule snapshot_end_to_end [OF assms])
  have "mp_activeSnapshot (runBatches c batches m) = None \<and>
      mp_targetCount (runBatches c batches m) = int32 (int (length targets))"
    using applied by (simp add: appliedSnapshot_def)
  then show ?thesis
    using send appliedSnapshot_names [OF applied] appliedSnapshot_specs [OF applied]
      appliedSnapshot_others [OF applied]
    unfolding Let_def by blast
qed

theorem snapshot_converges_witness:
  "\<exists>batches. SendSnapshot None [exDiscovered ''a'', exDiscovered ''b''] ''id'' 1 [] = Some (Inr batches) \<and>
     ownedNames exSource (memStore (mp_world (runBatches memClient batches (NewMessageProcessor exSource exWorld))))
       = {''s1-a'', ''s1-b''}"
proof -
  have names: "dt_Name ` set (map (\<lambda>t. normalizeTarget t (m_Name (tso_Meta exSource)))
      [exDiscovered ''a'', exDiscovered ''b'']) = {''s1-a'', ''s1-b''}"
    by (simp add: normalizeTarget_def exSource_def exDiscovered_def)
  show ?thesis
    using snapshot_converges [OF memClient_reliable, of "[exDiscovered ''a'', exDiscovered ''b'']" 1
        "NewMessageProcessor exSource exWorld" "''id''"] names
    by (fastforce simp: NewMessageProcessor_def Let_def)
qed

text \<open>
  The chunks of a snapshot may arrive in any order: whatever the order, the processor applies
  the targets in the order of the chunk indices, all at once and without an error.
\<close>

theorem snapshot_any_order:
  assumes "reliableClient c repr" and "chunksOK ch sid n" and "mp_activeSnapshot m = None"
    and "distinct js" and "set js = {0..<n}" and "0 < n"
  shows "\<exists>m'. drain c (map (\<lambda>j. Snapshot (ch j)) js) m = (False, m') \<and>
    appliedSnapshot repr (mp_targetSource m)
      (concat (map (chunkTargets (mp_targetSource m) ch) [0..<n])) m m'"
  by (rule drain_snapshot [OF assms])

theorem snapshot_any_order_witness:
  "\<exists>m'. drain memClient (map (\<lambda>j. Snapshot (chunkOf [exDiscovered ''a'', exDiscovered ''b''] ''id'' 1 2 j)) [1, 0])
       (NewMessageProcessor exSource exWorld) = (False, m') \<and>
     ownedNames exSource (memStore (mp_world m')) = {''s1-a'', ''s1-b''}"
proof -
  let ?ch = "chunkOf [exDiscovered ''a'', exDiscovered ''b''] ''id'' 1 2"
  have ok: "chunksOK ?ch ''id'' 2" by (simp add: chunksOK_def chunkOf_def)
  have "dt_Name ` set (concat (map (chunkTargets exSource ?ch) [0..<2])) = {''s1-a'', ''s1-b''}"
    by (simp add: upt_rec chunkTargets_def chunkOf_def normalizeTarget_def exSource_def exDiscovered_def)
  then show ?thesis
    using snapshot_any_order [OF memClient_reliable ok, of "NewMessageProcessor exSource exWorld" "[1, 0]"]
      appliedSnapshot_names
    by (fastforce simp: NewMessageProcessor_def)
qed

text \<open>
  C39: Events that arrive while a snapshot is being collected are lost: applying the completed
  snapshot gives the same state whatever the deferred events are, and clears them.
\<close>

theorem deferred_events_lost:
  assumes "\<And>w. \<not> kc_ctxDone c w" and "mp_activeSnapshot m \<noteq> None"
    and "gatherChunks (sb_received s) [0..sb_totalChunks s - 1] [] = Inr ds"
  shows "applySnapshot c s (m\<lparr>mp_deferredEvents := es\<rparr>) = applySnapshot c s (m\<lparr>mp_deferredEvents := []\<rparr>)
    \<and> mp_deferredEvents (snd (applySnapshot c s (m\<lparr>mp_deferredEvents := es\<rparr>))) = []"
proof -
  have upd: "(updateStatus c ((x\<lparr>mp_deferredEvents := xs\<rparr>)\<lparr>mp_targetCount := k\<rparr>))
      \<lparr>mp_activeSnapshot := None, mp_deferredEvents := []\<rparr> =
      (updateStatus c (x\<lparr>mp_targetCount := k\<rparr>))\<lparr>mp_activeSnapshot := None, mp_deferredEvents := []\<rparr>"
    for x :: "'a message_processor" and xs k
    by (simp add: updateStatus_def)
  have "applySnapshot c s (m\<lparr>mp_deferredEvents := xs\<rparr>) =
    (let existing = (case fetchExistingTargets c (mp_targetSource m) (mp_world m) of Inl e \<Rightarrow> [] | Inr ts \<Rightarrow> ts);
         m1 = fold (\<lambda>e m. snd (applyEvent c e m)) (generateEvents existing ds) m
     in (None, (updateStatus c (m1\<lparr>mp_targetCount := int32 (int (length ds))\<rparr>))
          \<lparr>mp_activeSnapshot := None, mp_deferredEvents := []\<rparr>))" for xs
    using applySnapshot_live [OF assms(1) _ assms(3), of "m\<lparr>mp_deferredEvents := xs\<rparr>"] assms(2)
    by (simp add: applyEvents_deferred Let_def upd)
  then show ?thesis by (simp add: Let_def)
qed

theorem deferred_events_lost_witness:
  "\<exists>s ds. gatherChunks (sb_received s) [0..sb_totalChunks s - 1] [] = Inr ds \<and> ds \<noteq> [] \<and>
     applySnapshot memClient s ((NewMessageProcessor exSource exWorld)
       \<lparr>mp_activeSnapshot := Some s, mp_deferredEvents := [deleteEvent ''s1-a'']\<rparr>) =
     applySnapshot memClient s ((NewMessageProcessor exSource exWorld)
       \<lparr>mp_activeSnapshot := Some s, mp_deferredEvents := []\<rparr>)"
proof -
  let ?s = "\<lparr>sb_snapshotID = ''id'', sb_totalChunks = 1, sb_received = [(0, [exDiscovered ''s1-a''])], sb_complete = True\<rparr>"
  have g: "gatherChunks (sb_received ?s) [0..sb_totalChunks ?s - 1] [] = Inr [exDiscovered ''s1-a'']"
    by (simp add: gget_def)
  show ?thesis
    using deferred_events_lost [of memClient "(NewMessageProcessor exSource exWorld)\<lparr>mp_activeSnapshot := Some ?s\<rparr>" ?s
        "[exDiscovered ''s1-a'']" "[deleteEvent ''s1-a'']"] g reliable_live [OF memClient_reliable]
    by (intro exI [of _ ?s] exI [of _ "[exDiscovered ''s1-a'']"]) simp
qed

text \<open>
  While its context is alive, a processor never holds a complete snapshot between two messages:
  the buffer lacks at least one chunk and holds chunks with valid indices only, so a snapshot is
  applied as soon as it is complete.
\<close>

theorem buffer_incomplete:
  assumes "reachable c m" and "\<And>w. \<not> kc_ctxDone c w" and "mp_activeSnapshot m = Some s"
  shows "\<not> sb_complete s \<and> set (gkeys (sb_received s)) \<subset> {0..<sb_totalChunks s}"
proof -
  have ok: "\<not> sb_complete s" "gwf (sb_received s)" "set (gkeys (sb_received s)) \<subseteq> {0..<sb_totalChunks s}"
    "int (length (sb_received s)) < sb_totalChunks s"
    using reachable_bufferOK [OF assms(1,2)] assms(3) by (auto simp: bufferOK_def)
  have "card (set (gkeys (sb_received s))) = length (sb_received s)"
    using distinct_card [OF gm.keys_distinct [OF ok(2)]] by (simp add: gkeys_def)
  with ok(4) have "set (gkeys (sb_received s)) \<noteq> {0..<sb_totalChunks s}" by auto
  with ok show ?thesis by blast
qed

theorem buffer_incomplete_witness:
  "\<exists>m s. reachable memClient m \<and> mp_activeSnapshot m = Some s \<and> \<not> sb_complete s \<and>
     set (gkeys (sb_received s)) \<subset> {0..<sb_totalChunks s}"
proof -
  let ?ch = "chunkOf [exDiscovered ''a'', exDiscovered ''b''] ''id'' 1 2 1"
  obtain r m where m: "processMessage memClient (Snapshot ?ch) (NewMessageProcessor exSource exWorld) = (r, m)"
    by fastforce
  then have "mp_activeSnapshot m \<noteq> None"
    by (auto simp: processMessage_def processSnapshot_def startNewSnapshot_def collectSnapshot_def
        NewMessageProcessor_def chunkOf_def memClient_def Let_def gput_def)
  then obtain s where "mp_activeSnapshot m = Some s" by blast
  moreover have "reachable memClient m" by (rule reachable.step [OF reachable.start m])
  ultimately show ?thesis
    using buffer_incomplete [of memClient m s] reliable_live [OF memClient_reliable] by blast
qed

end
