(* ===== verification/Target_State.thy ===== *)
theory Target_State
  imports Api_Types Naming
begin

text \<open>
  The collection of target states: \<^verbatim>\<open>internal/controller/targetstate_controller.go\<close> and the event
  stream of \<^verbatim>\<open>internal/gnmic/sse.go\<close>. Pods report the state of their targets as server-sent events and
  on a periodic poll; the reconciler keeps one stream per pod and writes the states into
  \<^verbatim>\<open>status.clusterStates\<close> of the Target resources.

  The client is a record of functions over a world \<open>'w\<close>; every request passes the world on, so that
  other writers may act between two requests. JSON decoding is a parameter.
\<close>

section \<open>Server-sent events\<close>

record sse_event_data =
  sd_Timestamp :: time
  sd_Store :: string
  sd_Kind :: string
  sd_Name :: string
  sd_EventType :: string
  sd_Object :: string

record sse_event =
  se_EventType :: string
  se_Data :: sse_event_data

record target_state_object =
  so_IntendedState :: string
  so_State :: string
  so_FailedReason :: string
  so_LastUpdated :: time
  so_ConnectionState :: string
  so_Subscriptions :: "(string, string) gomap"

definition SSEEventCreate :: string where "SSEEventCreate = ''create''"
definition SSEEventUpdate :: string where "SSEEventUpdate = ''update''"
definition SSEEventDelete :: string where "SSEEventDelete = ''delete''"
definition SSEStoreState :: string where "SSEStoreState = ''state''"

text \<open>\<^verbatim>\<open>strings.CutPrefix\<close>.\<close>

definition CutPrefix :: "string \<Rightarrow> string \<Rightarrow> string option" where
  "CutPrefix s p = (if HasPrefix s p then Some (drop (length p) s) else None)"

text \<open>
  The loop of \<^verbatim>\<open>StreamTargetState\<close> over the lines of the response: the events it sends to the channel.
  \<open>parse\<close> is \<^verbatim>\<open>json.Unmarshal\<close> into the event data, \<open>None\<close> for an error.
\<close>

fun streamLines :: "(string \<Rightarrow> sse_event_data option) \<Rightarrow> string \<Rightarrow> string list \<Rightarrow> sse_event list" where
  "streamLines parse cur [] = []"
| "streamLines parse cur (line # lines) =
     (if HasPrefix line '':'' then streamLines parse cur lines
      else if line = [] then streamLines parse [] lines
      else case CutPrefix line ''event: '' of
             Some after \<Rightarrow> streamLines parse after lines
           | None \<Rightarrow>
               (case CutPrefix line ''data: '' of
                  None \<Rightarrow> streamLines parse cur lines
                | Some dataStr \<Rightarrow>
                    (case parse dataStr of
                       None \<Rightarrow> streamLines parse cur lines
                     | Some d \<Rightarrow>
                         if sd_Kind d \<noteq> ''targets'' \<or> sd_Store d \<noteq> SSEStoreState
                         then streamLines parse cur lines
                         else \<lparr>se_EventType = cur, se_Data = d\<rparr> # streamLines parse cur lines)))"

text \<open>
  The whole call, from what the HTTP request gave: an error, or a status with the lines read and the
  scanner's error. The result is the error returned and the events sent.
\<close>

definition StreamTargetState ::
  "(string \<Rightarrow> sse_event_data option) \<Rightarrow> string + (int \<times> string list \<times> string option) \<Rightarrow> string option \<times> sse_event list" where
  "StreamTargetState parse resp =
     (case resp of
        Inl e \<Rightarrow> (Some (''SSE connection failed: '' @ e), [])
      | Inr (status, lines, scanErr) \<Rightarrow>
          if status \<noteq> 200 then (Some (''SSE endpoint returned status '' @ Itoa status), [])
          else (map_option (\<lambda>e. ''SSE stream error: '' @ e) scanErr, streamLines parse [] lines))"

record poll_target_entry =
  pe_Name :: string
  pe_State :: "target_state_object option"

definition PollTargetState ::
  "(string \<Rightarrow> string + poll_target_entry list) \<Rightarrow> string + (int \<times> string) \<Rightarrow> string + poll_target_entry list" where
  "PollTargetState decode resp =
     (case resp of
        Inl e \<Rightarrow> Inl (''poll request failed: '' @ e)
      | Inr (status, body) \<Rightarrow>
          if status \<noteq> 200 then Inl (''poll endpoint returned status '' @ Itoa status)
          else (case decode body of Inl e \<Rightarrow> Inl (''failed to decode poll response: '' @ e) | Inr es \<Rightarrow> Inr es))"

section \<open>The status of a target\<close>

definition computeStatusSummary :: "target_status \<Rightarrow> target_status" where
  "computeStatusSummary status =
     (let states = (case tst_ClusterStates status of None \<Rightarrow> [] | Some m \<Rightarrow> m);
          status = status\<lparr>tst_Clusters := int32 (int (length states))\<rparr>
      in if tst_Clusters status = 0 then status\<lparr>tst_State := []\<rparr>
         else if list_all (\<lambda>(_, s). cts_State s = ''running'' \<and> cts_ConnectionState s = ''READY'') states
         then status\<lparr>tst_State := ''READY''\<rparr>
         else status\<lparr>tst_State := ''DEGRADED''\<rparr>)"

definition clusterState :: "string \<Rightarrow> target_state_object \<Rightarrow> cluster_target_state" where
  "clusterState podName st =
     \<lparr>cts_Pod = podName, cts_State = so_State st, cts_FailedReason = so_FailedReason st,
      cts_ConnectionState = so_ConnectionState st, cts_Subscriptions = so_Subscriptions st,
      cts_LastUpdated = so_LastUpdated st\<rparr>"

text \<open>The three changes of a status: a nil map is made first where the code makes it.\<close>

definition states0 :: "target \<Rightarrow> (string, cluster_target_state) gomap" where
  "states0 t = (case tst_ClusterStates (t_Status t) of None \<Rightarrow> [] | Some m \<Rightarrow> m)"

definition setClusterState :: "string \<Rightarrow> cluster_target_state \<Rightarrow> target \<Rightarrow> target" where
  "setClusterState clusterName st t =
     t\<lparr>t_Status := computeStatusSummary ((t_Status t)
         \<lparr>tst_ClusterStates := Some (gput (states0 t) clusterName st)\<rparr>)\<rparr>"

definition deleteClusterState :: "string \<Rightarrow> target \<Rightarrow> target" where
  "deleteClusterState clusterName t =
     t\<lparr>t_Status := computeStatusSummary ((t_Status t)
         \<lparr>tst_ClusterStates := Some (gdel (states0 t) clusterName)\<rparr>)\<rparr>"

definition dropClusterState :: "string \<Rightarrow> target \<Rightarrow> target" where
  "dropClusterState clusterName t =
     t\<lparr>t_Status := computeStatusSummary ((t_Status t)
         \<lparr>tst_ClusterStates := map_option (\<lambda>m. gdel m clusterName) (tst_ClusterStates (t_Status t))\<rparr>)\<rparr>"

section \<open>Requests\<close>

record 'w state_client =
  sc_getCluster :: "string \<Rightarrow> string \<Rightarrow> 'w \<Rightarrow> (api_error + cluster) \<times> 'w" \<comment> \<open>namespace, name\<close>
  sc_getStatefulSet :: "string \<Rightarrow> string \<Rightarrow> 'w \<Rightarrow> api_error option \<times> 'w"
  sc_getTarget :: "string \<Rightarrow> string \<Rightarrow> 'w \<Rightarrow> (api_error + target) \<times> 'w"
  sc_listTargets :: "string \<Rightarrow> 'w \<Rightarrow> (api_error + target list) \<times> 'w"
  sc_updateStatus :: "target \<Rightarrow> 'w \<Rightarrow> api_error option \<times> 'w"

definition maxConflictRetries :: nat where
  "maxConflictRetries = 5"

text \<open>The retry loop: read, change, write; only a conflict is tried again.\<close>

fun updateLoop :: "'w state_client \<Rightarrow> nat \<Rightarrow> (target \<Rightarrow> target) \<Rightarrow> string \<Rightarrow> string \<Rightarrow> 'w \<Rightarrow> 'w" where
  "updateLoop c 0 change ns name w = w"
| "updateLoop c (Suc n) change ns name w =
     (case sc_getTarget c ns name w of
        (Inl e, w) \<Rightarrow> w
      | (Inr t, w) \<Rightarrow>
          (case sc_updateStatus c (change t) w of
             (Some Conflict, w) \<Rightarrow> updateLoop c n change ns name w
           | (_, w) \<Rightarrow> w))"

text \<open>The cleanup loops start from the listed copy and read again only after a conflict.\<close>

definition cleanupTarget :: "'w state_client \<Rightarrow> string \<Rightarrow> target \<Rightarrow> 'w \<Rightarrow> 'w" where
  "cleanupTarget c clusterName target w =
     (case sc_updateStatus c (dropClusterState clusterName target) w of
        (Some Conflict, w) \<Rightarrow>
          updateLoop c (maxConflictRetries - 1) (dropClusterState clusterName)
            (m_Namespace (t_Meta target)) (m_Name (t_Meta target)) w
      | (_, w) \<Rightarrow> w)"

definition cleanupWhere ::
  "'w state_client \<Rightarrow> string \<Rightarrow> string \<Rightarrow> (target \<Rightarrow> cluster_target_state \<Rightarrow> bool) \<Rightarrow> 'w \<Rightarrow> 'w" where
  "cleanupWhere c namespace clusterName stale w =
     (case sc_listTargets c namespace w of
        (Inl e, w) \<Rightarrow> w
      | (Inr targets, w) \<Rightarrow>
          fold (\<lambda>target w.
            case gget (states0 target) clusterName of
              None \<Rightarrow> w
            | Some cs \<Rightarrow> if stale target cs then cleanupTarget c clusterName target w else w) targets w)"

definition removeClusterFromTargets :: "'w state_client \<Rightarrow> string \<Rightarrow> string \<Rightarrow> 'w \<Rightarrow> 'w" where
  "removeClusterFromTargets c namespace clusterName w =
     cleanupWhere c namespace clusterName (\<lambda>_ _. True) w"

definition removeStalePodsFromTargets ::
  "'w state_client \<Rightarrow> string \<Rightarrow> string \<Rightarrow> string \<Rightarrow> int \<Rightarrow> 'w \<Rightarrow> 'w" where
  "removeStalePodsFromTargets c namespace clusterName stsName desiredPods w =
     (let validPods = map (podNameOf stsName) [0..desiredPods - 1]
      in cleanupWhere c namespace clusterName (\<lambda>_ cs. cts_Pod cs \<notin> set validPods) w)"

section \<open>Events and polls\<close>

definition handleEvent ::
  "'w state_client \<Rightarrow> (string \<Rightarrow> target_state_object option) \<Rightarrow> sse_event \<Rightarrow> string \<Rightarrow> string \<Rightarrow> 'w \<Rightarrow> 'w" where
  "handleEvent c parseObject event clusterName podName w =
     (case parseTargetName (sd_Name (se_Data event)) of
        None \<Rightarrow> w
      | Some (ns, name) \<Rightarrow>
          (case parseObject (sd_Object (se_Data event)) of
             None \<Rightarrow> w
           | Some st \<Rightarrow>
               updateLoop c maxConflictRetries
                 (if se_EventType event = SSEEventDelete then deleteClusterState clusterName
                  else setClusterState clusterName (clusterState podName st)) ns name w))"

definition pollEntry :: "'w state_client \<Rightarrow> string \<Rightarrow> string \<Rightarrow> poll_target_entry \<Rightarrow> string list \<times> 'w \<Rightarrow> string list \<times> 'w" where
  "pollEntry c clusterName podName entry = (\<lambda>(reported, w).
     case pe_State entry of
       None \<Rightarrow> (reported, w)
     | Some st \<Rightarrow>
         (case parseTargetName (pe_Name entry) of
            None \<Rightarrow> (reported, w)
          | Some (ns, name) \<Rightarrow>
              (name # reported,
               updateLoop c maxConflictRetries (setClusterState clusterName (clusterState podName st)) ns name w)))"

definition pollAndSync ::
  "'w state_client \<Rightarrow> string + poll_target_entry list \<Rightarrow> string \<Rightarrow> string \<Rightarrow> string \<Rightarrow> 'w \<Rightarrow> 'w" where
  "pollAndSync c poll clusterName namespace podName w =
     (case poll of
        Inl e \<Rightarrow> w
      | Inr entries \<Rightarrow>
          (let (reported, w) = fold (pollEntry c clusterName podName) entries ([], w)
           in cleanupWhere c namespace clusterName
                (\<lambda>target cs. cts_Pod cs = podName \<and> m_Name (t_Meta target) \<notin> set reported) w))"

text \<open>What the select of \<^verbatim>\<open>processEvents\<close> receives, in the order it receives it.\<close>

datatype stream_input =
  StreamCtxDone | StreamDone "string option" | StreamEvent sse_event | StreamTick "string + poll_target_entry list"

fun processEvents ::
  "'w state_client \<Rightarrow> (string \<Rightarrow> target_state_object option) \<Rightarrow> string \<Rightarrow> string \<Rightarrow> string \<Rightarrow>
   stream_input list \<Rightarrow> bool \<Rightarrow> 'w \<Rightarrow> bool \<times> 'w" where
  "processEvents c parseObject clusterName namespace podName [] receivedEvents w = (receivedEvents, w)"
| "processEvents c parseObject clusterName namespace podName (inp # inps) receivedEvents w =
     (case inp of
        StreamCtxDone \<Rightarrow> (receivedEvents, w)
      | StreamDone err \<Rightarrow> (receivedEvents, w)
      | StreamEvent event \<Rightarrow>
          processEvents c parseObject clusterName namespace podName inps True
            (handleEvent c parseObject event clusterName podName w)
      | StreamTick poll \<Rightarrow>
          processEvents c parseObject clusterName namespace podName inps receivedEvents
            (pollAndSync c poll clusterName namespace podName w))"

section \<open>Streams\<close>

definition reconnectMinDelay :: duration where "reconnectMinDelay = 2 * second"
definition reconnectMaxDelay :: duration where "reconnectMaxDelay = 10 * second"

definition backoff :: "duration \<Rightarrow> duration" where
  "backoff current =
     (let next = current * 2 in if reconnectMaxDelay < next then reconnectMaxDelay else next)"

text \<open>
  The sessions of \<^verbatim>\<open>runStream\<close>: the HTTP client could not be made, or a stream ran and ended, and whether
  it received events. The result is the delays the loop sleeps.
\<close>

datatype session = NoClient | Streamed bool

fun runStreamDelays :: "duration \<Rightarrow> session list \<Rightarrow> duration list" where
  "runStreamDelays delay [] = []"
| "runStreamDelays delay (NoClient # ss) = delay # runStreamDelays (backoff delay) ss"
| "runStreamDelays delay (Streamed receivedEvents # ss) =
     (let delay = (if receivedEvents then reconnectMinDelay else delay)
      in delay # runStreamDelays (backoff delay) ss)"

definition defaultRestPort :: int where "defaultRestPort = 7890"

definition podBaseURL :: "string \<Rightarrow> cluster \<Rightarrow> string \<Rightarrow> int \<Rightarrow> string" where
  "podBaseURL domain cl stsName podIndex =
     (let restPort = (case cs_API (cl_Spec cl) of
                        None \<Rightarrow> defaultRestPort
                      | Some api \<Rightarrow> if api_RestPort api \<noteq> 0 then api_RestPort api else defaultRestPort);
          podDNS = podNameOf stsName podIndex @ ''.'' @ stsName @ ''.'' @ m_Namespace (cl_Meta cl) @ ''.svc.'' @ domain;
          scheme = (case Option.bind (cs_API (cl_Spec cl)) api_TLS of
                      None \<Rightarrow> ''http''
                    | Some tls \<Rightarrow> if ct_IssuerRef tls \<noteq> [] then ''https'' else ''http'')
      in scheme @ ''://'' @ podDNS @ '':'' @ Itoa restPort)"

definition buildPodSSEURL :: "string \<Rightarrow> cluster \<Rightarrow> string \<Rightarrow> int \<Rightarrow> string" where
  "buildPodSSEURL domain cl stsName podIndex =
     podBaseURL domain cl stsName podIndex @ ''/api/v1/sse/targets?store=state''"

definition buildPodPollURL :: "string \<Rightarrow> cluster \<Rightarrow> string \<Rightarrow> int \<Rightarrow> string" where
  "buildPodPollURL domain cl stsName podIndex = podBaseURL domain cl stsName podIndex @ ''/api/v1/targets''"

text \<open>The running streams by their key; the value is the URL the stream reads.\<close>

type_synonym streams = "(string, string) gomap"

definition stopStreamsForCluster :: "string \<Rightarrow> string \<Rightarrow> streams \<Rightarrow> streams" where
  "stopStreamsForCluster namespace clusterName ss =
     filter (\<lambda>(key, _). \<not> HasPrefix key (streamPrefix namespace clusterName)) ss"

datatype reconcile_result = Done | RequeueAfter duration | Failed api_error

definition Reconcile ::
  "'w state_client \<Rightarrow> string \<Rightarrow> string \<Rightarrow> string \<Rightarrow> streams \<times> 'w \<Rightarrow> reconcile_result \<times> streams \<times> 'w" where
  "Reconcile c domain reqNamespace reqName = (\<lambda>(ss, w).
     case sc_getCluster c reqNamespace reqName w of
       (Inl NotFound, w) \<Rightarrow>
         (Done, stopStreamsForCluster reqNamespace reqName ss, removeClusterFromTargets c reqNamespace reqName w)
     | (Inl e, w) \<Rightarrow> (Failed e, ss, w)
     | (Inr cl, w) \<Rightarrow>
         (let ns = m_Namespace (cl_Meta cl); name = m_Name (cl_Meta cl)
          in if cs_Replicas (cl_Spec cl) = None \<or> cs_Replicas (cl_Spec cl) = Some 0
             then (Done, stopStreamsForCluster ns name ss, removeClusterFromTargets c ns name w)
             else let stsName = statefulSetName name
                  in case sc_getStatefulSet c ns stsName w of
                       (Some NotFound, w) \<Rightarrow> (RequeueAfter (5 * second), stopStreamsForCluster ns name ss, w)
                     | (Some e, w) \<Rightarrow> (Failed e, ss, w)
                     | (None, w) \<Rightarrow>
                         (let desiredPods = the (cs_Replicas (cl_Spec cl));
                              ss = stopStreamsForCluster ns name ss;
                              w = removeStalePodsFromTargets c ns name stsName desiredPods w;
                              ss = fold (\<lambda>i ss. gput ss (streamKey ns name i) (buildPodSSEURL domain cl stsName i))
                                     [0..desiredPods - 1] ss
                          in (Done, ss, w))))"

end
