(* ===== verification/Target_State_Correct.thy ===== *)
theory Target_State_Correct
  imports Target_State
begin

text \<open>
  Correctness of the state collection: the summary of a status agrees with its entries, events and
  cleanups change exactly the entries they are about, the running streams of a cluster are those of
  its pods, and the reconnect delays stay in their bounds.
\<close>

section \<open>The summary\<close>

definition healthy :: "cluster_target_state \<Rightarrow> bool" where
  "healthy s \<longleftrightarrow> cts_State s = ''running'' \<and> cts_ConnectionState s = ''READY''"

text \<open>The documented meaning of the summary fields.\<close>

definition summaryOK :: "target \<Rightarrow> bool" where
  "summaryOK t \<longleftrightarrow>
     tst_Clusters (t_Status t) = int (length (states0 t)) \<and>
     tst_State (t_Status t) =
       (if states0 t = [] then [] else if \<forall>(_, s) \<in> set (states0 t). healthy s then ''READY'' else ''DEGRADED'')"

lemma computeStatusSummary_states [simp]:
  "tst_ClusterStates (computeStatusSummary st) = tst_ClusterStates st"
  by (simp add: computeStatusSummary_def Let_def)

lemma states0_status: "states0 (t\<lparr>t_Status := st\<rparr>) = (case tst_ClusterStates st of None \<Rightarrow> [] | Some m \<Rightarrow> m)"
  by (simp add: states0_def)

lemma computeStatusSummary_fields:
  assumes "length ss < 2 ^ 31" and "ss = (case tst_ClusterStates st of None \<Rightarrow> [] | Some m \<Rightarrow> m)"
  shows "tst_Clusters (computeStatusSummary st) = int (length ss)"
    and "tst_State (computeStatusSummary st) =
      (if ss = [] then [] else if \<forall>(_, s) \<in> set ss. healthy s then ''READY'' else ''DEGRADED'')"
proof -
  have w: "int32 (int (length ss)) = int (length ss)"
    using assms(1) by (intro int32_id) simp_all
  show "tst_Clusters (computeStatusSummary st) = int (length ss)"
    unfolding computeStatusSummary_def Let_def assms(2) [symmetric] w by simp
  show "tst_State (computeStatusSummary st) =
      (if ss = [] then [] else if \<forall>(_, s) \<in> set ss. healthy s then ''READY'' else ''DEGRADED'')"
    unfolding computeStatusSummary_def Let_def assms(2) [symmetric] w healthy_def list_all_iff by simp
qed

lemma computeStatusSummary_ok:
  assumes "length (states0 (t\<lparr>t_Status := st\<rparr>)) < 2 ^ 31"
  shows "summaryOK (t\<lparr>t_Status := computeStatusSummary st\<rparr>)"
  using computeStatusSummary_fields [OF assms states0_status]
  unfolding summaryOK_def by (simp add: states0_status)

lemma states0_set [simp]: "states0 (setClusterState cn st t) = gput (states0 t) cn st"
  by (simp add: setClusterState_def states0_def)

lemma states0_delete [simp]: "states0 (deleteClusterState cn t) = gdel (states0 t) cn"
  by (simp add: deleteClusterState_def states0_def)

lemma states0_drop [simp]: "states0 (dropClusterState cn t) = gdel (states0 t) cn"
  by (auto simp: dropClusterState_def states0_def gdel_def split: option.splits)

lemma gput_length: "length (gput m k v) \<le> Suc (length m)"
  by (induction m) (auto simp: gput_def)

lemma gdel_length: "length (gdel m k) \<le> length m"
  by (induction m) (auto simp: gdel_def)

lemma changes_summaryOK:
  assumes "length (states0 t) < 2 ^ 31 - 1"
  shows "summaryOK (setClusterState cn st t)" and "summaryOK (deleteClusterState cn t)"
    and "summaryOK (dropClusterState cn t)"
proof -
  show "summaryOK (setClusterState cn st t)"
    unfolding setClusterState_def using assms gput_length [of "states0 t" cn st]
    by (intro computeStatusSummary_ok) (simp add: states0_def)
  show "summaryOK (deleteClusterState cn t)"
    unfolding deleteClusterState_def using assms gdel_length [of "states0 t" cn]
    by (intro computeStatusSummary_ok) (simp add: states0_def)
  show "summaryOK (dropClusterState cn t)"
    unfolding dropClusterState_def using assms gdel_length [of "states0 t" cn]
    by (intro computeStatusSummary_ok) (auto simp: states0_def split: option.splits)
qed

lemma changes_meta [simp]:
  "t_Meta (setClusterState cn st t) = t_Meta t" "t_Meta (deleteClusterState cn t) = t_Meta t"
  "t_Meta (dropClusterState cn t) = t_Meta t"
  "t_Spec (setClusterState cn st t) = t_Spec t" "t_Spec (deleteClusterState cn t) = t_Spec t"
  "t_Spec (dropClusterState cn t) = t_Spec t"
  by (simp_all add: setClusterState_def deleteClusterState_def dropClusterState_def)

section \<open>What a client promises\<close>

text \<open>Requests that succeed: reads return what is stored, a status update replaces the status.\<close>

definition reliableState :: "'w state_client \<Rightarrow> ('w \<Rightarrow> store) \<Rightarrow> bool" where
  "reliableState c repr \<longleftrightarrow>
     (\<forall>w. namedStore (repr w)) \<and>
     (\<forall>ns n w. \<exists>w'. sc_getTarget c ns n w =
          (case repr w (ns, n) of None \<Rightarrow> Inl NotFound | Some t \<Rightarrow> Inr t, w') \<and> repr w' = repr w) \<and>
     (\<forall>ns w. \<exists>ts w'. sc_listTargets c ns w = (Inr ts, w') \<and> repr w' = repr w \<and>
        set ts = {t. \<exists>n. repr w (ns, n) = Some t} \<and> distinct (map keyOf ts)) \<and>
     (\<forall>t old w. repr w (keyOf t) = Some old \<longrightarrow>
        (\<exists>w'. sc_updateStatus c t w = (None, w') \<and>
           repr w' = (repr w)(keyOf t := Some (old\<lparr>t_Status := t_Status t\<rparr>))))"

lemma reliable_get:
  assumes "reliableState c repr"
  obtains w' where "sc_getTarget c ns n w =
    (case repr w (ns, n) of None \<Rightarrow> Inl NotFound | Some t \<Rightarrow> Inr t, w')" and "repr w' = repr w"
  using assms unfolding reliableState_def by blast

lemma reliable_list:
  assumes "reliableState c repr"
  obtains ts w' where "sc_listTargets c ns w = (Inr ts, w')" and "repr w' = repr w"
    and "set ts = {t. \<exists>n. repr w (ns, n) = Some t}" and "distinct (map keyOf ts)"
  using assms unfolding reliableState_def by meson

lemma reliable_update:
  assumes "reliableState c repr" and "repr w (keyOf t) = Some old"
  obtains w' where "sc_updateStatus c t w = (None, w')"
    and "repr w' = (repr w)(keyOf t := Some (old\<lparr>t_Status := t_Status t\<rparr>))"
  using assms unfolding reliableState_def by blast

lemma reliable_named: "reliableState c repr \<Longrightarrow> namedStore (repr w)"
  by (simp add: reliableState_def)

section \<open>Updates on the store\<close>

lemma updateLoop_store:
  assumes "reliableState c repr" and "0 < k"
    and "\<And>t. t_Meta (change t) = t_Meta t" and "\<And>t. t_Spec (change t) = t_Spec t"
  shows "repr (updateLoop c k change ns n w) =
    (case repr w (ns, n) of None \<Rightarrow> repr w | Some t \<Rightarrow> (repr w)((ns, n) := Some (change t)))"
proof -
  obtain k' where k: "k = Suc k'" using assms(2) gr0_implies_Suc by blast
  obtain w1 where get: "sc_getTarget c ns n w =
      (case repr w (ns, n) of None \<Rightarrow> Inl NotFound | Some t \<Rightarrow> Inr t, w1)" "repr w1 = repr w"
    by (rule reliable_get [OF assms(1)])
  show ?thesis
  proof (cases "repr w (ns, n)")
    case None
    then show ?thesis using get by (simp add: k)
  next
    case (Some t)
    then have key: "keyOf (change t) = (ns, n)"
      using namedStore_key [OF reliable_named [OF assms(1)] Some] assms(3) [of t] by (simp add: keyOf_def)
    obtain w2 where "sc_updateStatus c (change t) w1 = (None, w2)"
      "repr w2 = (repr w)((ns, n) := Some (t\<lparr>t_Status := t_Status (change t)\<rparr>))"
      using reliable_update [OF assms(1), of w1 "change t" t] Some get(2) key by metis
    moreover have "t\<lparr>t_Status := t_Status (change t)\<rparr> = change t"
      using assms(3,4) [of t] by (cases "change t"; cases t) simp
    ultimately show ?thesis using Some get by (simp add: k)
  qed
qed

lemma cleanupTarget_store:
  assumes "reliableState c repr" and "repr w (keyOf t) = Some t"
  shows "repr (cleanupTarget c cn t w) = (repr w)(keyOf t := Some (dropClusterState cn t))"
proof -
  have key: "keyOf (dropClusterState cn t) = keyOf t" by (simp add: keyOf_def)
  obtain w' where "sc_updateStatus c (dropClusterState cn t) w = (None, w')"
    "repr w' = (repr w)(keyOf t := Some (t\<lparr>t_Status := t_Status (dropClusterState cn t)\<rparr>))"
    using reliable_update [OF assms(1), of w "dropClusterState cn t" t] assms(2) key by metis
  moreover have "t\<lparr>t_Status := t_Status (dropClusterState cn t)\<rparr> = dropClusterState cn t"
    by (simp add: dropClusterState_def)
  ultimately show ?thesis by (simp add: cleanupTarget_def)
qed

text \<open>A target with a stale entry loses it, every other one is left alone.\<close>

definition cleaned ::
  "string \<Rightarrow> string \<Rightarrow> (target \<Rightarrow> cluster_target_state \<Rightarrow> bool) \<Rightarrow> store \<Rightarrow> store" where
  "cleaned ns cn stale A = (\<lambda>(s, n).
     case A (s, n) of
       None \<Rightarrow> None
     | Some t \<Rightarrow>
         if s = ns \<and> (case gget (states0 t) cn of None \<Rightarrow> False | Some cs \<Rightarrow> stale t cs)
         then Some (dropClusterState cn t) else Some t)"

text \<open>Requests that each replace one resource of the store.\<close>

lemma fold_point_updates:
  fixes repr :: "'w \<Rightarrow> 'k \<Rightarrow> 'a option"
  assumes step: "\<And>t w. repr w (key t) = Some t \<Longrightarrow>
      repr (f t w) = (if P t then (repr w)(key t := Some (g t)) else repr w)"
    and "distinct (map key us)" and "\<forall>t \<in> set us. repr w (key t) = Some t"
  shows "repr (fold f us w) k =
    (if \<exists>t \<in> set us. key t = k \<and> P t then map_option g (repr w k) else repr w k)"
  using assms(2,3)
proof (induction us arbitrary: w)
  case (Cons t us)
  have r: "repr (f t w) = (if P t then (repr w)(key t := Some (g t)) else repr w)"
    using Cons.prems(2) by (intro step) simp
  have other: "key u \<noteq> key t" if "u \<in> set us" for u
    using Cons.prems(1) that by (auto simp: image_iff)
  have "\<forall>u \<in> set us. repr (f t w) (key u) = Some u"
    using Cons.prems(2) other by (simp add: r)
  then have IH: "repr (fold f us (f t w)) k = (if \<exists>u \<in> set us. key u = k \<and> P u
      then map_option g (repr (f t w) k) else repr (f t w) k)"
    using Cons.prems(1) by (intro Cons.IH) simp_all
  show ?case
  proof (cases "key t = k")
    case True
    then have "\<forall>u \<in> set us. key u \<noteq> k" using other by (simp add: True [symmetric])
    then have none: "(\<exists>u \<in> set us. key u = k \<and> P u) = False" by simp
    have "repr w k = Some t" using Cons.prems(2) True by simp
    then show ?thesis using True IH unfolding none by (simp add: r none)
  next
    case False
    then have same: "repr (f t w) k = repr w k" by (simp add: r)
    show ?thesis using False IH unfolding same by simp
  qed
qed simp

lemma cleanupWhere_store:
  assumes "reliableState c repr"
  shows "repr (cleanupWhere c ns cn stale w) = cleaned ns cn stale (repr w)"
proof -
  obtain ts w1 where list: "sc_listTargets c ns w = (Inr ts, w1)" "repr w1 = repr w"
    "set ts = {t. \<exists>n. repr w (ns, n) = Some t}" "distinct (map keyOf ts)"
    by (rule reliable_list [OF assms])
  let ?stale = "\<lambda>t. case gget (states0 t) cn of None \<Rightarrow> False | Some cs \<Rightarrow> stale t cs"
  let ?step = "\<lambda>target w. case gget (states0 target) cn of None \<Rightarrow> w
      | Some cs \<Rightarrow> if stale target cs then cleanupTarget c cn target w else w"
  have step: "repr (?step t w) = (if ?stale t then (repr w)(keyOf t := Some (dropClusterState cn t)) else repr w)"
    if "repr w (keyOf t) = Some t" for t w
    using cleanupTarget_store [OF assms that] by (simp split: option.split)
  have named: "namedStore (repr w)" by (rule reliable_named [OF assms])
  have here: "\<forall>t \<in> set ts. repr w1 (keyOf t) = Some t"
    using list(2,3) namedStore_key [OF named] by fastforce
  have "repr (cleanupWhere c ns cn stale w) (s, n) = cleaned ns cn stale (repr w) (s, n)" for s n
  proof -
    have "(\<exists>t \<in> set ts. keyOf t = (s, n) \<and> ?stale t) \<longleftrightarrow> s = ns \<and> (\<exists>t. repr w (s, n) = Some t \<and> ?stale t)"
      unfolding list(3) using namedStore_key [OF named] by (fastforce simp: keyOf_def)
    then show ?thesis
      using fold_point_updates [of repr keyOf ?step ?stale "dropClusterState cn", OF step list(4) here, of "(s, n)"]
        list(1,2)
      by (auto simp: cleanupWhere_def cleaned_def split: option.split)
  qed
  then show ?thesis by (intro ext) auto
qed

text \<open>The entry of one cluster after a cleanup; the entries of the other clusters stay.\<close>

lemma cleaned_entry:
  assumes "cleaned ns cn stale A (s, n) = Some t'" and "A (s, n) = Some t"
  shows "gget (states0 t') cn' =
    (if cn' = cn \<and> s = ns \<and> (case gget (states0 t) cn of None \<Rightarrow> False | Some cs \<Rightarrow> stale t cs)
     then None else gget (states0 t) cn')"
  using assms by (auto simp: cleaned_def gomap_simps split: option.splits if_splits)

lemma cleaned_Some: "cleaned ns cn stale A (s, n) = Some t' \<Longrightarrow> \<exists>t. A (s, n) = Some t"
  by (auto simp: cleaned_def split: option.splits)

section \<open>Concurrent writers\<close>

text \<open>
  What other writers may do between two requests: a resource they change gets a new version. \<open>ver\<close>
  counts the versions of a resource; \<open>enc\<close> writes the count as a \<^verbatim>\<open>resourceVersion\<close>.
\<close>

definition others :: "('w \<Rightarrow> store) \<Rightarrow> ('w \<Rightarrow> string \<times> string \<Rightarrow> nat) \<Rightarrow> 'w \<Rightarrow> 'w \<Rightarrow> bool" where
  "others repr ver w w' \<longleftrightarrow> (\<forall>k. ver w k < ver w' k \<or> ver w k = ver w' k \<and> repr w k = repr w' k)"

text \<open>A status update of \<open>t\<close> that takes effect: status replaced, version advanced, nothing else.\<close>

definition writesStatus ::
  "('w \<Rightarrow> store) \<Rightarrow> ('w \<Rightarrow> string \<times> string \<Rightarrow> nat) \<Rightarrow> target \<Rightarrow> 'w \<Rightarrow> 'w \<Rightarrow> bool" where
  "writesStatus repr ver t w w' \<longleftrightarrow>
     (\<exists>old new. repr w (keyOf t) = Some old \<and> repr w' = (repr w)(keyOf t := Some new) \<and>
        t_Spec new = t_Spec old \<and> t_Status new = t_Status t \<and>
        t_Meta new = (t_Meta old)\<lparr>m_ResourceVersion := m_ResourceVersion (t_Meta new)\<rparr> \<and>
        ver w (keyOf t) < ver w' (keyOf t) \<and> (\<forall>k. k \<noteq> keyOf t \<longrightarrow> ver w' k = ver w k))"

text \<open>
  Optimistic concurrency, as the API server documents it: a read returns a stored resource with its
  version, an update succeeds only on the version that is stored then, and a failed request writes
  nothing. Others may act before and after every request takes effect.
\<close>

definition optimistic ::
  "'w state_client \<Rightarrow> ('w \<Rightarrow> store) \<Rightarrow> ('w \<Rightarrow> string \<times> string \<Rightarrow> nat) \<Rightarrow> (nat \<Rightarrow> string) \<Rightarrow> bool" where
  "optimistic c repr ver enc \<longleftrightarrow>
     inj enc \<and>
     (\<forall>w k t. repr w k = Some t \<longrightarrow> keyOf t = k \<and> m_ResourceVersion (t_Meta t) = enc (ver w k)) \<and>
     (\<forall>ns n w e w'. sc_getTarget c ns n w = (Inl e, w') \<longrightarrow> others repr ver w w') \<and>
     (\<forall>ns n w t w'. sc_getTarget c ns n w = (Inr t, w') \<longrightarrow>
        (\<exists>w0. others repr ver w w0 \<and> repr w0 (ns, n) = Some t \<and> others repr ver w0 w')) \<and>
     (\<forall>t w e w'. sc_updateStatus c t w = (Some e, w') \<longrightarrow> others repr ver w w') \<and>
     (\<forall>t w w'. sc_updateStatus c t w = (None, w') \<longrightarrow>
        (\<exists>w0 w1 old. others repr ver w w0 \<and> repr w0 (keyOf t) = Some old \<and>
           m_ResourceVersion (t_Meta old) = m_ResourceVersion (t_Meta t) \<and>
           writesStatus repr ver t w0 w1 \<and> others repr ver w1 w'))"

lemma optimistic_get_error:
  "optimistic c repr ver enc \<Longrightarrow> sc_getTarget c ns n w = (Inl e, w') \<Longrightarrow> others repr ver w w'"
  unfolding optimistic_def by (elim conjE) blast

lemma optimistic_get:
  assumes "optimistic c repr ver enc" and "sc_getTarget c ns n w = (Inr t, w')"
  obtains w0 where "others repr ver w w0" and "repr w0 (ns, n) = Some t" and "others repr ver w0 w'"
proof -
  have "\<forall>ns n w t w'. sc_getTarget c ns n w = (Inr t, w') \<longrightarrow>
      (\<exists>w0. others repr ver w w0 \<and> repr w0 (ns, n) = Some t \<and> others repr ver w0 w')"
    using assms(1) unfolding optimistic_def by (elim conjE)
  then show thesis using assms(2) that by blast
qed

lemma optimistic_update_error:
  "optimistic c repr ver enc \<Longrightarrow> sc_updateStatus c t w = (Some e, w') \<Longrightarrow> others repr ver w w'"
  unfolding optimistic_def by (elim conjE) blast

lemma optimistic_update:
  assumes "optimistic c repr ver enc" and "sc_updateStatus c t w = (None, w')"
  obtains w0 w1 old where "others repr ver w w0" and "repr w0 (keyOf t) = Some old"
    and "m_ResourceVersion (t_Meta old) = m_ResourceVersion (t_Meta t)"
    and "writesStatus repr ver t w0 w1" and "others repr ver w1 w'"
proof -
  have "\<forall>t w w'. sc_updateStatus c t w = (None, w') \<longrightarrow>
      (\<exists>w0 w1 old. others repr ver w w0 \<and> repr w0 (keyOf t) = Some old \<and>
         m_ResourceVersion (t_Meta old) = m_ResourceVersion (t_Meta t) \<and>
         writesStatus repr ver t w0 w1 \<and> others repr ver w1 w')"
    using assms(1) unfolding optimistic_def by (elim conjE)
  then show thesis using assms(2) that by blast
qed

lemma optimistic_stored:
  assumes "optimistic c repr ver enc" and "repr w k = Some t"
  shows "keyOf t = k" and "m_ResourceVersion (t_Meta t) = enc (ver w k)"
  using assms unfolding optimistic_def by (elim conjE, blast)+

lemma others_refl [simp]: "others repr ver w w"
  by (simp add: others_def)

lemma others_trans : "others repr ver a b \<Longrightarrow> others repr ver b c \<Longrightarrow> others repr ver a c"
  unfolding others_def by (metis less_trans)

text \<open>An object whose version is still the stored one is the stored object.\<close>

lemma others_same:
  assumes "optimistic c repr ver enc" and "others repr ver a b" and "repr a k = Some t"
    and "repr b k = Some old" and "m_ResourceVersion (t_Meta old) = m_ResourceVersion (t_Meta t)"
  shows "old = t"
proof -
  have "enc (ver b k) = enc (ver a k)"
    using optimistic_stored(2) [OF assms(1,3)] optimistic_stored(2) [OF assms(1,4)] assms(5) by simp
  moreover have "inj enc" using assms(1) by (simp add: optimistic_def)
  ultimately have "ver b k = ver a k" by (simp add: inj_eq)
  then show ?thesis using assms(2-4) unfolding others_def by (metis less_irrefl option.inject)
qed

text \<open>The retry loop is one atomic read-modify-write among the steps of the others, or writes nothing.\<close>

definition atomicChange ::
  "('w \<Rightarrow> store) \<Rightarrow> ('w \<Rightarrow> string \<times> string \<Rightarrow> nat) \<Rightarrow> (target \<Rightarrow> target) \<Rightarrow> string \<times> string \<Rightarrow> 'w \<Rightarrow> 'w \<Rightarrow> bool" where
  "atomicChange repr ver change k w w' \<longleftrightarrow>
     others repr ver w w' \<or>
     (\<exists>w0 w1 t. others repr ver w w0 \<and> repr w0 k = Some t \<and> writesStatus repr ver (change t) w0 w1 \<and>
        others repr ver w1 w')"

lemma atomicChange_after:
  "others repr ver a b \<Longrightarrow> atomicChange repr ver change k b w' \<Longrightarrow> atomicChange repr ver change k a w'"
  unfolding atomicChange_def by (blast intro: others_trans)

lemma updateLoop_atomic:
  assumes opt: "optimistic c repr ver enc" and meta: "\<And>t. t_Meta (change t) = t_Meta t"
  shows "atomicChange repr ver change (ns, n) w (updateLoop c k change ns n w)"
proof (induction k arbitrary: w)
  case 0
  show ?case by (simp add: atomicChange_def)
next
  case (Suc k)
  obtain r w2 where get: "sc_getTarget c ns n w = (r, w2)" by (cases "sc_getTarget c ns n w")
  show ?case
  proof (cases r)
    case (Inl e)
    then have "others repr ver w w2" using optimistic_get_error [OF opt] get by blast
    then show ?thesis using get Inl by (simp add: atomicChange_def)
  next
    case (Inr t)
    obtain w0 where w0: "others repr ver w w0" "repr w0 (ns, n) = Some t" "others repr ver w0 w2"
      by (rule optimistic_get [OF opt get [unfolded Inr]])
    have key: "keyOf (change t) = (ns, n)"
      using optimistic_stored(1) [OF opt w0(2)] meta [of t] by (simp add: keyOf_def)
    obtain e w3 where upd: "sc_updateStatus c (change t) w2 = (e, w3)"
      by (cases "sc_updateStatus c (change t) w2")
    show ?thesis
    proof (cases e)
      case None
      obtain w4 w5 old where step: "others repr ver w2 w4" "repr w4 (ns, n) = Some old"
        "m_ResourceVersion (t_Meta old) = m_ResourceVersion (t_Meta (change t))"
        "writesStatus repr ver (change t) w4 w5" "others repr ver w5 w3"
        by (rule optimistic_update [OF opt upd [unfolded None], unfolded key])
      have "old = t"
        using others_same [OF opt others_trans [OF w0(3) step(1)] w0(2) step(2)] step(3) meta by simp
      moreover have "others repr ver w w4" using w0 step(1) others_trans by metis
      ultimately have "atomicChange repr ver change (ns, n) w w3"
        using step unfolding atomicChange_def by blast
      then show ?thesis using get Inr upd None by simp
    next
      case (Some e')
      have "others repr ver w2 w3" using optimistic_update_error [OF opt] upd Some by blast
      then have w3: "others repr ver w w3" using w0 others_trans by metis
      then have "atomicChange repr ver change (ns, n) w w3" by (simp add: atomicChange_def)
      moreover have "atomicChange repr ver change (ns, n) w (updateLoop c k change ns n w3)"
        using atomicChange_after [OF w3 Suc.IH] .
      ultimately show ?thesis using get Inr upd Some by (cases e') simp_all
    qed
  qed
qed

section \<open>Clients in memory\<close>

definition memList :: "target list \<Rightarrow> string \<Rightarrow> target list" where
  "memList w ns = remdups (filter (\<lambda>t. memStore w (ns, m_Name (t_Meta t)) = Some t) w)"

definition memState :: "cluster option \<Rightarrow> target list state_client" where
  "memState cl =
     \<lparr>sc_getCluster = (\<lambda>ns n w. (case cl of None \<Rightarrow> Inl NotFound | Some cl \<Rightarrow> Inr cl, w)),
      sc_getStatefulSet = (\<lambda>ns n w. (None, w)),
      sc_getTarget = (\<lambda>ns n w. (case memStore w (ns, n) of None \<Rightarrow> Inl NotFound | Some t \<Rightarrow> Inr t, w)),
      sc_listTargets = (\<lambda>ns w. (Inr (memList w ns), w)),
      sc_updateStatus = (\<lambda>t w. case memStore w (keyOf t) of
          None \<Rightarrow> (Some NotFound, w)
        | Some old \<Rightarrow> (None, old\<lparr>t_Status := t_Status t\<rparr> # w))\<rparr>"

lemma memList_set: "set (memList w ns) = {t. \<exists>n. memStore w (ns, n) = Some t}"
  unfolding memList_def using memStore_key by fastforce

lemma memList_distinct: "distinct (map keyOf (memList w ns))"
proof -
  have "inj_on keyOf (set (memList w ns))"
  proof (rule inj_onI)
    fix t u
    assume "t \<in> set (memList w ns)" "u \<in> set (memList w ns)" and key: "keyOf t = keyOf u"
    then have "memStore w (ns, m_Name (t_Meta t)) = Some t" "memStore w (ns, m_Name (t_Meta u)) = Some u"
      by (simp_all add: memList_def)
    moreover have "m_Name (t_Meta t) = m_Name (t_Meta u)" using key unfolding keyOf_def by simp
    ultimately show "t = u" by (metis option.inject)
  qed
  then show ?thesis by (simp add: distinct_map memList_def)
qed

lemma memState_reliable: "reliableState (memState cl) memStore"
proof -
  have "memStore (old\<lparr>t_Status := st\<rparr> # w) = (memStore w)(k := Some (old\<lparr>t_Status := st\<rparr>))"
    if "memStore w k = Some old" for w k old st
    using namedStore_key [OF memStore_named that] by (simp add: memStore_Cons keyOf_def)
  then show ?thesis
    unfolding reliableState_def memState_def
    by (simp add: memList_set memList_distinct)
qed

text \<open>The same with versions that count the updates.\<close>

type_synonym versioned = "target list \<times> (string \<times> string \<Rightarrow> nat)"

definition memVersioned :: "versioned \<Rightarrow> store" where
  "memVersioned w k =
     map_option (\<lambda>t. t\<lparr>t_Meta := (t_Meta t)\<lparr>m_ResourceVersion := nat_dec (snd w k)\<rparr>\<rparr>) (memStore (fst w) k)"

definition memOptimistic :: "versioned state_client" where
  "memOptimistic =
     \<lparr>sc_getCluster = (\<lambda>ns n w. (Inl NotFound, w)),
      sc_getStatefulSet = (\<lambda>ns n w. (Some NotFound, w)),
      sc_getTarget = (\<lambda>ns n w. (case memVersioned w (ns, n) of None \<Rightarrow> Inl NotFound | Some t \<Rightarrow> Inr t, w)),
      sc_listTargets = (\<lambda>ns w. (Inr (memList (fst w) ns), w)),
      sc_updateStatus = (\<lambda>t w. case memVersioned w (keyOf t) of
          None \<Rightarrow> (Some NotFound, w)
        | Some old \<Rightarrow>
            if m_ResourceVersion (t_Meta old) \<noteq> m_ResourceVersion (t_Meta t) then (Some Conflict, w)
            else (None, old\<lparr>t_Status := t_Status t\<rparr> # fst w, (snd w)(keyOf t := Suc (snd w (keyOf t)))))\<rparr>"

lemma nat_dec_inj: "inj nat_dec"
  by (rule injI) (metis option.inject parse_digits_nat_dec)

lemma memVersioned_key: "memVersioned w k = Some t \<Longrightarrow> keyOf t = k"
  using namedStore_key [OF memStore_named, of "fst w" k] by (auto simp: memVersioned_def keyOf_def)

lemma memVersioned_write:
  assumes "memVersioned w (keyOf t) = Some old"
  shows "writesStatus memVersioned snd t w
    (old\<lparr>t_Status := t_Status t\<rparr> # fst w, (snd w)(keyOf t := Suc (snd w (keyOf t))))"
proof -
  have key: "(m_Namespace (t_Meta old), m_Name (t_Meta old)) = keyOf t"
    using memVersioned_key [OF assms] by (simp add: keyOf_def)
  show ?thesis
    unfolding writesStatus_def
  proof (intro exI conjI)
    show "memVersioned w (keyOf t) = Some old" by (rule assms)
    show "memVersioned (old\<lparr>t_Status := t_Status t\<rparr> # fst w, (snd w)(keyOf t := Suc (snd w (keyOf t)))) =
        (memVersioned w)(keyOf t := Some (old\<lparr>t_Status := t_Status t,
          t_Meta := (t_Meta old)\<lparr>m_ResourceVersion := nat_dec (Suc (snd w (keyOf t)))\<rparr>\<rparr>))"
      by (rule ext) (simp add: memVersioned_def memStore_Cons key)
  qed simp_all
qed

lemma memOptimistic_ok: "optimistic memOptimistic memVersioned snd nat_dec"
proof -
  have upd: "\<exists>w0 w1 old. others memVersioned snd w w0 \<and> memVersioned w0 (keyOf t) = Some old \<and>
      m_ResourceVersion (t_Meta old) = m_ResourceVersion (t_Meta t) \<and>
      writesStatus memVersioned snd t w0 w1 \<and> others memVersioned snd w1 w'"
    if ok: "sc_updateStatus memOptimistic t w = (None, w')" for t w w'
  proof -
    obtain old where old: "memVersioned w (keyOf t) = Some old"
      "m_ResourceVersion (t_Meta old) = m_ResourceVersion (t_Meta t)"
      "w' = (old\<lparr>t_Status := t_Status t\<rparr> # fst w, (snd w)(keyOf t := Suc (snd w (keyOf t))))"
      using ok by (auto simp: memOptimistic_def split: option.splits if_splits)
    have "writesStatus memVersioned snd t w w'"
      unfolding old(3) by (rule memVersioned_write [OF old(1)])
    then show ?thesis by (intro exI conjI) (rule others_refl old(1,2) | assumption)+
  qed
  have updErr: "others memVersioned snd w w'" if "sc_updateStatus memOptimistic t w = (Some e, w')" for t w e w'
    using that by (auto simp: memOptimistic_def split: option.splits if_splits)
  have getErr: "others memVersioned snd w w'" if "sc_getTarget memOptimistic ns n w = (Inl e, w')" for ns n w e w'
    using that by (auto simp: memOptimistic_def)
  have get: "\<exists>w0. others memVersioned snd w w0 \<and> memVersioned w0 (ns, n) = Some t \<and> others memVersioned snd w0 w'"
    if "sc_getTarget memOptimistic ns n w = (Inr t, w')" for ns n w t w'
    using that by (intro exI [of _ w]) (auto simp: memOptimistic_def split: option.splits)
  have stored: "keyOf t = k \<and> m_ResourceVersion (t_Meta t) = nat_dec (snd w k)" if "memVersioned w k = Some t" for w k t
  proof
    show "keyOf t = k" by (rule memVersioned_key [OF that])
    show "m_ResourceVersion (t_Meta t) = nat_dec (snd w k)" using that by (auto simp: memVersioned_def)
  qed
  show ?thesis
    unfolding optimistic_def
    by (intro conjI allI impI)
      (rule nat_dec_inj | erule stored [THEN conjunct1] stored [THEN conjunct2] get getErr upd updErr)+
qed

section \<open>Events\<close>

lemma handleEvent_update:
  assumes "parseTargetName (sd_Name (se_Data ev)) = Some (ns, n)"
    and "parseObject (sd_Object (se_Data ev)) = Some st"
  shows "handleEvent c parseObject ev cn pod w =
    updateLoop c maxConflictRetries
      (if se_EventType ev = SSEEventDelete then deleteClusterState cn else setClusterState cn (clusterState pod st)) ns n w"
  using assms by (simp add: handleEvent_def)

text \<open>
  C25: An event changes exactly one entry. When the requests succeed, an event for a stored target sets
  the cluster's entry in the target's status to the reported state, or removes it for a delete event; the
  entries of the other clusters, the other targets, the target's metadata and its spec stay as they are,
  and the summary agrees with the entries. The delete does not look at the pod that wrote the entry.
\<close>

theorem handleEvent_exact:
  assumes "reliableState c repr"
    and "sd_Name (se_Data ev) = nsname ns n" and "CHR ''/'' \<notin> set ns"
    and "parseObject (sd_Object (se_Data ev)) = Some st"
    and "repr w (ns, n) = Some t" and "length (states0 t) < 2 ^ 31 - 1"
  shows "\<exists>t'. repr (handleEvent c parseObject ev cn pod w) = (repr w)((ns, n) := Some t') \<and>
    t_Meta t' = t_Meta t \<and> t_Spec t' = t_Spec t \<and> summaryOK t' \<and>
    (\<forall>cn'. gget (states0 t') cn' =
       (if cn' = cn then if se_EventType ev = SSEEventDelete then None else Some (clusterState pod st)
        else gget (states0 t) cn'))"
proof -
  let ?change = "if se_EventType ev = SSEEventDelete then deleteClusterState cn else setClusterState cn (clusterState pod st)"
  have name: "parseTargetName (sd_Name (se_Data ev)) = Some (ns, n)"
    using assms(2,3) by (simp add: parseTargetName_nsname)
  have "repr (updateLoop c maxConflictRetries ?change ns n w) = (repr w)((ns, n) := Some (?change t))"
    using assms(1,5) by (subst updateLoop_store) (simp_all add: maxConflictRetries_def)
  moreover have "summaryOK (?change t)"
    using changes_summaryOK [OF assms(6)] by simp
  ultimately show ?thesis
    unfolding handleEvent_update [OF name, of parseObject, OF assms(4)]
    by (intro exI [of _ "?change t"]) (simp add: gomap_simps)
qed

definition exTarget :: "string \<Rightarrow> target" where
  "exTarget name =
     \<lparr>t_Meta = \<lparr>m_Name = name, m_Namespace = ''n'', m_Labels = [], m_Generation = 1, m_ResourceVersion = [],
        m_Finalizers = [], m_Deleting = False\<rparr>,
      t_Spec = \<lparr>ts_Address = ''a'', ts_Profile = ''p''\<rparr>,
      t_Status = \<lparr>tst_Clusters = 0, tst_State = [], tst_ClusterStates = None\<rparr>\<rparr>"

definition exState :: target_state_object where
  "exState = \<lparr>so_IntendedState = ''running'', so_State = ''running'', so_FailedReason = [], so_LastUpdated = 1,
     so_ConnectionState = ''READY'', so_Subscriptions = []\<rparr>"

definition exEvent :: "string \<Rightarrow> sse_event" where
  "exEvent kind = \<lparr>se_EventType = kind, se_Data = \<lparr>sd_Timestamp = 1, sd_Store = ''state'', sd_Kind = ''targets'',
     sd_Name = nsname ''n'' ''t'', sd_EventType = kind, sd_Object = ''{}''\<rparr>\<rparr>"

lemma exTarget_stored [simp]: "memStore [exTarget ''t''] (''n'', ''t'') = Some (exTarget ''t'')"
  by (simp add: memStore_def isObject_def exTarget_def)

lemma exTarget_states [simp]: "states0 (exTarget t) = []"
  by (simp add: states0_def exTarget_def)

theorem handleEvent_exact_witness:
  "\<exists>t'. memStore (handleEvent (memState None) (\<lambda>_. Some exState) (exEvent ''update'') ''c'' ''p-0'' [exTarget ''t''])
       (''n'', ''t'') = Some t' \<and> summaryOK t' \<and> gget (states0 t') ''c'' = Some (clusterState ''p-0'' exState)"
  using handleEvent_exact [OF memState_reliable, of "exEvent ''update''" "''n''" "''t''" "\<lambda>_. Some exState" exState
      "[exTarget ''t'']" "exTarget ''t''" None "''c''" "''p-0''"]
  by (auto simp: exEvent_def SSEEventDelete_def)



section \<open>Cleanups and polls\<close>

text \<open>
  After a scale-down, the entries of a cluster name only its pods. The cleanup removes the
  cluster's entry from every target of the namespace whose entry names a pod outside
  \<open>0 \<dots> desiredPods - 1\<close>, keeps every other entry, and touches no other namespace.
\<close>

theorem removeStalePods_exact:
  assumes "reliableState c repr"
    and "repr (removeStalePodsFromTargets c ns cn sts pods w) (s, n) = Some t'"
  shows "\<exists>t. repr w (s, n) = Some t \<and>
    (\<forall>cn'. gget (states0 t') cn' =
       (case gget (states0 t) cn' of
          None \<Rightarrow> None
        | Some cs \<Rightarrow>
            if cn' = cn \<and> s = ns \<and> \<not> (\<exists>i. 0 \<le> i \<and> i < pods \<and> cts_Pod cs = podNameOf sts i)
            then None else Some cs))"
proof -
  have "cleaned ns cn (\<lambda>_ cs. cts_Pod cs \<notin> set (map (podNameOf sts) [0..pods - 1])) (repr w) (s, n) = Some t'"
    using assms(2) unfolding removeStalePodsFromTargets_def Let_def cleanupWhere_store [OF assms(1)] .
  note clean = this
  obtain t where t: "repr w (s, n) = Some t" using cleaned_Some [OF clean] by blast
  note e = cleaned_entry [OF clean t]
  have valid: "p \<notin> set (map (podNameOf sts) [0..pods - 1]) \<longleftrightarrow> \<not> (\<exists>i. 0 \<le> i \<and> i < pods \<and> p = podNameOf sts i)" for p
    by (auto simp: image_iff)
  show ?thesis
    unfolding e valid using t by (intro exI [of _ t] conjI allI) (auto split: option.split)
qed

definition exEntry :: "string \<Rightarrow> cluster_target_state" where
  "exEntry pod = clusterState pod exState"

definition exCollected :: target where
  "exCollected = setClusterState ''c'' (exEntry ''g-1'') (exTarget ''t'')"

lemma exCollected_stored: "memStore [exCollected] (''n'', ''t'') = Some exCollected"
  by (simp add: memStore_def isObject_def exCollected_def exTarget_def)

lemma cleanup_keeps:
  assumes "reliableState c repr" and "repr w (s, n) = Some t"
  shows "\<exists>t'. repr (cleanupWhere c ns cn stale w) (s, n) = Some t'"
  unfolding cleanupWhere_store [OF assms(1)] by (simp add: cleaned_def assms(2))

theorem removeStalePods_exact_witness:
  "\<exists>t'. memStore (removeStalePodsFromTargets (memState None) ''n'' ''c'' ''g'' 1 [exCollected]) (''n'', ''t'') = Some t' \<and>
     gget (states0 exCollected) ''c'' = Some (exEntry ''g-1'') \<and> gget (states0 t') ''c'' = None"
proof -
  let ?w = "removeStalePodsFromTargets (memState None) ''n'' ''c'' ''g'' 1 [exCollected]"
  obtain t' where t': "memStore ?w (''n'', ''t'') = Some t'"
    using cleanup_keeps [OF memState_reliable exCollected_stored] unfolding removeStalePodsFromTargets_def Let_def by blast
  have has: "gget (states0 exCollected) ''c'' = Some (exEntry ''g-1'')"
    by (simp add: exCollected_def gomap_simps)
  have "\<not> (\<exists>i. 0 \<le> i \<and> i < (1 :: int) \<and> cts_Pod (exEntry ''g-1'') = podNameOf ''g'' i)"
  proof
    assume "\<exists>i. 0 \<le> i \<and> i < (1 :: int) \<and> cts_Pod (exEntry ''g-1'') = podNameOf ''g'' i"
    then obtain i where "0 \<le> i" "i < (1 :: int)" "cts_Pod (exEntry ''g-1'') = podNameOf ''g'' i" by blast
    moreover from this have "i = 0" by simp
    ultimately have "''g-1'' = podNameOf ''g'' 0" by (simp add: exEntry_def clusterState_def)
    moreover have "podNameOf ''g'' 0 = ''g-0''" by code_simp
    ultimately show False by simp
  qed
  then show ?thesis
    using removeStalePods_exact [OF memState_reliable t'] t' has exCollected_stored by auto
qed

text \<open>The states a poll reports, the last of a name counting.\<close>

definition reportedStates :: "poll_target_entry list \<Rightarrow> string \<Rightarrow> target_state_object option" where
  "reportedStates entries =
     fold (\<lambda>e R. case pe_State e of None \<Rightarrow> R | Some st \<Rightarrow> R(pe_Name e \<mapsto> st)) entries (\<lambda>_. None)"

text \<open>What the reports change: the cluster's entry of the reported targets.\<close>

definition pollEffect ::
  "string \<Rightarrow> string \<Rightarrow> string \<Rightarrow> (string \<Rightarrow> target_state_object option) \<Rightarrow> store \<Rightarrow> store \<Rightarrow> bool" where
  "pollEffect ns cn pod R A A' \<longleftrightarrow>
     (\<forall>s n. case A (s, n) of
        None \<Rightarrow> A' (s, n) = None
      | Some t \<Rightarrow> \<exists>t'. A' (s, n) = Some t' \<and> t_Meta t' = t_Meta t \<and>
          (\<forall>cn'. gget (states0 t') cn' =
            (if cn' = cn \<and> s = ns
             then (case R (nsname ns n) of Some st \<Rightarrow> Some (clusterState pod st) | None \<Rightarrow> gget (states0 t) cn')
             else gget (states0 t) cn')))"

lemma pollEffect_refl: "pollEffect ns cn pod (\<lambda>_. None) A A"
  by (simp add: pollEffect_def split: option.split)

lemma pollEffect_step:
  assumes "pollEffect ns cn pod R A A'" and "CHR ''/'' \<notin> set ns"
  shows "pollEffect ns cn pod (R(nsname ns m \<mapsto> st)) A
    (case A' (ns, m) of None \<Rightarrow> A' | Some t \<Rightarrow> A'((ns, m) := Some (setClusterState cn (clusterState pod st) t)))"
    (is "pollEffect ns cn pod ?R A ?A")
proof -
  have inj: "nsname ns n = nsname ns m \<longleftrightarrow> n = m" for n by (simp add: nsname_inj assms(2))
  have "case A (s, n) of
        None \<Rightarrow> ?A (s, n) = None
      | Some t \<Rightarrow> \<exists>t'. ?A (s, n) = Some t' \<and> t_Meta t' = t_Meta t \<and>
          (\<forall>cn'. gget (states0 t') cn' =
            (if cn' = cn \<and> s = ns
             then (case ?R (nsname ns n) of Some st \<Rightarrow> Some (clusterState pod st) | None \<Rightarrow> gget (states0 t) cn')
             else gget (states0 t) cn'))" for s n
  proof (cases "s = ns \<and> n = m")
    case True
    then show ?thesis
      using assms(1) [unfolded pollEffect_def, rule_format, of s n]
      by (cases "A (s, n)") (auto simp: gomap_simps)
  next
    case False
    then have "?A (s, n) = A' (s, n)" by (auto split: option.split)
    then show ?thesis
      using assms(1) [unfolded pollEffect_def, rule_format, of s n] False
      by (cases "A (s, n)") (auto simp: inj)
  qed
  then show ?thesis unfolding pollEffect_def by blast
qed

lemma pollEntry_None: "pe_State e = None \<Longrightarrow> pollEntry c cn pod e p = p"
  by (cases p) (simp add: pollEntry_def)

lemma pollEntry_Some:
  assumes "pe_State e = Some st" and "pe_Name e = nsname ns n" and "CHR ''/'' \<notin> set ns"
  shows "pollEntry c cn pod e (reported, w) =
    (n # reported, updateLoop c maxConflictRetries (setClusterState cn (clusterState pod st)) ns n w)"
  using assms by (simp add: pollEntry_def parseTargetName_nsname)

lemma polls_store:
  assumes "reliableState c repr"
    and "\<forall>e \<in> set entries. \<exists>n. pe_Name e = nsname ns n" and "CHR ''/'' \<notin> set ns"
  obtains reported w' where "fold (pollEntry c cn pod) entries ([], w) = (reported, w')"
    and "set reported = {n. reportedStates entries (nsname ns n) \<noteq> None}"
    and "pollEffect ns cn pod (reportedStates entries) (repr w) (repr w')"
  using assms(2)
proof (induction entries arbitrary: thesis rule: rev_induct)
  case Nil
  have none: "reportedStates [] = (\<lambda>_. None)" by (simp add: reportedStates_def)
  show ?case by (rule Nil.prems(1) [of "[]" w]) (simp_all only: none pollEffect_refl fold_simps, simp)
next
  case (snoc e entries)
  have pre: "\<forall>e \<in> set entries. \<exists>n. pe_Name e = nsname ns n" using snoc.prems(2) by simp
  obtain reported w' where IH: "fold (pollEntry c cn pod) entries ([], w) = (reported, w')"
    "set reported = {n. reportedStates entries (nsname ns n) \<noteq> None}"
    "pollEffect ns cn pod (reportedStates entries) (repr w) (repr w')"
    by (rule snoc.IH [OF _ pre])
  obtain m where m: "pe_Name e = nsname ns m" using snoc.prems(2) by auto
  show ?case
  proof (cases "pe_State e")
    case None
    then have "reportedStates (entries @ [e]) = reportedStates entries" by (simp add: reportedStates_def)
    then show ?thesis using None IH by (intro snoc.prems(1) [of reported w']) (simp_all add: pollEntry_None)
  next
    case (Some st)
    let ?w = "updateLoop c maxConflictRetries (setClusterState cn (clusterState pod st)) ns m w'"
    have R: "reportedStates (entries @ [e]) = (reportedStates entries)(nsname ns m \<mapsto> st)"
      using Some by (simp add: reportedStates_def m)
    have store: "repr ?w = (case repr w' (ns, m) of None \<Rightarrow> repr w'
        | Some t \<Rightarrow> (repr w')((ns, m) := Some (setClusterState cn (clusterState pod st) t)))"
      by (rule updateLoop_store [OF assms(1)]) (simp_all add: maxConflictRetries_def)
    show ?thesis
    proof (rule snoc.prems(1))
      show "fold (pollEntry c cn pod) (entries @ [e]) ([], w) = (m # reported, ?w)"
        using IH(1) by (simp add: pollEntry_Some [OF Some m assms(3)])
      show "set (m # reported) = {n. reportedStates (entries @ [e]) (nsname ns n) \<noteq> None}"
        using IH(2) by (auto simp: R nsname_inj assms(3))
      show "pollEffect ns cn pod (reportedStates (entries @ [e])) (repr w) (repr ?w)"
        unfolding R store by (rule pollEffect_step [OF IH(3) assms(3)])
    qed
  qed
qed

text \<open>
  C23: A poll repairs what events missed. After a successful poll of a pod, the cluster's entry of every
  target of the namespace is the state the pod reported for it; a target the pod does not report has no
  entry of that pod; entries of other pods and of other clusters, and other namespaces, stay as they
  are.
\<close>

theorem pollAndSync_exact:
  assumes "reliableState c repr"
    and "\<forall>e \<in> set entries. \<exists>n. pe_Name e = nsname ns n" and "CHR ''/'' \<notin> set ns"
    and "repr w (s, n) = Some t"
  shows "\<exists>t'. repr (pollAndSync c (Inr entries) cn ns pod w) (s, n) = Some t' \<and>
    (\<forall>cn'. gget (states0 t') cn' =
       (if cn' = cn \<and> s = ns
        then case reportedStates entries (nsname ns n) of
               Some st \<Rightarrow> Some (clusterState pod st)
             | None \<Rightarrow> (case gget (states0 t) cn of
                          None \<Rightarrow> None
                        | Some cs \<Rightarrow> if cts_Pod cs = pod then None else Some cs)
        else gget (states0 t) cn'))"
proof -
  obtain reported w' where polls: "fold (pollEntry c cn pod) entries ([], w) = (reported, w')"
    "set reported = {n. reportedStates entries (nsname ns n) \<noteq> None}"
    "pollEffect ns cn pod (reportedStates entries) (repr w) (repr w')"
    by (rule polls_store [OF assms(1-3)])
  let ?stale = "\<lambda>target cs. cts_Pod cs = pod \<and> m_Name (t_Meta target) \<notin> set reported"
  obtain t1 where t1: "repr w' (s, n) = Some t1" "t_Meta t1 = t_Meta t"
    and e1: "\<And>cn'. gget (states0 t1) cn' =
      (if cn' = cn \<and> s = ns
       then (case reportedStates entries (nsname ns n) of Some st \<Rightarrow> Some (clusterState pod st) | None \<Rightarrow> gget (states0 t) cn')
       else gget (states0 t) cn')"
    using polls(3) [unfolded pollEffect_def, rule_format, of s n] assms(4) by auto
  have name: "m_Name (t_Meta t1) = n"
    using namedStore_key [OF reliable_named [OF assms(1)] t1(1)] by (simp add: keyOf_def)
  have clean: "repr (pollAndSync c (Inr entries) cn ns pod w) = cleaned ns cn ?stale (repr w')"
    using polls(1) by (simp add: pollAndSync_def cleanupWhere_store [OF assms(1)])
  obtain t' where t': "cleaned ns cn ?stale (repr w') (s, n) = Some t'"
    using cleanup_keeps [OF assms(1) t1(1)] unfolding cleanupWhere_store [OF assms(1)] by blast
  note e2 = cleaned_entry [OF t' t1(1)]
  show ?thesis
    unfolding clean t'
    by (intro exI [of _ t'] conjI refl allI) (auto simp: clusterState_def e2 e1 name polls(2) split: option.split)
qed

theorem pollAndSync_exact_witness:
  "\<exists>t'. memStore (pollAndSync (memState None) (Inr [\<lparr>pe_Name = nsname ''n'' ''u'', pe_State = Some exState\<rparr>])
       ''c'' ''n'' ''g-1'' [exCollected]) (''n'', ''t'') = Some t' \<and>
     gget (states0 exCollected) ''c'' = Some (exEntry ''g-1'') \<and> gget (states0 t') ''c'' = None"
proof -
  let ?entries = "[\<lparr>pe_Name = nsname ''n'' ''u'', pe_State = Some exState\<rparr>]"
  have has: "gget (states0 exCollected) ''c'' = Some (exEntry ''g-1'')"
    by (simp add: exCollected_def gomap_simps)
  have none: "reportedStates ?entries (nsname ''n'' ''t'') = None"
    by (simp add: reportedStates_def nsname_inj)
  have names: "\<forall>e \<in> set ?entries. \<exists>n. pe_Name e = nsname ''n'' n" by auto
  have pod: "cts_Pod (exEntry ''g-1'') = ''g-1''" by (simp add: exEntry_def clusterState_def)
  obtain t' where "memStore (pollAndSync (memState None) (Inr ?entries) ''c'' ''n'' ''g-1'' [exCollected]) (''n'', ''t'') = Some t'"
    "gget (states0 t') ''c'' = None"
    using pollAndSync_exact [OF memState_reliable names _ exCollected_stored, of None "''c''" "''g-1''"] has
    by (auto simp: none pod)
  with has show ?thesis by blast
qed

section \<open>Streams\<close>

lemma gget_stop:
  "gget (stopStreamsForCluster ns cn ss) k =
     (if HasPrefix k (streamPrefix ns cn) then None else gget ss k)"
  by (induction ss) (auto simp: stopStreamsForCluster_def gget_def)

lemma gget_start:
  assumes "CHR ''/'' \<notin> set ns" and "CHR ''/'' \<notin> set cn" and "CHR ''/'' \<notin> set ns'" and "CHR ''/'' \<notin> set cn'"
  shows "gget (fold (\<lambda>i ss. gput ss (streamKey ns cn i) (url i)) is ss) (streamKey ns' cn' j) =
    (if ns' = ns \<and> cn' = cn \<and> j \<in> set is then Some (url j) else gget ss (streamKey ns' cn' j))"
  by (induction "is" arbitrary: ss) (auto simp: gomap_simps streamKey_inj assms)

text \<open>
  C24: The running streams follow the spec. When a cluster with \<open>pods\<close> replicas and an existing
  StatefulSet is reconciled, one stream runs for each of the pods \<open>0 \<dots> pods - 1\<close>, reading that pod's
  address, no stream of a pod beyond them is left, and the streams of every other cluster keep running.
\<close>

theorem Reconcile_streams:
  assumes "sc_getCluster c ns name w = (Inr cl, w1)" and "sc_getStatefulSet c ns (statefulSetName name) w1 = (None, w2)"
    and "m_Namespace (cl_Meta cl) = ns" and "m_Name (cl_Meta cl) = name"
    and "cs_Replicas (cl_Spec cl) = Some pods" and "pods \<noteq> 0"
    and "CHR ''/'' \<notin> set ns" and "CHR ''/'' \<notin> set name"
  shows "\<exists>ss' w'. Reconcile c domain ns name (ss, w) = (Done, ss', w') \<and>
    (\<forall>ns' cn' i. CHR ''/'' \<notin> set ns' \<longrightarrow> CHR ''/'' \<notin> set cn' \<longrightarrow>
       gget ss' (streamKey ns' cn' i) =
         (if ns' = ns \<and> cn' = name
          then if 0 \<le> i \<and> i < pods then Some (buildPodSSEURL domain cl (statefulSetName name) i) else None
          else gget ss (streamKey ns' cn' i)))"
proof -
  let ?ss = "fold (\<lambda>i ss. gput ss (streamKey ns name i) (buildPodSSEURL domain cl (statefulSetName name) i))
     [0..pods - 1] (stopStreamsForCluster ns name ss)"
  have "Reconcile c domain ns name (ss, w) =
      (Done, ?ss, removeStalePodsFromTargets c ns name (statefulSetName name) pods w2)"
    using assms(1-6) by (simp add: Reconcile_def Let_def)
  moreover have "gget ?ss (streamKey ns' cn' i) =
      (if ns' = ns \<and> cn' = name
       then if 0 \<le> i \<and> i < pods then Some (buildPodSSEURL domain cl (statefulSetName name) i) else None
       else gget ss (streamKey ns' cn' i))" if "CHR ''/'' \<notin> set ns'" "CHR ''/'' \<notin> set cn'" for ns' cn' i
    using that assms(7,8) by (auto simp: gget_start gget_stop streamKey_other_cluster)
  ultimately show ?thesis by blast
qed

definition exCluster :: cluster where
  "exCluster =
     \<lparr>cl_Meta = \<lparr>m_Name = ''c'', m_Namespace = ''n'', m_Labels = [], m_Generation = 1, m_ResourceVersion = [],
        m_Finalizers = [], m_Deleting = False\<rparr>,
      cl_Spec = \<lparr>cs_Image = ''i'', cs_Replicas = Some 2, cs_API = None, cs_ClientTLS = None, cs_GRPCTunnel = None,
       cs_Resources = \<lparr>rr_Requests = [], rr_Limits = []\<rparr>, cs_Env = [],
        cs_TargetDistribution = None\<rparr>,
      cl_Status = \<lparr>cst_Conditions = [], cst_ReadyReplicas = 0, cst_Selector = [], cst_PipelinesCount = 0,
        cst_TargetsCount = 0, cst_UnassignedTargets = 0, cst_SubscriptionsCount = 0, cst_InputsCount = 0,
        cst_OutputsCount = 0\<rparr>\<rparr>"

theorem Reconcile_streams_witness:
  "\<exists>ss' w'. Reconcile (memState (Some exCluster)) ''cluster.local'' ''n'' ''c''
       ([(streamKey ''n'' ''c'' 5, ''old''), (streamKey ''n'' ''d'' 0, ''other'')], []) = (Done, ss', w') \<and>
     gget ss' (streamKey ''n'' ''c'' 5) = None \<and> gget ss' (streamKey ''n'' ''d'' 0) = Some ''other'' \<and>
     gget ss' (streamKey ''n'' ''c'' 1) \<noteq> None"
proof -
  let ?ss = "[(streamKey ''n'' ''c'' 5, ''old''), (streamKey ''n'' ''d'' 0, ''other'')]"
  have other: "gget ?ss (streamKey ''n'' ''d'' 0) = Some ''other''"
    by (simp add: gget_def streamKey_inj)
  show ?thesis
    using Reconcile_streams [of "memState (Some exCluster)" "''n''" "''c''" "[]" exCluster "[]" "[]" 2 "''cluster.local''" ?ss]
      other
    by (force simp: memState_def exCluster_def)
qed

text \<open>
  A deleted or scaled-to-zero cluster leaves nothing behind. Reconciling a cluster that does not
  exist stops its streams and no others, and removes its entry from every target of the namespace and
  nothing else.
\<close>

theorem Reconcile_deleted:
  assumes "reliableState c repr" and "sc_getCluster c ns name w = (Inl NotFound, w1)" and "repr w1 = repr w"
    and "CHR ''/'' \<notin> set ns" and "CHR ''/'' \<notin> set name"
  shows "\<exists>ss' w'. Reconcile c domain ns name (ss, w) = (Done, ss', w') \<and>
    (\<forall>ns' cn' i. CHR ''/'' \<notin> set ns' \<longrightarrow> CHR ''/'' \<notin> set cn' \<longrightarrow>
       gget ss' (streamKey ns' cn' i) =
         (if ns' = ns \<and> cn' = name then None else gget ss (streamKey ns' cn' i))) \<and>
    (\<forall>s n t. repr w (s, n) = Some t \<longrightarrow>
       (\<exists>t'. repr w' (s, n) = Some t' \<and>
          (\<forall>cn'. gget (states0 t') cn' = (if cn' = name \<and> s = ns then None else gget (states0 t) cn'))))"
proof -
  let ?w = "removeClusterFromTargets c ns name w1"
  have rec: "Reconcile c domain ns name (ss, w) = (Done, stopStreamsForCluster ns name ss, ?w)"
    using assms(2) by (simp add: Reconcile_def)
  have "gget (stopStreamsForCluster ns name ss) (streamKey ns' cn' i) =
      (if ns' = ns \<and> cn' = name then None else gget ss (streamKey ns' cn' i))"
    if "CHR ''/'' \<notin> set ns'" "CHR ''/'' \<notin> set cn'" for ns' cn' i
    using that assms(4,5) by (simp add: gget_stop streamKey_other_cluster)
  moreover have "\<exists>t'. repr ?w (s, n) = Some t' \<and>
      (\<forall>cn'. gget (states0 t') cn' = (if cn' = name \<and> s = ns then None else gget (states0 t) cn'))"
    if t: "repr w (s, n) = Some t" for s n t
  proof -
    have clean: "repr ?w = cleaned ns name (\<lambda>_ _. True) (repr w)"
      unfolding removeClusterFromTargets_def cleanupWhere_store [OF assms(1)] assms(3) ..
    obtain t' where t': "cleaned ns name (\<lambda>_ _. True) (repr w) (s, n) = Some t'"
      using cleanup_keeps [OF assms(1) t] unfolding cleanupWhere_store [OF assms(1)] by blast
    show ?thesis
      unfolding clean t' using cleaned_entry [OF t' t] by (auto split: option.splits)
  qed
  ultimately show ?thesis using rec by blast
qed

theorem Reconcile_deleted_witness:
  "\<exists>ss' w' t'. Reconcile (memState None) ''cluster.local'' ''n'' ''c'' ([(streamKey ''n'' ''c'' 0, ''u'')], [exCollected])
       = (Done, ss', w') \<and>
     gget ss' (streamKey ''n'' ''c'' 0) = None \<and> memStore w' (''n'', ''t'') = Some t' \<and> gget (states0 t') ''c'' = None"
proof -
  have "sc_getCluster (memState None) ''n'' ''c'' [exCollected] = (Inl NotFound, [exCollected])"
    by (simp add: memState_def)
  then show ?thesis
    using Reconcile_deleted [OF memState_reliable, of None "''n''" "''c''" "[exCollected]" "[exCollected]" "''cluster.local''"
        "[(streamKey ''n'' ''c'' 0, ''u'')]"] exCollected_stored
    by fastforce
qed

section \<open>Reconnects\<close>

definition received :: "session \<Rightarrow> bool" where
  "received s \<longleftrightarrow> s = Streamed True"

lemma backoff_min:
  "backoff (min (reconnectMinDelay * 2 ^ j) reconnectMaxDelay) = min (reconnectMinDelay * 2 ^ Suc j) reconnectMaxDelay"
  by (simp add: backoff_def reconnectMinDelay_def reconnectMaxDelay_def second_def Let_def min_def)

lemma runStreamDelays_from:
  assumes "i < length ss"
  shows "runStreamDelays (min (reconnectMinDelay * 2 ^ j) reconnectMaxDelay) ss ! i =
    (let quiet = takeWhile (\<lambda>s. \<not> received s) (rev (take (Suc i) ss))
     in min (reconnectMinDelay * 2 ^ (if length quiet \<le> i then length quiet else j + i)) reconnectMaxDelay)"
  using assms
proof (induction ss arbitrary: i j)
  case (Cons s ss)
  let ?d = "\<lambda>j. min (reconnectMinDelay * 2 ^ j) reconnectMaxDelay"
  define k where "k = (if received s then 0 else j)"
  have min0: "reconnectMinDelay = ?d 0" by (simp add: reconnectMinDelay_def reconnectMaxDelay_def second_def)
  have unfold: "runStreamDelays (?d j) (s # ss) = ?d k # runStreamDelays (?d (Suc k)) ss"
  proof (cases s)
    case NoClient
    then show ?thesis by (simp add: k_def received_def backoff_min del: power_Suc)
  next
    case (Streamed b)
    then show ?thesis using backoff_min [of 0] min0 by (cases b) (simp_all add: k_def received_def backoff_min Let_def del: power_Suc)
  qed
  show ?case
  proof (cases i)
    case 0
    then show ?thesis unfolding unfold by (simp add: k_def Let_def)
  next
    case (Suc i')
    let ?q = "takeWhile (\<lambda>s. \<not> received s) (rev (take (Suc i') ss))"
    have IH: "runStreamDelays (?d (Suc k)) ss ! i' = ?d (if length ?q \<le> i' then length ?q else Suc k + i')"
      using Cons.IH [of i' "Suc k"] Cons.prems Suc by (simp add: Let_def)
    have len: "length (rev (take (Suc i') ss)) = Suc i'" using Cons.prems Suc by simp
    have all: "length ?q \<le> i' \<longleftrightarrow> (\<exists>x \<in> set (rev (take (Suc i') ss)). received x)"
    proof -
      have "length ?q \<le> i' \<longleftrightarrow> ?q \<noteq> rev (take (Suc i') ss)"
        using len length_takeWhile_le [of "\<lambda>s. \<not> received s" "rev (take (Suc i') ss)"]
        by (metis Suc_n_not_le_n le_Suc_eq takeWhile_eq_all_conv takeWhile_eq_take take_all_iff)
      then show ?thesis by (simp add: takeWhile_eq_all_conv del: set_rev)
    qed
    show ?thesis
    proof (cases "length ?q \<le> i'")
      case True
      then have "takeWhile (\<lambda>s. \<not> received s) (rev (take (Suc i') ss) @ [s]) = ?q"
        using all by (metis takeWhile_append1)
      then show ?thesis using True IH Suc unfold by (simp add: Let_def)
    next
      case False
      then have "takeWhile (\<lambda>s. \<not> received s) (rev (take (Suc i') ss) @ [s]) =
          rev (take (Suc i') ss) @ takeWhile (\<lambda>s. \<not> received s) [s]"
        using all by (metis takeWhile_append2)
      then show ?thesis using False IH Suc unfold len by (auto simp: Let_def k_def)
    qed
  qed
qed simp

text \<open>
  Reconnects back off and recover. The delay after a session is two seconds, doubled for every
  session since the last one that received events and cut at ten seconds; so it is always between two
  and ten seconds, and two seconds right after a session with events.
\<close>

theorem runStreamDelays_exact:
  assumes "i < length ss"
  shows "runStreamDelays reconnectMinDelay ss ! i =
    (let quiet = length (takeWhile (\<lambda>s. s \<noteq> Streamed True) (rev (take (Suc i) ss)))
     in min (2 * second * 2 ^ min i quiet) (10 * second))"
proof -
  let ?q = "takeWhile (\<lambda>s. \<not> received s) (rev (take (Suc i) ss))"
  have "length ?q \<le> Suc i" using length_takeWhile_le [of _ "rev (take (Suc i) ss)"] assms by (metis length_rev length_take min.absorb2 Suc_leI)
  then have "(if length ?q \<le> i then length ?q else 0 + i) = min i (length ?q)" by auto
  then show ?thesis
    using runStreamDelays_from [OF assms, of 0]
    by (simp add: received_def reconnectMinDelay_def reconnectMaxDelay_def second_def Let_def)
qed

theorem runStreamDelays_exact_witness:
  "runStreamDelays reconnectMinDelay [NoClient, Streamed False, Streamed False, Streamed True] ! 2 = 8 * second"
  using runStreamDelays_exact [of 2 "[NoClient, Streamed False, Streamed False, Streamed True]"]
  by (simp add: second_def)

section \<open>The event stream\<close>

text \<open>The lines of an event as a server writes them, after any number of comment lines.\<close>

definition renderEvent :: "(sse_event_data \<Rightarrow> string) \<Rightarrow> string list \<times> sse_event \<Rightarrow> string list" where
  "renderEvent enc = (\<lambda>(comments, ev).
     map (\<lambda>cm. CHR '':'' # cm) comments @
     [''event: '' @ se_EventType ev, ''data: '' @ enc (se_Data ev), []])"

lemma streamLines_comments: "streamLines parse cur (map (\<lambda>cm. CHR '':'' # cm) cms @ ls) = streamLines parse cur ls"
  by (induction cms) (simp_all add: HasPrefix_def)

lemma streamLines_event:
  assumes "parse (enc (se_Data ev)) = Some (se_Data ev)"
  shows "streamLines parse cur (renderEvent enc (cms, ev) @ ls) =
    (if sd_Kind (se_Data ev) = ''targets'' \<and> sd_Store (se_Data ev) = SSEStoreState then [ev] else []) @ streamLines parse [] ls"
proof -
  have "CutPrefix (''event: '' @ x) ''event: '' = Some x" "CutPrefix (''data: '' @ x) ''data: '' = Some x"
    "CutPrefix (''data: '' @ x) ''event: '' = None" for x
    by (simp_all add: CutPrefix_def HasPrefix_def)
  then show ?thesis
    using assms by (auto simp: renderEvent_def streamLines_comments HasPrefix_def)
qed

text \<open>
  C32: The stream parser reads back what a server writes: of events written one after the other, with
  comment lines between them, exactly the target-state events arrive, in order, each with its own type
  and data.
\<close>

theorem streamLines_roundtrip:
  assumes "\<forall>(cms, ev) \<in> set evs. parse (enc (se_Data ev)) = Some (se_Data ev)"
  shows "streamLines parse cur (concat (map (renderEvent enc) evs)) =
    filter (\<lambda>ev. sd_Kind (se_Data ev) = ''targets'' \<and> sd_Store (se_Data ev) = SSEStoreState) (map snd evs)"
  using assms
proof (induction evs arbitrary: cur)
  case (Cons a evs)
  then show ?case
    using streamLines_event [of parse enc "snd a" cur "fst a"] by (cases a) auto
qed simp

theorem streamLines_roundtrip_witness:
  "streamLines (\<lambda>_. Some (se_Data (exEvent ''update''))) []
     (concat (map (renderEvent (\<lambda>_. ''{}'')) [([''ping''], exEvent ''update''), ([], exEvent ''update'')])) =
   [exEvent ''update'', exEvent ''update'']"
  using streamLines_roundtrip [of "[([''ping''], exEvent ''update''), ([], exEvent ''update'')]"
      "\<lambda>_. Some (se_Data (exEvent ''update''))" "\<lambda>_. ''{}''" "[]"]
  by (simp add: exEvent_def SSEStoreState_def)

end
