(* ===== verification/Webhooks.thy ===== *)
theory Webhooks
  imports Target_State Discovery_Core
begin

text \<open>
  The admission webhooks of \<^verbatim>\<open>internal/webhook/v1alpha1\<close>: the checks of every kind and the validators
  that run them on create, update and delete. The defaulting webhooks, which change nothing, are in
  \<open>Operator_Setup\<close>; the warnings, which are always nil, are left out. \<^verbatim>\<open>regexp.Compile\<close> is a parameter.
\<close>

section \<open>Errors\<close>

text \<open>The value a \<^verbatim>\<open>field.Invalid\<close> carries; intervals are printed with \<^verbatim>\<open>Duration.String\<close>.\<close>

datatype field_value = IntValue int | StringValue string | DurationValue duration | TimeValue time

datatype field_error =
  Required "string list" string
| Invalid "string list" field_value string

text \<open>\<^verbatim>\<open>NewInvalid\<close> carries the kind, the name and all field errors.\<close>

datatype admission_error = WrongKind string | NewInvalid string string "field_error list"

definition invalidUnless :: "string \<Rightarrow> string \<Rightarrow> field_error list \<Rightarrow> admission_error option" where
  "invalidUnless kind name errs = (if errs = [] then None else Some (NewInvalid kind name errs))"

section \<open>Clusters\<close>

definition isValidPort :: "int \<Rightarrow> bool" where
  "isValidPort port \<longleftrightarrow> 1 \<le> port \<and> port \<le> 65535"

definition validateClusterTLS :: "cluster_tls option \<Rightarrow> string list \<Rightarrow> field_error list" where
  "validateClusterTLS tls fldPath =
     (case tls of
        None \<Rightarrow> []
      | Some tls \<Rightarrow>
          if ct_IssuerRef tls = []
          then [Required (fldPath @ [''issuerRef'']) ''issuerRef is required when TLS is enabled''] else [])"

definition validateAPI :: "api_config option \<Rightarrow> field_error list" where
  "validateAPI cfg =
     (case cfg of
        None \<Rightarrow> []
      | Some api \<Rightarrow>
          (if \<not> isValidPort (api_RestPort api)
           then [Invalid [''spec'', ''api'', ''restPort''] (IntValue (api_RestPort api))
                   ''restPort must be between 1 and 65535''] else []) @
          (if api_GNMIPort api \<noteq> 0
           then (if \<not> isValidPort (api_GNMIPort api)
                 then [Invalid [''spec'', ''api'', ''gnmiPort''] (IntValue (api_GNMIPort api))
                         ''gnmiPort must be between 1 and 65535''] else []) @
                (if api_GNMIPort api = api_RestPort api
                 then [Invalid [''spec'', ''api'', ''gnmiPort''] (IntValue (api_GNMIPort api))
                         ''gnmiPort must not be the same as restPort''] else [])
           else []) @
          validateClusterTLS (api_TLS api) [''spec'', ''api'', ''tls''])"

definition validateClusterSpec :: "cluster_spec \<Rightarrow> admission_error option" where
  "validateClusterSpec spec =
     invalidUnless ''Cluster'' []
       ((if cs_Image spec = [] then [Required [''spec'', ''image''] ''image is required''] else []) @
        (case cs_Replicas spec of
           None \<Rightarrow> []
         | Some n \<Rightarrow> if n < 1 then [Invalid [''spec'', ''replicas''] (IntValue n) ''replicas must be at least 1''] else []) @
        validateAPI (cs_API spec) @
        validateClusterTLS (cs_ClientTLS spec) [''spec'', ''clientTLS''] @
        (case cs_GRPCTunnel spec of
           None \<Rightarrow> []
         | Some gt \<Rightarrow>
             (if \<not> isValidPort (gt_Port gt)
              then [Invalid [''spec'', ''grpcTunnel'', ''port''] (IntValue (gt_Port gt)) ''port must be between 1 and 65535'']
              else []) @
             validateClusterTLS (gt_TLS gt) [''spec'', ''grpcTunnel'', ''tls'']))"

section \<open>Pipelines\<close>

definition validatePipelineSpec :: "pipeline_spec \<Rightarrow> admission_error option" where
  "validatePipelineSpec spec =
     (let hasTargets = (0 < length (ps_TargetSelectors spec) \<or> 0 < length (ps_TargetRefs spec));
          hasTunnelTargets =
            (0 < length (ps_TunnelTargetPolicySelectors spec) \<or> 0 < length (ps_TunnelTargetPolicyRefs spec));
          hasInputs = (0 < length (is_InputSelectors (ps_Inputs spec)) \<or> 0 < length (is_InputRefs (ps_Inputs spec)));
          hasSubscriptions = (0 < length (ps_SubscriptionSelectors spec) \<or> 0 < length (ps_SubscriptionRefs spec));
          hasOutputs = (0 < length (os_OutputSelectors (ps_Outputs spec)) \<or> 0 < length (os_OutputRefs (ps_Outputs spec)))
      in invalidUnless ''Pipeline'' []
           ((if ps_ClusterRef spec = [] then [Required [''spec'', ''clusterRef''] ''clusterRef is required''] else []) @
            (if \<not> hasTargets \<and> \<not> hasTunnelTargets \<and> \<not> hasInputs
             then [Required [''spec''] ''at least one data source is required: configure targetSelectors, targetRefs, tunnelTargetPolicySelectors, tunnelTargetPolicyRefs, or inputs''] else []) @
            (if (hasTargets \<or> hasTunnelTargets) \<and> \<not> hasSubscriptions
             then [Required [''spec''] ''at least one subscription is required when targets or tunnel target policies are configured: set subscriptionSelectors or subscriptionRefs''] else []) @
            (if \<not> hasOutputs
             then [Required [''spec'', ''outputs''] ''at least one output is required: set outputSelectors or outputRefs''] else [])))"

section \<open>Subscriptions\<close>

definition validateSubscriptionSpec :: "string \<Rightarrow> subscription_spec \<Rightarrow> admission_error option" where
  "validateSubscriptionSpec name spec =
     invalidUnless ''Subscription'' name
       ((if length (ss_Paths spec) = 0 \<and> length (ss_StreamSubscriptions spec) = 0
         then [Required [''spec'', ''paths''] ''at least one path is required when streamSubscriptions is empty''] else []) @
        (if 0 < length (ss_StreamSubscriptions spec) \<and> \<not> HasPrefix (ss_Mode spec) ''STREAM''
         then [Invalid [''spec'', ''mode''] (StringValue (ss_Mode spec))
                 ''mode must be STREAM when streamSubscriptions are set''] else []) @
        (if ss_SampleInterval spec < 0
         then [Invalid [''spec'', ''sampleInterval''] (DurationValue (ss_SampleInterval spec))
                 ''sampleInterval must be a positive duration''] else []) @
        (if ss_HeartbeatInterval spec < 0
         then [Invalid [''spec'', ''heartbeatInterval''] (DurationValue (ss_HeartbeatInterval spec))
                 ''heartbeatInterval must be a positive duration''] else []) @
        (case ss_History spec of
           None \<Rightarrow> []
         | Some h \<Rightarrow>
             if hc_Start h \<noteq> 0 \<and> hc_End h \<noteq> 0 \<and> hc_Start h < hc_End h
             then [Invalid [''spec'', ''history'', ''start''] (TimeValue (hc_Start h)) ''history start must be before end'']
             else []))"

section \<open>Target profiles\<close>

definition TLSVersions :: "string list" where
  "TLSVersions = [[], ''1.1'', ''1.2'', ''1.3'']"

definition validateTargetProfileSpec :: "target_profile_spec \<Rightarrow> field_error list" where
  "validateTargetProfileSpec spec =
     (if tp_Timeout spec < 1 * second
      then [Invalid [''spec'', ''timeout''] (DurationValue (tp_Timeout spec)) ''timeout must be at least 1 second''] else []) @
     (if tp_RetryTimer spec < 1 * second
      then [Invalid [''spec'', ''retryTimer''] (DurationValue (tp_RetryTimer spec)) ''retry timer must be at least 1 second''] else []) @
     (if tp_Encoding spec \<noteq> ''JSON'' \<and> tp_Encoding spec \<noteq> ''BYTES'' \<and> tp_Encoding spec \<noteq> ''PROTO'' \<and>
         tp_Encoding spec \<noteq> ''ASCII'' \<and> tp_Encoding spec \<noteq> ''JSON_IETF''
      then [Invalid [''spec'', ''encoding''] (StringValue (tp_Encoding spec))
              ''encoding must be one of JSON, BYTES, PROTO, ASCII, or JSON_IETF''] else []) @
     (case tp_TLS spec of
        None \<Rightarrow> []
      | Some tls \<Rightarrow>
          (if tt_MaxVersion tls \<notin> set TLSVersions
           then [Invalid [''spec'', ''tls'', ''maxVersion''] (StringValue (tt_MaxVersion tls))
                   ''TLS max version must be one of 1.1, 1.2, or 1.3''] else []) @
          (if tt_MinVersion tls \<notin> set TLSVersions
           then [Invalid [''spec'', ''tls'', ''minVersion''] (StringValue (tt_MinVersion tls))
                   ''TLS min version must be one of 1.1, 1.2, or 1.3''] else [])) @
     (case tp_TCPKeepAlive spec of
        None \<Rightarrow> []
      | Some d \<Rightarrow>
          if d < 1 * second
          then [Invalid [''spec'', ''tcpKeepAlive'', ''duration''] (DurationValue d)
                  ''TCP keep-alive interval must be at least 1 second''] else []) @
     (case tp_GRCPKeepAlive spec of
        None \<Rightarrow> []
      | Some k \<Rightarrow>
          (if gk_Time k < 1 * second
           then [Invalid [''spec'', ''grpcKeepAlive'', ''time'', ''duration''] (DurationValue (gk_Time k))
                   ''gRPC keep-alive time must be at least 1 second''] else []) @
          (if gk_Timeout k < 1 * second
           then [Invalid [''spec'', ''grpcKeepAlive'', ''timeout''] (DurationValue (gk_Timeout k))
                   ''gRPC keep-alive timeout must be at least 1 second''] else []))"

section \<open>Targets\<close>

text \<open>
  \<^verbatim>\<open>net.SplitHostPort\<close>, \<open>None\<close> for its errors: the port follows the last colon; a host in brackets
  ends just before it, another host has no colon; no further bracket may occur.
\<close>

definition SplitHostPort :: "string \<Rightarrow> (string \<times> string) option" where
  "SplitHostPort hostport =
     (if CHR '':'' \<notin> set hostport then None
      else let portStr = rev (takeWhile (\<lambda>c. c \<noteq> CHR '':'') (rev hostport));
               before = take (length hostport - length portStr - 1) hostport
           in if hd hostport = CHR ''[''
              then let inside = takeWhile (\<lambda>c. c \<noteq> CHR '']'') (tl hostport)
                   in if before = CHR ''['' # inside @ '']'' \<and> CHR ''['' \<notin> set (tl hostport) \<and>
                         CHR '']'' \<notin> set portStr
                      then Some (inside, portStr) else None
              else if CHR '':'' \<in> set before \<or> CHR ''['' \<in> set hostport \<or> CHR '']'' \<in> set hostport then None
              else Some (before, portStr))"

definition validateTargetSpec :: "string \<Rightarrow> target_spec \<Rightarrow> admission_error option" where
  "validateTargetSpec name spec =
     invalidUnless ''Target'' name
       ((if ts_Address spec = [] then [Required [''spec'', ''address''] ''address is required'']
         else case SplitHostPort (ts_Address spec) of
                None \<Rightarrow> [Invalid [''spec'', ''address''] (StringValue (ts_Address spec)) ''address must be in host:port format'']
              | Some (host, portStr) \<Rightarrow>
                  (if host = []
                   then [Invalid [''spec'', ''address''] (StringValue (ts_Address spec)) ''address must include a host''] else []) @
                  (if (case Atoi portStr of None \<Rightarrow> True | Some port \<Rightarrow> port < 1 \<or> 65535 < port)
                   then [Invalid [''spec'', ''address''] (StringValue (ts_Address spec)) ''port must be between 1 and 65535'']
                   else [])) @
        (if ts_Profile spec = [] then [Required [''spec'', ''profile''] ''profile is required''] else []))"

section \<open>Tunnel target policies\<close>

text \<open>\<open>regexError\<close> is the error of \<^verbatim>\<open>regexp.Compile\<close>, \<open>None\<close> when the pattern compiles.\<close>

definition validateRegex :: "(string \<Rightarrow> string option) \<Rightarrow> string list \<Rightarrow> string \<Rightarrow> field_error list" where
  "validateRegex regexError path pat =
     (if pat = [] then []
      else case regexError pat of
             None \<Rightarrow> []
           | Some err \<Rightarrow> [Invalid path (StringValue pat) (''must be a valid regex: '' @ err)])"

definition validateTunnelTargetPolicySpec ::
  "(string \<Rightarrow> string option) \<Rightarrow> string \<Rightarrow> tunnel_policy_spec \<Rightarrow> admission_error option" where
  "validateTunnelTargetPolicySpec regexError name spec =
     invalidUnless ''TunnelTargetPolicy'' name
       ((if tpol_Profile spec = [] then [Required [''spec'', ''profile''] ''profile is required''] else []) @
        (case tpol_Match spec of
           None \<Rightarrow> []
         | Some mt \<Rightarrow>
             validateRegex regexError [''spec'', ''match'', ''type''] (tm_Type mt) @
             validateRegex regexError [''spec'', ''match'', ''id''] (tm_ID mt)))"

section \<open>Validators\<close>

text \<open>The objects a webhook may be called with; a name is kept where a validator reports it.\<close>

datatype object =
  ClusterObject cluster
| PipelineObject pipeline
| SubscriptionObject string subscription_spec
| TargetProfileObject string target_profile_spec
| TargetObject target
| TunnelTargetPolicyObject string tunnel_policy_spec
| OutputObject string output_spec
| InputObject string input_spec
| ProcessorObject string processor_spec
| TargetSourceObject string

record validator =
  ValidateCreate :: "object \<Rightarrow> admission_error option"
  ValidateUpdate :: "object \<Rightarrow> object \<Rightarrow> admission_error option"
  ValidateDelete :: "object \<Rightarrow> admission_error option"

definition ClusterCustomValidator :: validator where
  "ClusterCustomValidator =
     \<lparr>ValidateCreate = (\<lambda>obj. case obj of ClusterObject c \<Rightarrow> validateClusterSpec (cl_Spec c) | _ \<Rightarrow> Some (WrongKind ''Cluster'')),
      ValidateUpdate = (\<lambda>_ obj. case obj of ClusterObject c \<Rightarrow> validateClusterSpec (cl_Spec c) | _ \<Rightarrow> Some (WrongKind ''Cluster'')),
      ValidateDelete = (\<lambda>obj. case obj of ClusterObject c \<Rightarrow> None | _ \<Rightarrow> Some (WrongKind ''Cluster''))\<rparr>"

definition PipelineCustomValidator :: validator where
  "PipelineCustomValidator =
     \<lparr>ValidateCreate = (\<lambda>obj. case obj of PipelineObject p \<Rightarrow> validatePipelineSpec (pl_Spec p) | _ \<Rightarrow> Some (WrongKind ''Pipeline'')),
      ValidateUpdate = (\<lambda>_ obj. case obj of PipelineObject p \<Rightarrow> validatePipelineSpec (pl_Spec p) | _ \<Rightarrow> Some (WrongKind ''Pipeline'')),
      ValidateDelete = (\<lambda>obj. case obj of PipelineObject p \<Rightarrow> None | _ \<Rightarrow> Some (WrongKind ''Pipeline''))\<rparr>"

definition SubscriptionCustomValidator :: validator where
  "SubscriptionCustomValidator =
     \<lparr>ValidateCreate = (\<lambda>obj. case obj of SubscriptionObject n s \<Rightarrow> validateSubscriptionSpec n s | _ \<Rightarrow> Some (WrongKind ''Subscription'')),
      ValidateUpdate = (\<lambda>_ obj. case obj of SubscriptionObject n s \<Rightarrow> validateSubscriptionSpec n s | _ \<Rightarrow> Some (WrongKind ''Subscription'')),
      ValidateDelete = (\<lambda>obj. case obj of SubscriptionObject n s \<Rightarrow> None | _ \<Rightarrow> Some (WrongKind ''Subscription''))\<rparr>"

definition TargetProfileCustomValidator :: validator where
  "TargetProfileCustomValidator =
     \<lparr>ValidateCreate = (\<lambda>obj. case obj of TargetProfileObject n s \<Rightarrow> None | _ \<Rightarrow> Some (WrongKind ''TargetProfile'')),
      ValidateUpdate = (\<lambda>_ obj. case obj of
          TargetProfileObject n s \<Rightarrow> invalidUnless ''TargetProfile'' n (validateTargetProfileSpec s)
        | _ \<Rightarrow> Some (WrongKind ''TargetProfile'')),
      ValidateDelete = (\<lambda>obj. case obj of
          TargetProfileObject n s \<Rightarrow> invalidUnless ''TargetProfile'' n (validateTargetProfileSpec s)
        | _ \<Rightarrow> Some (WrongKind ''TargetProfile''))\<rparr>"

definition TargetCustomValidator :: validator where
  "TargetCustomValidator =
     \<lparr>ValidateCreate = (\<lambda>obj. case obj of
          TargetObject t \<Rightarrow> validateTargetSpec (m_Name (t_Meta t)) (t_Spec t) | _ \<Rightarrow> Some (WrongKind ''Target'')),
      ValidateUpdate = (\<lambda>_ obj. case obj of
          TargetObject t \<Rightarrow> validateTargetSpec (m_Name (t_Meta t)) (t_Spec t) | _ \<Rightarrow> Some (WrongKind ''Target'')),
      ValidateDelete = (\<lambda>obj. case obj of TargetObject t \<Rightarrow> None | _ \<Rightarrow> Some (WrongKind ''Target''))\<rparr>"

definition TunnelTargetPolicyCustomValidator :: "(string \<Rightarrow> string option) \<Rightarrow> validator" where
  "TunnelTargetPolicyCustomValidator regexError =
     \<lparr>ValidateCreate = (\<lambda>obj. case obj of
          TunnelTargetPolicyObject n s \<Rightarrow> validateTunnelTargetPolicySpec regexError n s
        | _ \<Rightarrow> Some (WrongKind ''TunnelTargetPolicy'')),
      ValidateUpdate = (\<lambda>_ obj. case obj of
          TunnelTargetPolicyObject n s \<Rightarrow> validateTunnelTargetPolicySpec regexError n s
        | _ \<Rightarrow> Some (WrongKind ''TunnelTargetPolicy'')),
      ValidateDelete = (\<lambda>obj. case obj of
          TunnelTargetPolicyObject n s \<Rightarrow> None | _ \<Rightarrow> Some (WrongKind ''TunnelTargetPolicy''))\<rparr>"

text \<open>The scaffolded validators of outputs, inputs, processors and target sources check the kind only.\<close>

definition OutputCustomValidator :: validator where
  "OutputCustomValidator =
     \<lparr>ValidateCreate = (\<lambda>obj. case obj of OutputObject n s \<Rightarrow> None | _ \<Rightarrow> Some (WrongKind ''Output'')),
      ValidateUpdate = (\<lambda>_ obj. case obj of OutputObject n s \<Rightarrow> None | _ \<Rightarrow> Some (WrongKind ''Output'')),
      ValidateDelete = (\<lambda>obj. case obj of OutputObject n s \<Rightarrow> None | _ \<Rightarrow> Some (WrongKind ''Output''))\<rparr>"

definition InputCustomValidator :: validator where
  "InputCustomValidator =
     \<lparr>ValidateCreate = (\<lambda>obj. case obj of InputObject n s \<Rightarrow> None | _ \<Rightarrow> Some (WrongKind ''Input'')),
      ValidateUpdate = (\<lambda>_ obj. case obj of InputObject n s \<Rightarrow> None | _ \<Rightarrow> Some (WrongKind ''Input'')),
      ValidateDelete = (\<lambda>obj. case obj of InputObject n s \<Rightarrow> None | _ \<Rightarrow> Some (WrongKind ''Input''))\<rparr>"

definition ProcessorCustomValidator :: validator where
  "ProcessorCustomValidator =
     \<lparr>ValidateCreate = (\<lambda>obj. case obj of ProcessorObject n s \<Rightarrow> None | _ \<Rightarrow> Some (WrongKind ''Processor'')),
      ValidateUpdate = (\<lambda>_ obj. case obj of ProcessorObject n s \<Rightarrow> None | _ \<Rightarrow> Some (WrongKind ''Processor'')),
      ValidateDelete = (\<lambda>obj. case obj of ProcessorObject n s \<Rightarrow> None | _ \<Rightarrow> Some (WrongKind ''Processor''))\<rparr>"

definition TargetSourceCustomValidator :: validator where
  "TargetSourceCustomValidator =
     \<lparr>ValidateCreate = (\<lambda>obj. case obj of TargetSourceObject n \<Rightarrow> None | _ \<Rightarrow> Some (WrongKind ''TargetSource'')),
      ValidateUpdate = (\<lambda>_ obj. case obj of TargetSourceObject n \<Rightarrow> None | _ \<Rightarrow> Some (WrongKind ''TargetSource'')),
      ValidateDelete = (\<lambda>obj. case obj of TargetSourceObject n \<Rightarrow> None | _ \<Rightarrow> Some (WrongKind ''TargetSource''))\<rparr>"

section \<open>What is admitted\<close>

lemma invalidUnless_None [simp]: "invalidUnless kind name errs = None \<longleftrightarrow> errs = []"
  by (simp add: invalidUnless_def)

lemma lastPort:
  assumes "CHR '':'' \<notin> set port"
  shows "rev (takeWhile (\<lambda>c. c \<noteq> CHR '':'') (rev (host @ CHR '':'' # port))) = port"
proof -
  have "takeWhile (\<lambda>c. c \<noteq> CHR '':'') (rev port @ CHR '':'' # rev host) = rev port"
    using assms by (subst takeWhile_append2) auto
  then show ?thesis by simp
qed

lemma SplitHostPort_plain:
  assumes "CHR '':'' \<notin> set port" and "CHR '']'' \<notin> set port" and "CHR ''['' \<notin> set port"
    and "CHR '':'' \<notin> set host" and "CHR '']'' \<notin> set host" and "CHR ''['' \<notin> set host"
  shows "SplitHostPort (host @ CHR '':'' # port) = Some (host, port)"
proof -
  have "hd (host @ CHR '':'' # port) \<noteq> CHR ''[''"
    using assms(6) by (cases host) auto
  then show ?thesis
    unfolding SplitHostPort_def Let_def lastPort [OF assms(1)] using assms by auto
qed

lemma SplitHostPort_bracket:
  assumes "CHR '':'' \<notin> set port" and "CHR '']'' \<notin> set port" and "CHR ''['' \<notin> set port"
    and "CHR '']'' \<notin> set host" and "CHR ''['' \<notin> set host"
  shows "SplitHostPort (CHR ''['' # host @ CHR '']'' # CHR '':'' # port) = Some (host, port)"
proof -
  let ?hp = "CHR ''['' # host @ CHR '']'' # CHR '':'' # port"
  have port: "rev (takeWhile (\<lambda>c. c \<noteq> CHR '':'') (rev ?hp)) = port"
    using lastPort [OF assms(1), of "CHR ''['' # host @ '']''"] by simp
  have before: "take (length ?hp - length port - 1) ?hp = CHR ''['' # host @ '']''"
    by simp
  have inside: "takeWhile (\<lambda>c. c \<noteq> CHR '']'') (tl ?hp) = host"
  proof -
    have "takeWhile (\<lambda>c. c \<noteq> CHR '']'') (host @ CHR '']'' # CHR '':'' # port) = host"
      using assms(4) by (subst takeWhile_append2) auto
    then show ?thesis by simp
  qed
  show ?thesis
    unfolding SplitHostPort_def Let_def port before inside using assms by auto
qed

lemma SplitHostPort_Join:
  assumes "CHR '':'' \<notin> set port" and "CHR '']'' \<notin> set port" and "CHR ''['' \<notin> set port"
    and "CHR '']'' \<notin> set host" and "CHR ''['' \<notin> set host"
  shows "SplitHostPort (JoinHostPort host port) = Some (host, port)"
  using SplitHostPort_plain [OF assms(1-3)] SplitHostPort_bracket [OF assms] assms(4,5)
  by (simp add: JoinHostPort_def)

lemma digits_no_punct:
  assumes "digit_val c = None" and "c \<noteq> CHR ''-''"
  shows "c \<notin> set (Itoa i)"
  using assms nat_dec_digits [of c] by (auto simp: Itoa_def)

text \<open>
  Target addresses are checked exactly. A target whose address joins a host, an IPv6 address
  included, and a decimal port is admitted on create and on update if and only if the port is between
  1 and 65535 and a profile is set; the checks never refuse a target that is being deleted.
\<close>

theorem target_admission:
  assumes "host \<noteq> []" and "CHR ''['' \<notin> set host" and "CHR '']'' \<notin> set host"
    and "- (2 ^ 63) \<le> port" and "port < 2 ^ 63"
    and "ts_Address (t_Spec t) = JoinHostPort host (Itoa port)"
  shows "(ValidateCreate TargetCustomValidator (TargetObject t) = None \<longleftrightarrow>
      1 \<le> port \<and> port \<le> 65535 \<and> ts_Profile (t_Spec t) \<noteq> []) \<and>
    (ValidateUpdate TargetCustomValidator old (TargetObject t) = None \<longleftrightarrow>
      1 \<le> port \<and> port \<le> 65535 \<and> ts_Profile (t_Spec t) \<noteq> []) \<and>
    ValidateDelete TargetCustomValidator (TargetObject t) = None"
proof -
  have punct: "CHR '':'' \<notin> set (Itoa port)" "CHR '']'' \<notin> set (Itoa port)" "CHR ''['' \<notin> set (Itoa port)"
    by (rule digits_no_punct; simp add: digit_val_def)+
  have split: "SplitHostPort (ts_Address (t_Spec t)) = Some (host, Itoa port)"
    unfolding assms(6) by (rule SplitHostPort_Join [OF punct assms(3,2)])
  moreover have "ts_Address (t_Spec t) \<noteq> []" using assms(6) by (simp add: JoinHostPort_def)
  moreover have "Atoi (Itoa port) = Some port" by (rule Atoi_Itoa [OF assms(4,5)])
  ultimately have "validateTargetSpec n (t_Spec t) = None \<longleftrightarrow> 1 \<le> port \<and> port \<le> 65535 \<and> ts_Profile (t_Spec t) \<noteq> []" for n
    using assms(1) by (auto simp: validateTargetSpec_def)
  then show ?thesis by (simp add: TargetCustomValidator_def)
qed

theorem target_admission_witness:
  "ValidateCreate TargetCustomValidator (TargetObject
     \<lparr>t_Meta = \<lparr>m_Name = ''t'', m_Namespace = ''n'', m_Labels = [], m_Generation = 1, m_ResourceVersion = [],
        m_Finalizers = [], m_Deleting = False\<rparr>,
      t_Spec = \<lparr>ts_Address = JoinHostPort ''::1'' (Itoa 70000), ts_Profile = ''p''\<rparr>,
      t_Status = \<lparr>tst_Clusters = 0, tst_State = [], tst_ClusterStates = None\<rparr>\<rparr>) \<noteq> None"
  using target_admission [of "''::1''" 70000] by simp


definition exAdmitted :: cluster where
  "exAdmitted =
     \<lparr>cl_Meta = \<lparr>m_Name = ''c'', m_Namespace = ''n'', m_Labels = [], m_Generation = 1, m_ResourceVersion = [],
        m_Finalizers = [], m_Deleting = False\<rparr>,
      cl_Spec = \<lparr>cs_Image = ''i'', cs_Replicas = Some 2,
        cs_API = Some \<lparr>api_RestPort = 7890, api_GNMIPort = 0,
          api_TLS = Some \<lparr>ct_IssuerRef = ''ca'', ct_BundleRef = [], ct_UseCSIDriver = False\<rparr>\<rparr>,
        cs_ClientTLS = None, cs_GRPCTunnel = None,
        cs_Resources = \<lparr>rr_Requests = [], rr_Limits = []\<rparr>, cs_Env = [], cs_TargetDistribution = None\<rparr>,
      cl_Status = \<lparr>cst_Conditions = [], cst_ReadyReplicas = 0, cst_Selector = [], cst_PipelinesCount = 0,
        cst_TargetsCount = 0, cst_UnassignedTargets = 0, cst_SubscriptionsCount = 0, cst_InputsCount = 0,
        cst_OutputsCount = 0\<rparr>\<rparr>"


text \<open>
  C40: The history check is inverted. A subscription that is otherwise in order and has a history range
  with both ends set is admitted exactly when the range does not start before it ends: every proper
  range is refused, although the check is meant to require it.
\<close>

theorem subscription_history_inverted:
  assumes "ss_Paths s \<noteq> []" and "ss_StreamSubscriptions s = []"
    and "0 \<le> ss_SampleInterval s" and "0 \<le> ss_HeartbeatInterval s"
    and "ss_History s = Some h" and "hc_Start h \<noteq> 0" and "hc_End h \<noteq> 0"
  shows "ValidateCreate SubscriptionCustomValidator (SubscriptionObject n s) = None \<longleftrightarrow> \<not> hc_Start h < hc_End h"
  using assms by (simp add: SubscriptionCustomValidator_def validateSubscriptionSpec_def)

definition exSubscription :: "time \<Rightarrow> time \<Rightarrow> subscription_spec" where
  "exSubscription start end =
     \<lparr>ss_Prefix = [], ss_Target = [], ss_Paths = [''/interfaces''], ss_Mode = ''ONCE'', ss_SampleInterval = 0,
      ss_HeartbeatInterval = 0, ss_UpdatesOnly = False, ss_StreamSubscriptions = [], ss_Depth = 0, ss_Encoding = [],
      ss_Qos = None, ss_SuppressRedundant = False,
      ss_History = Some \<lparr>hc_Snapshot = 0, hc_Start = start, hc_End = end\<rparr>\<rparr>"

theorem subscription_history_inverted_witness:
  "ValidateCreate SubscriptionCustomValidator (SubscriptionObject ''s'' (exSubscription 1 2)) \<noteq> None"
  using subscription_history_inverted [of "exSubscription 1 2" "\<lparr>hc_Snapshot = 0, hc_Start = 1, hc_End = 2\<rparr>" "''s''"]
  by (simp add: exSubscription_def)

text \<open>
  Profiles are checked at the wrong time. Any profile is admitted on creation, and a profile that
  an update would refuse cannot be deleted either, so that an invalid profile, once created, stays
  until it has been repaired.
\<close>

theorem profile_admission:
  "ValidateCreate TargetProfileCustomValidator (TargetProfileObject n s) = None \<and>
   ValidateDelete TargetProfileCustomValidator (TargetProfileObject n s) =
     ValidateUpdate TargetProfileCustomValidator old (TargetProfileObject n s) \<and>
   (tp_Timeout s < second \<or> tp_RetryTimer s < second \<or>
    tp_Encoding s \<notin> {''JSON'', ''BYTES'', ''PROTO'', ''ASCII'', ''JSON_IETF''} \<longrightarrow>
    ValidateDelete TargetProfileCustomValidator (TargetProfileObject n s) \<noteq> None)"
  by (auto simp: TargetProfileCustomValidator_def validateTargetProfileSpec_def)

theorem profile_admission_witness:
  "ValidateDelete TargetProfileCustomValidator (TargetProfileObject ''p''
     \<lparr>tp_CredentialsRef = [], tp_TLS = None, tp_Timeout = 0, tp_RetryTimer = second, tp_Encoding = ''JSON'', tp_Labels = [],
      tp_Proxy = [], tp_GzipCompression = False, tp_TCPKeepAlive = None, tp_GRCPKeepAlive = None\<rparr>) \<noteq> None"
  using profile_admission [of "''p''"
     "\<lparr>tp_CredentialsRef = [], tp_TLS = None, tp_Timeout = 0, tp_RetryTimer = second, tp_Encoding = ''JSON'', tp_Labels = [],
       tp_Proxy = [], tp_GzipCompression = False, tp_TCPKeepAlive = None, tp_GRCPKeepAlive = None\<rparr>"]
  by (simp add: second_def)

end
