(* ===== verification/Http_Loader.thy ===== *)
theory Http_Loader
  imports Discovery_Core Complex_Main
begin

text \<open>
  The HTTP loader of \<^verbatim>\<open>internal/controller/discovery/loaders/http\<close>: authentication, the mapping of JSON
  items to targets, pagination and the polling loop.

  Parameters, collected in the record \<open>http_env\<close>: the CEL compiler and evaluator, \<^verbatim>\<open>encoding/json\<close>,
  \<^verbatim>\<open>net/url\<close>, base64, the formatting verb \<^verbatim>\<open>%v\<close>, the certificate pool and the object fetcher. The HTTP
  exchange of one fetch is a function from requests to responses.
\<close>

section \<open>Values\<close>

text \<open>
  Go values of type \<^verbatim>\<open>any\<close>: what \<^verbatim>\<open>encoding/json\<close> decodes to, and what CEL returns. \<open>GMapS\<close> is a
  \<^verbatim>\<open>map[string]any\<close>, \<open>GMapA\<close> any other map, \<open>GRef\<close> a \<^verbatim>\<open>ref.Val\<close> around its \<^verbatim>\<open>Value()\<close>, \<open>GFloat\<close> a finite
  \<^verbatim>\<open>float64\<close> by its exact value.
\<close>

datatype gval =
  GNil
| GBool bool
| GInt int
| GFloat rat
| GStr string
| GList "gval list"
| GMapS "(string \<times> gval) list"
| GMapA "(gval \<times> gval) list"
| GRef gval

record http_request =
  rq_Method :: string
  rq_URL :: string
  rq_Body :: string
  rq_Header :: labels

record http_response =
  rs_StatusCode :: int
  rs_Header :: labels
  rs_Body :: string

type_synonym exchange = "http_request \<Rightarrow> string + http_response"

record resource_fetcher =
  rf_Secret :: "string \<Rightarrow> string \<Rightarrow> string + labels" \<comment> \<open>namespace, name\<close>
  rf_ConfigMap :: "string \<Rightarrow> string \<Rightarrow> string + labels"

record common_loader_config =
  cfg_Namespace :: string
  cfg_Name :: string
  cfg_ChunkSize :: int
  cfg_AcceptPush :: bool
  cfg_ResourceFetcher :: "resource_fetcher option"

record 'p http_env =
  he_compile :: "string \<Rightarrow> string + 'p"
  he_eval :: "'p \<Rightarrow> gval \<Rightarrow> (string, gval) gomap option \<Rightarrow> string + gval option"
    \<comment> \<open>program, \<^verbatim>\<open>self\<close>, \<^verbatim>\<open>item\<close>; \<open>None\<close> for a nil result\<close>
  he_sprint :: "gval \<Rightarrow> string"
  he_decode :: "string \<Rightarrow> string + gval"
  he_unmarshalMap :: "string \<Rightarrow> string + labels"
  he_urlScheme :: "string \<Rightarrow> string + string" \<comment> \<open>\<^verbatim>\<open>url.Parse\<close>, then \<^verbatim>\<open>Scheme\<close>\<close>
  he_setQuery :: "string \<Rightarrow> string \<Rightarrow> string \<Rightarrow> string + string" \<comment> \<open>URL, parameter, value\<close>
  he_requestError :: "string \<Rightarrow> string \<Rightarrow> string option" \<comment> \<open>\<^verbatim>\<open>http.NewRequest\<close> on method and URL\<close>
  he_base64 :: "string \<Rightarrow> string"
  he_validPEM :: "string \<Rightarrow> bool"

record loader =
  l_Cfg :: common_loader_config
  l_Spec :: http_config

definition New :: "common_loader_config \<Rightarrow> http_config \<Rightarrow> loader" where
  "New cfg httpConfig = \<lparr>l_Cfg = cfg, l_Spec = httpConfig\<rparr>"

text \<open>\<^verbatim>\<open>NewLoader\<close>: the fetcher made from the client is stored in the configuration.\<close>

definition NewLoader ::
  "resource_fetcher \<Rightarrow> common_loader_config \<Rightarrow> target_source_spec \<Rightarrow> string + loader" where
  "NewLoader fetcher cfg spec =
     (case tss_HTTP spec of
        Some httpSpec \<Rightarrow>
          Inr (New (cfg\<lparr>cfg_AcceptPush := (hc_PushEnabled httpSpec = Some True), cfg_ResourceFetcher := Some fetcher\<rparr>) httpSpec)
      | None \<Rightarrow> Inl ''unknown targetsource provider'')"

section \<open>Authentication\<close>

text \<open>\<^verbatim>\<open>http.Header.Set\<close>: the key in canonical form, unless it has a character no token has.\<close>

definition upperChar :: "char \<Rightarrow> char" where
  "upperChar c = (if CHR ''a'' \<le> c \<and> c \<le> CHR ''z'' then char_of (of_char c - 32 :: nat) else c)"

definition lowerChar :: "char \<Rightarrow> char" where
  "lowerChar c = (if CHR ''A'' \<le> c \<and> c \<le> CHR ''Z'' then char_of (of_char c + 32 :: nat) else c)"

definition tokenChar :: "char \<Rightarrow> bool" where
  "tokenChar c \<longleftrightarrow> c \<in> set ''!#$%&*+-.^_|~'' \<or> c = CHR 0x27 \<or> c = CHR 0x60 \<or>
     list_ex (\<lambda>(lo, hi). lo \<le> c \<and> c \<le> hi) [(CHR ''0'', CHR ''9''), (CHR ''A'', CHR ''Z''), (CHR ''a'', CHR ''z'')]"

fun canonical :: "bool \<Rightarrow> string \<Rightarrow> string" where
  "canonical upper [] = []"
| "canonical upper (c # cs) =
     (let c = (if upper then upperChar c else lowerChar c) in c # canonical (c = CHR ''-'') cs)"

definition CanonicalHeaderKey :: "string \<Rightarrow> string" where
  "CanonicalHeaderKey k = (if list_all tokenChar k then canonical True k else k)"

definition headerSet :: "labels \<Rightarrow> string \<Rightarrow> string \<Rightarrow> labels" where
  "headerSet h k v = gput h (CanonicalHeaderKey k) v"

definition fetchSecret :: "loader \<Rightarrow> key_selector \<Rightarrow> string + string" where
  "fetchSecret l sel =
     (case cfg_ResourceFetcher (l_Cfg l) of
        None \<Rightarrow> Inr []
      | Some f \<Rightarrow> GetSecretKey (rf_Secret f) (cfg_Namespace (l_Cfg l)) (Some sel))"

definition applyBasicAuth :: "'p http_env \<Rightarrow> loader \<Rightarrow> key_selector option \<Rightarrow> http_request \<Rightarrow> string + http_request" where
  "applyBasicAuth env l sel req =
     (case sel of
        None \<Rightarrow> Inl ''Basic auth enabled but no valid credentials provided''
      | Some sel \<Rightarrow>
          bindE (fetchSecret l sel) (\<lambda>val.
          bindE (he_unmarshalMap env val) (\<lambda>cm.
            let username = gget0 [] cm ''username''; password = gget0 [] cm ''password''
            in if username = [] \<and> password = [] then Inl ''Basic auth enabled but no valid credentials provided''
               else Inr (req\<lparr>rq_Header := headerSet (rq_Header req) ''Authorization''
                      (''Basic '' @ he_base64 env (username @ '':'' @ password))\<rparr>))))"

definition applyTokenAuth :: "loader \<Rightarrow> string \<Rightarrow> key_selector option \<Rightarrow> http_request \<Rightarrow> string + http_request" where
  "applyTokenAuth l scheme sel req =
     (case sel of
        None \<Rightarrow> Inl ''Token auth enabled but no valid token secret reference provided''
      | Some sel \<Rightarrow>
          bindE (fetchSecret l sel) (\<lambda>token.
            Inr (req\<lparr>rq_Header := headerSet (rq_Header req) ''Authorization'' (scheme @ '' '' @ token)\<rparr>)))"

definition applyAuthentication :: "'p http_env \<Rightarrow> loader \<Rightarrow> http_request \<Rightarrow> string + http_request" where
  "applyAuthentication env l req =
     (case hc_Authentication (l_Spec l) of
        None \<Rightarrow> Inr req
      | Some auth \<Rightarrow>
          (case au_Basic auth of
             Some sel \<Rightarrow> applyBasicAuth env l sel req
           | None \<Rightarrow>
               (case au_Token auth of
                  Some tok \<Rightarrow> applyTokenAuth l (ta_Scheme tok) (ta_TokenSecretRef tok) req
                | None \<Rightarrow> Inl ''no supported authentication method configured'')))"

section \<open>Mapping items\<close>

fun normalizeCEL :: "(gval \<Rightarrow> string) \<Rightarrow> gval \<Rightarrow> gval" where
  "normalizeCEL sprint (GRef v) = (if v = GNil then GNil else normalizeCEL sprint v)"
| "normalizeCEL sprint (GList vs) = GList (map (normalizeCEL sprint) vs)"
| "normalizeCEL sprint (GMapS kvs) =
     GMapS (fold (\<lambda>(k, v) m. gput m k v) (map (\<lambda>(k, v). (sprint (GStr k), normalizeCEL sprint v)) kvs) [])"
| "normalizeCEL sprint (GMapA kvs) =
     GMapS (fold (\<lambda>(k, v) m. gput m k v) (map (\<lambda>(k, v). (sprint (normalizeCEL sprint k), normalizeCEL sprint v)) kvs) [])"
| "normalizeCEL sprint v = v"

definition compileCEL :: "'p http_env \<Rightarrow> string \<Rightarrow> string + 'p" where
  "compileCEL env expr = he_compile env expr"

definition evalCEL :: "'p http_env \<Rightarrow> 'p \<Rightarrow> (string, gval) gomap \<Rightarrow> gval \<Rightarrow> string + gval" where
  "evalCEL env p item full =
     bindE (he_eval env p full (Some item)) (\<lambda>out.
       case out of None \<Rightarrow> Inl ''CEL returned nil'' | Some v \<Rightarrow> Inr (normalizeCEL (he_sprint env) v))"

text \<open>A \<^verbatim>\<open>float64\<close> in range is truncated, an \<^verbatim>\<open>int64\<close> of CEL takes the default branch.\<close>

definition extractPort :: "gval \<Rightarrow> int" where
  "extractPort val =
     (case val of
        GFloat v \<Rightarrow> if v < 0 \<or> 2147483647 < v then 0 else int32 \<lfloor>v\<rfloor>
      | GStr v \<Rightarrow> (case ParseInt v 32 of None \<Rightarrow> 0 | Some p \<Rightarrow> int32 p)
      | _ \<Rightarrow> 0)"

record 'p compiled_mapping =
  cm_name :: "'p option"
  cm_address :: "'p option"
  cm_port :: "'p option"
  cm_targetProfile :: "'p option"
  cm_labels :: "'p option"

definition compileField :: "'p http_env \<Rightarrow> string \<Rightarrow> string \<Rightarrow> string + 'p option" where
  "compileField env label expr =
     (if expr = [] then Inr None
      else case compileCEL env expr of Inl e \<Rightarrow> Inl (label @ '': '' @ e) | Inr p \<Rightarrow> Inr (Some p))"

definition compileMapping :: "'p http_env \<Rightarrow> loader \<Rightarrow> string + 'p compiled_mapping" where
  "compileMapping env l =
     (case hc_ResponseMapping (l_Spec l) of
        None \<Rightarrow> Inr \<lparr>cm_name = None, cm_address = None, cm_port = None, cm_targetProfile = None, cm_labels = None\<rparr>
      | Some rm \<Rightarrow>
          bindE (compileField env ''name'' (rm_Name rm)) (\<lambda>n.
          bindE (compileField env ''address'' (rm_Address rm)) (\<lambda>a.
          bindE (compileField env ''port'' (rm_Port rm)) (\<lambda>p.
          bindE (compileField env ''targetProfile'' (rm_TargetProfile rm)) (\<lambda>t.
          bindE (compileField env ''labels'' (rm_Labels rm)) (\<lambda>ls.
            Inr \<lparr>cm_name = n, cm_address = a, cm_port = p, cm_targetProfile = t, cm_labels = ls\<rparr>))))))"

text \<open>A missing key of a \<^verbatim>\<open>map[string]any\<close> reads as nil.\<close>

definition itemField :: "(string, gval) gomap \<Rightarrow> string \<Rightarrow> gval" where
  "itemField item key = gget0 GNil item key"

definition nonEmptyString :: "string \<Rightarrow> gval \<Rightarrow> string + string" where
  "nonEmptyString label val =
     (case val of GStr s \<Rightarrow> if s = [] then Inl (label @ '' must be non-empty string'') else Inr s
      | _ \<Rightarrow> Inl (label @ '' must be non-empty string''))"

definition getName ::
  "'p http_env \<Rightarrow> (string, gval) gomap \<Rightarrow> gval \<Rightarrow> 'p compiled_mapping \<Rightarrow> string + string" where
  "getName env item full cm =
     (case cm_name cm of
        Some p \<Rightarrow> bindE (evalCEL env p item full) (nonEmptyString ''name'')
      | None \<Rightarrow> nonEmptyString ''name'' (itemField item ''name''))"

definition getAddress ::
  "'p http_env \<Rightarrow> (string, gval) gomap \<Rightarrow> gval \<Rightarrow> 'p compiled_mapping \<Rightarrow> string + string" where
  "getAddress env item full cm =
     (case cm_address cm of
        Some p \<Rightarrow> bindE (evalCEL env p item full) (nonEmptyString ''address'')
      | None \<Rightarrow> nonEmptyString ''address'' (itemField item ''address''))"

definition getPort ::
  "'p http_env \<Rightarrow> (string, gval) gomap \<Rightarrow> gval \<Rightarrow> 'p compiled_mapping \<Rightarrow> int" where
  "getPort env item full cm =
     (case cm_port cm of
        Some p \<Rightarrow> (case evalCEL env p item full of Inl e \<Rightarrow> 0 | Inr val \<Rightarrow> extractPort val)
      | None \<Rightarrow> extractPort (itemField item ''port''))"

definition addLabels :: "'p http_env \<Rightarrow> (string, gval) gomap \<Rightarrow> labels \<Rightarrow> labels" where
  "addLabels env m result = fold (\<lambda>(k, v) r. gput r k (he_sprint env v)) m result"

definition getLabels ::
  "'p http_env \<Rightarrow> (string, gval) gomap \<Rightarrow> gval \<Rightarrow> 'p compiled_mapping \<Rightarrow> labels" where
  "getLabels env item full cm =
     (let direct = (\<lambda>result. case itemField item ''labels'' of GMapS raw \<Rightarrow> addLabels env raw result | _ \<Rightarrow> result)
      in case cm_labels cm of
           Some p \<Rightarrow>
             (case evalCEL env p item full of
                Inr (GMapS m) \<Rightarrow> direct (addLabels env m [])
              | _ \<Rightarrow> [])
         | None \<Rightarrow> direct [])"

definition getTargetProfile ::
  "'p http_env \<Rightarrow> (string, gval) gomap \<Rightarrow> gval \<Rightarrow> 'p compiled_mapping \<Rightarrow> string" where
  "getTargetProfile env item full cm =
     (case cm_targetProfile cm of
        Some p \<Rightarrow> (case evalCEL env p item full of Inr (GStr s) \<Rightarrow> s | _ \<Rightarrow> [])
      | None \<Rightarrow> (case itemField item ''targetProfile'' of GStr s \<Rightarrow> s | _ \<Rightarrow> []))"

definition mapItemToTarget ::
  "'p http_env \<Rightarrow> (string, gval) gomap \<Rightarrow> gval \<Rightarrow> 'p compiled_mapping \<Rightarrow> string + discovered_target" where
  "mapItemToTarget env item full cm =
     bindE (getName env item full cm) (\<lambda>name.
     bindE (getAddress env item full cm) (\<lambda>address.
       Inr \<lparr>dt_Name = name, dt_Address = address, dt_Port = getPort env item full cm,
            dt_Labels = getLabels env item full cm, dt_TargetProfile = getTargetProfile env item full cm\<rparr>))"

text \<open>An item that is no object or cannot be mapped is logged and skipped.\<close>

definition mapItem :: "'p http_env \<Rightarrow> gval \<Rightarrow> 'p compiled_mapping \<Rightarrow> gval \<Rightarrow> discovered_target list" where
  "mapItem env full cm item =
     (case item of
        GMapS obj \<Rightarrow> (case mapItemToTarget env obj full cm of Inl e \<Rightarrow> [] | Inr t \<Rightarrow> [t])
      | _ \<Rightarrow> [])"

definition mapItemsToTargets ::
  "'p http_env \<Rightarrow> loader \<Rightarrow> gval list \<Rightarrow> gval \<Rightarrow> string + discovered_target list" where
  "mapItemsToTargets env l items full =
     (case compileMapping env l of
        Inl e \<Rightarrow> Inl (''compile mapping: '' @ e)
      | Inr cm \<Rightarrow> Inr (concat (map (mapItem env full cm) items)))"

section \<open>Pagination\<close>

definition extractNextPageInfo :: "'p http_env \<Rightarrow> loader \<Rightarrow> gval \<Rightarrow> string + string" where
  "extractNextPageInfo env l raw =
     (case hc_Pagination (l_Spec l) of
        None \<Rightarrow> Inr []
      | Some pg \<Rightarrow>
          if pg_NextField pg = [] then Inr []
          else case compileCEL env (pg_NextField pg) of
                 Inl e \<Rightarrow> Inl (''invalid NextField CEL: '' @ e)
               | Inr prog \<Rightarrow>
                   (case he_eval env prog raw None of
                      Inl e \<Rightarrow> Inl (''CEL eval failed: '' @ e)
                    | Inr None \<Rightarrow> Inr []
                    | Inr (Some GNil) \<Rightarrow> Inr []
                    | Inr (Some (GStr s)) \<Rightarrow> Inr s
                    | Inr (Some _) \<Rightarrow> Inl ''NextField must evaluate to string''))"

text \<open>\<^verbatim>\<open>strings.Split\<close> at a character, \<^verbatim>\<open>strings.Contains\<close>, \<^verbatim>\<open>strings.Index\<close> of a character.\<close>

fun splitAt :: "char \<Rightarrow> string \<Rightarrow> string list" where
  "splitAt sep [] = [[]]"
| "splitAt sep (c # cs) =
     (if c = sep then [] # splitAt sep cs
      else case splitAt sep cs of [] \<Rightarrow> [[c]] | p # ps \<Rightarrow> (c # p) # ps)"

fun contains :: "string \<Rightarrow> string \<Rightarrow> bool" where
  "contains [] p = (p = [])"
| "contains (c # cs) p = (HasPrefix (c # cs) p \<or> contains cs p)"

definition indexOf :: "string \<Rightarrow> char \<Rightarrow> nat option" where
  "indexOf s c = (if c \<in> set s then Some (length (takeWhile (\<lambda>x. x \<noteq> c) s)) else None)"

text \<open>The loop over the parts of the header; \<open>None\<close> is the panic of a slice whose end precedes its start.\<close>

definition relNext :: string where
  "relNext = ''rel='' @ [CHR 0x22] @ ''next'' @ [CHR 0x22]"

fun nextFromParts :: "string list \<Rightarrow> string option" where
  "nextFromParts [] = Some []"
| "nextFromParts (p # ps) =
     (if contains p relNext
      then case (indexOf p (CHR ''<''), indexOf p (CHR ''>'')) of
             (Some start, Some end) \<Rightarrow> if end < start + 1 then None else Some (take (end - (start + 1)) (drop (start + 1) p))
           | _ \<Rightarrow> nextFromParts ps
      else nextFromParts ps)"

definition extractNextFromLinkHeader :: "labels \<Rightarrow> string option" where
  "extractNextFromLinkHeader h =
     (let link = gget0 [] h ''Link'' in if link = [] then Some [] else nextFromParts (splitAt (CHR '','') link))"

text \<open>\<^verbatim>\<open>Pagination\<close> is not nil here: without it there is no next value.\<close>

definition buildNextURL :: "'p http_env \<Rightarrow> loader \<Rightarrow> string \<Rightarrow> string \<Rightarrow> string + string" where
  "buildNextURL env l currentURL nextVal =
     (if (case he_urlScheme env nextVal of Inr scheme \<Rightarrow> scheme \<noteq> [] | Inl _ \<Rightarrow> False) then Inr nextVal
      else case hc_Pagination (l_Spec l) of
             None \<Rightarrow> Inl ''nil pagination''
           | Some pg \<Rightarrow>
               if pg_RequestParam pg = [] then Inl ''requestParam must be set for token pagination''
               else he_setQuery env currentURL (pg_RequestParam pg) nextVal)"

text \<open>The next URL, or \<open>Some None\<close> to stop.\<close>

definition getNextURL :: "'p http_env \<Rightarrow> loader \<Rightarrow> gval \<Rightarrow> labels \<Rightarrow> string \<Rightarrow> string option option" where
  "getNextURL env l raw headers currentURL =
     (case extractNextFromLinkHeader headers of
        None \<Rightarrow> None
      | Some next \<Rightarrow>
          if next \<noteq> [] then Some (Some next)
          else case extractNextPageInfo env l raw of
                 Inl e \<Rightarrow> Some None
               | Inr nextPage \<Rightarrow>
                   if nextPage = [] then Some None
                   else case buildNextURL env l currentURL nextPage of Inl e \<Rightarrow> Some None | Inr u \<Rightarrow> Some (Some u))"

section \<open>Fetching\<close>

datatype fetch_error = FetchError string | SlicePanicked

definition buildRequest :: "'p http_env \<Rightarrow> loader \<Rightarrow> string \<Rightarrow> string + http_request" where
  "buildRequest env l url =
     (let method = hc_Method (l_Spec l)
      in if method = [] then Inl ''method must be configured''
         else case he_requestError env method url of
                Some e \<Rightarrow> Inl (''creating HTTP request failed: '' @ e)
              | None \<Rightarrow>
                  applyAuthentication env l
                    \<lparr>rq_Method = method, rq_URL = url,
                     rq_Body = (if method = ''POST'' \<and> hc_Body (l_Spec l) \<noteq> [] then hc_Body (l_Spec l) else []),
                     rq_Header = fold (\<lambda>(k, v) h. headerSet h k v) (hc_Headers (l_Spec l))
                                   (headerSet [] ''Accept'' ''application/json'')\<rparr>)"

definition fetchPage :: "'p http_env \<Rightarrow> exchange \<Rightarrow> loader \<Rightarrow> string \<Rightarrow> string + gval \<times> labels" where
  "fetchPage env send l url =
     bindE (buildRequest env l url) (\<lambda>req.
     bindE (send req) (\<lambda>resp.
       if rs_StatusCode resp \<noteq> 200 then Inl (''unexpected HTTP status: '' @ Itoa (rs_StatusCode resp))
       else bindE (he_decode env (rs_Body resp)) (\<lambda>raw. Inr (raw, rs_Header resp))))"

definition responseItems :: "'p http_env \<Rightarrow> loader \<Rightarrow> gval \<Rightarrow> string + gval list" where
  "responseItems env l raw =
     (case hc_ResponseMapping (l_Spec l) of
        Some rm \<Rightarrow>
          if rm_TargetsField rm \<noteq> []
          then (case compileCEL env (rm_TargetsField rm) of
                  Inl e \<Rightarrow> Inl (''invalid TargetsField CEL expression: '' @ e)
                | Inr prog \<Rightarrow>
                    (case he_eval env prog raw None of
                       Inl e \<Rightarrow> Inl (''evaluating TargetsField CEL expression failed: '' @ e)
                     | Inr None \<Rightarrow> Inl ''TargetsField expression returned nil''
                     | Inr (Some (GList array)) \<Rightarrow> Inr array
                     | Inr (Some _) \<Rightarrow> Inl ''invalid HTTP response: targetsField expression must evaluate to an array of objects''))
          else (case raw of GList array \<Rightarrow> Inr array
                | _ \<Rightarrow> Inl ''invalid HTTP response: expected a JSON array when itemsField is not set'')
      | None \<Rightarrow>
          (case raw of GList array \<Rightarrow> Inr array
           | _ \<Rightarrow> Inl ''invalid HTTP response: expected a JSON array when itemsField is not set''))"

definition extractTargetsFromResponse :: "'p http_env \<Rightarrow> loader \<Rightarrow> gval \<Rightarrow> string + discovered_target list" where
  "extractTargetsFromResponse env l raw =
     bindE (responseItems env l raw) (\<lambda>items.
       case mapItemsToTargets env l items raw of
         Inl e \<Rightarrow> Inl (''mapping items to targets failed: '' @ e)
       | Inr ts \<Rightarrow> Inr ts)"

text \<open>
  The pagination loop. A server may send ever new URLs, so it may run forever; not returning is \<open>None\<close>.
\<close>

partial_function (option) fetchLoop ::
  "'p http_env \<Rightarrow> exchange \<Rightarrow> loader \<Rightarrow> string list \<Rightarrow> string \<Rightarrow> discovered_target list \<Rightarrow>
   (fetch_error + discovered_target list) option" where
  "fetchLoop env send l seen currentURL allTargets =
     (if currentURL \<in> set seen then Some (Inr allTargets)
      else case fetchPage env send l currentURL of
             Inl e \<Rightarrow> Some (Inl (FetchError e))
           | Inr (raw, headers) \<Rightarrow>
               (case extractTargetsFromResponse env l raw of
                  Inl e \<Rightarrow> Some (Inl (FetchError (''Failed to extract targets: '' @ e)))
                | Inr targets \<Rightarrow>
                    (case getNextURL env l raw headers currentURL of
                       None \<Rightarrow> Some (Inl SlicePanicked)
                     | Some None \<Rightarrow> Some (Inr (allTargets @ targets))
                     | Some (Some nextURL) \<Rightarrow>
                         fetchLoop env send l (currentURL # seen) nextURL (allTargets @ targets))))"

definition fetchTargetsFromHTTPEndpoint ::
  "'p http_env \<Rightarrow> exchange \<Rightarrow> loader \<Rightarrow> (fetch_error + discovered_target list) option" where
  "fetchTargetsFromHTTPEndpoint env send l = fetchLoop env send l [] (hc_URL (l_Spec l)) []"

section \<open>The polling loop\<close>

record tls_client_config =
  tcc_InsecureSkipVerify :: bool
  tcc_RootCAs :: "string option"

definition buildTLSConfig :: "'p http_env \<Rightarrow> loader \<Rightarrow> client_tls_config \<Rightarrow> string + tls_client_config" where
  "buildTLSConfig env l tls =
     (let config = \<lparr>tcc_InsecureSkipVerify = ctc_InsecureSkipVerify tls, tcc_RootCAs = None\<rparr>
      in case ctc_CABundleRef tls of
           None \<Rightarrow> Inr config
         | Some ref \<Rightarrow>
             (case cfg_ResourceFetcher (l_Cfg l) of
                None \<Rightarrow> Inl ''resource fetcher is not configured''
              | Some f \<Rightarrow>
                  if ks_Name ref = [] \<or> ks_Key ref = [] then Inl ''CABundleRef must specify both name and key''
                  else case GetConfigMapKey (rf_ConfigMap f) (cfg_Namespace (l_Cfg l)) (Some ref) of
                         Inl e \<Rightarrow> Inl (''failed to fetch CA bundle from config map ref: '' @ e)
                       | Inr caPEM \<Rightarrow>
                           if \<not> he_validPEM env caPEM then Inl ''failed to parse CA bundle PEM''
                           else Inr (config\<lparr>tcc_RootCAs := Some caPEM\<rparr>)))"

text \<open>The client by its timeout and TLS configuration, \<open>None\<close> for the transport's default.\<close>

definition buildHTTPClient :: "'p http_env \<Rightarrow> loader \<Rightarrow> string + duration \<times> tls_client_config option" where
  "buildHTTPClient env l =
     (case hc_Timeout (l_Spec l) of
        None \<Rightarrow> Inl ''timeout must be configured''
      | Some timeout \<Rightarrow>
          (case hc_TLS (l_Spec l) of
             None \<Rightarrow> Inr (timeout, None)
           | Some tls \<Rightarrow> bindE (buildTLSConfig env l tls) (\<lambda>c. Inr (timeout, Some c))))"

text \<open>
  One fetch, with the context live: what it adds to the channel. A failed fetch, or one without targets,
  sends nothing.
\<close>

datatype emit_outcome = Emitted "discovery_message list list" | Quiet | Diverged | Crashed

definition fetchAndEmit :: "'p http_env \<Rightarrow> exchange \<Rightarrow> loader \<Rightarrow> string \<Rightarrow> emit_outcome" where
  "fetchAndEmit env send l uuid =
     (case fetchTargetsFromHTTPEndpoint env send l of
        None \<Rightarrow> Diverged
      | Some (Inl (FetchError e)) \<Rightarrow> Quiet
      | Some (Inl SlicePanicked) \<Rightarrow> Crashed
      | Some (Inr targets) \<Rightarrow>
          (let snapshotID = cfg_Namespace (l_Cfg l) @ ''-'' @ cfg_Name (l_Cfg l) @ ''-'' @ uuid
           in case SendSnapshot None targets snapshotID (cfg_ChunkSize (l_Cfg l)) [] of
                None \<Rightarrow> Diverged
              | Some (Inr sent) \<Rightarrow> Emitted sent
              | Some (Inl SlicePanic) \<Rightarrow> Crashed
              | Some (Inl DividePanic) \<Rightarrow> Crashed
              | Some (Inl _) \<Rightarrow> Quiet))"

text \<open>
  \<^verbatim>\<open>Run\<close> over the exchanges of the immediate fetch and of the ticks before the context is done. A ticker
  panics on an interval that is not positive.
\<close>

fun runTicks :: "'p http_env \<Rightarrow> loader \<Rightarrow> (exchange \<times> string) list \<Rightarrow> discovery_message list list \<Rightarrow>
   (emit_outcome + discovery_message list list)" where
  "runTicks env l [] out = Inr out"
| "runTicks env l ((send, uuid) # ticks) out =
     (case fetchAndEmit env send l uuid of
        Emitted sent \<Rightarrow> runTicks env l ticks (out @ sent)
      | Quiet \<Rightarrow> runTicks env l ticks out
      | r \<Rightarrow> Inl r)"

datatype run_error = RunFailed string | RunStopped emit_outcome | TickerPanic

definition Run :: "'p http_env \<Rightarrow> loader \<Rightarrow> exchange \<times> string \<Rightarrow> (exchange \<times> string) list \<Rightarrow>
   run_error + discovery_message list list" where
  "Run env l first ticks =
     (if hc_URL (l_Spec l) = [] then Inr []
      else case buildHTTPClient env l of
             Inl e \<Rightarrow> Inl (RunFailed (''failed to build HTTP client: '' @ e))
           | Inr client \<Rightarrow>
               (case hc_Interval (l_Spec l) of
                  None \<Rightarrow> Inl (RunFailed ''interval must be configured'')
                | Some interval \<Rightarrow>
                    if interval \<le> 0 then Inl TickerPanic
                    else case runTicks env l (first # ticks) [] of Inl r \<Rightarrow> Inl (RunStopped r) | Inr out \<Rightarrow> Inr out))"

end
