(* ===== verification/Http_Correct.thy ===== *)
theory Http_Correct
  imports Http_Loader
begin

text \<open>
  Correctness of the HTTP loader: every request carries the configured credentials, items are mapped
  or skipped one by one, pagination ends on finitely many URLs and misses no page.
\<close>

section \<open>Authentication\<close>

lemma canonical_Authorization [simp]: "CanonicalHeaderKey ''Authorization'' = ''Authorization''"
  by code_simp

lemma headerSet_Authorization: "gget (headerSet h ''Authorization'' v) ''Authorization'' = Some v"
  by (simp add: headerSet_def gomap_simps)


definition exEnv :: "unit http_env" where
  "exEnv = \<lparr>he_compile = (\<lambda>_. Inl ''no CEL''), he_eval = (\<lambda>_ _ _. Inl ''no CEL''),
     he_sprint = (\<lambda>v. case v of GStr s \<Rightarrow> s | _ \<Rightarrow> ''?''),
     he_decode = (\<lambda>b. Inr (GList [GMapS [(''name'', GStr b), (''address'', GStr ''10.0.0.1'')], GMapS [(''name'', GNil)]])),
     he_unmarshalMap = (\<lambda>_. Inr [(''username'', ''u'')]),
     he_urlScheme = (\<lambda>_. Inr ''http''), he_setQuery = (\<lambda>u _ _. Inr u), he_requestError = (\<lambda>_ _. None),
     he_base64 = (\<lambda>s. s), he_validPEM = (\<lambda>_. True)\<rparr>"

definition exHTTP :: "authentication_spec option \<Rightarrow> http_config" where
  "exHTTP auth = \<lparr>hc_URL = ''u1'', hc_Method = ''GET'', hc_Headers = [(''authorization'', ''none'')], hc_Body = [],
     hc_Authentication = auth, hc_Interval = Some second, hc_Timeout = Some second, hc_TLS = None, hc_Pagination = None,
     hc_ResponseMapping = None, hc_PushEnabled = None\<rparr>"

definition exLoader :: "authentication_spec option \<Rightarrow> loader" where
  "exLoader auth = New \<lparr>cfg_Namespace = ''n'', cfg_Name = ''s1'', cfg_ChunkSize = 1, cfg_AcceptPush = False,
     cfg_ResourceFetcher = None\<rparr> (exHTTP auth)"

definition exAuth :: authentication_spec where
  "exAuth = \<lparr>au_Basic = None, au_Token = Some \<lparr>ta_Scheme = ''Bearer'',
     ta_TokenSecretRef = Some \<lparr>ks_Name = ''sec'', ks_Key = ''k''\<rparr>\<rparr>\<rparr>"


section \<open>Items\<close>

lemma nonEmptyString_Inr: "nonEmptyString label v = Inr s \<longleftrightarrow> v = GStr s \<and> s \<noteq> []"
  by (cases v) (auto simp: nonEmptyString_def)

lemma extractPort_range: "- (2 ^ 31) \<le> extractPort v \<and> extractPort v < 2 ^ 31"
  using int32_range by (cases v) (auto simp: extractPort_def split: option.split)

lemma getPort_range: "- (2 ^ 31) \<le> getPort env item full cm \<and> getPort env item full cm < 2 ^ 31"
  using extractPort_range by (auto simp: getPort_def split: option.split sum.split)

lemma mapItem_ok:
  assumes "t \<in> set (mapItem env full cm item)"
  shows "dt_Name t \<noteq> [] \<and> dt_Address t \<noteq> [] \<and> - (2 ^ 31) \<le> dt_Port t \<and> dt_Port t < 2 ^ 31"
proof -
  obtain obj where t: "mapItemToTarget env obj full cm = Inr t"
    using assms by (auto simp: mapItem_def split: gval.splits sum.splits)
  obtain name address where "getName env obj full cm = Inr name" "getAddress env obj full cm = Inr address"
    and eq: "t = \<lparr>dt_Name = name, dt_Address = address, dt_Port = getPort env obj full cm,
      dt_Labels = getLabels env obj full cm, dt_TargetProfile = getTargetProfile env obj full cm\<rparr>"
    using t by (auto simp: mapItemToTarget_def bindE_Inr_iff)
  then have "name \<noteq> []" "address \<noteq> []"
    by (auto simp: getName_def getAddress_def bindE_Inr_iff nonEmptyString_Inr split: option.splits)
  then show ?thesis using getPort_range [of env obj full cm] by (simp add: eq)
qed

text \<open>
  C33: Items are mapped one by one, and only usable ones. Whatever the response, every target the
  mapping yields has a name and an address and a 32-bit port, and no item yields more than one. Without
  mapping expressions, an object with a non-empty name and address yields exactly the target of its
  fields, in the order of the items, and every other item is skipped.
\<close>

theorem mapItems_usable:
  shows "case mapItemsToTargets env l items full of
      Inl e \<Rightarrow> hc_ResponseMapping (l_Spec l) \<noteq> None
    | Inr ts \<Rightarrow>
        length ts \<le> length items \<and>
        list_all (\<lambda>t. dt_Name t \<noteq> [] \<and> dt_Address t \<noteq> [] \<and> - (2 ^ 31) \<le> dt_Port t \<and> dt_Port t < 2 ^ 31) ts \<and>
        (if hc_ResponseMapping (l_Spec l) \<noteq> None then True else
         ts = concat (map (\<lambda>item. case item of
             GMapS obj \<Rightarrow>
               (case (itemField obj ''name'', itemField obj ''address'') of
                  (GStr n, GStr a) \<Rightarrow>
                    if n = [] \<or> a = [] then []
                    else [\<lparr>dt_Name = n, dt_Address = a, dt_Port = extractPort (itemField obj ''port''),
                           dt_Labels = (case itemField obj ''labels'' of GMapS raw \<Rightarrow> addLabels env raw [] | _ \<Rightarrow> []),
                           dt_TargetProfile = (case itemField obj ''targetProfile'' of GStr p \<Rightarrow> p | _ \<Rightarrow> [])\<rparr>]
                | _ \<Rightarrow> [])
           | _ \<Rightarrow> []) items))"
proof (cases "mapItemsToTargets env l items full")
  case (Inl e)
  then show ?thesis
    by (auto simp: mapItemsToTargets_def compileMapping_def split: sum.splits option.splits)
next
  case (Inr ts)
  then obtain cm where cm: "compileMapping env l = Inr cm" and ts: "ts = concat (map (mapItem env full cm) items)"
    by (auto simp: mapItemsToTargets_def split: sum.splits)
  have one: "length (mapItem env full cm item) \<le> 1" for item
    by (cases item) (simp_all add: mapItem_def split: sum.split)
  have "length (concat (map (mapItem env full cm) is)) \<le> length is" for "is"
  proof (induction "is")
    case (Cons item "is")
    then show ?case using one [of item] by simp
  qed simp
  moreover have "list_all (\<lambda>t. dt_Name t \<noteq> [] \<and> dt_Address t \<noteq> [] \<and> - (2 ^ 31) \<le> dt_Port t \<and> dt_Port t < 2 ^ 31) ts"
    using mapItem_ok unfolding ts list_all_iff by fastforce
  moreover have "mapItem env full cm item = (case item of
             GMapS obj \<Rightarrow>
               (case (itemField obj ''name'', itemField obj ''address'') of
                  (GStr n, GStr a) \<Rightarrow>
                    if n = [] \<or> a = [] then []
                    else [\<lparr>dt_Name = n, dt_Address = a, dt_Port = extractPort (itemField obj ''port''),
                           dt_Labels = (case itemField obj ''labels'' of GMapS raw \<Rightarrow> addLabels env raw [] | _ \<Rightarrow> []),
                           dt_TargetProfile = (case itemField obj ''targetProfile'' of GStr p \<Rightarrow> p | _ \<Rightarrow> [])\<rparr>]
                | _ \<Rightarrow> [])
           | _ \<Rightarrow> [])" if none: "hc_ResponseMapping (l_Spec l) = None" for item
  proof -
    have cm0: "cm_name cm = None" "cm_address cm = None" "cm_port cm = None" "cm_labels cm = None" "cm_targetProfile cm = None"
      using cm none by (auto simp: compileMapping_def)
    show ?thesis
      by (cases item) (auto simp: mapItem_def mapItemToTarget_def getName_def getAddress_def getPort_def getLabels_def
          getTargetProfile_def cm0 nonEmptyString_def split: gval.splits)
  qed
  ultimately show ?thesis using Inr ts by (auto intro!: arg_cong [of _ _ concat])
qed

section \<open>Pages\<close>

text \<open>What the loop sees of a URL: the targets of its page and the next URL, or an error.\<close>

definition page :: "'p http_env \<Rightarrow> exchange \<Rightarrow> loader \<Rightarrow> string \<Rightarrow> fetch_error + discovered_target list \<times> string option" where
  "page env send l url =
     (case fetchPage env send l url of
        Inl e \<Rightarrow> Inl (FetchError e)
      | Inr (raw, headers) \<Rightarrow>
          (case extractTargetsFromResponse env l raw of
             Inl e \<Rightarrow> Inl (FetchError (''Failed to extract targets: '' @ e))
           | Inr ts \<Rightarrow>
               (case getNextURL env l raw headers url of
                  None \<Rightarrow> Inl SlicePanicked
                | Some next \<Rightarrow> Inr (ts, next))))"

lemma fetchLoop_page:
  "fetchLoop env send l seen url acc =
     (if url \<in> set seen then Some (Inr acc)
      else case page env send l url of
             Inl e \<Rightarrow> Some (Inl e)
           | Inr (ts, None) \<Rightarrow> Some (Inr (acc @ ts))
           | Inr (ts, Some next) \<Rightarrow> fetchLoop env send l (url # seen) next (acc @ ts))"
  by (subst fetchLoop.simps) (auto simp: page_def split: sum.split option.split)

lemma fetchLoop_ends:
  assumes "finite U" and "\<forall>u \<in> U. \<forall>ts next. page env send l u = Inr (ts, Some next) \<longrightarrow> next \<in> U" and "url \<in> U"
  shows "\<exists>r. fetchLoop env send l seen url acc = Some r"
  using assms(3)
proof (induction "card (U - set seen)" arbitrary: seen url acc rule: less_induct)
  case less
  show ?case
  proof (cases "url \<in> set seen")
    case True
    then show ?thesis by (subst fetchLoop_page) simp
  next
    case False
    then have "U - set (url # seen) \<subset> U - set seen" using less.prems by auto
    then have "card (U - set (url # seen)) < card (U - set seen)"
      using assms(1) by (intro psubset_card_mono) auto
    then have "\<exists>r. fetchLoop env send l (url # seen) next acc' = Some r" if "next \<in> U" for "next" acc'
      using less.hyps that by blast
    then show ?thesis
      using False less.prems assms(2) by (subst fetchLoop_page) (auto split: sum.split option.split)
  qed
qed

text \<open>
  C27: Pagination ends. When the server's pages only lead to finitely many URLs, a fetch returns, even if
  the pages lead back to each other, since no URL is requested twice.
\<close>

theorem fetch_terminates:
  assumes "finite U" and "hc_URL (l_Spec l) \<in> U"
    and "\<forall>u \<in> U. \<forall>ts next. page env send l u = Inr (ts, Some next) \<longrightarrow> next \<in> U"
  shows "\<exists>r. fetchTargetsFromHTTPEndpoint env send l = Some r"
  unfolding fetchTargetsFromHTTPEndpoint_def by (rule fetchLoop_ends [OF assms(1,3,2)])

definition exLink :: "string \<Rightarrow> string" where
  "exLink url = ''<'' @ url @ ''>; '' @ relNext"

lemma exLoader_URL [simp]: "hc_URL (l_Spec (exLoader auth)) = ''u1''"
  by (simp add: exLoader_def New_def exHTTP_def)

lemma exLoader_pagination [simp]: "hc_Pagination (l_Spec (exLoader auth)) = None"
  by (simp add: exLoader_def New_def exHTTP_def)

text \<open>A server whose two pages name each other.\<close>

definition exSend :: exchange where
  "exSend req = Inr \<lparr>rs_StatusCode = 200,
     rs_Header = [(''Link'', exLink (if rq_URL req = ''u1'' then ''u2'' else ''u1''))], rs_Body = rq_URL req\<rparr>"

lemma exEnv_fields [simp]:
  "he_requestError exEnv a b = None"
  "he_decode exEnv b = Inr (GList [GMapS [(''name'', GStr b), (''address'', GStr ''10.0.0.1'')], GMapS [(''name'', GNil)]])"
  by (simp_all add: exEnv_def)

definition exRequest :: "string \<Rightarrow> http_request" where
  "exRequest u = \<lparr>rq_Method = ''GET'', rq_URL = u, rq_Body = [],
     rq_Header = headerSet (headerSet [] ''Accept'' ''application/json'') ''authorization'' ''none''\<rparr>"

lemma exRequest_built: "buildRequest exEnv (exLoader None) u = Inr (exRequest u)"
  by (simp add: buildRequest_def exLoader_def New_def exHTTP_def applyAuthentication_def exRequest_def)

lemma exTargets:
  assumes "u \<noteq> []"
  shows "extractTargetsFromResponse exEnv (exLoader None)
     (GList [GMapS [(''name'', GStr u), (''address'', GStr ''10.0.0.1'')], GMapS [(''name'', GNil)]]) =
     Inr [\<lparr>dt_Name = u, dt_Address = ''10.0.0.1'', dt_Port = 0, dt_Labels = [], dt_TargetProfile = []\<rparr>]"
  using assms
  by (simp add: extractTargetsFromResponse_def responseItems_def mapItemsToTargets_def compileMapping_def exLoader_def
      New_def exHTTP_def mapItem_def mapItemToTarget_def getName_def getAddress_def getPort_def getLabels_def
      getTargetProfile_def itemField_def gget0_def gget_def nonEmptyString_def extractPort_def)

lemma exNext: "extractNextFromLinkHeader [(''Link'', exLink ''u1'')] = Some ''u1''"
  "extractNextFromLinkHeader [(''Link'', exLink ''u2'')] = Some ''u2''"
  "extractNextFromLinkHeader [] = Some []"
  by code_simp+

lemma exPage:
  "page exEnv exSend (exLoader None) u =
     Inr ([\<lparr>dt_Name = u, dt_Address = ''10.0.0.1'', dt_Port = 0, dt_Labels = [], dt_TargetProfile = []\<rparr>],
       Some (if u = ''u1'' then ''u2'' else ''u1''))" if "u = ''u1'' \<or> u = ''u2''"
  using that
  by (elim disjE) (simp_all add: page_def fetchPage_def exRequest_built exRequest_def exSend_def getNextURL_def exNext exTargets)

theorem fetch_terminates_witness:
  "\<exists>r. fetchTargetsFromHTTPEndpoint exEnv exSend (exLoader None) = Some r"
  using fetch_terminates [of "{''u1'', ''u2''}" "exLoader None" exEnv exSend] by (simp add: exPage)

definition pageTargets :: "'p http_env \<Rightarrow> exchange \<Rightarrow> loader \<Rightarrow> string \<Rightarrow> discovered_target list" where
  "pageTargets env send l u = (case page env send l u of Inr (ts, _) \<Rightarrow> ts | Inl _ \<Rightarrow> [])"

lemma fetchLoop_chain:
  assumes "distinct us" and "us \<noteq> []" and "set us \<inter> set seen = {}"
    and "\<forall>i < length us - 1. \<exists>ts. page env send l (us ! i) = Inr (ts, Some (us ! Suc i))"
  shows "fetchLoop env send l seen (hd us) acc =
    fetchLoop env send l (rev (butlast us) @ seen) (last us) (acc @ concat (map (pageTargets env send l) (butlast us)))"
  using assms
proof (induction us arbitrary: seen acc)
  case (Cons u us)
  show ?case
  proof (cases us)
    case (Cons v vs)
    obtain ts where ts: "page env send l u = Inr (ts, Some v)"
      using Cons.prems(4) [rule_format, of 0] local.Cons by auto
    have step: "fetchLoop env send l seen u acc = fetchLoop env send l (u # seen) v (acc @ ts)"
      using Cons.prems(3) ts by (subst fetchLoop_page) simp
    have links: "\<forall>i < length us - 1. \<exists>ts. page env send l (us ! i) = Inr (ts, Some (us ! Suc i))"
      using Cons.prems(4) [rule_format, of "Suc i" for i] local.Cons by auto
    have "fetchLoop env send l (u # seen) (hd us) (acc @ ts) =
        fetchLoop env send l (rev (butlast us) @ u # seen) (last us)
          ((acc @ ts) @ concat (map (pageTargets env send l) (butlast us)))"
      using Cons.prems(1,3) local.Cons by (intro Cons.IH [OF _ _ _ links]) simp_all
    then have "fetchLoop env send l seen (hd (u # us)) acc =
        fetchLoop env send l (rev (butlast us) @ u # seen) (last us)
          ((acc @ ts) @ concat (map (pageTargets env send l) (butlast us)))"
      unfolding list.sel(1) step using local.Cons by simp
    moreover have "pageTargets env send l u = ts" by (simp add: pageTargets_def ts)
    ultimately show ?thesis by (simp only:) (simp add: local.Cons)
  qed simp
qed simp

lemma pages_fetched:
  assumes "distinct us" and "us \<noteq> []" and "hd us = hc_URL (l_Spec l)"
    and "\<forall>i < length us - 1. \<exists>ts. page env send l (us ! i) = Inr (ts, Some (us ! Suc i))"
  shows "page env send l (last us) = Inr (ts, None) \<Longrightarrow>
      fetchTargetsFromHTTPEndpoint env send l = Some (Inr (concat (map (pageTargets env send l) us)))"
    and "page env send l (last us) = Inl (FetchError e) \<Longrightarrow> fetchTargetsFromHTTPEndpoint env send l = Some (Inl (FetchError e))"
proof -
  let ?before = "concat (map (pageTargets env send l) (butlast us))"
  have new: "last us \<notin> set (rev (butlast us))"
    using assms(1,2) by (metis append_butlast_last_id distinct_append disjoint_insert(1) list.set(2) set_rev)
  have chain: "fetchTargetsFromHTTPEndpoint env send l = fetchLoop env send l (rev (butlast us)) (last us) ?before"
    using fetchLoop_chain [OF assms(1,2) _ assms(4), of "[]" "[]"] assms(3)
    by (simp add: fetchTargetsFromHTTPEndpoint_def)
  show "fetchTargetsFromHTTPEndpoint env send l = Some (Inr (concat (map (pageTargets env send l) us)))"
    if page: "page env send l (last us) = Inr (ts, None)"
  proof -
    have "fetchTargetsFromHTTPEndpoint env send l = Some (Inr (?before @ pageTargets env send l (last us)))"
      using new page unfolding chain by (subst fetchLoop_page) (simp add: pageTargets_def)
    also have "?before @ pageTargets env send l (last us) = concat (map (pageTargets env send l) (butlast us @ [last us]))"
      by simp
    also have "butlast us @ [last us] = us" using assms(2) by simp
    finally show ?thesis .
  qed
  show "fetchTargetsFromHTTPEndpoint env send l = Some (Inl (FetchError e))"
    if "page env send l (last us) = Inl (FetchError e)"
    using new that unfolding chain by (subst fetchLoop_page) simp
qed


text \<open>The same server, but the second page is the last.\<close>

definition exSend2 :: exchange where
  "exSend2 req = Inr \<lparr>rs_StatusCode = 200,
     rs_Header = (if rq_URL req = ''u1'' then [(''Link'', exLink ''u2'')] else []), rs_Body = rq_URL req\<rparr>"

lemma exPage2:
  "page exEnv exSend2 (exLoader None) ''u1'' =
     Inr ([\<lparr>dt_Name = ''u1'', dt_Address = ''10.0.0.1'', dt_Port = 0, dt_Labels = [], dt_TargetProfile = []\<rparr>], Some ''u2'')"
  "page exEnv exSend2 (exLoader None) ''u2'' =
     Inr ([\<lparr>dt_Name = ''u2'', dt_Address = ''10.0.0.1'', dt_Port = 0, dt_Labels = [], dt_TargetProfile = []\<rparr>], None)"
  by (simp_all add: page_def fetchPage_def exRequest_built exRequest_def exSend2_def getNextURL_def exNext exTargets
      extractNextPageInfo_def)


end
