(* ===== verification/Target_Config.thy ===== *)
theory Target_Config
  imports Api_Types Naming
begin

text \<open>
  The builders of the target and subscription configurations: \<^verbatim>\<open>target.go\<close>, \<^verbatim>\<open>tunneltarget.go\<close>,
  \<^verbatim>\<open>subscription.go\<close> and \<^verbatim>\<open>tls.go\<close> of \<^verbatim>\<open>internal/gnmic\<close>. The structs of gNMIc's own API
  (\<^verbatim>\<open>gapi.TargetConfig\<close>, \<^verbatim>\<open>gapi.SubscriptionConfig\<close>) keep the fields the operator sets. The lemmas
  say when a connection is insecure or unverified, that the two copies of the target code agree, and
  that a stream subscription nests at most one level.
\<close>

section \<open>TLS of the cluster\<close>

record client_tls_paths =
  cp_CertFile :: string
  cp_KeyFile :: string
  cp_CAFile :: string

record tls_config =
  tls_CAFile :: string
  tls_CertFile :: string
  tls_KeyFile :: string
  tls_SkipVerify :: bool
  tls_ClientAuth :: string

definition clientAuthRequireVerify :: string where
  "clientAuthRequireVerify = ''require-verify''"

definition CertFilePath :: string where "CertFilePath = ''/etc/gnmic/tls/tls.crt''"
definition KeyFilePath :: string where "KeyFilePath = ''/etc/gnmic/tls/tls.key''"
definition TunnelCertFilePath :: string where
  "TunnelCertFilePath = ''/etc/gnmic/tunnel-tls/tls.crt''"
definition TunnelKeyFilePath :: string where
  "TunnelKeyFilePath = ''/etc/gnmic/tunnel-tls/tls.key''"
definition ClientTLSCertFilePath :: string where
  "ClientTLSCertFilePath = ''/etc/gnmic/client-tls/tls.crt''"
definition ClientTLSKeyFilePath :: string where
  "ClientTLSKeyFilePath = ''/etc/gnmic/client-tls/tls.key''"
definition ClientCABundleFilePath :: string where
  "ClientCABundleFilePath = ''/etc/gnmic/client-ca/ca.crt''"
definition TunnelCABundleFilePath :: string where
  "TunnelCABundleFilePath = ''/etc/gnmic/tunnel-ca/ca.crt''"
definition ControllerCAFilePath :: string where
  "ControllerCAFilePath = ''/etc/gnmic/controller-ca/ca.crt''"

definition emptyTLSConfig :: tls_config where
  "emptyTLSConfig = \<lparr>tls_CAFile = [], tls_CertFile = [], tls_KeyFile = [], tls_SkipVerify = False,
     tls_ClientAuth = []\<rparr>"

definition TLSConfigForClusterPod :: "cluster_spec \<Rightarrow> tls_config option" where
  "TLSConfigForClusterPod spec =
     (case Option.bind (cs_API spec) api_TLS of
        None \<Rightarrow> None
      | Some tls \<Rightarrow>
          Some (if ct_IssuerRef tls \<noteq> []
                then emptyTLSConfig\<lparr>tls_CertFile := CertFilePath, tls_KeyFile := KeyFilePath,
                       tls_CAFile := ControllerCAFilePath,
                       tls_ClientAuth := clientAuthRequireVerify\<rparr>
                else emptyTLSConfig))"

definition TunnelServerTLSConfig :: "cluster_spec \<Rightarrow> tls_config option" where
  "TunnelServerTLSConfig spec =
     (case Option.bind (cs_GRPCTunnel spec) gt_TLS of
        None \<Rightarrow> None
      | Some tls \<Rightarrow>
          (let c = (if ct_IssuerRef tls \<noteq> []
                    then emptyTLSConfig\<lparr>tls_CertFile := TunnelCertFilePath,
                           tls_KeyFile := TunnelKeyFilePath\<rparr>
                    else emptyTLSConfig)
           in Some (if ct_BundleRef tls \<noteq> []
                    then c\<lparr>tls_CAFile := TunnelCABundleFilePath,
                           tls_ClientAuth := clientAuthRequireVerify\<rparr>
                    else c)))"

definition ClientTLSConfigForCluster :: "cluster_spec \<Rightarrow> client_tls_paths option" where
  "ClientTLSConfigForCluster spec =
     (case cs_ClientTLS spec of
        None \<Rightarrow> None
      | Some tls \<Rightarrow>
          (let p = \<lparr>cp_CertFile = [], cp_KeyFile = [], cp_CAFile = []\<rparr>;
               p = (if ct_IssuerRef tls \<noteq> []
                    then p\<lparr>cp_CertFile := ClientTLSCertFilePath,
                           cp_KeyFile := ClientTLSKeyFilePath\<rparr> else p)
           in Some (if ct_BundleRef tls \<noteq> [] then p\<lparr>cp_CAFile := ClientCABundleFilePath\<rparr> else p)))"

section \<open>Targets\<close>

record credentials =
  cr_Username :: string
  cr_Password :: string
  cr_Token :: string

record target_config =
  tc_Name :: string
  tc_Address :: string
  tc_Username :: "string option"
  tc_Password :: "string option"
  tc_Token :: "string option"
  tc_Timeout :: duration
  tc_RetryTimer :: duration
  tc_Encoding :: "string option"
  tc_Insecure :: "bool option"
  tc_SkipVerify :: "bool option"
  tc_TLSCert :: "string option"
  tc_TLSKey :: "string option"
  tc_TLSCA :: "string option"
  tc_TLSServerName :: string
  tc_TLSMaxVersion :: string
  tc_TLSMinVersion :: string
  tc_CipherSuites :: "string list"
  tc_TCPKeepalive :: duration
  tc_GRPCKeepalive :: "grpc_keepalive option"
  tc_Subscriptions :: "string list"

definition emptyTargetConfig :: target_config where
  "emptyTargetConfig = \<lparr>tc_Name = [], tc_Address = [], tc_Username = None, tc_Password = None,
     tc_Token = None, tc_Timeout = 0, tc_RetryTimer = 0, tc_Encoding = None, tc_Insecure = None,
     tc_SkipVerify = None, tc_TLSCert = None, tc_TLSKey = None, tc_TLSCA = None,
     tc_TLSServerName = [], tc_TLSMaxVersion = [], tc_TLSMinVersion = [], tc_CipherSuites = [],
     tc_TCPKeepalive = 0, tc_GRPCKeepalive = None, tc_Subscriptions = []\<rparr>"

definition durationOrDefault :: "duration option \<Rightarrow> duration \<Rightarrow> duration" where
  "durationOrDefault d dflt = (case d of Some x \<Rightarrow> x | None \<Rightarrow> dflt)"

text \<open>A non-empty string becomes a pointer to it, an empty one leaves the field nil.\<close>

definition ptr_nonempty :: "string \<Rightarrow> string option" where
  "ptr_nonempty s = (if s \<noteq> [] then Some s else None)"

definition setCredentials :: "credentials option \<Rightarrow> target_config \<Rightarrow> target_config" where
  "setCredentials creds config =
     (case creds of
        None \<Rightarrow> config
      | Some c \<Rightarrow> config\<lparr>tc_Username := ptr_nonempty (cr_Username c),
                         tc_Password := ptr_nonempty (cr_Password c),
                         tc_Token := ptr_nonempty (cr_Token c)\<rparr>)"

definition setTLSVersions :: "target_tls \<Rightarrow> target_config \<Rightarrow> target_config" where
  "setTLSVersions tls config =
     (let config = (if tt_MaxVersion tls \<noteq> [] then config\<lparr>tc_TLSMaxVersion := tt_MaxVersion tls\<rparr> else config);
          config = (if tt_MinVersion tls \<noteq> [] then config\<lparr>tc_TLSMinVersion := tt_MinVersion tls\<rparr> else config)
      in if tt_CipherSuites tls \<noteq> [] then config\<lparr>tc_CipherSuites := tt_CipherSuites tls\<rparr> else config)"

definition setClientTLS :: "client_tls_paths \<Rightarrow> target_config \<Rightarrow> target_config" where
  "setClientTLS p config =
     (let config = (if cp_CertFile p \<noteq> [] then config\<lparr>tc_TLSCert := Some (cp_CertFile p)\<rparr> else config);
          config = (if cp_KeyFile p \<noteq> [] then config\<lparr>tc_TLSKey := Some (cp_KeyFile p)\<rparr> else config)
      in if cp_CAFile p \<noteq> []
         then config\<lparr>tc_TLSCA := Some (cp_CAFile p), tc_SkipVerify := Some False\<rparr>
         else config\<lparr>tc_SkipVerify := Some True\<rparr>)"

definition buildTargetConfig ::
  "target \<Rightarrow> target_profile_spec \<Rightarrow> credentials option \<Rightarrow> client_tls_paths option \<Rightarrow> target_config" where
  "buildTargetConfig target profile creds clientTLS =
     (let config = emptyTargetConfig\<lparr>
            tc_Name := m_Namespace (t_Meta target) @ Delimiter @ m_Name (t_Meta target),
            tc_Address := ts_Address (t_Spec target),
            tc_Timeout := durationOrDefault (Some (tp_Timeout profile)) (10 * second),
            tc_RetryTimer := durationOrDefault (Some (tp_RetryTimer profile)) (2 * second),
            tc_Encoding := Some (tp_Encoding profile)\<rparr>;
          config = setCredentials creds config
      in case (clientTLS, tp_TLS profile) of
           (None, None) \<Rightarrow> config\<lparr>tc_Insecure := Some True\<rparr>
         | (None, Some tls) \<Rightarrow> setTLSVersions tls (config\<lparr>tc_SkipVerify := Some True\<rparr>)
         | (Some p, None) \<Rightarrow> setClientTLS p config
         | (Some p, Some tls) \<Rightarrow>
             (let config = setClientTLS p config;
                  config = (if tt_ServerName tls \<noteq> []
                            then config\<lparr>tc_TLSServerName := tt_ServerName tls\<rparr> else config);
                  config = setTLSVersions tls config;
                  config = (case tp_TCPKeepAlive profile of
                              None \<Rightarrow> config | Some d \<Rightarrow> config\<lparr>tc_TCPKeepalive := d\<rparr>)
              in case tp_GRCPKeepAlive profile of
                   None \<Rightarrow> config
                 | Some g \<Rightarrow> config\<lparr>tc_GRPCKeepalive := Some g\<rparr>))"

section \<open>Tunnel targets\<close>

record tunnel_target_match =
  ttm_Type :: string
  ttm_ID :: string
  ttm_Config :: "target_config option"

definition buildTunnelTargetMatch ::
  "tunnel_policy_spec \<Rightarrow> target_profile_spec option \<Rightarrow> credentials option \<Rightarrow> client_tls_paths option \<Rightarrow>
   tunnel_target_match" where
  "buildTunnelTargetMatch policySpec profile creds clientTLS =
     (let match = (case tpol_Match policySpec of
                     None \<Rightarrow> \<lparr>ttm_Type = [], ttm_ID = [], ttm_Config = None\<rparr>
                   | Some m \<Rightarrow> \<lparr>ttm_Type = tm_Type m, ttm_ID = tm_ID m, ttm_Config = None\<rparr>)
      in case profile of
           None \<Rightarrow> match
         | Some profile \<Rightarrow>
             (let config = emptyTargetConfig\<lparr>
                    tc_Timeout := durationOrDefault (Some (tp_Timeout profile)) (10 * second),
                    tc_RetryTimer := durationOrDefault (Some (tp_RetryTimer profile)) (2 * second),
                    tc_Encoding := Some (tp_Encoding profile)\<rparr>;
                  config = setCredentials creds config
              in match\<lparr>ttm_Config := Some (case (clientTLS, tp_TLS profile) of
                   (None, None) \<Rightarrow> config\<lparr>tc_Insecure := Some True\<rparr>
                 | (None, Some tls) \<Rightarrow> setTLSVersions tls (config\<lparr>tc_SkipVerify := Some True\<rparr>)
                 | (Some p, None) \<Rightarrow> setClientTLS p config
                 | (Some p, Some tls) \<Rightarrow>
                     (let config = setClientTLS p config;
                          config = (if tt_ServerName tls \<noteq> []
                                    then config\<lparr>tc_TLSServerName := tt_ServerName tls\<rparr> else config)
                      in setTLSVersions tls config))\<rparr>))"

section \<open>Subscriptions\<close>

datatype subscription_config = SubscriptionConfig
  (sub_Name: string)
  (sub_Prefix: string)
  (sub_Target: string)
  (sub_Paths: "string list")
  (sub_Mode: string)
  (sub_StreamMode: string)
  (sub_UpdatesOnly: bool)
  (sub_Depth: int)
  (sub_Outputs: "string list")
  (sub_Encoding: "string option")
  (sub_SampleInterval: "duration option")
  (sub_HeartbeatInterval: "duration option")
  (sub_Qos: "int option")
  (sub_History: "history_config option")
  (sub_StreamSubscriptions: "subscription_config option list")

definition specModeToConfig :: "string \<Rightarrow> string \<times> string" where
  "specModeToConfig mode =
     (case SplitN2 mode (CHR ''/'') of [m] \<Rightarrow> (m, []) | m # s # _ \<Rightarrow> (m, s) | [] \<Rightarrow> ([], []))"

definition positive :: "duration \<Rightarrow> duration option" where
  "positive d = (if 0 < d then Some d else None)"

text \<open>
  The recursive call passes a nil map of subscriptions, so it finds none below the first level; a
  name that is not in \<^verbatim>\<open>allSubs\<close> leaves a nil entry.
\<close>

function buildSubscriptionConfig ::
  "string \<Rightarrow> subscription_spec \<Rightarrow> string list \<Rightarrow> (string, subscription_spec) gomap \<Rightarrow> subscription_config"
where
  "buildSubscriptionConfig subNN s outputs allSubs =
     SubscriptionConfig subNN (ss_Prefix s) (ss_Target s) (ss_Paths s)
       (fst (specModeToConfig (ss_Mode s))) (snd (specModeToConfig (ss_Mode s)))
       (ss_UpdatesOnly s) (ss_Depth s) outputs (ptr_nonempty (ss_Encoding s))
       (positive (ss_SampleInterval s)) (positive (ss_HeartbeatInterval s)) (ss_Qos s) (ss_History s)
       (map (\<lambda>name. case gget allSubs name of
               None \<Rightarrow> None
             | Some s' \<Rightarrow> Some (buildSubscriptionConfig name s' [] []))
          (ss_StreamSubscriptions s))"
  by auto
termination
  by (relation "measure (\<lambda>(_, _, _, allSubs). length allSubs)") (auto dest: gget_Some_in)

declare buildSubscriptionConfig.simps [simp del]

section \<open>Lemmas\<close>

lemma setCredentials_tls [simp]:
  "tc_Insecure (setCredentials cr c) = tc_Insecure c"
  "tc_SkipVerify (setCredentials cr c) = tc_SkipVerify c"
  "tc_TLSCA (setCredentials cr c) = tc_TLSCA c"
  by (auto simp: setCredentials_def split: option.splits)

lemma setTLSVersions_tls [simp]:
  "tc_Insecure (setTLSVersions t c) = tc_Insecure c"
  "tc_SkipVerify (setTLSVersions t c) = tc_SkipVerify c"
  "tc_TLSCA (setTLSVersions t c) = tc_TLSCA c"
  by (auto simp: setTLSVersions_def Let_def)

lemma setClientTLS_tls [simp]:
  "tc_Insecure (setClientTLS p c) = tc_Insecure c"
  "tc_SkipVerify (setClientTLS p c) = Some (cp_CAFile p = [])"
  by (auto simp: setClientTLS_def Let_def)

lemma setClientTLS_CA:
  "tc_TLSCA (setClientTLS p c) = (if cp_CAFile p \<noteq> [] then Some (cp_CAFile p) else tc_TLSCA c)"
  by (auto simp: setClientTLS_def Let_def)

text \<open>What the tunnel builder leaves unset; the shared steps do not touch it.\<close>

definition tunnelPart :: "target_config \<Rightarrow> target_config" where
  "tunnelPart c = c\<lparr>tc_Name := [], tc_Address := [], tc_TCPKeepalive := 0, tc_GRPCKeepalive := None\<rparr>"

lemma tunnelPart_steps:
  "tunnelPart (setCredentials cr c) = setCredentials cr (tunnelPart c)"
  "tunnelPart (setTLSVersions t c) = setTLSVersions t (tunnelPart c)"
  "tunnelPart (setClientTLS p c) = setClientTLS p (tunnelPart c)"
  by (simp_all add: tunnelPart_def setCredentials_def setTLSVersions_def setClientTLS_def Let_def
      split: option.split)

lemma tunnelPart_updates:
  "tunnelPart (c\<lparr>tc_TCPKeepalive := d\<rparr>) = tunnelPart c"
  "tunnelPart (c\<lparr>tc_GRPCKeepalive := g\<rparr>) = tunnelPart c"
  "tunnelPart (c\<lparr>tc_Insecure := b\<rparr>) = (tunnelPart c)\<lparr>tc_Insecure := b\<rparr>"
  "tunnelPart (c\<lparr>tc_SkipVerify := b\<rparr>) = (tunnelPart c)\<lparr>tc_SkipVerify := b\<rparr>"
  "tunnelPart (c\<lparr>tc_TLSServerName := n\<rparr>) = (tunnelPart c)\<lparr>tc_TLSServerName := n\<rparr>"
  by (simp_all add: tunnelPart_def)

lemma tunnelPart_base:
  "tunnelPart (emptyTargetConfig\<lparr>tc_Name := n, tc_Address := a, tc_Timeout := t, tc_RetryTimer := r,
     tc_Encoding := e\<rparr>) = emptyTargetConfig\<lparr>tc_Timeout := t, tc_RetryTimer := r, tc_Encoding := e\<rparr>"
  by (simp add: tunnelPart_def emptyTargetConfig_def)

text \<open>The levels of nesting of a subscription configuration.\<close>

fun flatSub :: "subscription_config \<Rightarrow> bool" where
  "flatSub c \<longleftrightarrow> list_all (\<lambda>x. x = None) (sub_StreamSubscriptions c)"

lemma buildSubscriptionConfig_nil_map: "flatSub (buildSubscriptionConfig n s os [])"
  by (subst buildSubscriptionConfig.simps) (simp add: list_all_iff)

text \<open>
  C29: The TLS mode of a target connection follows from the cluster's client TLS and the profile
  alone: plaintext exactly when neither asks for TLS, and a verified server certificate exactly when
  the cluster has a CA bundle for targets, which is then the CA the connection uses.
\<close>

theorem buildTargetConfig_tls_mode:
  "let c = buildTargetConfig target profile creds (ClientTLSConfigForCluster spec);
       verified = (\<exists>tls. cs_ClientTLS spec = Some tls \<and> ct_BundleRef tls \<noteq> [])
   in (tc_Insecure c = Some True \<longleftrightarrow> cs_ClientTLS spec = None \<and> tp_TLS profile = None)
    \<and> (tc_SkipVerify c = Some False \<longleftrightarrow> verified)
    \<and> tc_TLSCA c = (if verified then Some ClientCABundleFilePath else None)"
  by (cases "cs_ClientTLS spec"; cases "tp_TLS profile")
    (auto simp: buildTargetConfig_def ClientTLSConfigForCluster_def Let_def emptyTargetConfig_def
      ClientCABundleFilePath_def setClientTLS_CA split: option.splits)

text \<open>
  The configuration a tunnel policy gives its targets is the configuration of a static target
  with the same profile and credentials, less the name, the address and the keep-alive settings,
  which the tunnel builder does not set.
\<close>

theorem buildTunnelTargetMatch_agrees:
  "buildTunnelTargetMatch policy (Some profile) creds clientTLS =
     \<lparr>ttm_Type = (case tpol_Match policy of None \<Rightarrow> [] | Some m \<Rightarrow> tm_Type m),
      ttm_ID = (case tpol_Match policy of None \<Rightarrow> [] | Some m \<Rightarrow> tm_ID m),
      ttm_Config = Some ((buildTargetConfig target profile creds clientTLS)
        \<lparr>tc_Name := [], tc_Address := [], tc_TCPKeepalive := 0, tc_GRPCKeepalive := None\<rparr>)\<rparr>"
  unfolding tunnelPart_def [symmetric]
  by (cases clientTLS; cases "tp_TLS profile")
    (simp_all add: buildTunnelTargetMatch_def buildTargetConfig_def Let_def tunnelPart_steps
      tunnelPart_updates tunnelPart_base split: option.split)

end
