(* ===== verification/Io_Config.thy ===== *)
theory Io_Config
  imports Api_Types Naming
begin

text \<open>
  The builders of output, input and processor configurations (\<^verbatim>\<open>output.go\<close>, \<^verbatim>\<open>input.go\<close>,
  \<^verbatim>\<open>processor.go\<close>), the service addresses of outputs, and the detection of the cluster's DNS domain
  (\<^verbatim>\<open>dns.go\<close>), all of \<^verbatim>\<open>internal/gnmic\<close>.

  A YAML value of Go type \<^verbatim>\<open>any\<close> is the datatype \<open>any\<close>. \<^verbatim>\<open>yaml.Unmarshal\<close> into a \<^verbatim>\<open>map[string]any\<close>
  is a parameter (\<open>yaml\<close>), \<open>Inl\<close> for an error; the raw bytes come from a JSON field, which is nil
  rather than a null document, so a successful call leaves a map.
\<close>

section \<open>YAML values\<close>

datatype any =
  ANil
| AStr string
| ABool bool
| AInt int
| AFloat string
| AStrs "string list" \<comment> \<open>\<^verbatim>\<open>[]string\<close>, set by the builders\<close>
| AList "any list"
| AMapSA "(string \<times> any) list" \<comment> \<open>\<^verbatim>\<open>map[string]any\<close>\<close>
| AMapAA "(any \<times> any) list" \<comment> \<open>\<^verbatim>\<open>map[any]any\<close>\<close>

type_synonym config_map = "(string, any) gomap"
type_synonym 'e yaml_fn = "string \<Rightarrow> 'e + config_map"

text \<open>The parse of a \<^verbatim>\<open>Config.Raw\<close> field that every builder starts with.\<close>

definition parseRaw :: "'e yaml_fn \<Rightarrow> string option \<Rightarrow> 'e + config_map" where
  "parseRaw yaml raw = (case raw of None \<Rightarrow> Inr [] | Some r \<Rightarrow> yaml r)"

section \<open>Outputs\<close>

definition PrometheusOutputType :: string where "PrometheusOutputType = ''prometheus''"
definition PrometheusWriteOutputType :: string where "PrometheusWriteOutputType = ''prometheus_write''"
definition KafkaOutputType :: string where "KafkaOutputType = ''kafka''"
definition InfluxDBOutputType :: string where "InfluxDBOutputType = ''influxdb''"
definition NATSOutputType :: string where "NATSOutputType = ''nats''"
definition JetstreamOutputType :: string where "JetstreamOutputType = ''jetstream''"
definition PrometheusDefaultPort :: int where "PrometheusDefaultPort = 9804"
definition PrometheusDefaultPath :: string where "PrometheusDefaultPath = ''/metrics''"
definition PrmetheusPortPoolSize :: int where "PrmetheusPortPoolSize = 1009"

lemmas output_types = PrometheusOutputType_def PrometheusWriteOutputType_def KafkaOutputType_def
  InfluxDBOutputType_def NATSOutputType_def JetstreamOutputType_def

definition OutputTypesWithServiceRef :: "string list" where
  "OutputTypesWithServiceRef = [NATSOutputType, JetstreamOutputType, KafkaOutputType,
     PrometheusWriteOutputType, InfluxDBOutputType]"

definition buildOutputConfig ::
  "'e yaml_fn \<Rightarrow> output_spec \<Rightarrow> string list \<Rightarrow> string list \<Rightarrow> 'e + config_map" where
  "buildOutputConfig yaml spec processors resolvedAddresses =
     (case parseRaw yaml (o_Config spec) of
        Inl e \<Rightarrow> Inl e
      | Inr config \<Rightarrow>
          (let config = gput config ''type'' (AStr (o_Type spec));
               config = (if processors \<noteq> []
                         then gput config ''event-processors'' (AStrs processors) else config);
               config = (if resolvedAddresses \<noteq> [] \<and> o_Type spec \<in> set OutputTypesWithServiceRef
                         then if o_Type spec \<in> {NATSOutputType, JetstreamOutputType, KafkaOutputType}
                              then gput config ''address'' (AStr (Join resolvedAddresses '',''))
                              else gput config ''url'' (AStr (Join resolvedAddresses '',''))
                         else config)
           in Inr (if o_Type spec = ''prometheus'' \<and> gget0 ANil config ''path'' = ANil
                   then gput config ''path'' (AStr PrometheusDefaultPath) else config)))"

text \<open>Whether the raw configuration has a \<^verbatim>\<open>tls\<close> section; an error counts as none.\<close>

definition hasTLS :: "'e yaml_fn \<Rightarrow> string option \<Rightarrow> bool" where
  "hasTLS yaml raw =
     (case raw of
        None \<Rightarrow> False
      | Some r \<Rightarrow> (case yaml r of Inl e \<Rightarrow> False | Inr config \<Rightarrow> gget0 ANil config ''tls'' \<noteq> ANil))"

definition FormatServiceAddress :: "'e yaml_fn \<Rightarrow> output_spec \<Rightarrow> string \<Rightarrow> int \<Rightarrow> string" where
  "FormatServiceAddress yaml spec host port =
     (let hp = host @ '':'' @ Itoa port
      in if o_Type spec \<in> {NATSOutputType, JetstreamOutputType} then ''nats://'' @ hp
         else if o_Type spec = KafkaOutputType then hp
         else if o_Type spec \<in> {PrometheusWriteOutputType, InfluxDBOutputType}
         then (if hasTLS yaml (o_Config spec) then ''https://'' @ hp else ''http://'' @ hp)
         else hp)"

record service_port =
  sp_Name :: string
  sp_Port :: int

definition ParseServicePort :: "string \<Rightarrow> service_port list \<Rightarrow> string + int" where
  "ParseServicePort portStr ports =
     (if portStr = [] \<and> ports \<noteq> [] then Inr (sp_Port (hd ports))
      else case ParseInt portStr 32 of
             Some n \<Rightarrow> Inr n
           | None \<Rightarrow> (case find (\<lambda>p. sp_Name p = portStr) ports of
                       Some p \<Rightarrow> Inr (sp_Port p)
                     | None \<Rightarrow> Inl (''port '' @ portStr @ '' not found in service'')))"

section \<open>Inputs and processors\<close>

definition buildInputConfig ::
  "'e yaml_fn \<Rightarrow> input_spec \<Rightarrow> string list \<Rightarrow> string list \<Rightarrow> 'e + config_map" where
  "buildInputConfig yaml spec outputs processors =
     (case parseRaw yaml (i_Config spec) of
        Inl e \<Rightarrow> Inl e
      | Inr config \<Rightarrow>
          (let config = gput config ''type'' (AStr (i_Type spec));
               config = (if outputs \<noteq> [] then gput config ''outputs'' (AStrs outputs) else config)
           in Inr (if processors \<noteq> []
                   then gput config ''event-processors'' (AStrs processors) else config)))"

text \<open>
  \<^verbatim>\<open>convert\<close>: string keys all the way down. The entries of a map with a key that is not a string are
  dropped; the keys of a Go map are distinct, so copying entry by entry is a map of the list.
\<close>

fun convert :: "any \<Rightarrow> any" where
  "convert (AMapSA m) = AMapSA (map (\<lambda>(k, v). (k, convert v)) m)"
| "convert (AMapAA m) =
     AMapSA (concat (map (\<lambda>(k, v). case k of AStr s \<Rightarrow> [(s, convert v)] | _ \<Rightarrow> []) m))"
| "convert (AList xs) = AList (map convert xs)"
| "convert v = v"

definition buildProcessorConfig :: "'e yaml_fn \<Rightarrow> processor_spec \<Rightarrow> ('e + string) + config_map" where
  "buildProcessorConfig yaml spec =
     (case parseRaw yaml (pr_Config spec) of
        Inl e \<Rightarrow> Inl (Inl e)
      | Inr config \<Rightarrow>
          (case convert (AMapSA [(pr_Type spec, AMapSA config)]) of
             AMapSA v \<Rightarrow> Inr v
           | _ \<Rightarrow> Inl (Inr ''invalid processor config type'')))"

section \<open>The cluster's DNS domain\<close>

definition isSpace :: "char \<Rightarrow> bool" where
  "isSpace c \<longleftrightarrow> c \<in> {CHR '' '', CHR 0x09, CHR 0x0A, CHR 0x0B, CHR 0x0C, CHR 0x0D}"

text \<open>\<^verbatim>\<open>strings.Fields\<close> on ASCII text.\<close>

fun fields_acc :: "string \<Rightarrow> string \<Rightarrow> string list" where
  "fields_acc cur [] = (if cur = [] then [] else [rev cur])"
| "fields_acc cur (c # cs) =
     (if isSpace c then (if cur = [] then fields_acc [] cs else rev cur # fields_acc [] cs)
      else fields_acc (c # cur) cs)"

definition Fields :: "string \<Rightarrow> string list" where
  "Fields s = fields_acc [] s"

definition defaultClusterDomain :: string where
  "defaultClusterDomain = ''cluster.local''"

text \<open>The loop over the search domains: \<open>Inl\<close> returns at once, \<open>Inr\<close> is the shortest so far.\<close>

fun searchDomains :: "string list \<Rightarrow> string \<Rightarrow> string + string" where
  "searchDomains [] shortest = Inr shortest"
| "searchDomains (d # ds) shortest =
     (if HasPrefix d ''svc.'' then Inl (TrimPrefix d ''svc.'')
      else searchDomains ds
             (if shortest = [] \<or> length d < length shortest then d else shortest))"

text \<open>\<^verbatim>\<open>parseClusterDomain\<close> on the lines of the file (\<^verbatim>\<open>bufio.Scanner\<close>).\<close>

fun parseClusterDomain :: "string list \<Rightarrow> string" where
  "parseClusterDomain [] = defaultClusterDomain"
| "parseClusterDomain (line # lines) =
     (case Fields line of
        keyword # d # ds \<Rightarrow>
          if keyword \<noteq> ''search'' then parseClusterDomain lines
          else (case searchDomains (d # ds) [] of
                  Inl domain \<Rightarrow> domain
                | Inr shortest \<Rightarrow> if shortest \<noteq> [] then shortest else parseClusterDomain lines)
      | _ \<Rightarrow> parseClusterDomain lines)"

definition detectClusterDomain :: "string list option \<Rightarrow> string" where
  "detectClusterDomain resolvConf =
     (case resolvConf of None \<Rightarrow> defaultClusterDomain | Some lines \<Rightarrow> parseClusterDomain lines)"

text \<open>\<open>env\<close> is \<^verbatim>\<open>os.Getenv("CLUSTER_DOMAIN")\<close>.\<close>

definition ClusterDomain :: "string \<Rightarrow> string list option \<Rightarrow> string" where
  "ClusterDomain env resolvConf = (if env \<noteq> [] then env else detectClusterDomain resolvConf)"

section \<open>Lemmas\<close>

text \<open>Values without a \<^verbatim>\<open>map[any]any\<close>, which \<^verbatim>\<open>encoding/json\<close> cannot marshal.\<close>

fun jsonable :: "any \<Rightarrow> bool" where
  "jsonable (AMapSA m) = list_all (\<lambda>(k, v). jsonable v) m"
| "jsonable (AMapAA m) = False"
| "jsonable (AList xs) = list_all jsonable xs"
| "jsonable v = True"

lemma jsonable_convert: "jsonable (convert v)"
  by (induction v rule: convert.induct) (auto simp: list_all_iff split: any.splits)

lemma convert_jsonable: "jsonable v \<Longrightarrow> convert v = v"
  by (induction v rule: convert.induct) (auto simp: list_all_iff intro!: map_idI)

lemma output_type_key:
  "buildOutputConfig yaml spec procs addrs = Inr c \<Longrightarrow> gget c ''type'' = Some (AStr (o_Type spec))"
  by (auto simp: buildOutputConfig_def Let_def gm.get_put split: sum.splits if_splits)

lemma buildOutputConfig_error:
  "(\<exists>e. buildOutputConfig yaml spec procs addrs = Inl e) \<longleftrightarrow>
   (\<exists>e. parseRaw yaml (o_Config spec) = Inl e)"
  by (auto simp: buildOutputConfig_def Let_def split: sum.splits)

lemma buildInputConfig_error:
  "(\<exists>e. buildInputConfig yaml spec outs procs = Inl e) \<longleftrightarrow>
   (\<exists>e. parseRaw yaml (i_Config spec) = Inl e)"
  by (auto simp: buildInputConfig_def Let_def split: sum.splits)

text \<open>
  A processor configuration is one entry, the type with the converted settings; it holds no
  \<^verbatim>\<open>map[any]any\<close> at any depth, so it can be sent as JSON, settings that have none already are kept as they
  are, and the only failure is a YAML error.
\<close>

theorem buildProcessorConfig_json:
  "(\<exists>config. buildProcessorConfig yaml spec = Inr [(pr_Type spec, convert (AMapSA config))]
       \<and> parseRaw yaml (pr_Config spec) = Inr config
       \<and> jsonable (convert (AMapSA config))
       \<and> (convert (AMapSA config) = AMapSA config \<longleftrightarrow> jsonable (AMapSA config)))
   \<or> (\<exists>e. buildProcessorConfig yaml spec = Inl (Inl e) \<and> parseRaw yaml (pr_Config spec) = Inl e)"
proof (cases "parseRaw yaml (pr_Config spec)")
  case (Inr config)
  then have "buildProcessorConfig yaml spec = Inr [(pr_Type spec, convert (AMapSA config))]"
    by (simp add: buildProcessorConfig_def)
  moreover have "convert (AMapSA config) = AMapSA config \<longleftrightarrow> jsonable (AMapSA config)"
    by (metis convert_jsonable jsonable_convert)
  ultimately show ?thesis
    using Inr jsonable_convert by blast
qed (simp add: buildProcessorConfig_def)

end
