(* ===== verification/Ports.thy ===== *)
theory Ports
  imports Io_Config
begin

unbundle bit_operations_syntax

text \<open>
  The ports of Prometheus outputs: \<^verbatim>\<open>assignPorts\<close> and \<^verbatim>\<open>hash32\<close> of \<^verbatim>\<open>internal/gnmic/plan.go\<close>. Each
  name probes the pool by double hashing. The pool size 1009 is prime, so the probe sequence of
  every name visits the whole pool (\<open>probe_covers\<close>); with it, names never run out of ports before
  the pool is full.
\<close>

definition hash32 :: "string \<Rightarrow> 32 word" where
  "hash32 s = foldl (\<lambda>h c. (h XOR of_nat (of_char c)) * 16777619) 2166136261 s"

datatype port_error = BadRange | DivideByZero | NoFreePorts

text \<open>The \<open>i\<close>-th slot of the probe sequence, in \<^verbatim>\<open>int32\<close> arithmetic.\<close>

definition probe :: "int \<Rightarrow> int \<Rightarrow> int \<Rightarrow> int \<Rightarrow> int" where
  "probe start step rangeSize i = go_rem (int32 (start + int32 (i * step))) rangeSize"

definition startOf :: "string \<Rightarrow> int \<Rightarrow> int" where
  "startOf name rangeSize = int32 (uint (hash32 name) mod rangeSize)"

definition stepOf :: "string \<Rightarrow> int \<Rightarrow> int" where
  "stepOf name rangeSize = int32 (int32 (uint (hash32 (''step:'' @ name)) mod (rangeSize - 1)) + 1)"

fun assign_loop ::
  "int \<Rightarrow> int \<Rightarrow> string list \<Rightarrow> int set \<Rightarrow> (string, int) gomap \<Rightarrow> port_error + (string, int) gomap"
where
  "assign_loop base rangeSize [] used result = Inr result"
| "assign_loop base rangeSize (name # names) used result =
     (if rangeSize - 1 = 0 then Inl DivideByZero
      else case find (\<lambda>slot. slot \<notin> used)
             (map (probe (startOf name rangeSize) (stepOf name rangeSize) rangeSize)
                [0..rangeSize - 1]) of
             None \<Rightarrow> Inl NoFreePorts
           | Some slot \<Rightarrow> assign_loop base rangeSize names (insert slot used)
                            (gput result name (int32 (base + slot))))"

definition assignPorts :: "string list \<Rightarrow> int \<Rightarrow> int \<Rightarrow> port_error + (string, int) gomap" where
  "assignPorts names base rangeSize =
     (if rangeSize \<le> 0 then Inl BadRange else assign_loop base rangeSize (sort names) {} [])"

section \<open>The probe sequence covers the pool\<close>

declare upto_rec_numeral [simp del]

lemma pool_divisors: "list_all (\<lambda>d. 1009 mod d \<noteq> 0) [2..31 :: int]"
  by code_simp

text \<open>The pool size 1009 is a prime: of two factors of it one is at most 31.\<close>

lemma pool_factor:
  assumes "(1009 :: int) = d * e" and "2 \<le> d" and "2 \<le> e"
  shows False
proof -
  have small: "1009 mod x \<noteq> 0" if "2 \<le> x" "x \<le> 31" for x :: int
    using pool_divisors that by (simp add: list_all_iff)
  have "d \<le> 31 \<or> e \<le> 31"
  proof (rule ccontr)
    assume "\<not> ?thesis"
    then have "32 * 32 \<le> d * e" by (intro mult_mono) auto
    with assms(1) show False by simp
  qed
  moreover have "1009 mod d = 0" "1009 mod e = 0" unfolding assms(1) by simp_all
  ultimately show False using small [of d] small [of e] assms(2,3) by argo
qed

lemma pool_coprime:
  assumes "1 \<le> s" and "s \<le> 1008"
  shows "coprime s (1009 :: int)"
proof (rule ccontr)
  assume "\<not> coprime s (1009 :: int)"
  then have "gcd s 1009 \<noteq> 1" by (simp add: coprime_iff_gcd_eq_1)
  moreover have "0 < gcd s 1009" by simp
  ultimately have d: "2 \<le> gcd s 1009" by linarith
  have "gcd s 1009 \<le> s" using assms by (simp add: zdvd_imp_le)
  then have le: "gcd s 1009 \<le> 1008" using assms(2) by (rule order_trans)
  obtain e where e: "1009 = gcd s 1009 * e" using gcd_dvd2 by (rule dvdE)
  have "2 \<le> e"
  proof (rule ccontr)
    assume "\<not> 2 \<le> e"
    then have "gcd s 1009 * e \<le> gcd s 1009 * 1" using d by (intro mult_left_mono) auto
    with e le show False by linarith
  qed
  from pool_factor [OF e d this] show False .
qed

lemma startOf_range: "startOf name 1009 \<in> {0..<1009}"
proof -
  have "uint (hash32 name) mod 1009 \<in> {0..<1009}" by simp
  then show ?thesis unfolding startOf_def by (simp add: int32_id)
qed

lemma stepOf_range: "stepOf name 1009 \<in> {1..1008}"
proof -
  have "uint (hash32 (''step:'' @ name)) mod 1008 \<in> {0..<1008}" by simp
  then show ?thesis unfolding stepOf_def by (simp add: int32_id)
qed

lemma probe_mod:
  assumes "start \<in> {0..<1009}" and "step \<in> {1..1008}" and "i \<in> {0..<1009}"
  shows "probe start step 1009 i = (start + i * step) mod 1009"
proof -
  define x where "x = i * step"
  have "0 \<le> x" "x \<le> 1008 * 1008"
    using assms mult_mono [of i 1008 step 1008] by (auto simp: x_def)
  with assms have "int32 x = x" "int32 (start + x) = start + x" "0 \<le> start + x"
    by (auto intro!: int32_id)
  then show ?thesis
    by (simp add: probe_def go_rem_nonneg flip: x_def)
qed

lemma probe_covers:
  assumes "start \<in> {0..<1009}" and "step \<in> {1..1008}"
  shows "probe start step 1009 ` {0..<1009} = {0..<1009}"
proof (rule card_subset_eq)
  show "probe start step 1009 ` {0..<1009} \<subseteq> {0..<1009}"
    using assms by (auto simp: probe_mod)
  have "inj_on (probe start step 1009) {0..<1009}"
  proof (rule inj_onI)
    fix i j
    assume ij: "i \<in> {0..<1009}" "j \<in> {0..<1009}" "probe start step 1009 i = probe start step 1009 j"
    then have "(start + i * step) mod 1009 = (start + j * step) mod 1009"
      using assms by (simp add: probe_mod)
    then have "1009 dvd (i - j) * step"
      by (simp add: mod_eq_dvd_iff algebra_simps)
    moreover have "coprime 1009 step"
      using pool_coprime [of step] assms by (simp add: coprime_commute)
    ultimately have "1009 dvd (i - j)"
      by (simp add: coprime_dvd_mult_left_iff)
    then have "1009 dvd \<bar>i - j\<bar>" by simp
    moreover have "\<bar>i - j\<bar> < 1009" using ij by auto
    ultimately show "i = j" using zdvd_not_zless [of "\<bar>i - j\<bar>" 1009] by auto
  qed
  then show "card (probe start step 1009 ` {0..<1009}) = card {0..<1009 :: int}"
    by (rule card_image)
qed simp

lemma probe_slots:
  "set (map (probe (startOf name 1009) (stepOf name 1009) 1009) [0..1008]) = {0..<1009}"
proof -
  have "{0..1008} = {0..<1009 :: int}" by auto
  then show ?thesis
    using probe_covers [OF startOf_range stepOf_range] by simp
qed

lemma find_slot_in:
  assumes "find P (map (probe (startOf name 1009) (stepOf name 1009) 1009) [0..1008]) = Some slot"
  shows "slot \<in> {0..<1009} \<and> P slot"
proof -
  from assms have "slot \<in> set (map (probe (startOf name 1009) (stepOf name 1009) 1009) [0..1008])" "P slot"
    by (auto simp: find_Some_iff intro: nth_mem)
  then show ?thesis by (simp only: probe_slots)
qed

lemma find_slot_ex:
  assumes "used \<subseteq> {0..<1009}" and "card used < 1009"
  shows "\<exists>slot. find (\<lambda>slot. slot \<notin> used)
      (map (probe (startOf name 1009) (stepOf name 1009) 1009) [0..1008]) = Some slot"
proof -
  have "used \<noteq> {0..<1009}" using assms(2) by auto
  with assms(1) obtain s where "s \<in> {0..<1009}" "s \<notin> used" by blast
  with probe_slots [of name] show ?thesis
    by (metis find_None_iff option.exhaust)
qed

section \<open>The whole assignment\<close>

text \<open>A port map: distinct ports, each the base plus a used slot of the pool.\<close>

definition portsOK :: "int set \<Rightarrow> (string, int) gomap \<Rightarrow> bool" where
  "portsOK used m \<longleftrightarrow>
     (\<forall>n p. gget m n = Some p \<longrightarrow> p - PrometheusDefaultPort \<in> used) \<and>
     (\<forall>n n' p. gget m n = Some p \<longrightarrow> gget m n' = Some p \<longrightarrow> n = n')"

lemma portsOK_put:
  assumes "portsOK used m" and "slot \<in> {0..<1009} - used"
  shows "portsOK (insert slot used) (gput m name (int32 (PrometheusDefaultPort + slot)))"
proof -
  have "int32 (PrometheusDefaultPort + slot) = PrometheusDefaultPort + slot"
    using assms(2) by (simp add: PrometheusDefaultPort_def int32_id)
  with assms show ?thesis
    by (fastforce simp: portsOK_def gm.get_put split: if_splits)
qed

lemma assign_loop_result:
  assumes "assign_loop PrometheusDefaultPort 1009 names used res = Inr m"
    and "used \<subseteq> {0..<1009}" and "portsOK used res" and "gwf res"
  shows "\<exists>used'. gwf m \<and> used' \<subseteq> {0..<1009} \<and> portsOK used' m \<and>
    set (gkeys m) = set (gkeys res) \<union> set names"
  using assms
proof (induction names arbitrary: used res)
  case Nil
  then show ?case by auto
next
  case (Cons name names)
  from Cons.prems(1) obtain slot where find: "find (\<lambda>slot. slot \<notin> used)
      (map (probe (startOf name 1009) (stepOf name 1009) 1009) [0..1008]) = Some slot"
    and loop: "assign_loop PrometheusDefaultPort 1009 names (insert slot used)
      (gput res name (int32 (PrometheusDefaultPort + slot))) = Inr m"
    by (auto split: option.splits)
  have slot: "slot \<in> {0..<1009} - used"
    using find_slot_in [OF find] by blast
  have "\<exists>used'. gwf m \<and> used' \<subseteq> {0..<1009} \<and> portsOK used' m \<and>
      set (gkeys m) = set (gkeys (gput res name (int32 (PrometheusDefaultPort + slot)))) \<union> set names"
    using Cons.prems(2-4) slot
    by (intro Cons.IH [OF loop] portsOK_put) (auto simp: gm.wf_put)
  then show ?case by (simp add: gm.keys_put)
qed

lemma assign_loop_total:
  assumes "used \<subseteq> {0..<1009}" and "card used + length names \<le> 1009"
  shows "\<exists>m. assign_loop PrometheusDefaultPort 1009 names used res = Inr m"
  using assms
proof (induction names arbitrary: used res)
  case (Cons name names)
  obtain slot where find: "find (\<lambda>slot. slot \<notin> used)
      (map (probe (startOf name 1009) (stepOf name 1009) 1009) [0..1008]) = Some slot"
    using find_slot_ex [OF Cons.prems(1), of name] Cons.prems(2) by auto
  have slot: "slot \<in> {0..<1009}" "slot \<notin> used"
    using find_slot_in [OF find] by auto
  have "finite used" using Cons.prems(1) by (rule finite_subset) simp
  with slot have "card (insert slot used) = Suc (card used)" by simp
  with Cons.prems slot have "\<exists>m. assign_loop PrometheusDefaultPort 1009 names (insert slot used)
      (gput res name (int32 (PrometheusDefaultPort + slot))) = Inr m"
    by (intro Cons.IH) auto
  with find show ?case by simp
qed simp

lemma assignPorts_result:
  assumes "assignPorts names PrometheusDefaultPort PrmetheusPortPoolSize = Inr m"
  shows "gwf m" and "set (gkeys m) = set names"
    and "gget m n = Some p \<Longrightarrow> 9804 \<le> p \<and> p \<le> 10812"
    and "gget m n = Some p \<Longrightarrow> gget m n' = Some p \<Longrightarrow> n = n'"
proof -
  have "assign_loop PrometheusDefaultPort 1009 (sort names) {} [] = Inr m"
    using assms by (simp add: assignPorts_def PrmetheusPortPoolSize_def)
  then obtain used' where m: "gwf m" "used' \<subseteq> {0..<1009}" "portsOK used' m"
    "set (gkeys m) = set names"
    using assign_loop_result [of "sort names" "{}" "[]" m] by (auto simp: portsOK_def)
  show "gwf m" "set (gkeys m) = set names" by fact+
  show "9804 \<le> p \<and> p \<le> 10812" if "gget m n = Some p"
    using m(2,3) that by (fastforce simp: portsOK_def PrometheusDefaultPort_def)
  show "n = n'" if "gget m n = Some p" "gget m n' = Some p"
    using m(3) that by (auto simp: portsOK_def)
qed

lemma assignPorts_succeeds:
  assumes "length names \<le> 1009"
  shows "\<exists>m. assignPorts names PrometheusDefaultPort PrmetheusPortPoolSize = Inr m"
  using assign_loop_total [of "{}" "sort names" "[]"] assms
  by (simp add: assignPorts_def PrmetheusPortPoolSize_def)

text \<open>
  C19: The port assignment of a pipeline's Prometheus outputs never fails for up to 1009 outputs:
  every name gets a port, the ports are pairwise distinct and lie in 9804 to 10812.
\<close>

theorem assignPorts_total:
  assumes "length names \<le> 1009"
  shows "\<exists>m. assignPorts names PrometheusDefaultPort PrmetheusPortPoolSize = Inr m
    \<and> set (gkeys m) = set names
    \<and> (\<forall>n \<in> set names. \<exists>p. gget m n = Some p \<and> 9804 \<le> p \<and> p \<le> 10812)
    \<and> inj_on (gget m) (set names)"
proof -
  obtain m where eq: "assignPorts names PrometheusDefaultPort PrmetheusPortPoolSize = Inr m"
    using assignPorts_succeeds [OF assms] by blast
  note m = eq assignPorts_result(2-4) [OF eq]
  have bound: "\<exists>p. gget m n = Some p" if "n \<in> set names" for n
    using that m(2) gm.keys_iff [of n m] by auto
  then have "inj_on (gget m) (set names)"
    using m(4) by (metis inj_onI)
  with m(1-3) bound show ?thesis by blast
qed

theorem assignPorts_total_witness:
  "\<exists>m. assignPorts [''n/o1'', ''n/o2''] PrometheusDefaultPort PrmetheusPortPoolSize = Inr m
    \<and> set (gkeys m) = {''n/o1'', ''n/o2''}
    \<and> gget m ''n/o1'' \<noteq> gget m ''n/o2''"
proof -
  obtain m where m: "assignPorts [''n/o1'', ''n/o2''] PrometheusDefaultPort PrmetheusPortPoolSize = Inr m"
    "set (gkeys m) = set [''n/o1'', ''n/o2'']" "inj_on (gget m) (set [''n/o1'', ''n/o2''])"
    using assignPorts_total [of "[''n/o1'', ''n/o2'']"] by fastforce
  have "gget m ''n/o1'' \<noteq> gget m ''n/o2''"
    using inj_onD [OF m(3), of "''n/o1''" "''n/o2''"] by auto
  with m(1,2) show ?thesis by simp
qed

end
