(* ===== verification/Pipeline_Resolve.thy ===== *)
theory Pipeline_Resolve
  imports Plan_Builder
begin

text \<open>
  How \<^verbatim>\<open>internal/controller/cluster_controller.go\<close> finds the resources of a pipeline, which clusters
  it reconciles when a resource changes, how it gathers the pipelines of a cluster into a plan, and the
  statuses it writes.

  Parameters: the client's reads (a record of readers) and \<^verbatim>\<open>metav1.LabelSelectorAsSelector\<close>, which
  turns a selector into a predicate on labels or fails.
\<close>

section \<open>Reading resources\<close>

record 's resource =
  r_Meta :: object_meta
  r_Spec :: 's

record 'a reader =
  rd_get :: "string \<Rightarrow> string \<Rightarrow> api_error + 'a" \<comment> \<open>namespace, name\<close>
  rd_list :: "string \<Rightarrow> (labels \<Rightarrow> bool) \<Rightarrow> api_error + 'a list" \<comment> \<open>namespace, selector\<close>

type_synonym selector_fn = "label_selector \<Rightarrow> api_error + (labels \<Rightarrow> bool)"

record service =
  sv_Meta :: object_meta
  sv_Ports :: "service_port list"

record readers =
  rds_Targets :: "target reader"
  rds_TargetProfiles :: "target_profile_spec resource reader"
  rds_Subscriptions :: "subscription_spec resource reader"
  rds_Outputs :: "output_spec resource reader"
  rds_Inputs :: "input_spec resource reader"
  rds_Processors :: "processor_spec resource reader"
  rds_TunnelTargetPolicies :: "tunnel_policy_spec resource reader"
  rds_Services :: "service reader"
  rds_Pipelines :: "string \<Rightarrow> api_error + pipeline list"
  rds_Secret :: "string \<Rightarrow> string \<Rightarrow> api_error + labels"

definition FetchCredentials :: "readers \<Rightarrow> string \<Rightarrow> string \<Rightarrow> api_error + credentials" where
  "FetchCredentials rs namespace secretRef =
     bindE (rds_Secret rs namespace secretRef) (\<lambda>data.
       Inr \<lparr>cr_Username = gget0 [] data ''username'', cr_Password = gget0 [] data ''password'',
            cr_Token = gget0 [] data ''token''\<rparr>)"

section \<open>Resolving references and selectors\<close>

text \<open>The set \<^verbatim>\<open>seen\<close> holds the names of \<^verbatim>\<open>result\<close>.\<close>

definition addUnseen :: "('a \<Rightarrow> string) \<Rightarrow> 'a \<Rightarrow> 'a list \<Rightarrow> 'a list" where
  "addUnseen nm x result = (if nm x \<in> set (map nm result) then result else result @ [x])"

definition resolveRef ::
  "('a \<Rightarrow> string) \<Rightarrow> 'a reader \<Rightarrow> string \<Rightarrow> string \<Rightarrow> 'a list \<Rightarrow> api_error + 'a list" where
  "resolveRef nm rd ns ref result =
     (case rd_get rd ns ref of
        Inl NotFound \<Rightarrow> Inr result
      | Inl e \<Rightarrow> Inl e
      | Inr x \<Rightarrow> Inr (addUnseen nm x result))"

definition emptySelector :: "label_selector \<Rightarrow> bool" where
  "emptySelector sel \<longleftrightarrow> length (ls_MatchLabels sel) = 0 \<and> length (ls_MatchExpressions sel) = 0"

definition resolveSelector ::
  "('a \<Rightarrow> string) \<Rightarrow> 'a reader \<Rightarrow> selector_fn \<Rightarrow> string \<Rightarrow> label_selector \<Rightarrow> 'a list \<Rightarrow> api_error + 'a list" where
  "resolveSelector nm rd asSelector ns sel result =
     (if emptySelector sel then Inr result
      else bindE (asSelector sel) (\<lambda>p. bindE (rd_list rd ns p) (\<lambda>items. Inr (fold (addUnseen nm) items result))))"

definition resolveAll ::
  "('a \<Rightarrow> string) \<Rightarrow> 'a reader \<Rightarrow> selector_fn \<Rightarrow> string \<Rightarrow> string list \<Rightarrow> label_selector list \<Rightarrow> api_error + 'a list" where
  "resolveAll nm rd asSelector ns refs selectors =
     bindE (foldE (resolveRef nm rd ns) refs [])
       (foldE (resolveSelector nm rd asSelector ns) selectors)"

definition t_Name :: "target \<Rightarrow> string" where
  "t_Name t = m_Name (t_Meta t)"

definition r_Name :: "'s resource \<Rightarrow> string" where
  "r_Name x = m_Name (r_Meta x)"

definition resolveTargets :: "target reader \<Rightarrow> selector_fn \<Rightarrow> pipeline \<Rightarrow> api_error + target list" where
  "resolveTargets rd asSelector pl =
     resolveAll t_Name rd asSelector (m_Namespace (pl_Meta pl)) (ps_TargetRefs (pl_Spec pl)) (ps_TargetSelectors (pl_Spec pl))"

definition resolveSubscriptions ::
  "subscription_spec resource reader \<Rightarrow> selector_fn \<Rightarrow> pipeline \<Rightarrow> api_error + subscription_spec resource list" where
  "resolveSubscriptions rd asSelector pl =
     resolveAll r_Name rd asSelector (m_Namespace (pl_Meta pl)) (ps_SubscriptionRefs (pl_Spec pl))
       (ps_SubscriptionSelectors (pl_Spec pl))"

definition resolveOutputs ::
  "output_spec resource reader \<Rightarrow> selector_fn \<Rightarrow> pipeline \<Rightarrow> api_error + output_spec resource list" where
  "resolveOutputs rd asSelector pl =
     resolveAll r_Name rd asSelector (m_Namespace (pl_Meta pl)) (os_OutputRefs (ps_Outputs (pl_Spec pl)))
       (os_OutputSelectors (ps_Outputs (pl_Spec pl)))"

definition resolveInputs ::
  "input_spec resource reader \<Rightarrow> selector_fn \<Rightarrow> pipeline \<Rightarrow> api_error + input_spec resource list" where
  "resolveInputs rd asSelector pl =
     resolveAll r_Name rd asSelector (m_Namespace (pl_Meta pl)) (is_InputRefs (ps_Inputs (pl_Spec pl)))
       (is_InputSelectors (ps_Inputs (pl_Spec pl)))"

definition resolveTunnelTargetPolicies ::
  "tunnel_policy_spec resource reader \<Rightarrow> selector_fn \<Rightarrow> pipeline \<Rightarrow> api_error + tunnel_policy_spec resource list" where
  "resolveTunnelTargetPolicies rd asSelector pl =
     resolveAll r_Name rd asSelector (m_Namespace (pl_Meta pl)) (ps_TunnelTargetPolicyRefs (pl_Spec pl))
       (ps_TunnelTargetPolicySelectors (pl_Spec pl))"

text \<open>
  Processors keep the order and the duplicates of the references; a reference that is not found leaves
  the zero value of the Go variable in the list. Selected ones follow, sorted by name.
\<close>

definition zeroProcessor :: "processor_spec resource" where
  "zeroProcessor =
     \<lparr>r_Meta = \<lparr>m_Name = [], m_Namespace = [], m_Labels = [], m_Generation = 0, m_ResourceVersion = [],
        m_Finalizers = [], m_Deleting = False\<rparr>,
      r_Spec = \<lparr>pr_Type = [], pr_Config = None\<rparr>\<rparr>"

definition processorRef ::
  "processor_spec resource reader \<Rightarrow> string \<Rightarrow> string \<Rightarrow> processor_spec resource list \<Rightarrow>
   api_error + processor_spec resource list" where
  "processorRef rd ns ref procs =
     (case rd_get rd ns ref of
        Inl NotFound \<Rightarrow> Inr (procs @ [zeroProcessor])
      | Inl e \<Rightarrow> Inl e
      | Inr p \<Rightarrow> Inr (procs @ [p]))"

definition processorSelector ::
  "processor_spec resource reader \<Rightarrow> selector_fn \<Rightarrow> string \<Rightarrow> string list \<Rightarrow> label_selector \<Rightarrow>
   processor_spec resource list \<Rightarrow> api_error + processor_spec resource list" where
  "processorSelector rd asSelector ns inRefs sel procs =
     (if emptySelector sel then Inr procs
      else bindE (asSelector sel) (\<lambda>p. bindE (rd_list rd ns p) (\<lambda>items.
        Inr (fold (\<lambda>x ps. if r_Name x \<in> set inRefs then ps else addUnseen r_Name x ps) items procs))))"

definition resolveProcessors ::
  "processor_spec resource reader \<Rightarrow> selector_fn \<Rightarrow> string \<Rightarrow> string list \<Rightarrow> label_selector list \<Rightarrow>
   api_error + processor_spec resource list" where
  "resolveProcessors rd asSelector ns refs selectors =
     bindE (foldE (processorRef rd ns) refs []) (\<lambda>refProcessors.
     bindE (foldE (processorSelector rd asSelector ns (map r_Name refProcessors)) selectors []) (\<lambda>selectorProcessors.
       Inr (refProcessors @ sort_key r_Name selectorProcessors)))"

definition resolveOutputProcessors ::
  "processor_spec resource reader \<Rightarrow> selector_fn \<Rightarrow> pipeline \<Rightarrow> api_error + processor_spec resource list" where
  "resolveOutputProcessors rd asSelector pl =
     resolveProcessors rd asSelector (m_Namespace (pl_Meta pl)) (os_ProcessorRefs (ps_Outputs (pl_Spec pl)))
       (os_ProcessorSelectors (ps_Outputs (pl_Spec pl)))"

definition resolveInputProcessors ::
  "processor_spec resource reader \<Rightarrow> selector_fn \<Rightarrow> pipeline \<Rightarrow> api_error + processor_spec resource list" where
  "resolveInputProcessors rd asSelector pl =
     resolveProcessors rd asSelector (m_Namespace (pl_Meta pl)) (is_ProcessorRefs (ps_Inputs (pl_Spec pl)))
       (is_ProcessorSelectors (ps_Inputs (pl_Spec pl)))"

section \<open>Service addresses of outputs\<close>

definition serviceAddress :: "string yaml_fn \<Rightarrow> string \<Rightarrow> output_spec \<Rightarrow> string \<Rightarrow> service \<Rightarrow> int \<Rightarrow> string" where
  "serviceAddress yaml domain spec urlPath svc port =
     (let host = m_Name (sv_Meta svc) @ ''.'' @ m_Namespace (sv_Meta svc) @ ''.svc.'' @ domain;
          addr = FormatServiceAddress yaml spec host port
      in if urlPath \<noteq> [] then TrimSuffix addr ''/'' @ ''/'' @ TrimPrefix urlPath ''/'' else addr)"

definition matchLabels :: "labels \<Rightarrow> labels \<Rightarrow> bool" where
  "matchLabels sel lbls \<longleftrightarrow> list_all (\<lambda>(k, v). gget lbls k = Some v) sel"

datatype address_error = ServiceGet api_error | ServicePort string | ServiceList api_error

definition resolveOutputServiceAddresses ::
  "service reader \<Rightarrow> string yaml_fn \<Rightarrow> string \<Rightarrow> output_spec resource \<Rightarrow> address_error + string list" where
  "resolveOutputServiceAddresses rd yaml domain out =
     (let spec = r_Spec out
      in if o_Type spec \<notin> set OutputTypesWithServiceRef then Inr []
         else if o_ServiceRef spec = None \<and> o_ServiceSelector spec = None then Inr []
         else bindE
           (case o_ServiceRef spec of
              None \<Rightarrow> Inr []
            | Some ref \<Rightarrow>
                (let ns = (if sr_Namespace ref = [] then m_Namespace (r_Meta out) else sr_Namespace ref)
                 in case rd_get rd ns (sr_Name ref) of
                      Inl e \<Rightarrow> Inl (ServiceGet e)
                    | Inr svc \<Rightarrow>
                        (case ParseServicePort (sr_Port ref) (sv_Ports svc) of
                           Inl e \<Rightarrow> Inl (ServicePort e)
                         | Inr port \<Rightarrow> Inr [serviceAddress yaml domain spec (sr_URL ref) svc port])))
           (\<lambda>resolved.
             case o_ServiceSelector spec of
               None \<Rightarrow> Inr resolved
             | Some sel \<Rightarrow>
                 (let ns = (if sel_Namespace sel = [] then m_Namespace (r_Meta out) else sel_Namespace sel)
                  in case rd_list rd ns (matchLabels (sel_MatchLabels sel)) of
                       Inl e \<Rightarrow> Inl (ServiceList e)
                     | Inr svcs \<Rightarrow>
                         Inr (resolved @ concat (map (\<lambda>svc.
                           case ParseServicePort (sel_Port sel) (sv_Ports svc) of
                             Inl e \<Rightarrow> []
                           | Inr port \<Rightarrow> [serviceAddress yaml domain spec (sel_URL sel) svc port]) svcs)))))"

section \<open>Watches\<close>

datatype resource_type =
  TargetType | SubscriptionType | OutputType | InputType | OutputProcessorType | InputProcessorType | TunnelTargetPolicyType

fun refsOf :: "resource_type \<Rightarrow> pipeline_spec \<Rightarrow> string list" where
  "refsOf TargetType s = ps_TargetRefs s"
| "refsOf SubscriptionType s = ps_SubscriptionRefs s"
| "refsOf OutputType s = os_OutputRefs (ps_Outputs s)"
| "refsOf InputType s = is_InputRefs (ps_Inputs s)"
| "refsOf OutputProcessorType s = os_ProcessorRefs (ps_Outputs s)"
| "refsOf InputProcessorType s = is_ProcessorRefs (ps_Inputs s)"
| "refsOf TunnelTargetPolicyType s = ps_TunnelTargetPolicyRefs s"

fun selectorsOf :: "resource_type \<Rightarrow> pipeline_spec \<Rightarrow> label_selector list" where
  "selectorsOf TargetType s = ps_TargetSelectors s"
| "selectorsOf SubscriptionType s = ps_SubscriptionSelectors s"
| "selectorsOf OutputType s = os_OutputSelectors (ps_Outputs s)"
| "selectorsOf InputType s = is_InputSelectors (ps_Inputs s)"
| "selectorsOf OutputProcessorType s = os_ProcessorSelectors (ps_Outputs s)"
| "selectorsOf InputProcessorType s = is_ProcessorSelectors (ps_Inputs s)"
| "selectorsOf TunnelTargetPolicyType s = ps_TunnelTargetPolicySelectors s"

definition pipelineReferencesResource ::
  "selector_fn \<Rightarrow> pipeline \<Rightarrow> string \<Rightarrow> labels \<Rightarrow> resource_type \<Rightarrow> bool" where
  "pipelineReferencesResource asSelector pl resourceName resourceLabels resourceType \<longleftrightarrow>
     resourceName \<in> set (refsOf resourceType (pl_Spec pl)) \<or>
     list_ex (\<lambda>sel. \<not> emptySelector sel \<and> (case asSelector sel of Inl e \<Rightarrow> False | Inr p \<Rightarrow> p resourceLabels))
       (selectorsOf resourceType (pl_Spec pl))"

text \<open>A request is the namespaced name of a cluster.\<close>

type_synonym request = "string \<times> string"

definition findClustersReferencingResource ::
  "readers \<Rightarrow> selector_fn \<Rightarrow> string \<Rightarrow> string \<Rightarrow> labels \<Rightarrow> resource_type \<Rightarrow> request list" where
  "findClustersReferencingResource rs asSelector namespace name resourceLabels resourceType =
     (case rds_Pipelines rs namespace of
        Inl e \<Rightarrow> []
      | Inr pipelines \<Rightarrow>
          map (Pair namespace) (gkeys (fold (\<lambda>pl clusterSet.
            if \<not> ps_Enabled (pl_Spec pl) then clusterSet
            else if pipelineReferencesResource asSelector pl name resourceLabels resourceType
            then gput clusterSet (ps_ClusterRef (pl_Spec pl)) () else clusterSet) pipelines [])))"

definition findClusterForPipeline :: "pipeline \<Rightarrow> request list" where
  "findClusterForPipeline pl =
     (if ps_ClusterRef (pl_Spec pl) = [] then [] else [(m_Namespace (pl_Meta pl), ps_ClusterRef (pl_Spec pl))])"

definition findClustersForTarget :: "readers \<Rightarrow> selector_fn \<Rightarrow> target \<Rightarrow> request list" where
  "findClustersForTarget rs asSelector t =
     findClustersReferencingResource rs asSelector (m_Namespace (t_Meta t)) (m_Name (t_Meta t)) (m_Labels (t_Meta t)) TargetType"

definition findClustersForSubscription :: "readers \<Rightarrow> selector_fn \<Rightarrow> subscription_spec resource \<Rightarrow> request list" where
  "findClustersForSubscription rs asSelector x =
     findClustersReferencingResource rs asSelector (m_Namespace (r_Meta x)) (m_Name (r_Meta x)) (m_Labels (r_Meta x)) SubscriptionType"

definition findClustersForOutput :: "readers \<Rightarrow> selector_fn \<Rightarrow> output_spec resource \<Rightarrow> request list" where
  "findClustersForOutput rs asSelector x =
     findClustersReferencingResource rs asSelector (m_Namespace (r_Meta x)) (m_Name (r_Meta x)) (m_Labels (r_Meta x)) OutputType"

definition findClustersForInput :: "readers \<Rightarrow> selector_fn \<Rightarrow> input_spec resource \<Rightarrow> request list" where
  "findClustersForInput rs asSelector x =
     findClustersReferencingResource rs asSelector (m_Namespace (r_Meta x)) (m_Name (r_Meta x)) (m_Labels (r_Meta x)) InputType"

definition findClustersForTunnelTargetPolicy :: "readers \<Rightarrow> selector_fn \<Rightarrow> tunnel_policy_spec resource \<Rightarrow> request list" where
  "findClustersForTunnelTargetPolicy rs asSelector x =
     findClustersReferencingResource rs asSelector (m_Namespace (r_Meta x)) (m_Name (r_Meta x)) (m_Labels (r_Meta x)) TunnelTargetPolicyType"

text \<open>Requests are combined without duplicates, the first occurrence kept.\<close>

definition addRequests :: "request list \<Rightarrow> request list \<Rightarrow> request list" where
  "addRequests reqs results = fold (\<lambda>r rs. if r \<in> set rs then rs else rs @ [r]) reqs results"

definition findClustersForProcessor :: "readers \<Rightarrow> selector_fn \<Rightarrow> processor_spec resource \<Rightarrow> request list" where
  "findClustersForProcessor rs asSelector x =
     (let find = findClustersReferencingResource rs asSelector (m_Namespace (r_Meta x)) (m_Name (r_Meta x)) (m_Labels (r_Meta x))
      in addRequests (find InputProcessorType) (addRequests (find OutputProcessorType) []))"

definition findClustersForTargetProfile :: "readers \<Rightarrow> selector_fn \<Rightarrow> target_profile_spec resource \<Rightarrow> request list" where
  "findClustersForTargetProfile rs asSelector profile =
     (case rd_list (rds_Targets rs) (m_Namespace (r_Meta profile)) (\<lambda>_. True) of
        Inl e \<Rightarrow> []
      | Inr targets \<Rightarrow>
          fold (\<lambda>t results.
            if ts_Profile (t_Spec t) \<noteq> m_Name (r_Meta profile) then results
            else addRequests (findClustersForTarget rs asSelector t) results) targets [])"

text \<open>The update predicate of the watches: spec or labels changed; \<open>None\<close> is a nil object.\<close>

definition generationOrLabelsChanged :: "object_meta option \<Rightarrow> object_meta option \<Rightarrow> bool" where
  "generationOrLabelsChanged objectOld objectNew =
     (case (objectOld, objectNew) of
        (Some old, Some new) \<Rightarrow>
          if m_Generation old \<noteq> m_Generation new then True else \<not> maps_Equal (m_Labels old) (m_Labels new)
      | _ \<Rightarrow> False)"

definition listPipelinesForCluster :: "readers \<Rightarrow> cluster \<Rightarrow> api_error + pipeline list" where
  "listPipelinesForCluster rs cl =
     bindE (rds_Pipelines rs (m_Namespace (cl_Meta cl))) (\<lambda>pls.
       Inr (filter (\<lambda>pl. ps_ClusterRef (pl_Spec pl) = m_Name (cl_Meta cl) \<and> ps_Enabled (pl_Spec pl)) pls))"

end
