(* ===== verification/Placement.thy ===== *)
theory Placement
  imports Go_Strings "HOL-Library.Product_Lexorder"
begin

unbundle bit_operations_syntax

text \<open>
  The placement of targets on pods: \<^verbatim>\<open>internal/gnmic/placement.go\<close> and
  \<^verbatim>\<open>internal/gnmic/placement_blrh.go\<close> (bounded-load rendezvous hashing).

  Phase one keeps the current assignment up to the capacity of each pod, preferring the targets
  with the higher score; phase two gives every other target, in the order of the sorted names, to
  the pod with the highest score that has room. The lemmas give the closed form of phase one
  (\<open>keep_current_get\<close>), the exact set of targets phase two places (\<open>assign_rest_load\<close>), and from
  them the bounds, the uniqueness and the number of placed targets. The Go interface
  \<^verbatim>\<open>placementStrategy\<close> is the locale \<open>placement_strategy\<close>, interpreted on this strategy at the end.
\<close>

section \<open>Options and hashing\<close>

type_synonym assignment = "(int, string list) gomap"

record placement_opts =
  po_Strategy :: string
  po_NumPods :: int
  po_Capacity :: int
  po_CurrentAssignment :: "assignment option"

definition PlacementStrategyBoundedHashing :: string where
  "PlacementStrategyBoundedHashing = ''boundedLoadHashing''"

definition normalizeOptions :: "placement_opts option \<Rightarrow> placement_opts" where
  "normalizeOptions opts =
     (case opts of
        None \<Rightarrow> \<lparr>po_Strategy = PlacementStrategyBoundedHashing, po_NumPods = 1, po_Capacity = 0,
                 po_CurrentAssignment = None\<rparr>
      | Some n \<Rightarrow> if po_NumPods n \<le> 0 then n\<lparr>po_NumPods := 1\<rparr> else n)"

text \<open>FNV-1a at 64 bits, the hash of Go's \<^verbatim>\<open>hash/fnv\<close>.\<close>

definition fnv64a :: "string \<Rightarrow> 64 word" where
  "fnv64a s = foldl (\<lambda>h c. (h XOR of_nat (of_char c)) * 1099511628211) 14695981039346656037 s"

definition hashScore :: "string \<Rightarrow> int \<Rightarrow> 64 word" where
  "hashScore targetNN podIndex = fnv64a (targetNN @ '':'' @ Itoa podIndex)"

section \<open>Choosing a pod\<close>

text \<open>\<^verbatim>\<open>podScore\<close> values, sorted by descending score and then by ascending index.\<close>

definition podScores :: "string \<Rightarrow> int \<Rightarrow> (int \<times> 64 word) list" where
  "podScores targetNN numPods =
     sort_key (\<lambda>(index, score). (- uint score, index))
       (map (\<lambda>i. (i, hashScore targetNN i)) [0..numPods - 1])"

definition boundedRendezvousHash :: "string \<Rightarrow> int \<Rightarrow> int \<Rightarrow> assignment \<Rightarrow> int option" where
  "boundedRendezvousHash targetNN numPods capacity assignments =
     map_option fst
       (find (\<lambda>(index, score). int (length (gget0 [] assignments index)) < capacity)
         (podScores targetNN numPods))"

section \<open>Keeping the current assignment\<close>

text \<open>
  \<^verbatim>\<open>sort.Slice(targets, ...)\<close> by descending score. Only targets with equal 64-bit scores may come
  in another order in Go; the model keeps their order.
\<close>

definition sortByScore :: "int \<Rightarrow> string list \<Rightarrow> string list" where
  "sortByScore podIndex targets = sort_key (\<lambda>t. - uint (hashScore t podIndex)) targets"

fun keep_targets ::
  "int \<Rightarrow> int \<Rightarrow> string list \<Rightarrow> assignment \<times> string set \<Rightarrow> assignment \<times> string set" where
  "keep_targets podIndex capacity [] st = st"
| "keep_targets podIndex capacity (targetNN # targets) (assignments, preAssigned) =
     (let assignments =
            (if gget assignments podIndex = None then gput assignments podIndex [] else assignments);
          cur = gget0 [] assignments podIndex
      in if capacity \<le> int (length cur)
         then keep_targets podIndex capacity targets (assignments, preAssigned)
         else keep_targets podIndex capacity targets
                (gput assignments podIndex (cur @ [targetNN]), insert targetNN preAssigned))"

fun keep_current ::
  "int \<Rightarrow> int \<Rightarrow> assignment \<Rightarrow> assignment \<times> string set \<Rightarrow> assignment \<times> string set" where
  "keep_current numPods capacity [] st = st"
| "keep_current numPods capacity ((podIndex, targets) # rest) st =
     (if numPods \<le> podIndex then keep_current numPods capacity rest st
      else keep_current numPods capacity rest
             (keep_targets podIndex capacity (sortByScore podIndex targets) st))"

section \<open>The whole placement\<close>

fun assign_rest ::
  "int \<Rightarrow> int \<Rightarrow> string set \<Rightarrow> string list \<Rightarrow> assignment \<Rightarrow> assignment" where
  "assign_rest numPods capacity preAssigned [] assignments = assignments"
| "assign_rest numPods capacity preAssigned (targetNN # targets) assignments =
     (if targetNN \<in> preAssigned then assign_rest numPods capacity preAssigned targets assignments
      else case boundedRendezvousHash targetNN numPods capacity assignments of
             None \<Rightarrow> assign_rest numPods capacity preAssigned targets assignments
           | Some pod \<Rightarrow>
               assign_rest numPods capacity preAssigned targets
                 (gput assignments pod (gget0 [] assignments pod @ [targetNN])))"

text \<open>
  The capacity of a pod: the configured one, or \<open>\<lceil>numTargets / numPods\<rceil>\<close>. \<open>normalizeOptions\<close>
  has made \<^verbatim>\<open>NumPods\<close> positive, so the division cannot panic.
\<close>

definition podCapacity :: "nat \<Rightarrow> placement_opts \<Rightarrow> int" where
  "podCapacity numTargets options =
     (if po_Capacity options = 0
      then go_div (int numTargets + po_NumPods options - 1) (po_NumPods options)
      else po_Capacity options)"

definition boundedLoadRendezvousHash :: "(string, 'c) gomap \<Rightarrow> placement_opts \<Rightarrow> assignment" where
  "boundedLoadRendezvousHash targets options =
     (let numTargets = length targets
      in if numTargets = 0 then []
         else let capacity = podCapacity numTargets options;
                  sortedTargets = sort (gkeys targets);
                  (assignments, preAssigned) =
                    (case po_CurrentAssignment options of
                       None \<Rightarrow> ([], {})
                     | Some cur \<Rightarrow> keep_current (po_NumPods options) capacity cur ([], {}))
              in assign_rest (po_NumPods options) capacity preAssigned sortedTargets assignments)"

definition distributeTargets :: "(string, 'c) gomap \<Rightarrow> placement_opts option \<Rightarrow> assignment" where
  "distributeTargets targets options = boundedLoadRendezvousHash targets (normalizeOptions options)"

section \<open>The chosen pod\<close>

definition scoreKey :: "int \<times> 64 word \<Rightarrow> int \<times> int" where
  "scoreKey = (\<lambda>(index, score). (- uint score, index))"

text \<open>The pod with room that a target prefers: the highest score, on ties the lowest index.\<close>

definition preferredPod :: "string \<Rightarrow> int \<Rightarrow> int \<Rightarrow> assignment \<Rightarrow> int \<Rightarrow> bool" where
  "preferredPod t numPods capacity asg p \<longleftrightarrow>
     p \<in> {0..<numPods} \<and> int (length (gget0 [] asg p)) < capacity \<and>
     (\<forall>q \<in> {0..<numPods}. int (length (gget0 [] asg q)) < capacity \<longrightarrow>
        hashScore t q < hashScore t p \<or> (hashScore t q = hashScore t p \<and> p \<le> q))"

lemma set_podScores: "set (podScores t n) = (\<lambda>i. (i, hashScore t i)) ` {0..<n}"
  by (auto simp: podScores_def)

lemma sorted_podScores: "sorted (map scoreKey (podScores t n))"
  by (simp add: podScores_def scoreKey_def)

lemma find_sorted_key:
  assumes "sorted (map k xs)" and "find P xs = Some x"
  shows "x \<in> set xs \<and> P x \<and> (\<forall>y \<in> set xs. P y \<longrightarrow> k x \<le> k y)"
proof -
  from assms(2) obtain i where i: "i < length xs" "P (xs ! i)" "x = xs ! i" "\<forall>j < i. \<not> P (xs ! j)"
    by (auto simp: find_Some_iff)
  have "k x \<le> k y" if "y \<in> set xs" "P y" for y
  proof -
    from that obtain j where "j < length xs" "y = xs ! j" "i \<le> j"
      using i(4) by (metis in_set_conv_nth not_less)
    with assms(1) i show ?thesis
      using sorted_nth_mono [of "map k xs" i j] by simp
  qed
  with i show ?thesis by simp
qed

lemma boundedRendezvousHash_Some:
  assumes "boundedRendezvousHash t n c asg = Some p"
  shows "preferredPod t n c asg p"
proof -
  from assms obtain s where
    "find (\<lambda>(i, s). int (length (gget0 [] asg i)) < c) (podScores t n) = Some (p, s)"
    by (auto simp: boundedRendezvousHash_def)
  from find_sorted_key [OF sorted_podScores this]
  have p: "p \<in> {0..<n}" "s = hashScore t p" "int (length (gget0 [] asg p)) < c"
    and best: "\<forall>y \<in> set (podScores t n). (case y of (i, s) \<Rightarrow> int (length (gget0 [] asg i)) < c)
      \<longrightarrow> scoreKey (p, s) \<le> scoreKey y"
    by (auto simp: set_podScores)
  have "hashScore t q < hashScore t p \<or> (hashScore t q = hashScore t p \<and> p \<le> q)"
    if "q \<in> {0..<n}" "int (length (gget0 [] asg q)) < c" for q
  proof -
    have "scoreKey (p, s) \<le> scoreKey (q, hashScore t q)"
      using best that by (auto simp: set_podScores)
    then have "- uint (hashScore t p) < - uint (hashScore t q) \<or>
        (- uint (hashScore t p) = - uint (hashScore t q) \<and> p \<le> q)"
      using p by (auto simp: scoreKey_def less_eq_prod_def)
    then show ?thesis
      by (auto simp: word_less_def word_uint_eq_iff)
  qed
  with p show ?thesis
    by (auto simp: preferredPod_def)
qed

lemma boundedRendezvousHash_None:
  "boundedRendezvousHash t n c asg = None \<longleftrightarrow>
     (\<forall>p \<in> {0..<n}. c \<le> int (length (gget0 [] asg p)))"
  by (auto simp: boundedRendezvousHash_def find_None_iff set_podScores not_less)

section \<open>Loads\<close>

text \<open>The targets placed on the pods \<open>0..<numPods\<close>, with multiplicity.\<close>

definition placed :: "int \<Rightarrow> assignment \<Rightarrow> string multiset" where
  "placed numPods asg = (\<Sum>p \<in> {0..<numPods}. mset (gget0 [] asg p))"

definition bounded :: "int \<Rightarrow> int \<Rightarrow> assignment \<Rightarrow> bool" where
  "bounded numPods capacity asg \<longleftrightarrow>
     gwf asg \<and> set (gkeys asg) \<subseteq> {0..<numPods} \<and>
     (\<forall>p. length (gget0 [] asg p) \<le> nat capacity)"

lemma placed_put:
  assumes "p \<in> {0..<n}"
  shows "placed n (gput asg p (gget0 [] asg p @ [t])) = placed n asg + {#t#}"
proof -
  have "(\<Sum>q \<in> {0..<n}. mset (gget0 [] (gput asg p (gget0 [] asg p @ [t])) q)) =
      (\<Sum>q \<in> {0..<n}. mset (gget0 [] asg q) + (if q = p then {#t#} else {#}))"
    by (rule sum.cong) (auto simp: gget0_put)
  with assms show ?thesis
    by (simp add: placed_def sum.distrib)
qed

lemma size_placed: "size (placed n asg) = (\<Sum>p \<in> {0..<n}. length (gget0 [] asg p))"
  by (simp add: placed_def size_multiset_sum)

lemma placed_cong:
  "(\<And>p. p \<in> {0..<n} \<Longrightarrow> gget0 [] a p = gget0 [] b p) \<Longrightarrow> placed n a = placed n b"
  by (simp add: placed_def)

lemma in_placed: "t \<in># placed n asg \<longleftrightarrow> (\<exists>p \<in> {0..<n}. t \<in> set (gget0 [] asg p))"
  by (auto simp: placed_def set_mset_sum)

lemma bounded_put:
  assumes "bounded n c asg" and "p \<in> {0..<n}" and "int (length (gget0 [] asg p)) < c"
  shows "bounded n c (gput asg p (gget0 [] asg p @ [t]))"
  using assms by (auto simp: bounded_def gget0_put gm.wf_put gm.keys_put)

text \<open>A full assignment: \<open>numPods \<cdot> capacity\<close> placed targets, no pod has room.\<close>

lemma bounded_size:
  assumes "bounded n c asg"
  shows "size (placed n asg) \<le> nat n * nat c"
proof -
  have "(\<Sum>p \<in> {0..<n}. length (gget0 [] asg p)) \<le> (\<Sum>p \<in> {0..<n}. nat c)"
    by (rule sum_mono) (use assms in \<open>simp add: bounded_def\<close>)
  then show ?thesis
    by (simp add: size_placed)
qed

lemma full_iff:
  assumes "bounded n c asg"
  shows "(\<forall>p \<in> {0..<n}. c \<le> int (length (gget0 [] asg p))) \<longleftrightarrow> size (placed n asg) = nat n * nat c"
proof
  assume full: "\<forall>p \<in> {0..<n}. c \<le> int (length (gget0 [] asg p))"
  have "(\<Sum>p \<in> {0..<n}. length (gget0 [] asg p)) = (\<Sum>p \<in> {0..<n}. nat c)"
  proof (rule sum.cong)
    fix p assume "p \<in> {0..<n}"
    with full assms show "length (gget0 [] asg p) = nat c"
      by (auto simp: bounded_def nat_le_iff intro!: antisym)
  qed simp
  then show "size (placed n asg) = nat n * nat c"
    by (simp add: size_placed)
next
  assume eq: "size (placed n asg) = nat n * nat c"
  show "\<forall>p \<in> {0..<n}. c \<le> int (length (gget0 [] asg p))"
  proof (rule ccontr)
    assume "\<not> ?thesis"
    then obtain p where p: "p \<in> {0..<n}" "int (length (gget0 [] asg p)) < c"
      by auto
    have "bounded n c (gput asg p (gget0 [] asg p @ [undefined]))"
      using assms p by (rule bounded_put)
    then have "size (placed n asg) + 1 \<le> nat n * nat c"
      using bounded_size p(1) by (fastforce simp: placed_put)
    with eq show False by simp
  qed
qed

section \<open>Phase two: the remaining targets\<close>

text \<open>
  Once no pod has room, none gets room again: phase two places exactly a prefix of the remaining
  targets, as long as there is room.
\<close>

lemma assign_rest_filter:
  "assign_rest n c pre ts asg = assign_rest n c {} (filter (\<lambda>t. t \<notin> pre) ts) asg"
  by (induction ts arbitrary: asg) (auto split: option.splits)

lemma assign_rest_bounded:
  "bounded n c asg \<Longrightarrow> bounded n c (assign_rest n c pre ts asg)"
proof (induction ts arbitrary: asg)
  case (Cons t ts)
  show ?case
  proof (cases "boundedRendezvousHash t n c asg")
    case None
    with Cons show ?thesis by simp
  next
    case (Some p)
    then have "p \<in> {0..<n}" "int (length (gget0 [] asg p)) < c"
      by (auto simp: preferredPod_def dest: boundedRendezvousHash_Some)
    with Cons.prems have "bounded n c (gput asg p (gget0 [] asg p @ [t]))"
      by (rule bounded_put)
    with Cons.IH Cons.prems Some show ?thesis by simp
  qed
qed simp

lemma assign_rest_placed:
  assumes "bounded n c asg"
  shows "placed n (assign_rest n c {} ts asg) =
     placed n asg + mset (take (nat n * nat c - size (placed n asg)) ts)"
  using assms
proof (induction ts arbitrary: asg)
  case (Cons t ts)
  show ?case
  proof (cases "boundedRendezvousHash t n c asg")
    case None
    then have full: "size (placed n asg) = nat n * nat c"
      using full_iff [OF Cons.prems] by (simp add: boundedRendezvousHash_None)
    from Cons.IH [OF Cons.prems] full None show ?thesis by simp
  next
    case (Some p)
    then have p: "p \<in> {0..<n}" "int (length (gget0 [] asg p)) < c"
      by (auto simp: preferredPod_def dest: boundedRendezvousHash_Some)
    let ?asg = "gput asg p (gget0 [] asg p @ [t])"
    have b: "bounded n c ?asg"
      using Cons.prems p by (rule bounded_put)
    have size: "size (placed n ?asg) = Suc (size (placed n asg))"
      using p by (simp add: placed_put)
    with bounded_size [OF b] have
      "nat n * nat c - size (placed n asg) = Suc (nat n * nat c - size (placed n ?asg))"
      by simp
    with Cons.IH [OF b] Some p show ?thesis
      by (simp add: placed_put size)
  qed
qed simp

text \<open>Phase two only appends to a pod's list.\<close>

lemma assign_rest_prefix:
  "\<exists>zs. gget0 [] (assign_rest n c pre ts asg) p = gget0 [] asg p @ zs"
proof (induction ts arbitrary: asg)
  case (Cons t ts)
  show ?case
  proof (cases "boundedRendezvousHash t n c asg")
    case None
    with Cons show ?thesis by simp
  next
    case (Some q)
    obtain zs where "gget0 [] (assign_rest n c pre ts (gput asg q (gget0 [] asg q @ [t]))) p =
        gget0 [] (gput asg q (gget0 [] asg q @ [t])) p @ zs"
      using Cons.IH by blast
    with Cons.IH Some show ?thesis
      by (auto simp: gget0_put)
  qed
qed simp

section \<open>Phase one: the current assignment\<close>

lemma keep_targets_get:
  "gget (fst (keep_targets p c ts (asg, pre))) q =
     (if q = p \<and> ts \<noteq> []
      then Some (gget0 [] asg p @ take (nat c - length (gget0 [] asg p)) ts) else gget asg q)"
proof (induction ts arbitrary: asg pre)
  case (Cons t ts)
  let ?asg = "if gget asg p = None then gput asg p [] else asg"
  have cur: "gget0 [] ?asg p = gget0 [] asg p"
    by (auto simp: gget0_def gm.get_put)
  show ?case
  proof (cases "c \<le> int (length (gget0 [] asg p))")
    case True
    then have "nat c - length (gget0 [] asg p) = 0" by simp
    with True Cons.IH [of ?asg pre] cur show ?thesis
      by (auto simp: Let_def gget0_def gm.get_put split: option.splits)
  next
    case False
    then have "nat c - length (gget0 [] asg p) = Suc (nat c - Suc (length (gget0 [] asg p)))"
      by linarith
    with False Cons.IH [of "gput ?asg p (gget0 [] asg p @ [t])" "insert t pre"] cur show ?thesis
      by (auto simp: Let_def gget0_put gm.get_put)
  qed
qed simp

lemma keep_targets_pre:
  "snd (keep_targets p c ts (asg, pre)) =
     pre \<union> set (take (nat c - length (gget0 [] asg p)) ts)"
proof (induction ts arbitrary: asg pre)
  case (Cons t ts)
  let ?asg = "if gget asg p = None then gput asg p [] else asg"
  have cur: "gget0 [] ?asg p = gget0 [] asg p"
    by (auto simp: gget0_def gm.get_put)
  show ?case
  proof (cases "c \<le> int (length (gget0 [] asg p))")
    case True
    then have "nat c - length (gget0 [] asg p) = 0" by simp
    with True Cons.IH [of ?asg pre] cur show ?thesis
      by (simp add: Let_def)
  next
    case False
    then have "nat c - length (gget0 [] asg p) = Suc (nat c - Suc (length (gget0 [] asg p)))"
      by linarith
    with False Cons.IH [of "gput ?asg p (gget0 [] asg p @ [t])" "insert t pre"] cur show ?thesis
      by (simp add: Let_def gget0_put)
  qed
qed simp

lemma keep_targets_wf:
  "gwf asg \<Longrightarrow> gwf (fst (keep_targets p c ts (asg, pre)))"
  by (induction ts arbitrary: asg pre) (auto simp: Let_def gm.wf_put)

text \<open>What a pod keeps: its best-scoring current targets, up to the capacity.\<close>

definition kept :: "int \<Rightarrow> assignment \<Rightarrow> int \<Rightarrow> string list" where
  "kept capacity cur p = take (nat capacity) (sortByScore p (gget0 [] cur p))"

lemma set_sortByScore [simp]: "set (sortByScore p ts) = set ts"
  by (simp add: sortByScore_def)

lemma sortByScore_Nil_iff [simp]: "sortByScore p ts = [] \<longleftrightarrow> ts = []"
  by (metis set_empty set_sortByScore)

lemma sortByScore_Nil [simp]: "sortByScore p [] = []"
  by simp

lemma length_sortByScore [simp]: "length (sortByScore p ts) = length ts"
  by (simp add: sortByScore_def)

lemma mset_sortByScore [simp]: "mset (sortByScore p ts) = mset ts"
  by (simp add: sortByScore_def)

lemma distinct_sortByScore [simp]: "distinct (sortByScore p ts) = distinct ts"
  by (simp add: sortByScore_def)

lemma keep_current_wf:
  "gwf (fst st) \<Longrightarrow> gwf (fst (keep_current n c cur st))"
proof (induction cur arbitrary: st)
  case (Cons e cur)
  obtain p ts asg pre where [simp]: "e = (p, ts)" "st = (asg, pre)"
    by (cases e; cases st)
  show ?case
    using Cons keep_targets_wf [of asg p c "sortByScore p ts" pre] by auto
qed simp

lemma keep_current_get:
  assumes "gwf cur" and "\<And>p. p \<in> set (gkeys cur) \<Longrightarrow> gget asg p = None"
  shows "gget0 [] (fst (keep_current n c cur (asg, pre))) q =
     (if q \<in> set (gkeys cur) \<and> q < n then kept c cur q else gget0 [] asg q)"
  using assms
proof (induction cur arbitrary: asg pre)
  case (Cons e cur)
  obtain p ts where e [simp]: "e = (p, ts)" by (cases e)
  have wf: "gwf cur" and p: "p \<notin> set (gkeys cur)"
    using Cons.prems(1) by (auto simp: gwf_def gkeys_def)
  have none: "gget asg p = None"
    using Cons.prems(2) by (simp add: gkeys_def)
  have kept_eq: "kept c ((p, ts) # cur) q = (if q = p then take (nat c) (sortByScore p ts)
      else kept c cur q)" for q
    by (simp add: kept_def gget0_def gget_def)
  show ?case
  proof (cases "n \<le> p")
    case True
    have "\<And>r. r \<in> set (gkeys cur) \<Longrightarrow> gget asg r = None"
      using Cons.prems(2) by (simp add: gkeys_def)
    with Cons.IH [OF wf] True kept_eq none p show ?thesis
      by (auto simp: gkeys_def gget0_def)
  next
    case False
    obtain asg' pre' where kt: "keep_targets p c (sortByScore p ts) (asg, pre) = (asg', pre')"
      by (cases "keep_targets p c (sortByScore p ts) (asg, pre)")
    have get: "gget asg' r =
        (if r = p \<and> ts \<noteq> [] then Some (take (nat c) (sortByScore p ts)) else gget asg r)" for r
      using keep_targets_get [of p c "sortByScore p ts" asg pre r] kt none
      by (auto simp: gget0_def)
    have "\<And>r. r \<in> set (gkeys cur) \<Longrightarrow> gget asg' r = None"
      using Cons.prems(2) get p by (auto simp: gkeys_def)
    from Cons.IH [OF wf this] False kt kept_eq p get none show ?thesis
      by (auto simp: gkeys_def gget0_def)
  qed
qed simp

lemma keep_current_pre:
  assumes "gwf cur" and "\<And>p. p \<in> set (gkeys cur) \<Longrightarrow> gget asg p = None"
  shows "snd (keep_current n c cur (asg, pre)) =
     pre \<union> (\<Union>q \<in> {q \<in> set (gkeys cur). q < n}. set (kept c cur q))"
  using assms
proof (induction cur arbitrary: asg pre)
  case (Cons e cur)
  obtain p ts where e [simp]: "e = (p, ts)" by (cases e)
  have wf: "gwf cur" and p: "p \<notin> set (gkeys cur)"
    using Cons.prems(1) by (auto simp: gwf_def gkeys_def)
  have none: "gget asg p = None"
    using Cons.prems(2) by (simp add: gkeys_def)
  have kept_eq: "kept c ((p, ts) # cur) q = (if q = p then take (nat c) (sortByScore p ts)
      else kept c cur q)" for q
    by (simp add: kept_def gget0_def gget_def)
  have "(\<Union>q \<in> {q \<in> set (gkeys cur). q < n}. set (kept c ((p, ts) # cur) q)) =
      (\<Union>q \<in> {q \<in> set (gkeys cur). q < n}. set (kept c cur q))"
    using p by (auto simp: kept_eq split: if_splits)
  moreover have "{q \<in> set (gkeys (e # cur)). q < n} =
      (if p < n then {p} else {}) \<union> {q \<in> set (gkeys cur). q < n}"
    by (auto simp: gkeys_def)
  ultimately have union: "(\<Union>q \<in> {q \<in> set (gkeys (e # cur)). q < n}. set (kept c (e # cur) q)) =
      (if p < n then set (take (nat c) (sortByScore p ts)) else {}) \<union>
      (\<Union>q \<in> {q \<in> set (gkeys cur). q < n}. set (kept c cur q))"
    by (simp add: kept_eq)
  show ?case
  proof (cases "n \<le> p")
    case True
    have "\<And>r. r \<in> set (gkeys cur) \<Longrightarrow> gget asg r = None"
      using Cons.prems(2) by (simp add: gkeys_def)
    from Cons.IH [OF wf this] True union show ?thesis
      by simp
  next
    case False
    obtain asg' pre' where kt: "keep_targets p c (sortByScore p ts) (asg, pre) = (asg', pre')"
      by (cases "keep_targets p c (sortByScore p ts) (asg, pre)")
    have get: "gget asg' r =
        (if r = p \<and> ts \<noteq> [] then Some (take (nat c) (sortByScore p ts)) else gget asg r)" for r
      using keep_targets_get [of p c "sortByScore p ts" asg pre r] kt none
      by (auto simp: gget0_def)
    have "pre' = pre \<union> set (take (nat c) (sortByScore p ts))"
      using keep_targets_pre [of p c "sortByScore p ts" asg pre] kt none by (simp add: gget0_def)
    moreover have "\<And>r. r \<in> set (gkeys cur) \<Longrightarrow> gget asg' r = None"
      using Cons.prems(2) get p by (auto simp: gkeys_def)
    ultimately show ?thesis
      using Cons.IH [OF wf] False kt union by auto
  qed
qed simp

lemma keep_current_keys:
  "set (gkeys (fst (keep_current n c cur st))) \<subseteq>
     set (gkeys (fst st)) \<union> {q \<in> set (gkeys cur). q < n}"
proof (induction cur arbitrary: st)
  case (Cons e cur)
  obtain p ts asg pre where [simp]: "e = (p, ts)" "st = (asg, pre)"
    by (cases e; cases st)
  let ?st = "keep_targets p c (sortByScore p ts) (asg, pre)"
  have "set (gkeys (fst ?st)) \<subseteq> insert p (set (gkeys asg))"
    by (auto simp: gm.keys_iff keep_targets_get split: if_splits)
  moreover have "gkeys (e # cur) = p # gkeys cur"
    by (simp add: gkeys_def)
  ultimately show ?case
    using Cons.IH [of ?st] Cons.IH [of st] by (cases "n \<le> p") auto
qed simp

section \<open>The placement as a whole\<close>

text \<open>A current assignment that a plan can hold: its pods are numbered from 0, no target occurs
  twice, and every target in it is one to place.\<close>

definition currentOK :: "string set \<Rightarrow> assignment \<Rightarrow> bool" where
  "currentOK targets cur \<longleftrightarrow>
     gwf cur \<and> (\<forall>p \<in> set (gkeys cur). 0 \<le> p) \<and>
     (\<forall>p. distinct (gget0 [] cur p) \<and> set (gget0 [] cur p) \<subseteq> targets) \<and>
     (\<forall>p q. p \<noteq> q \<longrightarrow> set (gget0 [] cur p) \<inter> set (gget0 [] cur q) = {})"

definition currentOf :: "placement_opts \<Rightarrow> assignment" where
  "currentOf options = (case po_CurrentAssignment options of None \<Rightarrow> [] | Some cur \<Rightarrow> cur)"

lemma boundedLoad_unfold:
  assumes "targets \<noteq> []"
  shows "boundedLoadRendezvousHash targets options =
     (let c = podCapacity (length targets) options;
          st = keep_current (po_NumPods options) c (currentOf options) ([], {})
      in assign_rest (po_NumPods options) c (snd st) (sort (gkeys targets)) (fst st))"
  using assms
  by (auto simp: boundedLoadRendezvousHash_def currentOf_def Let_def split: option.splits prod.splits)

lemma keep_current_start:
  assumes "gwf cur"
  shows "gget0 [] (fst (keep_current n c cur ([], {}))) q = (if q < n then kept c cur q else [])"
    and "snd (keep_current n c cur ([], {})) = (\<Union>q \<in> {q \<in> set (gkeys cur). q < n}. set (kept c cur q))"
proof -
  have "gget0 [] cur q = []" if "q \<notin> set (gkeys cur)"
    using that by (auto simp: gget0_def gm.keys_iff split: option.splits)
  then have "kept c cur q = []" if "q \<notin> set (gkeys cur)"
    using that by (simp add: kept_def)
  then show "gget0 [] (fst (keep_current n c cur ([], {}))) q = (if q < n then kept c cur q else [])"
    using keep_current_get [OF assms, of "[]" n c "{}" q] by auto
  show "snd (keep_current n c cur ([], {})) = (\<Union>q \<in> {q \<in> set (gkeys cur). q < n}. set (kept c cur q))"
    using keep_current_pre [OF assms, of "[]" n c "{}"] by simp
qed

lemma keep_current_bounded:
  assumes "gwf cur" and "\<forall>p \<in> set (gkeys cur). 0 \<le> p"
  shows "bounded n c (fst (keep_current n c cur ([], {})))"
proof -
  have "set (gkeys (fst (keep_current n c cur ([], {})))) \<subseteq> {0..<n}"
    using keep_current_keys [of n c cur "([], {})"] assms(2) by auto
  moreover have "length (gget0 [] (fst (keep_current n c cur ([], {}))) p) \<le> nat c" for p
    using assms(1) by (simp add: keep_current_start kept_def)
  ultimately show ?thesis
    using keep_current_wf [of "([], {})" n c cur] by (simp add: bounded_def)
qed

lemma keep_current_placed:
  assumes "currentOK T cur"
  shows "set_mset (placed n (fst (keep_current n c cur ([], {})))) = snd (keep_current n c cur ([], {}))"
    and "count (placed n (fst (keep_current n c cur ([], {})))) t \<le> 1"
    and "snd (keep_current n c cur ([], {})) \<subseteq> T"
proof -
  have wf: "gwf cur" and ge: "\<And>p. p \<in> set (gkeys cur) \<Longrightarrow> 0 \<le> p"
    using assms by (auto simp: currentOK_def)
  let ?st = "keep_current n c cur ([], {})"
  have kept_keys: "kept c cur q = []" if "q \<notin> set (gkeys cur)" for q
    using that by (auto simp: kept_def gget0_def gm.keys_iff split: option.splits)
  show set_eq: "set_mset (placed n (fst ?st)) = snd ?st"
  proof (rule set_eqI)
    fix t
    have "t \<in># placed n (fst ?st) \<longleftrightarrow> (\<exists>q. 0 \<le> q \<and> q < n \<and> t \<in> set (kept c cur q))"
      using wf by (auto simp: in_placed keep_current_start)
    also have "\<dots> \<longleftrightarrow> (\<exists>q. q \<in> set (gkeys cur) \<and> q < n \<and> t \<in> set (kept c cur q))"
      using ge kept_keys by (metis empty_iff list.set(1))
    finally show "t \<in># placed n (fst ?st) \<longleftrightarrow> t \<in> snd ?st"
      using wf by (auto simp: keep_current_start)
  qed
  have sub: "set (kept c cur q) \<subseteq> set (gget0 [] cur q)" for q
    using set_take_subset [of "nat c" "sortByScore q (gget0 [] cur q)"] by (simp add: kept_def)
  show pre: "snd ?st \<subseteq> T"
    using sub assms wf by (fastforce simp: keep_current_start currentOK_def)
  have cnt: "count (mset (kept c cur q)) t \<le> (if t \<in> set (gget0 [] cur q) then 1 else 0)" for q t
  proof -
    have "distinct (kept c cur q)"
      using assms
      by (auto simp: kept_def currentOK_def)
    then show ?thesis
      using sub [of q] by (auto simp: distinct_count_atmost_1)
  qed
  show "count (placed n (fst ?st)) t \<le> 1"
  proof (cases "\<exists>q \<in> {0..<n}. t \<in> set (gget0 [] cur q)")
    case True
    then obtain q where q: "q \<in> {0..<n}" "t \<in> set (gget0 [] cur q)" by blast
    have "count (placed n (fst ?st)) t = (\<Sum>p \<in> {0..<n}. count (mset (kept c cur p)) t)"
      using wf by (simp add: placed_def count_sum keep_current_start)
    also have "\<dots> \<le> (\<Sum>p \<in> {0..<n}. if p = q then 1 else 0)"
    proof (rule sum_mono)
      fix p assume "p \<in> {0..<n}"
      show "count (mset (kept c cur p)) t \<le> (if p = q then 1 else 0)"
      proof (cases "p = q")
        case False
        then have "t \<notin> set (gget0 [] cur p)"
          using assms q unfolding currentOK_def by blast
        with cnt [of p t] False show ?thesis by simp
      qed (use cnt [of q t] q in auto)
    qed
    also have "\<dots> = 1" using q by simp
    finally show ?thesis .
  next
    case False
    then have "t \<notin># placed n (fst ?st)"
      using sub wf by (auto simp: in_placed keep_current_start)
    then show ?thesis by (simp add: not_in_iff)
  qed
qed

text \<open>The options a placement is called with once they are normalised.\<close>

definition okOptions :: "(string, 'c) gomap \<Rightarrow> placement_opts \<Rightarrow> bool" where
  "okOptions targets options \<longleftrightarrow>
     gwf targets \<and> 1 \<le> po_NumPods options \<and> 0 \<le> po_Capacity options \<and>
     currentOK (set (gkeys targets)) (currentOf options)"

lemma podCapacity_default:
  assumes "1 \<le> po_NumPods options" and "po_Capacity options = 0"
  shows "podCapacity m options = (int m + po_NumPods options - 1) div po_NumPods options"
  using assms by (simp add: podCapacity_def go_div_nonneg)

lemma podCapacity_default_enough:
  assumes "1 \<le> po_NumPods options" and "po_Capacity options = 0"
  shows "m \<le> nat (po_NumPods options) * nat (podCapacity m options)"
proof -
  let ?n = "po_NumPods options" and ?c = "podCapacity m options"
  have "int m + ?n - 1 = ?n * ?c + (int m + ?n - 1) mod ?n"
    using assms by (simp add: podCapacity_default)
  moreover have "(int m + ?n - 1) mod ?n < ?n"
    using assms by simp
  ultimately have "int m \<le> ?n * ?c" by linarith
  moreover have "0 \<le> ?c"
    using assms by (simp add: podCapacity_default pos_imp_zdiv_nonneg_iff)
  ultimately show ?thesis
    using assms by (simp add: nat_mult_distrib [symmetric] le_nat_iff)
qed

lemma boundedLoad_bounded:
  assumes "okOptions targets options"
  shows "bounded (po_NumPods options) (podCapacity (length targets) options)
     (boundedLoadRendezvousHash targets options)"
proof (cases "targets = []")
  case True
  then show ?thesis by (simp add: boundedLoadRendezvousHash_def bounded_def)
next
  case False
  have "gwf (currentOf options)" "\<forall>p \<in> set (gkeys (currentOf options)). 0 \<le> p"
    using assms by (auto simp: okOptions_def currentOK_def)
  from keep_current_bounded [OF this] False show ?thesis
    by (simp add: boundedLoad_unfold Let_def assign_rest_bounded)
qed

text \<open>The targets phase two has to place, and what is placed in the end.\<close>

lemma boundedLoad_placed:
  assumes "okOptions targets options" and "targets \<noteq> []"
  defines "n \<equiv> po_NumPods options" and "c \<equiv> podCapacity (length targets) options"
  defines "st \<equiv> keep_current n c (currentOf options) ([], {})"
  defines "rest \<equiv> filter (\<lambda>t. t \<notin> snd st) (sort (gkeys targets))"
  shows "placed n (boundedLoadRendezvousHash targets options) =
      placed n (fst st) + mset (take (nat n * nat c - size (placed n (fst st))) rest)"
    and "size (placed n (fst st)) + length rest = length targets"
    and "set_mset (placed n (fst st)) \<inter> set rest = {}"
    and "distinct rest"
proof -
  have cur: "currentOK (set (gkeys targets)) (currentOf options)" and wf: "gwf targets"
    using assms(1) by (auto simp: okOptions_def)
  then have "bounded n c (fst st)"
    unfolding st_def by (intro keep_current_bounded) (auto simp: currentOK_def)
  from assign_rest_placed [OF this]
  have "placed n (assign_rest n c {} rest (fst st)) =
      placed n (fst st) + mset (take (nat n * nat c - size (placed n (fst st))) rest)" .
  moreover have "boundedLoadRendezvousHash targets options = assign_rest n c {} rest (fst st)"
    unfolding boundedLoad_unfold [OF assms(2)] Let_def rest_def n_def c_def st_def
    by (rule assign_rest_filter)
  ultimately show "placed n (boundedLoadRendezvousHash targets options) =
      placed n (fst st) + mset (take (nat n * nat c - size (placed n (fst st))) rest)" by simp
  have dist: "distinct (gkeys targets)" and keys: "length (gkeys targets) = length targets"
    using wf by (auto simp: gwf_def gkeys_def)
  then show "distinct rest" by (simp add: rest_def)
  have set_eq: "set_mset (placed n (fst st)) = snd st" and sub: "snd st \<subseteq> set (gkeys targets)"
    and once: "\<And>t. count (placed n (fst st)) t \<le> 1"
    unfolding st_def using keep_current_placed [OF cur] by auto
  show "set_mset (placed n (fst st)) \<inter> set rest = {}"
    by (auto simp: set_eq rest_def)
  have "size (placed n (fst st)) = card (snd st)"
    using size_mset_once [OF once] set_eq by simp
  moreover have "length rest = card (set (gkeys targets) - snd st)"
  proof -
    have "set rest = set (gkeys targets) - snd st"
      by (auto simp: rest_def)
    with dist show ?thesis
      using distinct_card [of rest] by (simp add: rest_def)
  qed
  moreover have "card (set (gkeys targets) - snd st) = card (set (gkeys targets)) - card (snd st)"
    using sub by (simp add: card_Diff_subset finite_subset)
  moreover have "card (snd st) \<le> card (set (gkeys targets))"
    using sub by (simp add: card_mono)
  ultimately show "size (placed n (fst st)) + length rest = length targets"
    using dist keys by (simp add: distinct_card)
qed

lemma boundedLoad_result:
  assumes "okOptions targets options"
  defines "n \<equiv> po_NumPods options" and "c \<equiv> podCapacity (length targets) options"
  shows "count (placed n (boundedLoadRendezvousHash targets options)) t \<le> 1"
    and "set_mset (placed n (boundedLoadRendezvousHash targets options)) \<subseteq> set (gkeys targets)"
    and "size (placed n (boundedLoadRendezvousHash targets options)) = min (length targets) (nat n * nat c)"
proof -
  let ?res = "boundedLoadRendezvousHash targets options"
  let ?st = "keep_current n c (currentOf options) ([], {})"
  let ?rest = "filter (\<lambda>t. t \<notin> snd ?st) (sort (gkeys targets))"
  have cur: "currentOK (set (gkeys targets)) (currentOf options)"
    using assms(1) by (simp add: okOptions_def)
  note st = keep_current_placed [OF cur, of n c]
  consider "targets = []" | "targets \<noteq> []" by blast
  then have "count (placed n ?res) t \<le> 1 \<and> set_mset (placed n ?res) \<subseteq> set (gkeys targets) \<and>
      size (placed n ?res) = min (length targets) (nat n * nat c)"
  proof cases
    case 1
    then show ?thesis by (simp add: boundedLoadRendezvousHash_def placed_def)
  next
    case 2
    note res = boundedLoad_placed [OF assms(1) 2, folded n_def c_def]
    let ?k = "nat n * nat c - size (placed n (fst ?st))"
    have once: "count (placed n ?res) t \<le> 1"
    proof (cases "t \<in> set ?rest")
      case True
      with res(3) have "t \<notin># placed n (fst ?st)" by blast
      moreover have "distinct (take ?k ?rest)" using res(4) by simp
      ultimately show ?thesis
        by (simp add: res(1) not_in_iff distinct_count_atmost_1)
    next
      case False
      then have "t \<notin> set (take ?k ?rest)" using in_set_takeD by fast
      then have "count (mset (take ?k ?rest)) t = 0"
        by (simp only: count_mset_0_iff not_False_eq_True)
      then show ?thesis
        using st(2) [of t] by (simp only: res(1) count_union add_0_right)
    qed
    have sub: "set_mset (placed n ?res) \<subseteq> set (gkeys targets)"
      using st(1,3) by (auto simp: res(1) dest!: in_set_takeD)
    have le: "size (placed n (fst ?st)) \<le> nat n * nat c"
      using cur by (intro bounded_size keep_current_bounded) (auto simp: currentOK_def)
    have "size (placed n ?res) = size (placed n (fst ?st)) + min (length ?rest) ?k"
      by (simp add: res(1))
    with res(2) le have "size (placed n ?res) = min (length targets) (nat n * nat c)"
      by linarith
    with once sub show ?thesis by blast
  qed
  then show "count (placed n ?res) t \<le> 1" "set_mset (placed n ?res) \<subseteq> set (gkeys targets)"
    "size (placed n ?res) = min (length targets) (nat n * nat c)" by blast+
qed

text \<open>Targets that already sit on a pod stay there, up to its capacity.\<close>

lemma boundedLoad_sticky:
  assumes "okOptions targets options" and "targets \<noteq> []"
    and "0 \<le> p" and "p < po_NumPods options"
  shows "\<exists>zs. gget0 [] (boundedLoadRendezvousHash targets options) p =
     kept (podCapacity (length targets) options) (currentOf options) p @ zs"
proof -
  let ?n = "po_NumPods options" and ?c = "podCapacity (length targets) options"
  let ?st = "keep_current ?n ?c (currentOf options) ([], {})"
  have "gget0 [] (fst ?st) p = kept ?c (currentOf options) p"
    using assms keep_current_start(1) [of "currentOf options" ?n ?c p]
    by (simp add: okOptions_def currentOK_def)
  then show ?thesis
    using assign_rest_prefix [of ?n ?c "snd ?st" "sort (gkeys targets)" "fst ?st" p] assms(2)
    by (simp add: boundedLoad_unfold Let_def)
qed

text \<open>The iteration order of the map of targets does not matter.\<close>

lemma boundedLoad_order:
  assumes "mset (gkeys targets) = mset (gkeys targets')"
  shows "boundedLoadRendezvousHash targets options = boundedLoadRendezvousHash targets' options"
proof -
  have "length targets = length targets'"
    using mset_eq_length [OF assms] by (simp add: gkeys_def)
  moreover have "sort (gkeys targets) = sort (gkeys targets')"
    using assms by (metis properties_for_sort mset_sort sorted_sort)
  ultimately show ?thesis
    unfolding boundedLoadRendezvousHash_def by simp
qed

section \<open>The interface of a placement strategy\<close>

text \<open>
  \<^verbatim>\<open>placementStrategy\<close> of \<^verbatim>\<open>placement.go\<close>, with what \<^verbatim>\<open>DistributeTargets\<close> relies on: no pod outside
  the range, no pod above the capacity, no target twice or made up, and none left out while there
  is room.
\<close>

locale placement_strategy =
  fixes place :: "(string, 'c) gomap \<Rightarrow> placement_opts option \<Rightarrow> assignment"
  assumes place_bounded: "okOptions targets opts \<Longrightarrow>
      bounded (po_NumPods opts) (podCapacity (length targets) opts) (place targets (Some opts))"
    and place_once: "okOptions targets opts \<Longrightarrow> count (placed (po_NumPods opts) (place targets (Some opts))) t \<le> 1"
    and place_only: "okOptions targets opts \<Longrightarrow>
      set_mset (placed (po_NumPods opts) (place targets (Some opts))) \<subseteq> set (gkeys targets)"
    and place_max: "okOptions targets opts \<Longrightarrow> size (placed (po_NumPods opts) (place targets (Some opts))) =
      min (length targets) (nat (po_NumPods opts) * nat (podCapacity (length targets) opts))"
begin

text \<open>A target is on at most one pod, and the pods without their list hold nothing.\<close>

lemma place_unique_pod:
  assumes "okOptions targets opts"
    and "t \<in> set (gget0 [] (place targets (Some opts)) p)"
    and "t \<in> set (gget0 [] (place targets (Some opts)) q)"
  shows "p = q"
proof (rule ccontr)
  assume ne: "p \<noteq> q"
  let ?n = "po_NumPods opts" and ?asg = "place targets (Some opts)"
  have range: "r \<in> {0..<?n}" if "t \<in> set (gget0 [] ?asg r)" for r
  proof -
    from that have "r \<in> set (gkeys ?asg)"
      by (cases "gget ?asg r") (auto simp: gget0_def gm.keys_iff)
    with place_bounded [OF assms(1)] show ?thesis
      by (auto simp: bounded_def)
  qed
  have "2 \<le> (\<Sum>r \<in> {p, q}. count (mset (gget0 [] ?asg r)) t)"
    using assms(2,3) ne by (simp add: Suc_le_eq add_mono [of 1 _ 1, simplified]
        flip: count_greater_zero_iff set_mset_mset)
  also have "\<dots> \<le> (\<Sum>r \<in> {0..<?n}. count (mset (gget0 [] ?asg r)) t)"
    using range assms(2,3) by (intro sum_mono2) auto
  also have "\<dots> = count (placed ?n ?asg) t"
    by (simp add: placed_def count_sum)
  finally show False
    using place_once [OF assms(1), of t] by simp
qed

lemma place_all_when_room:
  assumes "okOptions targets opts"
    and "length targets \<le> nat (po_NumPods opts) * nat (podCapacity (length targets) opts)"
  shows "set_mset (placed (po_NumPods opts) (place targets (Some opts))) = set (gkeys targets)"
proof (rule card_subset_eq)
  let ?pl = "placed (po_NumPods opts) (place targets (Some opts))"
  show "set_mset ?pl \<subseteq> set (gkeys targets)"
    by (rule place_only [OF assms(1)])
  have "card (set_mset ?pl) = size ?pl"
    using size_mset_once [OF place_once [OF assms(1)]] by simp
  also have "\<dots> = length targets"
    using place_max [OF assms(1)] assms(2) by simp
  also have "\<dots> = card (set (gkeys targets))"
    using assms(1) by (simp add: okOptions_def gwf_def gkeys_def distinct_card flip: set_map)
  finally show "card (set_mset ?pl) = card (set (gkeys targets))" .
qed simp

end

lemma distributeTargets_ok:
  "okOptions targets opts \<Longrightarrow> distributeTargets targets (Some opts) = boundedLoadRendezvousHash targets opts"
  by (simp add: distributeTargets_def normalizeOptions_def okOptions_def)

interpretation blrh: placement_strategy distributeTargets
  by unfold_locales (simp_all only: distributeTargets_ok boundedLoad_bounded boundedLoad_result)

end
