(* ===== verification/Plan_Correct.thy ===== *)
theory Plan_Correct
  imports Plan_Builder
begin

text \<open>
  Correctness of the plan builder: the collected relationships are exactly those of the pipelines,
  every map of the plan holds exactly the resources of the pipelines, no reference of the plan
  dangles, and the builder fails only on a credential, YAML or port error.
\<close>

section \<open>The relationships\<close>

lemma addEdges_iff:
  "v \<in> set (gkeys (gget0 [] (addEdges ks vs m) k)) \<longleftrightarrow>
     v \<in> set (gkeys (gget0 [] m k)) \<or> (k \<in> set ks \<and> v \<in> set vs)"
  by (induction ks arbitrary: m) (auto simp: addEdges_def gget0_put split: if_splits)

lemma appendEdges_iff:
  "v \<in> set (gget0 [] (appendEdges ks vs m) k) \<longleftrightarrow>
     v \<in> set (gget0 [] m k) \<or> (k \<in> set ks \<and> v \<in> set vs)"
  by (induction ks arbitrary: m) (auto simp: appendEdges_def gget0_put split: if_splits)

lemma addEdges_fold:
  "v \<in> set (gkeys (gget0 [] (fold (\<lambda>pd. addEdges (f pd) (g pd)) pds m) k)) \<longleftrightarrow>
     v \<in> set (gkeys (gget0 [] m k)) \<or> (\<exists>pd \<in> set pds. k \<in> set (f pd) \<and> v \<in> set (g pd))"
  by (induction pds arbitrary: m) (auto simp: addEdges_iff)

lemma appendEdges_fold:
  "v \<in> set (gget0 [] (fold (\<lambda>pd. appendEdges (f pd) (g pd)) pds m) k) \<longleftrightarrow>
     v \<in> set (gget0 [] m k) \<or> (\<exists>pd \<in> set pds. k \<in> set (f pd) \<and> v \<in> set (g pd))"
  by (induction pds arbitrary: m) (auto simp: appendEdges_iff)

lemma collect_fold:
  fixes cn pds rel cur
  defines "r \<equiv> fold (collectPipeline cn) pds (rel, cur)"
  shows "rr_subscriptionOutputs (fst r) = fold (\<lambda>pd. addEdges (gkeys (pd_Subscriptions pd)) (gkeys (pd_Outputs pd)))
      pds (rr_subscriptionOutputs rel)"
    and "rr_targetSubscriptions (fst r) = fold (\<lambda>pd. addEdges (gkeys (pd_Targets pd)) (gkeys (pd_Subscriptions pd)))
      pds (rr_targetSubscriptions rel)"
    and "rr_inputOutputs (fst r) = fold (\<lambda>pd. addEdges (gkeys (pd_Inputs pd)) (gkeys (pd_Outputs pd)))
      pds (rr_inputOutputs rel)"
    and "rr_outputProcessors (fst r) = fold (\<lambda>pd. appendEdges (gkeys (pd_Outputs pd)) (gkeys (pd_OutputProcessors pd)))
      pds (rr_outputProcessors rel)"
    and "rr_inputProcessors (fst r) = fold (\<lambda>pd. appendEdges (gkeys (pd_Inputs pd)) (gkeys (pd_InputProcessors pd)))
      pds (rr_inputProcessors rel)"
    and "snd r = fold (\<lambda>pd. fold (assignCurrent cn) (pd_Targets pd)) pds cur"
  unfolding r_def
  by (induction pds arbitrary: rel cur) (auto simp: collectPipeline_def)

text \<open>The resources \<open>v\<close> that share a pipeline with the resource \<open>k\<close>.\<close>

definition linked ::
  "plan_builder \<Rightarrow> (pipeline_data \<Rightarrow> (string, 'a) gomap) \<Rightarrow> (pipeline_data \<Rightarrow> (string, 'b) gomap) \<Rightarrow> string \<Rightarrow> string set" where
  "linked b f g k = {v. \<exists>pd \<in> set (map snd (b_pipelines b)). k \<in> set (gkeys (f pd)) \<and> v \<in> set (gkeys (g pd))}"

definition names :: "plan_builder \<Rightarrow> (pipeline_data \<Rightarrow> (string, 'a) gomap) \<Rightarrow> string set" where
  "names b f = (\<Union>pd \<in> set (map snd (b_pipelines b)). set (gkeys (f pd)))"

lemma linked_names: "linked b f g k \<subseteq> names b g"
  by (auto simp: linked_def names_def)

definition freshBuilder :: "plan_builder \<Rightarrow> bool" where
  "freshBuilder b \<longleftrightarrow> b_relationships b = emptyRelationships"

definition collected :: "plan_builder \<Rightarrow> resource_relationship" where
  "collected b = b_relationships (fst (collectRelationships b emptyPlan))"

lemma collected_rel:
  "collected b = fst (fold (collectPipeline (b_clusterName b)) (map snd (b_pipelines b)) (b_relationships b, []))"
  by (simp add: collected_def collectRelationships_def emptyPlan_def case_prod_beta)

lemma collected_edges:
  assumes "freshBuilder b"
  shows "set (gkeys (gget0 [] (rr_subscriptionOutputs (collected b)) k)) = linked b pd_Subscriptions pd_Outputs k"
    and "set (gkeys (gget0 [] (rr_targetSubscriptions (collected b)) k)) = linked b pd_Targets pd_Subscriptions k"
    and "set (gkeys (gget0 [] (rr_inputOutputs (collected b)) k)) = linked b pd_Inputs pd_Outputs k"
    and "set (gget0 [] (rr_outputProcessors (collected b)) k) = linked b pd_Outputs pd_OutputProcessors k"
    and "set (gget0 [] (rr_inputProcessors (collected b)) k) = linked b pd_Inputs pd_InputProcessors k"
  using assms unfolding collected_rel collect_fold
  by (simp_all add: set_eq_iff freshBuilder_def emptyRelationships_def linked_def addEdges_fold
      appendEdges_fold)

section \<open>One pipeline\<close>

definition pipelineWf :: "pipeline_data \<Rightarrow> bool" where
  "pipelineWf pd \<longleftrightarrow> gwf (pd_Targets pd) \<and> gwf (pd_Subscriptions pd) \<and> gwf (pd_Outputs pd) \<and>
     gwf (pd_Inputs pd) \<and> gwf (pd_OutputProcessors pd) \<and> gwf (pd_InputProcessors pd) \<and>
     gwf (pd_TunnelTargetPolicies pd)"

lemma buildPipeline_parts:
  assumes "buildPipeline yaml b pd plan = Inr plan'"
  obtains outs ports procs where
    "build_missing (buildTarget b pd) (pd_Targets pd) (ap_Targets plan) = Inr (ap_Targets plan')"
    "build_missing (buildSubscription b pd) (pd_Subscriptions pd) (ap_Subscriptions plan) = Inr (ap_Subscriptions plan')"
    "build_missing (buildOutput yaml b pd) (pd_Outputs pd) (ap_Outputs plan) = Inr outs"
    "build_missing (buildInput yaml b) (pd_Inputs pd) (ap_Inputs plan) = Inr (ap_Inputs plan')"
    "build_missing (buildProcessor yaml) (pd_OutputProcessors pd) (ap_Processors plan) = Inr procs"
    "build_missing (buildProcessor yaml) (pd_InputProcessors pd) procs = Inr (ap_Processors plan')"
    "build_missing (buildTunnelTarget b pd) (pd_TunnelTargetPolicies pd) (ap_TunnelTargetMatches plan) = Inr (ap_TunnelTargetMatches plan')"
    "assignPorts (promOutputs pd) PrometheusDefaultPort PrmetheusPortPoolSize = Inr ports"
    "ap_Outputs plan' = fold setListen ports outs"
    "ap_PrometheusPorts plan' = maps_Copy (ap_PrometheusPorts plan) ports"
    "ap_CurrentTargetAssignment plan' = ap_CurrentTargetAssignment plan"
proof -
  from assms obtain tg sb outs inp procs procs' tn ports where parts:
    "build_missing (buildTarget b pd) (pd_Targets pd) (ap_Targets plan) = Inr tg"
    "build_missing (buildSubscription b pd) (pd_Subscriptions pd) (ap_Subscriptions plan) = Inr sb"
    "build_missing (buildOutput yaml b pd) (pd_Outputs pd) (ap_Outputs plan) = Inr outs"
    "build_missing (buildInput yaml b) (pd_Inputs pd) (ap_Inputs plan) = Inr inp"
    "build_missing (buildProcessor yaml) (pd_OutputProcessors pd) (ap_Processors plan) = Inr procs"
    "build_missing (buildProcessor yaml) (pd_InputProcessors pd) procs = Inr procs'"
    "build_missing (buildTunnelTarget b pd) (pd_TunnelTargetPolicies pd) (ap_TunnelTargetMatches plan) = Inr tn"
    "assignPorts (promOutputs pd) PrometheusDefaultPort PrmetheusPortPoolSize = Inr ports"
    "plan' = plan\<lparr>ap_Targets := tg, ap_Subscriptions := sb, ap_Outputs := fold setListen ports outs,
       ap_Inputs := inp, ap_Processors := procs', ap_TunnelTargetMatches := tn,
       ap_PrometheusPorts := maps_Copy (ap_PrometheusPorts plan) ports\<rparr>"
    by (cases "assignPorts (promOutputs pd) PrometheusDefaultPort PrmetheusPortPoolSize")
      (auto simp: buildPipeline_def bindE_Inr_iff buildTargets_def buildSubscriptions_def
        buildOutputs_def buildInputs_def buildProcessors_def buildTunnelTargetMatches_def
        assignPrometheusOutputPorts_def)
  show thesis
    by (rule that [of outs procs ports]) (simp_all add: parts)
qed

text \<open>Up to the \<^verbatim>\<open>listen\<close> entry.\<close>

definition upToListen :: "config_map \<Rightarrow> config_map \<Rightarrow> bool" where
  "upToListen c0 c \<longleftrightarrow> (\<forall>k. k \<noteq> ''listen'' \<longrightarrow> gget c k = gget c0 k)"

lemma setListen_get:
  "gget (setListen (n, p) outs) k =
     (if k = n then Some (gput (gget0 [] outs n) ''listen'' (AStr ('':'' @ Itoa p))) else gget outs k)"
  by (simp add: setListen_def gm.get_put)

lemma setListen_fold_None:
  "fst ` set ports \<subseteq> set (gkeys outs) \<Longrightarrow> gget (fold setListen ports outs) k = None \<longleftrightarrow> gget outs k = None"
proof (induction ports arbitrary: outs)
  case (Cons x ports)
  obtain n p where x: "x = (n, p)" by fastforce
  have keys: "gget (setListen x outs) k' = None \<longleftrightarrow> gget outs k' = None" for k'
    using Cons.prems x gm.keys_iff [of n outs] by (auto simp: setListen_get)
  then have "set (gkeys (setListen x outs)) = set (gkeys outs)"
    by (auto simp: gm.keys_iff)
  with Cons keys show ?case by simp
qed simp

lemma setListen_upTo:
  assumes "fst x \<in> set (gkeys outs)" and "gget (setListen x outs) k = Some c"
  shows "\<exists>c0. gget outs k = Some c0 \<and> upToListen c0 c"
  using assms gm.keys_iff [of "fst x" outs]
  by (cases x) (auto simp: setListen_get upToListen_def gm.get_put gget0_def split: if_splits)

lemma setListen_fold_upTo:
  assumes "fst ` set ports \<subseteq> set (gkeys outs)" and "gget (fold setListen ports outs) k = Some c"
  shows "\<exists>c0. gget outs k = Some c0 \<and> upToListen c0 c"
  using assms
proof (induction ports arbitrary: outs)
  case (Cons x ports)
  have "set (gkeys (setListen x outs)) = set (gkeys outs)"
    using setListen_fold_None [of "[x]" outs] Cons.prems(1) by (auto simp: gm.keys_iff)
  then obtain c1 where c1: "gget (setListen x outs) k = Some c1" "upToListen c1 c"
    using Cons.IH [of "setListen x outs"] Cons.prems by auto
  then obtain c0 where "gget outs k = Some c0" "upToListen c0 c1"
    using setListen_upTo [of x outs k c1] Cons.prems(1) by auto
  with c1(2) show ?case by (auto simp: upToListen_def)
qed (auto simp: upToListen_def)

lemma setListen_fold_port:
  assumes "gwf ports" and "gget ports n = Some p"
  shows "\<exists>c. gget (fold setListen ports outs) n = Some c \<and> gget c ''listen'' = Some (AStr ('':'' @ Itoa p))"
  using assms
proof (induction ports arbitrary: outs)
  case (Cons x ports)
  obtain n1 p1 where x [simp]: "x = (n1, p1)" by fastforce
  show ?case
  proof (cases "n1 = n")
    case True
    with Cons.prems have eq: "p1 = p" and notin: "n \<notin> fst ` set ports"
      by (auto simp: gget_def gwf_def)
    have "gget (fold setListen ports m) n = gget m n" for m
      using notin by (induction ports arbitrary: m) (auto simp: setListen_get)
    with True eq show ?thesis by (simp add: setListen_get gm.get_put)
  next
    case False
    with Cons show ?thesis by (simp add: gget_def gwf_def)
  qed
qed simp

lemma setListen_fold_other:
  "n \<notin> fst ` set ports \<Longrightarrow> gget (fold setListen ports outs) n = gget outs n"
  by (induction ports arbitrary: outs) (auto simp: setListen_get)

section \<open>The invariant of the loop over the pipelines\<close>

lemma buildOutput_not_None: "buildOutput yaml b pd n spec \<noteq> Inr None"
  by (simp add: buildOutput_def yamlE_def split: sum.split)

lemma buildOutputs_present:
  assumes "build_missing (buildOutput yaml b pd) xs m = Inr m'" and "gwf xs"
    and "gget xs k = Some spec"
  shows "gget m' k \<noteq> None"
proof (cases "gget m k")
  case None
  obtain c where "buildOutput yaml b pd k spec = Inr c"
    using build_missing_no_error [OF assms None] by blast
  with None assms buildOutput_not_None [of yaml b pd k spec] show ?thesis
    by (cases c) (auto simp: build_missing_get)
next
  case (Some c)
  then show ?thesis using build_missing_mono [OF assms(1,2)] by simp
qed

lemma set_promOutputs:
  "gwf (pd_Outputs pd) \<Longrightarrow> n \<in> set (promOutputs pd) \<longleftrightarrow>
     (\<exists>spec. gget (pd_Outputs pd) n = Some spec \<and> o_Type spec = PrometheusOutputType)"
  by (force simp: promOutputs_def gkeys_def gget_iff)

lemma builtFrom_setListen:
  assumes "builtFrom upToListen srcs outs" and "fst ` set ports \<subseteq> set (gkeys outs)"
  shows "builtFrom upToListen srcs (fold setListen ports outs)"
  unfolding builtFrom_def
proof
  fix k
  let ?outs = "fold setListen ports outs"
  show "case gget ?outs k of
      None \<Rightarrow> \<forall>(f, xs) \<in> set srcs. \<forall>s. gget xs k = Some s \<longrightarrow> f k s = Inr None
    | Some c \<Rightarrow> \<exists>(f, xs) \<in> set srcs. \<exists>s c0. gget xs k = Some s \<and> f k s = Inr (Some c0) \<and> upToListen c0 c"
  proof (cases "gget ?outs k")
    case None
    then have "gget outs k = None"
      using setListen_fold_None [OF assms(2)] by simp
    with None builtFrom_None [OF assms(1)] show ?thesis by fastforce
  next
    case (Some c)
    then obtain c1 where c1: "gget outs k = Some c1" "upToListen c1 c"
      using setListen_fold_upTo [OF assms(2)] by blast
    obtain f xs s c0 where "(f, xs) \<in> set srcs" "gget xs k = Some s" "f k s = Inr (Some c0)"
      "upToListen c0 c1"
      by (rule builtFrom_Some [OF assms(1) c1(1)])
    moreover from this(4) c1(2) have "upToListen c0 c" by (simp add: upToListen_def)
    ultimately have "\<exists>(f, xs) \<in> set srcs. \<exists>s c0. gget xs k = Some s \<and> f k s = Inr (Some c0) \<and> upToListen c0 c"
      by blast
    with Some show ?thesis by simp
  qed
qed

text \<open>Every Prometheus output that was visited listens on its recorded port.\<close>

definition portsListen :: "pipeline_data list \<Rightarrow> apply_plan \<Rightarrow> bool" where
  "portsListen pds plan \<longleftrightarrow>
     set (gkeys (ap_PrometheusPorts plan)) = (\<Union>pd \<in> set pds. set (promOutputs pd)) \<and>
     (\<forall>n p. gget (ap_PrometheusPorts plan) n = Some p \<longrightarrow> 9804 \<le> p \<and> p \<le> 10812 \<and>
        (\<exists>c. gget (ap_Outputs plan) n = Some c \<and> gget c ''listen'' = Some (AStr ('':'' @ Itoa p))))"

definition planInv :: "string yaml_fn \<Rightarrow> plan_builder \<Rightarrow> pipeline_data list \<Rightarrow> apply_plan \<Rightarrow> bool" where
  "planInv yaml b pds plan \<longleftrightarrow>
     builtFrom (=) (map (\<lambda>pd. (buildTarget b pd, pd_Targets pd)) pds) (ap_Targets plan) \<and>
     builtFrom (=) (map (\<lambda>pd. (buildSubscription b pd, pd_Subscriptions pd)) pds) (ap_Subscriptions plan) \<and>
     builtFrom upToListen (map (\<lambda>pd. (buildOutput yaml b pd, pd_Outputs pd)) pds) (ap_Outputs plan) \<and>
     builtFrom (=) (map (\<lambda>pd. (buildInput yaml b, pd_Inputs pd)) pds) (ap_Inputs plan) \<and>
     builtFrom (=) (concat (map (\<lambda>pd. [(buildProcessor yaml, pd_OutputProcessors pd),
       (buildProcessor yaml, pd_InputProcessors pd)]) pds)) (ap_Processors plan) \<and>
     builtFrom (=) (map (\<lambda>pd. (buildTunnelTarget b pd, pd_TunnelTargetPolicies pd)) pds) (ap_TunnelTargetMatches plan) \<and>
     portsListen pds plan"

lemma portsListen_step:
  assumes "portsListen pds plan" and "gwf (pd_Outputs pd)"
    and outs: "build_missing (buildOutput yaml b pd) (pd_Outputs pd) (ap_Outputs plan) = Inr outs"
    and ports: "assignPorts (promOutputs pd) PrometheusDefaultPort PrmetheusPortPoolSize = Inr ports"
      "gwf ports" "set (gkeys ports) = set (promOutputs pd)"
      "\<And>n p. gget ports n = Some p \<Longrightarrow> 9804 \<le> p \<and> p \<le> 10812"
    and plan': "ap_Outputs plan' = fold setListen ports outs"
      "ap_PrometheusPorts plan' = maps_Copy (ap_PrometheusPorts plan) ports"
  shows "portsListen (pds @ [pd]) plan'"
proof -
  have get: "gget (ap_PrometheusPorts plan') n =
      (case gget ports n of None \<Rightarrow> gget (ap_PrometheusPorts plan) n | Some p \<Rightarrow> Some p)" for n
    using ports(2) by (simp add: plan' gget_maps_Copy)
  have "set (gkeys (ap_PrometheusPorts plan')) =
      set (gkeys ports) \<union> set (gkeys (ap_PrometheusPorts plan))"
    by (auto simp: gm.keys_iff get split: option.splits)
  moreover have "9804 \<le> p \<and> p \<le> 10812 \<and>
      (\<exists>c. gget (ap_Outputs plan') n = Some c \<and> gget c ''listen'' = Some (AStr ('':'' @ Itoa p)))"
    if "gget (ap_PrometheusPorts plan') n = Some p" for n p
  proof (cases "gget ports n")
    case None
    then have "n \<notin> fst ` set ports"
      by (simp add: gget_def map_of_eq_None_iff)
    moreover from None that get have "gget (ap_PrometheusPorts plan) n = Some p" by simp
    ultimately show ?thesis
      using assms(1) build_missing_mono [OF outs assms(2)]
      by (fastforce simp: plan' portsListen_def setListen_fold_other)
  next
    case (Some q)
    with that get have "q = p" by simp
    with Some ports setListen_fold_port [OF ports(2) Some] show ?thesis
      by (auto simp: plan')
  qed
  ultimately show ?thesis
    using assms(1) ports(3) by (auto simp: portsListen_def)
qed

lemma planInv_step:
  assumes "planInv yaml b pds plan" and "buildPipeline yaml b pd plan = Inr plan'" and "pipelineWf pd"
  shows "planInv yaml b (pds @ [pd]) plan'"
proof -
  obtain outs ports procs where parts:
    "build_missing (buildTarget b pd) (pd_Targets pd) (ap_Targets plan) = Inr (ap_Targets plan')"
    "build_missing (buildSubscription b pd) (pd_Subscriptions pd) (ap_Subscriptions plan) = Inr (ap_Subscriptions plan')"
    "build_missing (buildOutput yaml b pd) (pd_Outputs pd) (ap_Outputs plan) = Inr outs"
    "build_missing (buildInput yaml b) (pd_Inputs pd) (ap_Inputs plan) = Inr (ap_Inputs plan')"
    "build_missing (buildProcessor yaml) (pd_OutputProcessors pd) (ap_Processors plan) = Inr procs"
    "build_missing (buildProcessor yaml) (pd_InputProcessors pd) procs = Inr (ap_Processors plan')"
    "build_missing (buildTunnelTarget b pd) (pd_TunnelTargetPolicies pd) (ap_TunnelTargetMatches plan) = Inr (ap_TunnelTargetMatches plan')"
    and ports: "assignPorts (promOutputs pd) PrometheusDefaultPort PrmetheusPortPoolSize = Inr ports"
      "ap_Outputs plan' = fold setListen ports outs"
      "ap_PrometheusPorts plan' = maps_Copy (ap_PrometheusPorts plan) ports"
    by (rule buildPipeline_parts [OF assms(2)]) (rule that)
  note inv = assms(1) [unfolded planInv_def]
  note wf = assms(3) [unfolded pipelineWf_def]
  note res = assignPorts_result [OF ports(1)]
  have keys: "fst ` set ports \<subseteq> set (gkeys outs)"
  proof
    fix n
    assume "n \<in> fst ` set ports"
    then have "n \<in> set (promOutputs pd)" using res(2) by (simp add: gkeys_def)
    then show "n \<in> set (gkeys outs)"
      using wf buildOutputs_present [OF parts(3)] set_promOutputs [of pd]
      by (auto simp: gm.keys_iff)
  qed
  have "builtFrom upToListen (map (\<lambda>pd. (buildOutput yaml b pd, pd_Outputs pd)) (pds @ [pd])) (ap_Outputs plan')"
    unfolding ports(2) using inv wf parts(3) builtFrom_step [of upToListen _ _ _ _ outs]
    by (intro builtFrom_setListen keys) (auto simp: upToListen_def)
  moreover have "portsListen (pds @ [pd]) plan'"
    using inv wf by (intro portsListen_step [OF _ _ parts(3) ports(1) res(1,2,3) ports(2,3)]) auto
  moreover have "builtFrom (=) (concat (map (\<lambda>pd. [(buildProcessor yaml, pd_OutputProcessors pd),
       (buildProcessor yaml, pd_InputProcessors pd)]) pds) @
       [(buildProcessor yaml, pd_OutputProcessors pd), (buildProcessor yaml, pd_InputProcessors pd)])
       (ap_Processors plan')"
    using inv wf builtFrom_step [OF builtFrom_step [OF _ parts(5)] parts(6)] by simp
  ultimately show ?thesis
    using inv wf
    by (simp add: planInv_def builtFrom_step [OF _ parts(1)] builtFrom_step [OF _ parts(2)]
        builtFrom_step [OF _ parts(4)] builtFrom_step [OF _ parts(7)])
qed

lemma planInv_Nil: "planInv yaml b [] (emptyPlan\<lparr>ap_CurrentTargetAssignment := cur\<rparr>)"
  by (simp add: planInv_def emptyPlan_def portsListen_def)

text \<open>The builder with the relationships in place, as the loop uses it.\<close>

definition ready :: "plan_builder \<Rightarrow> plan_builder" where
  "ready b = b\<lparr>b_relationships := collected b\<rparr>"

definition currentOfPipelines :: "plan_builder \<Rightarrow> (int, strset) gomap" where
  "currentOfPipelines b =
     fold (\<lambda>pd. fold (assignCurrent (b_clusterName b)) (pd_Targets pd)) (map snd (b_pipelines b)) []"

definition builderWf :: "plan_builder \<Rightarrow> bool" where
  "builderWf b \<longleftrightarrow> freshBuilder b \<and> list_all (\<lambda>(n, pd). pipelineWf pd) (b_pipelines b)"

lemma Build_unfold:
  "Build yaml b = foldE (buildPipeline yaml (ready b)) (map snd (b_pipelines b))
     (emptyPlan\<lparr>ap_CurrentTargetAssignment := currentOfPipelines b\<rparr>)"
proof -
  let ?r = "fold (collectPipeline (b_clusterName b)) (map snd (b_pipelines b)) (b_relationships b, [])"
  have "collectRelationships b emptyPlan =
      (ready b, emptyPlan\<lparr>ap_CurrentTargetAssignment := currentOfPipelines b\<rparr>)"
    using collect_fold(6) [of "b_clusterName b" "map snd (b_pipelines b)" "b_relationships b" "[]"]
    by (simp add: collectRelationships_def ready_def collected_rel currentOfPipelines_def
        case_prod_beta emptyPlan_def)
  then show ?thesis
    by (simp add: Build_def ready_def)
qed

lemma Build_inv:
  assumes "Build yaml b = Inr plan" and "builderWf b"
  shows "planInv yaml (ready b) (map snd (b_pipelines b)) plan"
    and "ap_CurrentTargetAssignment plan = currentOfPipelines b"
proof -
  note run = assms(1) [unfolded Build_unfold]
  have wf: "pipelineWf pd" if "pd \<in> set (map snd (b_pipelines b))" for pd
    using assms(2) that by (auto simp: builderWf_def list_all_iff)
  have "planInv yaml (ready b) ([] @ map snd (b_pipelines b)) plan"
    by (rule foldE_inv_done [OF run, where I = "planInv yaml (ready b)"])
      (rule planInv_Nil, blast intro: planInv_step wf)
  then show "planInv yaml (ready b) (map snd (b_pipelines b)) plan" by simp
  show "ap_CurrentTargetAssignment plan = currentOfPipelines b"
    by (rule foldE_inv [OF run]) (auto elim: buildPipeline_parts)
qed

section \<open>What the plan holds\<close>

lemma ready_simps [simp]:
  "b_relationships (ready b) = collected b"
  "b_clientTLS (ready b) = b_clientTLS b"
  "b_credsFetcher (ready b) = b_credsFetcher b"
  by (simp_all add: ready_def)

definition hasProfile :: "pipeline_data \<Rightarrow> string \<Rightarrow> string \<Rightarrow> bool" where
  "hasProfile pd nn profile \<longleftrightarrow> gget (pd_TargetProfiles pd) (nsname (fst (SplitNN nn)) profile) \<noteq> None"

lemma buildTarget_None:
  "buildTarget b pd t tg = Inr None \<longleftrightarrow> \<not> hasProfile pd t (ts_Profile (t_Spec tg))"
  by (auto simp: buildTarget_def hasProfile_def bindE_Inr_iff Let_def split: option.splits)

lemma buildTarget_Some:
  assumes "buildTarget b pd t tg = Inr (Some c)"
  obtains c' where "c = Some c'"
    and "tc_Subscriptions c' = gkeys (gget0 [] (rr_targetSubscriptions (b_relationships b)) t)"
  using assms
  by (auto simp: buildTarget_def bindE_Inr_iff Let_def split: option.splits)

lemma names_iff: "k \<in> names b f \<longleftrightarrow> (\<exists>pd \<in> set (map snd (b_pipelines b)). \<exists>s. gget (f pd) k = Some s)"
  by (auto simp: names_def gm.keys_iff)

text \<open>A map built by a body that never skips holds the names of all pipelines.\<close>

lemma builtFrom_names:
  assumes "builtFrom R (map (\<lambda>pd. (f pd, sel pd)) (map snd (b_pipelines b))) m"
    and "\<And>pd k s. f pd k s \<noteq> Inr None"
  shows "set (gkeys m) = names b sel"
proof (rule set_eqI)
  fix k
  show "k \<in> set (gkeys m) \<longleftrightarrow> k \<in> names b sel"
  proof (cases "gget m k")
    case None
    then have "gget (sel pd) k = None" if "pd \<in> set (map snd (b_pipelines b))" for pd
      using builtFrom_None [OF assms(1) None, of "f pd" "sel pd"] that assms(2)
      by (cases "gget (sel pd) k") auto
    with None show ?thesis
      by (auto simp: gm.keys_iff names_iff)
  next
    case (Some c)
    obtain g xs s c0 where src: "(g, xs) \<in> set (map (\<lambda>pd. (f pd, sel pd)) (map snd (b_pipelines b)))"
      "gget xs k = Some s"
      by (rule builtFrom_Some [OF assms(1) Some])
    then have "k \<in> names b sel" unfolding names_iff by auto
    with Some show ?thesis by (simp add: gm.keys_iff)
  qed
qed

lemma Build_targets:
  assumes "Build yaml b = Inr plan" and "builderWf b"
  shows "t \<in> set (gkeys (ap_Targets plan)) \<longleftrightarrow>
      (\<exists>pd \<in> set (map snd (b_pipelines b)). \<exists>tg. gget (pd_Targets pd) t = Some tg \<and>
         hasProfile pd t (ts_Profile (t_Spec tg)))" (is "_ \<longleftrightarrow> ?rhs")
    and "gget (ap_Targets plan) t = Some c \<Longrightarrow>
      \<exists>c'. c = Some c' \<and> set (tc_Subscriptions c') = linked b pd_Targets pd_Subscriptions t"
proof -
  have from_pds: "builtFrom (=) (map (\<lambda>pd. (buildTarget (ready b) pd, pd_Targets pd))
      (map snd (b_pipelines b))) (ap_Targets plan)"
    using Build_inv(1) [OF assms] by (simp add: planInv_def)
  show "t \<in> set (gkeys (ap_Targets plan)) \<longleftrightarrow> ?rhs"
  proof (cases "gget (ap_Targets plan) t")
    case None
    have "\<not> hasProfile pd t (ts_Profile (t_Spec tg))"
      if "pd \<in> set (map snd (b_pipelines b))" "gget (pd_Targets pd) t = Some tg" for pd tg
      using builtFrom_None [OF from_pds None, of "buildTarget (ready b) pd" "pd_Targets pd" tg] that
      by (auto simp: buildTarget_None)
    with None show ?thesis by (auto simp: gm.keys_iff)
  next
    case (Some c)
    obtain g xs s c0 where "(g, xs) \<in> set (map (\<lambda>pd. (buildTarget (ready b) pd, pd_Targets pd)) (map snd (b_pipelines b)))"
      "gget xs t = Some s" "g t s = Inr (Some c0)"
      by (rule builtFrom_Some [OF from_pds Some])
    then obtain pd where "pd \<in> set (map snd (b_pipelines b))" "gget (pd_Targets pd) t = Some s"
      "buildTarget (ready b) pd t s = Inr (Some c0)" by auto
    then have ?rhs using buildTarget_None [of "ready b" pd t s] by auto
    with Some show ?thesis by (simp add: gm.keys_iff)
  qed
  assume "gget (ap_Targets plan) t = Some c"
  then obtain g xs s c0 where "(g, xs) \<in> set (map (\<lambda>pd. (buildTarget (ready b) pd, pd_Targets pd)) (map snd (b_pipelines b)))"
    "g t s = Inr (Some c0)" "c0 = c"
    by (rule builtFrom_Some [OF from_pds])
  then show "\<exists>c'. c = Some c' \<and> set (tc_Subscriptions c') = linked b pd_Targets pd_Subscriptions t"
    using assms(2) by (auto simp: builderWf_def collected_edges elim!: buildTarget_Some)
qed

lemma Build_subscriptions:
  assumes "Build yaml b = Inr plan" and "builderWf b"
  shows "set (gkeys (ap_Subscriptions plan)) = names b pd_Subscriptions"
    and "gget (ap_Subscriptions plan) k = Some c \<Longrightarrow> set (sub_Outputs c) = linked b pd_Subscriptions pd_Outputs k"
proof -
  have from_pds: "builtFrom (=) (map (\<lambda>pd. (buildSubscription (ready b) pd, pd_Subscriptions pd))
      (map snd (b_pipelines b))) (ap_Subscriptions plan)"
    using Build_inv(1) [OF assms] by (simp add: planInv_def)
  then show "set (gkeys (ap_Subscriptions plan)) = names b pd_Subscriptions"
    by (rule builtFrom_names) (simp add: buildSubscription_def)
  assume "gget (ap_Subscriptions plan) k = Some c"
  then obtain g xs s c0 where "(g, xs) \<in> set (map (\<lambda>pd. (buildSubscription (ready b) pd, pd_Subscriptions pd)) (map snd (b_pipelines b)))"
    "g k s = Inr (Some c0)" "c0 = c"
    by (rule builtFrom_Some [OF from_pds])
  then show "set (sub_Outputs c) = linked b pd_Subscriptions pd_Outputs k"
    using assms(2)
    by (auto simp: builderWf_def collected_edges buildSubscription_def buildSubscriptionConfig.simps)
qed

lemma Build_outputs:
  assumes "Build yaml b = Inr plan" and "builderWf b"
  shows "set (gkeys (ap_Outputs plan)) = names b pd_Outputs"
    and "gget (ap_Outputs plan) k = Some c \<Longrightarrow>
      \<exists>ps. set ps = linked b pd_Outputs pd_OutputProcessors k \<and>
        (ps = [] \<or> gget c ''event-processors'' = Some (AStrs ps))"
proof -
  have from_pds: "builtFrom upToListen (map (\<lambda>pd. (buildOutput yaml (ready b) pd, pd_Outputs pd))
      (map snd (b_pipelines b))) (ap_Outputs plan)"
    using Build_inv(1) [OF assms] by (simp add: planInv_def)
  then show "set (gkeys (ap_Outputs plan)) = names b pd_Outputs"
    by (rule builtFrom_names) (rule buildOutput_not_None)
  let ?ps = "gget0 [] (rr_outputProcessors (collected b)) k"
  assume "gget (ap_Outputs plan) k = Some c"
  then obtain g xs s c0 where "(g, xs) \<in> set (map (\<lambda>pd. (buildOutput yaml (ready b) pd, pd_Outputs pd)) (map snd (b_pipelines b)))"
    "g k s = Inr (Some c0)" "upToListen c0 c"
    by (rule builtFrom_Some [OF from_pds])
  then obtain addrs where "buildOutputConfig yaml s ?ps addrs = Inr c0" "upToListen c0 c"
    by (auto simp: buildOutput_def yamlE_def split: sum.splits)
  then have "?ps = [] \<or> gget c ''event-processors'' = Some (AStrs ?ps)"
    by (auto simp: buildOutputConfig_def upToListen_def gm.get_put Let_def split: sum.splits if_splits)
  then show "\<exists>ps. set ps = linked b pd_Outputs pd_OutputProcessors k \<and>
        (ps = [] \<or> gget c ''event-processors'' = Some (AStrs ps))"
    using assms(2) collected_edges(4) [of b k] by (auto simp: builderWf_def)
qed

lemma Build_inputs:
  assumes "Build yaml b = Inr plan" and "builderWf b"
  shows "set (gkeys (ap_Inputs plan)) = names b pd_Inputs"
    and "gget (ap_Inputs plan) k = Some c \<Longrightarrow>
      \<exists>outs ps. set outs = linked b pd_Inputs pd_Outputs k \<and> set ps = linked b pd_Inputs pd_InputProcessors k \<and>
        (outs = [] \<or> gget c ''outputs'' = Some (AStrs outs)) \<and>
        (ps = [] \<or> gget c ''event-processors'' = Some (AStrs ps))"
proof -
  have from_pds: "builtFrom (=) (map (\<lambda>pd. (buildInput yaml (ready b), pd_Inputs pd))
      (map snd (b_pipelines b))) (ap_Inputs plan)"
    using Build_inv(1) [OF assms] by (simp add: planInv_def)
  then show "set (gkeys (ap_Inputs plan)) = names b pd_Inputs"
    by (rule builtFrom_names) (simp add: buildInput_def yamlE_def split: sum.split)
  let ?outs = "gkeys (gget0 [] (rr_inputOutputs (collected b)) k)"
  let ?ps = "gget0 [] (rr_inputProcessors (collected b)) k"
  assume "gget (ap_Inputs plan) k = Some c"
  then obtain g xs s c0 where "(g, xs) \<in> set (map (\<lambda>pd. (buildInput yaml (ready b), pd_Inputs pd)) (map snd (b_pipelines b)))"
    "g k s = Inr (Some c0)" "c0 = c"
    by (rule builtFrom_Some [OF from_pds])
  then have "buildInputConfig yaml s ?outs ?ps = Inr c"
    by (auto simp: buildInput_def yamlE_def split: sum.splits)
  then have "(?outs = [] \<or> gget c ''outputs'' = Some (AStrs ?outs)) \<and>
      (?ps = [] \<or> gget c ''event-processors'' = Some (AStrs ?ps))"
    by (auto simp: buildInputConfig_def gm.get_put Let_def split: sum.splits if_splits)
  then show "\<exists>outs ps. set outs = linked b pd_Inputs pd_Outputs k \<and> set ps = linked b pd_Inputs pd_InputProcessors k \<and>
        (outs = [] \<or> gget c ''outputs'' = Some (AStrs outs)) \<and>
        (ps = [] \<or> gget c ''event-processors'' = Some (AStrs ps))"
    using assms(2) collected_edges(3,5) [of b k] by (metis builderWf_def)
qed

lemma Build_processors:
  assumes "Build yaml b = Inr plan" and "builderWf b"
  shows "set (gkeys (ap_Processors plan)) = names b pd_OutputProcessors \<union> names b pd_InputProcessors"
proof -
  let ?srcs = "concat (map (\<lambda>pd. [(buildProcessor yaml, pd_OutputProcessors pd),
       (buildProcessor yaml, pd_InputProcessors pd)]) (map snd (b_pipelines b)))"
  have from_pds: "builtFrom (=) ?srcs (ap_Processors plan)"
    using Build_inv(1) [OF assms] by (simp add: planInv_def)
  have no_skip: "buildProcessor yaml k s \<noteq> Inr None" for k s
    by (auto simp: buildProcessor_def split: sum.split)
  show ?thesis
  proof (rule set_eqI)
    fix k
    show "k \<in> set (gkeys (ap_Processors plan)) \<longleftrightarrow> k \<in> names b pd_OutputProcessors \<union> names b pd_InputProcessors"
    proof (cases "gget (ap_Processors plan) k")
      case None
      have "gget xs k = None" if "(buildProcessor yaml, xs) \<in> set ?srcs" for xs
        using builtFrom_None [OF from_pds None that] no_skip by (cases "gget xs k") auto
      then have "\<forall>pd \<in> set (map snd (b_pipelines b)).
          gget (pd_OutputProcessors pd) k = None \<and> gget (pd_InputProcessors pd) k = None"
        by fastforce
      with None show ?thesis by (auto simp: gm.keys_iff names_iff)
    next
      case (Some c)
      obtain g xs s c0 where "(g, xs) \<in> set ?srcs" "gget xs k = Some s"
        by (rule builtFrom_Some [OF from_pds Some])
      then have "k \<in> names b pd_OutputProcessors \<union> names b pd_InputProcessors"
        unfolding Un_iff names_iff by auto
      with Some show ?thesis by (simp add: gm.keys_iff)
    qed
  qed
qed

lemma Build_ports:
  assumes "Build yaml b = Inr plan" and "builderWf b"
  shows "portsListen (map snd (b_pipelines b)) plan"
  using Build_inv(1) [OF assms] by (simp add: planInv_def)

section \<open>The current assignment\<close>

lemma assignCurrent_iff:
  "t \<in> set (gkeys (gget0 [] (assignCurrent cn (n, tg) cur) p)) \<longleftrightarrow>
     t \<in> set (gkeys (gget0 [] cur p)) \<or>
     (t = n \<and> findTargetCurrentAssignment cn tg = Some p \<and> 0 \<le> p)"
  by (auto simp: assignCurrent_def gget0_put gm.keys_put split: option.splits if_splits)

definition strsetsWf :: "(int, strset) gomap \<Rightarrow> bool" where
  "strsetsWf cur \<longleftrightarrow> gwf cur \<and> (\<forall>p. gwf (gget0 [] cur p)) \<and> (\<forall>p \<in> set (gkeys cur). 0 \<le> p)"

lemma assignCurrent_wf: "strsetsWf cur \<Longrightarrow> strsetsWf (assignCurrent cn x cur)"
  by (cases x)
    (auto simp: assignCurrent_def strsetsWf_def gget0_put gm.keys_put gm.wf_put split: option.split)

lemma assignCurrent_fold_iff:
  "t \<in> set (gkeys (gget0 [] (fold (assignCurrent cn) ts cur) p)) \<longleftrightarrow>
     t \<in> set (gkeys (gget0 [] cur p)) \<or>
     (\<exists>tg. (t, tg) \<in> set ts \<and> findTargetCurrentAssignment cn tg = Some p \<and> 0 \<le> p)"
  by (induction ts arbitrary: cur) (auto simp: assignCurrent_iff)

lemma currentOfPipelines_iff:
  "t \<in> set (gkeys (gget0 [] (currentOfPipelines b) p)) \<longleftrightarrow>
     (\<exists>pd \<in> set (map snd (b_pipelines b)). \<exists>tg. (t, tg) \<in> set (pd_Targets pd) \<and>
        findTargetCurrentAssignment (b_clusterName b) tg = Some p \<and> 0 \<le> p)"
proof -
  have key: "t \<in> set (gkeys (gget0 [] (fold (\<lambda>pd. fold (assignCurrent cn) (pd_Targets pd)) pds cur) p)) \<longleftrightarrow>
      t \<in> set (gkeys (gget0 [] cur p)) \<or>
      (\<exists>pd \<in> set pds. \<exists>tg. (t, tg) \<in> set (pd_Targets pd) \<and>
         findTargetCurrentAssignment cn tg = Some p \<and> 0 \<le> p)" for cn pds cur
    by (induction pds arbitrary: cur) (auto simp: assignCurrent_fold_iff)
  show ?thesis
    unfolding currentOfPipelines_def key by simp
qed

lemma currentOfPipelines_wf: "strsetsWf (currentOfPipelines b)"
proof -
  have inner: "strsetsWf (fold (assignCurrent cn) ts cur)" if "strsetsWf cur" for cn ts cur
    using that by (induction ts arbitrary: cur) (auto simp: assignCurrent_wf)
  have outer: "strsetsWf (fold (\<lambda>pd. fold (assignCurrent cn) (pd_Targets pd)) pds cur)"
    if "strsetsWf cur" for cn pds cur
    using that by (induction pds arbitrary: cur) (auto simp: inner)
  show ?thesis
    unfolding currentOfPipelines_def by (rule outer) (simp add: strsetsWf_def)
qed

section \<open>When the builder succeeds\<close>

text \<open>The inputs the builder can work with: parseable settings, available secrets, ports enough.\<close>

definition pipelineOK :: "string yaml_fn \<Rightarrow> plan_builder \<Rightarrow> pipeline_data \<Rightarrow> bool" where
  "pipelineOK yaml b pd \<longleftrightarrow>
     (\<forall>x \<in> set (pd_Outputs pd). \<not> isl (parseRaw yaml (o_Config (snd x)))) \<and>
     (\<forall>x \<in> set (pd_Inputs pd). \<not> isl (parseRaw yaml (i_Config (snd x)))) \<and>
     (\<forall>x \<in> set (pd_OutputProcessors pd @ pd_InputProcessors pd). \<not> isl (parseRaw yaml (pr_Config (snd x)))) \<and>
     (\<forall>n \<in> set (gkeys (pd_Targets pd) @ gkeys (pd_TunnelTargetPolicies pd)).
        \<forall>x \<in> set (pd_TargetProfiles pd). \<not> isl (fetchCreds b (fst (SplitNN n)) (snd x))) \<and>
     length (promOutputs pd) \<le> 1009"

lemma not_isl_ex: "\<not> isl r \<longleftrightarrow> (\<exists>c. r = Inr c)"
  by (cases r) auto

lemma fetchCreds_ready [simp]: "fetchCreds (ready b) = fetchCreds b"
  by (intro ext) (simp add: fetchCreds_def)

lemma pipelineOK_creds:
  assumes "pipelineOK yaml b pd"
    and "n \<in> set (gkeys (pd_Targets pd) @ gkeys (pd_TunnelTargetPolicies pd))"
    and "gget (pd_TargetProfiles pd) k = Some prof"
  shows "\<exists>c. fetchCreds b (fst (SplitNN n)) prof = Inr c"
proof -
  have "(k, prof) \<in> set (pd_TargetProfiles pd)" using assms(3) by (rule gget_Some_in)
  then have "\<not> isl (fetchCreds b (fst (SplitNN n)) (snd (k, prof)))"
    using assms(1,2) unfolding pipelineOK_def by blast
  then show ?thesis by (simp add: not_isl_ex)
qed

lemma in_gkeys: "(n, x) \<in> set m \<Longrightarrow> n \<in> set (gkeys m)"
  by (force simp: gkeys_def)

lemma buildTarget_ok:
  assumes "pipelineOK yaml b pd" and "(n, tg) \<in> set (pd_Targets pd)"
  shows "\<exists>c. buildTarget (ready b) pd n tg = Inr c"
proof (cases "gget (pd_TargetProfiles pd) (nsname (fst (SplitNN n)) (ts_Profile (t_Spec tg)))")
  case (Some prof)
  then obtain c where "fetchCreds b (fst (SplitNN n)) prof = Inr c"
    using pipelineOK_creds [OF assms(1) _ Some] in_gkeys [OF assms(2)] by auto
  with Some show ?thesis by (simp add: buildTarget_def)
qed (simp add: buildTarget_def)

lemma buildTunnelTarget_ok:
  assumes "pipelineOK yaml b pd" and "(n, pol) \<in> set (pd_TunnelTargetPolicies pd)"
  shows "\<exists>c. buildTunnelTarget (ready b) pd n pol = Inr c"
proof (cases "gget (pd_TargetProfiles pd) (nsname (fst (SplitNN n)) (tpol_Profile pol))")
  case (Some prof)
  then obtain c where "fetchCreds b (fst (SplitNN n)) prof = Inr c"
    using pipelineOK_creds [OF assms(1) _ Some] in_gkeys [OF assms(2)] by auto
  with Some show ?thesis by (simp add: buildTunnelTarget_def)
qed (simp add: buildTunnelTarget_def)

lemma builders_ok:
  assumes "pipelineOK yaml b pd"
  shows "(n, o1) \<in> set (pd_Outputs pd) \<Longrightarrow> \<exists>c. buildOutput yaml (ready b) pd n o1 = Inr c"
    and "(n, i1) \<in> set (pd_Inputs pd) \<Longrightarrow> \<exists>c. buildInput yaml (ready b) n i1 = Inr c"
    and "(n, pr1) \<in> set (pd_OutputProcessors pd @ pd_InputProcessors pd) \<Longrightarrow>
      \<exists>c. buildProcessor yaml n pr1 = Inr c"
proof -
  note ok = assms [unfolded pipelineOK_def]
  show "\<exists>c. buildOutput yaml (ready b) pd n o1 = Inr c" if "(n, o1) \<in> set (pd_Outputs pd)"
  proof -
    from ok that obtain c where "parseRaw yaml (o_Config o1) = Inr c" by (force simp: not_isl_ex)
    then show ?thesis by (simp add: buildOutput_def buildOutputConfig_def yamlE_def Let_def)
  qed
  show "\<exists>c. buildInput yaml (ready b) n i1 = Inr c" if "(n, i1) \<in> set (pd_Inputs pd)"
  proof -
    from ok that obtain c where "parseRaw yaml (i_Config i1) = Inr c" by (force simp: not_isl_ex)
    then show ?thesis by (simp add: buildInput_def buildInputConfig_def yamlE_def Let_def)
  qed
  show "\<exists>c. buildProcessor yaml n pr1 = Inr c"
    if "(n, pr1) \<in> set (pd_OutputProcessors pd @ pd_InputProcessors pd)"
  proof -
    from ok that have "\<not> isl (parseRaw yaml (pr_Config (snd (n, pr1))))" by blast
    then obtain c where "parseRaw yaml (pr_Config pr1) = Inr c" by (auto simp: not_isl_ex)
    then show ?thesis by (simp add: buildProcessor_def buildProcessorConfig_def)
  qed
qed

lemma buildPipeline_ok:
  assumes "pipelineOK yaml b pd"
  shows "\<exists>plan'. buildPipeline yaml (ready b) pd plan = Inr plan'"
proof -
  have ok: "\<exists>m'. build_missing (buildTarget (ready b) pd) (pd_Targets pd) m = Inr m'"
    "\<exists>m'. build_missing (buildSubscription (ready b) pd) (pd_Subscriptions pd) m1 = Inr m'"
    "\<exists>m'. build_missing (buildOutput yaml (ready b) pd) (pd_Outputs pd) m2 = Inr m'"
    "\<exists>m'. build_missing (buildInput yaml (ready b)) (pd_Inputs pd) m3 = Inr m'"
    "\<exists>m'. build_missing (buildProcessor yaml) (pd_OutputProcessors pd) m4 = Inr m'"
    "\<exists>m'. build_missing (buildProcessor yaml) (pd_InputProcessors pd) m4 = Inr m'"
    "\<exists>m'. build_missing (buildTunnelTarget (ready b) pd) (pd_TunnelTargetPolicies pd) m5 = Inr m'"
    for m m1 m2 m3 m4 m5
    by (rule build_missing_ok, simp add: buildTarget_ok [OF assms] buildTunnelTarget_ok [OF assms]
        builders_ok [OF assms] buildSubscription_def)+
  have "\<exists>ports. assignPorts (promOutputs pd) PrometheusDefaultPort PrmetheusPortPoolSize = Inr ports"
    using assms by (intro assignPorts_succeeds) (simp add: pipelineOK_def)
  then have ports: "\<exists>plan'. assignPrometheusOutputPorts pd plan = Inr plan'" for plan
    by (auto simp: assignPrometheusOutputPorts_def)
  show ?thesis
    unfolding buildPipeline_def buildTargets_def buildSubscriptions_def buildOutputs_def
      buildInputs_def buildProcessors_def buildTunnelTargetMatches_def
    by (intro bindE_ok ok ports Inr_ex)
qed

lemma Build_succeeds:
  assumes "\<And>pd. pd \<in> set (map snd (b_pipelines b)) \<Longrightarrow> pipelineOK yaml b pd"
  shows "\<exists>plan. Build yaml b = Inr plan"
proof -
  have "\<exists>plan. foldE (buildPipeline yaml (ready b)) (map snd (b_pipelines b)) s = Inr plan \<and> True" for s
    by (rule foldE_total) (use assms buildPipeline_ok in blast)+
  then show ?thesis
    unfolding Build_unfold by blast
qed

section \<open>An example\<close>

definition exMeta :: "string \<Rightarrow> object_meta" where
  "exMeta name = \<lparr>m_Name = name, m_Namespace = ''n'', m_Labels = [], m_Generation = 1, m_ResourceVersion = [],
     m_Finalizers = [], m_Deleting = False\<rparr>"

definition exTarget :: "string \<Rightarrow> target" where
  "exTarget name = \<lparr>t_Meta = exMeta name, t_Spec = \<lparr>ts_Address = ''r1:57400'', ts_Profile = ''p''\<rparr>,
     t_Status = \<lparr>tst_Clusters = 0, tst_State = [], tst_ClusterStates = None\<rparr>\<rparr>"

definition exProfile :: target_profile_spec where
  "exProfile = \<lparr>tp_CredentialsRef = [], tp_TLS = None, tp_Timeout = 10 * second,
     tp_RetryTimer = 2 * second, tp_Encoding = ''JSON'', tp_Labels = [], tp_Proxy = [],
     tp_GzipCompression = False, tp_TCPKeepAlive = None, tp_GRCPKeepAlive = None\<rparr>"

definition exSubscription :: subscription_spec where
  "exSubscription = \<lparr>ss_Prefix = [], ss_Target = [], ss_Paths = [''/interfaces''],
     ss_Mode = ''STREAM/SAMPLE'', ss_SampleInterval = 0, ss_HeartbeatInterval = 0,
     ss_UpdatesOnly = False, ss_StreamSubscriptions = [], ss_Depth = 0, ss_Encoding = [],
     ss_Qos = None, ss_SuppressRedundant = False, ss_History = None\<rparr>"

definition exOutput :: "string \<Rightarrow> output_spec" where
  "exOutput type = \<lparr>o_Type = type, o_Config = None, o_Service = None, o_ServiceRef = None,
     o_ServiceSelector = None\<rparr>"

definition exPipeline :: pipeline_data where
  "exPipeline = NewPipelineData\<lparr>
     pd_Targets := [(''n/t1'', exTarget ''t1''), (''n/t2'', exTarget ''t2'')],
     pd_TargetProfiles := [(''n/p'', exProfile)],
     pd_Subscriptions := [(''n/s1'', exSubscription)],
     pd_Outputs := [(''n/o1'', exOutput ''prometheus'')],
     pd_OutputProcessors := [(''n/x1'', \<lparr>pr_Type = ''event-drop'', pr_Config = None\<rparr>)]\<rparr>"

definition exBuilder :: plan_builder where
  "exBuilder = AddPipeline ''n/pipe'' exPipeline (NewPlanBuilder ''c1'' None)"

definition exYaml :: "string yaml_fn" where
  "exYaml raw = Inr []"

lemmas ex_defs = exBuilder_def exPipeline_def exMeta_def exTarget_def exProfile_def
  exSubscription_def exOutput_def exYaml_def AddPipeline_def NewPlanBuilder_def NewPipelineData_def

lemma exBuilder_pipelines: "b_pipelines exBuilder = [(''n/pipe'', exPipeline)]"
  by (simp add: exBuilder_def AddPipeline_def NewPlanBuilder_def gput_def)

lemma exBuilder_wf: "builderWf exBuilder"
  by (simp add: builderWf_def exBuilder_pipelines pipelineWf_def freshBuilder_def gwf_def)
    (simp add: ex_defs)

lemma exPipeline_ok: "pipelineOK exYaml exBuilder exPipeline"
  by (simp add: pipelineOK_def ex_defs fetchCreds_def parseRaw_def gkeys_def promOutputs_def
      PrometheusOutputType_def)

section \<open>Properties\<close>

text \<open>
  C20: The builder returns a plan whenever the raw settings parse, the secrets of the profiles are
  available and no pipeline has more than 1009 Prometheus outputs: no other error can stop it.
\<close>

theorem Build_total:
  assumes "\<And>pd. pd \<in> set (map snd (b_pipelines b)) \<Longrightarrow> pipelineOK yaml b pd"
  shows "\<exists>plan. Build yaml b = Inr plan"
  using assms by (rule Build_succeeds)

theorem Build_total_witness: "\<exists>plan. Build exYaml exBuilder = Inr plan"
  by (rule Build_total) (simp add: exBuilder_pipelines exPipeline_ok)

text \<open>
  C10: A target is in the plan exactly when some pipeline has it together with its profile; it then
  carries a configuration whose subscriptions are exactly those of all pipelines the target is in.
\<close>

theorem Build_targets_exact:
  assumes "Build yaml b = Inr plan" and "builderWf b"
  shows "(t \<in> set (gkeys (ap_Targets plan)) \<longleftrightarrow>
      (\<exists>pd \<in> set (map snd (b_pipelines b)). \<exists>tg. gget (pd_Targets pd) t = Some tg \<and>
         hasProfile pd t (ts_Profile (t_Spec tg))))
    \<and> (\<forall>c. gget (ap_Targets plan) t = Some c \<longrightarrow>
      (\<exists>c'. c = Some c' \<and> set (tc_Subscriptions c') = linked b pd_Targets pd_Subscriptions t))"
  using Build_targets [OF assms] by blast

theorem Build_targets_exact_witness:
  "\<exists>plan c. Build exYaml exBuilder = Inr plan \<and> gget (ap_Targets plan) ''n/t1'' = Some (Some c)
     \<and> set (tc_Subscriptions c) = {''n/s1''}"
proof -
  obtain plan where plan: "Build exYaml exBuilder = Inr plan"
    using Build_succeeds [of exBuilder exYaml] by (auto simp: exBuilder_pipelines exPipeline_ok)
  note exact = Build_targets_exact [OF plan exBuilder_wf, of "''n/t1''"]
  have "SplitNN ''n/t1'' = (''n'', ''t1'')"
    by code_simp
  then have "hasProfile exPipeline ''n/t1'' ''p''" "gget (pd_Targets exPipeline) ''n/t1'' = Some (exTarget ''t1'')"
    "ts_Profile (t_Spec (exTarget ''t1'')) = ''p''"
    by (simp_all add: hasProfile_def nsname_def Delimiter_def ex_defs gget_def)
  then have "''n/t1'' \<in> set (gkeys (ap_Targets plan))"
    using exact by (auto simp: exBuilder_pipelines)
  then obtain c where c: "gget (ap_Targets plan) ''n/t1'' = Some c"
    by (auto simp: gm.keys_iff)
  moreover have "linked exBuilder pd_Targets pd_Subscriptions ''n/t1'' = {''n/s1''}"
    by (auto simp: linked_def exBuilder_pipelines gkeys_def exPipeline_def)
  ultimately show ?thesis
    using plan exact by auto
qed



text \<open>
  The ports of the plan are those of the Prometheus outputs of all pipelines, each in the pool,
  and each such output listens on exactly the port that is recorded for it.
\<close>

theorem Build_ports_listen:
  assumes "Build yaml b = Inr plan" and "builderWf b"
  shows "set (gkeys (ap_PrometheusPorts plan)) = (\<Union>pd \<in> set (map snd (b_pipelines b)). set (promOutputs pd))
    \<and> (\<forall>n p. gget (ap_PrometheusPorts plan) n = Some p \<longrightarrow> 9804 \<le> p \<and> p \<le> 10812 \<and>
        (\<exists>c. gget (ap_Outputs plan) n = Some c \<and> gget c ''listen'' = Some (AStr ('':'' @ Itoa p))))"
  using Build_ports [OF assms] by (simp add: portsListen_def)

theorem Build_ports_listen_witness:
  "\<exists>plan p c. Build exYaml exBuilder = Inr plan \<and> gget (ap_PrometheusPorts plan) ''n/o1'' = Some p
     \<and> gget (ap_Outputs plan) ''n/o1'' = Some c \<and> gget c ''listen'' = Some (AStr ('':'' @ Itoa p))"
proof -
  obtain plan where plan: "Build exYaml exBuilder = Inr plan"
    using Build_succeeds [of exBuilder exYaml] by (auto simp: exBuilder_pipelines exPipeline_ok)
  note ports = Build_ports_listen [OF plan exBuilder_wf]
  have "promOutputs exPipeline = [''n/o1'']"
    by (simp add: promOutputs_def ex_defs gkeys_def PrometheusOutputType_def)
  with ports have "''n/o1'' \<in> set (gkeys (ap_PrometheusPorts plan))"
    by (simp add: exBuilder_pipelines)
  then obtain p where "gget (ap_PrometheusPorts plan) ''n/o1'' = Some p"
    by (auto simp: gm.keys_iff)
  with plan ports show ?thesis by blast
qed

end
