(* ===== verification/Distribute.thy ===== *)
theory Distribute
  imports Placement Plan_Correct
begin

text \<open>
  \<^verbatim>\<open>DistributeTargets\<close> of \<^verbatim>\<open>internal/gnmic/distribute.go\<close>: the plan of the cluster is split into one plan
  per pod by a placement strategy, and the targets without a pod are listed. The function is written
  over the strategy (\<open>distributeWith\<close>), its lemmas are proved in the context of the locale
  \<open>placement_strategy\<close>, and they hold of the code through the interpretation \<open>blrh\<close>.
\<close>

record distribute_result =
  dr_PerPodPlans :: "(int, apply_plan) gomap"
  dr_UnassignedTargets :: "string list"

text \<open>The current assignment as sorted slices; a pod without targets gets no entry.\<close>

definition sliceStep :: "int \<times> strset \<Rightarrow> assignment \<Rightarrow> assignment" where
  "sliceStep = (\<lambda>(podIndex, targets) asg.
     if targets = [] then asg
     else gput asg podIndex (sort (gget0 [] asg podIndex @ gkeys targets)))"

definition currentSlices :: "(int, strset) gomap \<Rightarrow> assignment" where
  "currentSlices cur = fold sliceStep cur []"

definition distributeOptions :: "apply_plan \<Rightarrow> int \<Rightarrow> target_distribution option \<Rightarrow> placement_opts" where
  "distributeOptions plan numPods targetDistribution =
     \<lparr>po_Strategy = [], po_NumPods = (if numPods \<le> 0 then 1 else numPods),
      po_Capacity = (case targetDistribution of None \<Rightarrow> 0 | Some td \<Rightarrow> td_PodCapacity td),
      po_CurrentAssignment = Some (currentSlices (ap_CurrentTargetAssignment plan))\<rparr>"

text \<open>The plan of one pod: its targets, and everything else of the cluster's plan.\<close>

definition podPlan :: "apply_plan \<Rightarrow> string list \<Rightarrow> apply_plan" where
  "podPlan plan targets =
     \<lparr>ap_Targets = fold (\<lambda>targetNN m. gput m targetNN (gget0 None (ap_Targets plan) targetNN)) targets [],
      ap_CurrentTargetAssignment = [],
      ap_Subscriptions = ap_Subscriptions plan,
      ap_Outputs = ap_Outputs plan,
      ap_Inputs = ap_Inputs plan,
      ap_Processors = ap_Processors plan,
      ap_TunnelTargetMatches = ap_TunnelTargetMatches plan,
      ap_PrometheusPorts = []\<rparr>"

definition distributeWith ::
  "((string, target_config option) gomap \<Rightarrow> placement_opts option \<Rightarrow> assignment) \<Rightarrow>
   apply_plan \<Rightarrow> int \<Rightarrow> target_distribution option \<Rightarrow> distribute_result" where
  "distributeWith place plan numPods targetDistribution =
     (let newAssignment = place (ap_Targets plan) (Some (distributeOptions plan numPods targetDistribution));
          assigned = \<Union>(set ` set (map snd newAssignment));
          result = fold (\<lambda>(podIndex, targets) m. gput m podIndex (podPlan plan targets)) newAssignment []
      in \<lparr>dr_PerPodPlans = result,
          dr_UnassignedTargets = sort (filter (\<lambda>targetNN. targetNN \<notin> assigned) (gkeys (ap_Targets plan)))\<rparr>)"

definition DistributeTargets :: "apply_plan \<Rightarrow> int \<Rightarrow> target_distribution option \<Rightarrow> distribute_result" where
  "DistributeTargets plan numPods targetDistribution =
     distributeWith distributeTargets plan numPods targetDistribution"

section \<open>The options\<close>

lemma currentSlices_step:
  assumes "gwf cur" and "fst ` set cur \<inter> set (gkeys asg) = {}"
  shows "gget0 [] (fold sliceStep cur asg) p =
    (if p \<in> fst ` set cur then sort (gkeys (gget0 [] cur p)) else gget0 [] asg p)"
  using assms
proof (induction cur arbitrary: asg)
  case (Cons x cur)
  obtain q ts where x: "x = (q, ts)" by fastforce
  from Cons.prems x have wf: "gwf cur" "q \<notin> fst ` set cur" "gget0 [] asg q = []"
    using gm.keys_iff [of q asg] by (auto simp: gwf_def gget0_def)
  have get: "gget0 [] ((q, us) # cur) r = (if r = q then us else gget0 [] cur r)" for us r
    by (simp add: gget0_def gget_def)
  have "fst ` set cur \<inter> set (gkeys (sliceStep x asg)) = {}"
    using Cons.prems(2) wf(2) by (auto simp: gm.keys_put x sliceStep_def)
  note step = Cons.IH [OF wf(1) this]
  show ?case
    using wf by (simp add: step) (simp add: x get sliceStep_def gget0_put)
qed simp

lemma currentSlices_get:
  "gwf cur \<Longrightarrow> gget0 [] (currentSlices cur) p = sort (gkeys (gget0 [] cur p))"
  using currentSlices_step [of cur "[]" p] gm.keys_iff [of p cur]
  by (auto simp: currentSlices_def gget0_def gkeys_def split: option.split)

lemma currentSlices_wf: "gwf (currentSlices cur)" "set (gkeys (currentSlices cur)) \<subseteq> set (gkeys cur)"
proof -
  have step: "gwf (sliceStep x asg)" "set (gkeys (sliceStep x asg)) \<subseteq> insert (fst x) (set (gkeys asg))"
    if "gwf asg" for x asg
    using that by (cases x, simp add: sliceStep_def gm.wf_put gm.keys_put subset_insertI)+
  have "gwf (fold sliceStep cur asg) \<and>
      set (gkeys (fold sliceStep cur asg)) \<subseteq> fst ` set cur \<union> set (gkeys asg)" if "gwf asg" for asg
    using that
  proof (induction cur arbitrary: asg)
    case (Cons x cur)
    from Cons.IH [OF step(1) [OF Cons.prems, of x]] step(2) [OF Cons.prems, of x]
    show ?case by auto
  qed simp
  from this [of "[]"] show "gwf (currentSlices cur)" "set (gkeys (currentSlices cur)) \<subseteq> set (gkeys cur)"
    by (simp_all add: currentSlices_def gkeys_def)
qed

text \<open>
  A plan that can be distributed: no target twice, no target currently on two pods, and only its
  own targets have a current pod.
\<close>

definition planOK :: "apply_plan \<Rightarrow> bool" where
  "planOK plan \<longleftrightarrow> gwf (ap_Targets plan) \<and> strsetsWf (ap_CurrentTargetAssignment plan) \<and>
     (\<forall>p. set (gkeys (gget0 [] (ap_CurrentTargetAssignment plan) p)) \<subseteq> set (gkeys (ap_Targets plan))) \<and>
     (\<forall>p q t. t \<in> set (gkeys (gget0 [] (ap_CurrentTargetAssignment plan) p)) \<longrightarrow>
        t \<in> set (gkeys (gget0 [] (ap_CurrentTargetAssignment plan) q)) \<longrightarrow> p = q)"

definition capacityOK :: "target_distribution option \<Rightarrow> bool" where
  "capacityOK td \<longleftrightarrow> (case td of None \<Rightarrow> True | Some d \<Rightarrow> 0 \<le> td_PodCapacity d)"

lemma planOK_options:
  assumes "planOK plan" and "capacityOK td"
  shows "okOptions (ap_Targets plan) (distributeOptions plan n td)"
proof -
  let ?cur = "ap_CurrentTargetAssignment plan"
  have get: "gget0 [] (currentSlices ?cur) p = sort (gkeys (gget0 [] ?cur p))" for p
    using assms by (simp add: planOK_def strsetsWf_def currentSlices_get)
  have "distinct (gkeys (gget0 [] ?cur p))" for p
    using assms gm.keys_distinct [of "gget0 [] ?cur p"] by (simp add: planOK_def strsetsWf_def)
  then have lists: "\<forall>p. distinct (sort (gkeys (gget0 [] ?cur p))) \<and>
      set (sort (gkeys (gget0 [] ?cur p))) \<subseteq> set (gkeys (ap_Targets plan))"
    using assms(1) by (simp add: planOK_def)
  moreover have "\<forall>p q. p \<noteq> q \<longrightarrow> set (sort (gkeys (gget0 [] ?cur p))) \<inter> set (sort (gkeys (gget0 [] ?cur q))) = {}"
    unfolding set_sort using assms(1) by (meson planOK_def disjoint_iff)
  moreover have "\<forall>p \<in> set (gkeys (currentSlices ?cur)). 0 \<le> p"
    using currentSlices_wf(2) [of ?cur] assms(1) unfolding planOK_def strsetsWf_def by blast
  ultimately have "currentOK (set (gkeys (ap_Targets plan))) (currentSlices ?cur)"
    unfolding currentOK_def get using currentSlices_wf(1) by blast
  with assms show ?thesis
    by (simp add: okOptions_def planOK_def distributeOptions_def currentOf_def capacityOK_def
        split: option.splits)
qed

section \<open>Splitting the plan\<close>

lemma podPlan_targets:
  "gget (ap_Targets (podPlan plan ts)) t = (if t \<in> set ts then Some (gget0 None (ap_Targets plan) t) else None)"
proof -
  have "gget (fold (\<lambda>targetNN m. gput m targetNN (gget0 None (ap_Targets plan) targetNN)) ts m) t =
      (if t \<in> set ts then Some (gget0 None (ap_Targets plan) t) else gget m t)" for m
    by (induction ts arbitrary: m) (auto simp: gm.get_put)
  then show ?thesis by (simp add: podPlan_def)
qed

lemma podPlans_get:
  assumes "gwf asg"
  shows "gget (fold (\<lambda>(podIndex, targets) m. gput m podIndex (podPlan plan targets)) asg []) p =
    map_option (podPlan plan) (gget asg p)"
proof -
  have "fold (\<lambda>(podIndex, targets) m. gput m podIndex (podPlan plan targets)) asg [] =
      fold (\<lambda>(k, v) m. gput m k v) (map (\<lambda>(p, ts). (p, podPlan plan ts)) asg) []"
    unfolding fold_map by (rule arg_cong [where f = "\<lambda>f. fold f asg []"]) (auto simp: fun_eq_iff)
  moreover have "map_of (rev (map (\<lambda>(p, ts). (p, podPlan plan ts)) asg)) = map_of (map (\<lambda>(p, ts). (p, podPlan plan ts)) asg)"
    using assms by (intro map_of_inject_set [THEN iffD2]) (auto simp: gwf_def comp_def case_prod_beta simp flip: rev_map)
  ultimately show ?thesis
    by (simp add: gm.get_put_all map_of_map) (simp add: gget_def map_of_map split: option.split)
qed

text \<open>The targets of a pod's plan, none for a pod without a plan.\<close>

definition podTargets :: "distribute_result \<Rightarrow> int \<Rightarrow> string set" where
  "podTargets r p = (case gget (dr_PerPodPlans r) p of None \<Rightarrow> {} | Some pp \<Rightarrow> set (gkeys (ap_Targets pp)))"

lemma podTargets_distributeWith:
  assumes "gwf (place (ap_Targets plan) (Some (distributeOptions plan n td)))"
  shows "podTargets (distributeWith place plan n td) p =
    set (gget0 [] (place (ap_Targets plan) (Some (distributeOptions plan n td))) p)"
  using assms
  by (auto simp: podTargets_def distributeWith_def Let_def podPlans_get gget0_def gm.keys_iff
      podPlan_targets split: option.splits if_splits)

lemma set_concat_gget0:
  assumes "gwf asg"
  shows "t \<in> \<Union>(set ` set (map snd asg)) \<longleftrightarrow> (\<exists>p. t \<in> set (gget0 [] asg p))"
proof
  assume "t \<in> \<Union>(set ` set (map snd asg))"
  then obtain p ts where "(p, ts) \<in> set asg" "t \<in> set ts" by auto
  then show "\<exists>p. t \<in> set (gget0 [] asg p)"
    using gget_in [OF assms, of p ts] by (intro exI [of _ p]) (simp add: gget0_def)
next
  assume "\<exists>p. t \<in> set (gget0 [] asg p)"
  then obtain p ts where "gget asg p = Some ts" "t \<in> set ts"
    using gget0_in_Some by fast
  then show "t \<in> \<Union>(set ` set (map snd asg))"
    by (force dest: gget_Some_in)
qed

context placement_strategy
begin

lemma place_on_pod:
  assumes "okOptions targets opts"
  shows "t \<in> set (gget0 [] (place targets (Some opts)) p) \<Longrightarrow> p \<in> {0..<po_NumPods opts}"
    and "(\<exists>p. t \<in> set (gget0 [] (place targets (Some opts)) p)) \<longleftrightarrow>
      t \<in># placed (po_NumPods opts) (place targets (Some opts))"
proof -
  show range: "p \<in> {0..<po_NumPods opts}" if "t \<in> set (gget0 [] (place targets (Some opts)) p)" for p
    using gget0_in_keys [OF that] place_bounded [OF assms] by (auto simp: bounded_def)
  show "(\<exists>p. t \<in> set (gget0 [] (place targets (Some opts)) p)) \<longleftrightarrow>
      t \<in># placed (po_NumPods opts) (place targets (Some opts))"
    using range by (auto simp: in_placed)
qed

lemma place_wf: "okOptions targets opts \<Longrightarrow> gwf (place targets (Some opts))"
  using place_bounded by (simp add: bounded_def)

end

text \<open>The same interface for the targets of a plan, with what \<^verbatim>\<open>DistributeTargets\<close> makes of it.\<close>

locale target_distributor = placement_strategy place
  for place :: "(string, target_config option) gomap \<Rightarrow> placement_opts option \<Rightarrow> assignment"
begin

lemma podTargets_place:
  assumes "planOK plan" and "capacityOK td"
  shows "podTargets (distributeWith place plan n td) p =
    set (gget0 [] (place (ap_Targets plan) (Some (distributeOptions plan n td))) p)"
  by (intro podTargets_distributeWith place_wf planOK_options assms)

lemma podTargets_sub:
  assumes "planOK plan" and "capacityOK td" and "t \<in> podTargets (distributeWith place plan n td) p"
  shows "t \<in> set (gkeys (ap_Targets plan))" and "p \<in> {0..<po_NumPods (distributeOptions plan n td)}"
proof -
  note ok = planOK_options [OF assms(1,2), of n]
  have t: "t \<in> set (gget0 [] (place (ap_Targets plan) (Some (distributeOptions plan n td))) p)"
    using assms by (simp add: podTargets_place)
  then show "p \<in> {0..<po_NumPods (distributeOptions plan n td)}"
    by (rule place_on_pod(1) [OF ok])
  show "t \<in> set (gkeys (ap_Targets plan))"
    using place_only [OF ok] place_on_pod(2) [OF ok, of t] t by blast
qed

lemma podTargets_unique:
  assumes "planOK plan" and "capacityOK td" and "t \<in> podTargets (distributeWith place plan n td) p"
    and "t \<in> podTargets (distributeWith place plan n td) q"
  shows "p = q"
  using assms place_unique_pod [OF planOK_options [OF assms(1,2), of n]] by (simp add: podTargets_place)

lemma podTargets_card:
  assumes "planOK plan" and "capacityOK td"
  shows "card (podTargets (distributeWith place plan n td) p)
    \<le> nat (podCapacity (length (ap_Targets plan)) (distributeOptions plan n td))"
  using place_bounded [OF planOK_options [OF assms, of n]]
  by (auto simp: podTargets_place [OF assms] bounded_def intro: order_trans [OF card_length])

lemma unassigned_set:
  assumes "planOK plan" and "capacityOK td"
  shows "set (dr_UnassignedTargets (distributeWith place plan n td)) =
    set (gkeys (ap_Targets plan)) - (\<Union>p. podTargets (distributeWith place plan n td) p)"
proof -
  let ?asg = "place (ap_Targets plan) (Some (distributeOptions plan n td))"
  have "gwf ?asg" by (intro place_wf planOK_options assms)
  then have "set (dr_UnassignedTargets (distributeWith place plan n td)) =
      {t \<in> set (gkeys (ap_Targets plan)). \<not> (\<exists>p. t \<in> set (gget0 [] ?asg p))}"
    unfolding distributeWith_def Let_def
    by (simp add: set_concat_gget0 [symmetric])
  then show ?thesis by (auto simp: podTargets_place [OF assms])
qed

lemma unassigned_length:
  assumes "planOK plan" and "capacityOK td"
  shows "length (dr_UnassignedTargets (distributeWith place plan n td)) =
    length (ap_Targets plan) - nat (po_NumPods (distributeOptions plan n td)) *
      nat (podCapacity (length (ap_Targets plan)) (distributeOptions plan n td))"
proof -
  let ?opts = "distributeOptions plan n td"
  let ?pl = "placed (po_NumPods ?opts) (place (ap_Targets plan) (Some ?opts))"
  let ?un = "dr_UnassignedTargets (distributeWith place plan n td)"
  note ok = planOK_options [OF assms, of n]
  have wf: "distinct (gkeys (ap_Targets plan))" "length (gkeys (ap_Targets plan)) = length (ap_Targets plan)"
    using assms(1) by (simp_all add: planOK_def gm.keys_distinct gkeys_def gwf_def)
  then have "distinct ?un"
    by (simp add: distributeWith_def Let_def)
  then have "length ?un = card (set ?un)" by (simp add: distinct_card)
  also have "set ?un = set (gkeys (ap_Targets plan)) - set_mset ?pl"
    using place_on_pod(2) [OF ok] by (auto simp: unassigned_set [OF assms] podTargets_place [OF assms])
  also have "card \<dots> = length (ap_Targets plan) - size ?pl"
    using wf place_only [OF ok] size_mset_once [OF place_once [OF ok]]
    by (simp add: card_Diff_subset distinct_card)
  finally show ?thesis
    unfolding place_max [OF ok] by linarith
qed

end

interpretation dist: target_distributor distributeTargets
  by unfold_locales

section \<open>From the builder to the pods\<close>

lemma Build_targets_wf:
  assumes "Build yaml b = Inr plan"
  shows "gwf (ap_Targets plan)"
  by (rule foldE_inv [OF assms [unfolded Build_unfold], where I = "\<lambda>plan. gwf (ap_Targets plan)"])
    (auto simp: emptyPlan_def elim!: buildPipeline_parts intro: build_missing_wf)

text \<open>Every target of a pipeline comes with its profile, and a name stands for one target.\<close>

definition targetsResolved :: "plan_builder \<Rightarrow> bool" where
  "targetsResolved b \<longleftrightarrow>
     (\<forall>pd \<in> set (map snd (b_pipelines b)). \<forall>x \<in> set (pd_Targets pd).
        hasProfile pd (fst x) (ts_Profile (t_Spec (snd x)))) \<and>
     (\<forall>pd \<in> set (map snd (b_pipelines b)). \<forall>pd' \<in> set (map snd (b_pipelines b)).
        \<forall>x \<in> set (pd_Targets pd). \<forall>y \<in> set (pd_Targets pd'). fst x = fst y \<longrightarrow> snd x = snd y)"

lemma targetsResolved_profile:
  "targetsResolved b \<Longrightarrow> pd \<in> set (map snd (b_pipelines b)) \<Longrightarrow> (t, tg) \<in> set (pd_Targets pd) \<Longrightarrow>
   hasProfile pd t (ts_Profile (t_Spec tg))"
  unfolding targetsResolved_def by fastforce

lemma targetsResolved_same:
  "targetsResolved b \<Longrightarrow> pd \<in> set (map snd (b_pipelines b)) \<Longrightarrow> pd' \<in> set (map snd (b_pipelines b)) \<Longrightarrow>
   (t, tg) \<in> set (pd_Targets pd) \<Longrightarrow> (t, tg') \<in> set (pd_Targets pd') \<Longrightarrow> tg = tg'"
  unfolding targetsResolved_def by (metis fst_conv snd_conv)

lemma Build_planOK:
  assumes "Build yaml b = Inr plan" and "builderWf b" and "targetsResolved b"
  shows "planOK plan"
  unfolding planOK_def
proof (intro conjI allI impI subsetI)
  have cur: "ap_CurrentTargetAssignment plan = currentOfPipelines b"
    by (rule Build_inv(2) [OF assms(1,2)])
  show "gwf (ap_Targets plan)" by (rule Build_targets_wf [OF assms(1)])
  show "strsetsWf (ap_CurrentTargetAssignment plan)" by (simp add: cur currentOfPipelines_wf)
  show "t \<in> set (gkeys (ap_Targets plan))"
    if "t \<in> set (gkeys (gget0 [] (ap_CurrentTargetAssignment plan) p))" for p t
  proof -
    from that obtain pd tg where pd: "pd \<in> set (map snd (b_pipelines b))" "(t, tg) \<in> set (pd_Targets pd)"
      unfolding cur currentOfPipelines_iff by blast
    then have "gwf (pd_Targets pd)"
      using assms(2) by (auto simp: builderWf_def pipelineWf_def list_all_iff)
    then have "gget (pd_Targets pd) t = Some tg" using pd(2) by (rule gget_in)
    with pd targetsResolved_profile [OF assms(3) pd] show ?thesis
      unfolding Build_targets(1) [OF assms(1,2)] by (intro bexI exI conjI)
  qed
  show "p = q" if "t \<in> set (gkeys (gget0 [] (ap_CurrentTargetAssignment plan) p))"
    "t \<in> set (gkeys (gget0 [] (ap_CurrentTargetAssignment plan) q))" for p q t
    using that targetsResolved_same [OF assms(3)] unfolding cur currentOfPipelines_iff
    by (metis option.inject)
qed

section \<open>Properties\<close>

definition exPlan :: apply_plan where
  "exPlan = emptyPlan\<lparr>ap_Targets := [(''n/a'', Some emptyTargetConfig), (''n/b'', Some emptyTargetConfig),
     (''n/c'', Some emptyTargetConfig)], ap_CurrentTargetAssignment := [(1, [(''n/a'', ())])]\<rparr>"

lemma exPlan_ok: "planOK exPlan"
  by (auto simp: planOK_def exPlan_def emptyPlan_def strsetsWf_def gwf_def gget0_def gget_def gkeys_def)

lemma targets_partition:
  assumes "planOK plan" and "capacityOK td"
  shows "let r = DistributeTargets plan numPods td; n = (if numPods \<le> 0 then 1 else numPods)
    in set (gkeys (ap_Targets plan)) = (\<Union>p. podTargets r p) \<union> set (dr_UnassignedTargets r)
     \<and> (\<Union>p. podTargets r p) \<inter> set (dr_UnassignedTargets r) = {}
     \<and> (\<forall>t p q. t \<in> podTargets r p \<longrightarrow> t \<in> podTargets r q \<longrightarrow> p = q)
     \<and> (\<forall>t p. t \<in> podTargets r p \<longrightarrow> 0 \<le> p \<and> p < n)"
proof -
  have pods: "po_NumPods (distributeOptions plan numPods td) = (if numPods \<le> 0 then 1 else numPods)"
    by (simp add: distributeOptions_def)
  have sub: "(\<Union>p. podTargets (DistributeTargets plan numPods td) p) \<subseteq> set (gkeys (ap_Targets plan))"
    using dist.podTargets_sub(1) [OF assms] by (auto simp: DistributeTargets_def)
  have un: "set (dr_UnassignedTargets (DistributeTargets plan numPods td)) =
      set (gkeys (ap_Targets plan)) - (\<Union>p. podTargets (DistributeTargets plan numPods td) p)"
    using dist.unassigned_set [OF assms] by (simp add: DistributeTargets_def)
  have uniq: "p = q" if "t \<in> podTargets (DistributeTargets plan numPods td) p"
    "t \<in> podTargets (DistributeTargets plan numPods td) q" for t p q
    using dist.podTargets_unique [OF assms] that by (simp add: DistributeTargets_def)
  have range: "0 \<le> p \<and> p < (if numPods \<le> 0 then 1 else numPods)"
    if "t \<in> podTargets (DistributeTargets plan numPods td) p" for t p
    using dist.podTargets_sub(2) [OF assms that [unfolded DistributeTargets_def]] pods
    by (simp add: DistributeTargets_def)
  show ?thesis
    unfolding Let_def
  proof (intro conjI)
    show "set (gkeys (ap_Targets plan)) = (\<Union>p. podTargets (DistributeTargets plan numPods td) p)
        \<union> set (dr_UnassignedTargets (DistributeTargets plan numPods td))"
      using sub unfolding un by (simp only: Un_Diff_cancel Un_absorb1)
  qed (use un uniq range in auto)
qed

text \<open>
  C5: Every target of the plan ends up in the plan of exactly one pod, whose index is in range, or in
  the list of unassigned targets; no pod plan holds anything else.
\<close>

theorem DistributeTargets_partition:
  assumes "planOK plan" and "capacityOK td"
  shows "let r = DistributeTargets plan numPods td; n = (if numPods \<le> 0 then 1 else numPods)
    in set (gkeys (ap_Targets plan)) = (\<Union>p. podTargets r p) \<union> set (dr_UnassignedTargets r)
     \<and> (\<Union>p. podTargets r p) \<inter> set (dr_UnassignedTargets r) = {}
     \<and> (\<forall>t p q. t \<in> podTargets r p \<longrightarrow> t \<in> podTargets r q \<longrightarrow> p = q)
     \<and> (\<forall>t p. t \<in> podTargets r p \<longrightarrow> 0 \<le> p \<and> p < n)"
  by (rule targets_partition [OF assms])

theorem DistributeTargets_partition_witness:
  "planOK exPlan \<and> capacityOK None \<and>
   {''n/a'', ''n/b'', ''n/c''} = (\<Union>p. podTargets (DistributeTargets exPlan 2 None) p)
      \<union> set (dr_UnassignedTargets (DistributeTargets exPlan 2 None))"
proof -
  have "set (gkeys (ap_Targets exPlan)) = {''n/a'', ''n/b'', ''n/c''}"
    by (simp add: exPlan_def gkeys_def)
  then show ?thesis
    using DistributeTargets_partition [OF exPlan_ok, of None 2] exPlan_ok
    by (simp add: capacityOK_def Let_def)
qed

text \<open>
  C11: No pod gets more targets than its capacity, and targets stay unassigned only for want of room:
  their number is exactly the excess over the capacity of all pods, which is none when no capacity
  is configured.
\<close>

theorem DistributeTargets_capacity:
  assumes "planOK plan" and "capacityOK td"
  shows "let r = DistributeTargets plan numPods td; n = (if numPods \<le> 0 then 1 else numPods);
        c = podCapacity (length (ap_Targets plan)) (distributeOptions plan numPods td)
    in (\<forall>p. card (podTargets r p) \<le> nat c)
     \<and> length (dr_UnassignedTargets r) = length (ap_Targets plan) - nat n * nat c
     \<and> (po_Capacity (distributeOptions plan numPods td) = 0 \<longrightarrow> dr_UnassignedTargets r = [])"
proof -
  let ?opts = "distributeOptions plan numPods td"
  have pods: "po_NumPods ?opts = (if numPods \<le> 0 then 1 else numPods)" "1 \<le> po_NumPods ?opts"
    by (simp_all add: distributeOptions_def)
  have len: "length (dr_UnassignedTargets (DistributeTargets plan numPods td)) =
      length (ap_Targets plan) - nat (po_NumPods ?opts) * nat (podCapacity (length (ap_Targets plan)) ?opts)"
    using dist.unassigned_length [OF assms] by (simp add: DistributeTargets_def)
  moreover have "dr_UnassignedTargets (DistributeTargets plan numPods td) = []" if "po_Capacity ?opts = 0"
    using len podCapacity_default_enough [OF pods(2) that, of "length (ap_Targets plan)"] by simp
  moreover have "card (podTargets (DistributeTargets plan numPods td) p)
      \<le> nat (podCapacity (length (ap_Targets plan)) ?opts)" for p
    using dist.podTargets_card [OF assms] by (simp add: DistributeTargets_def)
  ultimately show ?thesis
    unfolding Let_def pods(1) [symmetric] by blast
qed

theorem DistributeTargets_capacity_witness:
  "length (dr_UnassignedTargets (DistributeTargets exPlan 2 (Some \<lparr>td_PodCapacity = 1\<rparr>))) = 1
   \<and> dr_UnassignedTargets (DistributeTargets exPlan 2 None) = []"
proof
  have "length (ap_Targets exPlan) = 3" by (simp add: exPlan_def)
  then show "length (dr_UnassignedTargets (DistributeTargets exPlan 2 (Some \<lparr>td_PodCapacity = 1\<rparr>))) = 1"
    using DistributeTargets_capacity [OF exPlan_ok, of "Some \<lparr>td_PodCapacity = 1\<rparr>" 2]
    by (simp add: capacityOK_def Let_def distributeOptions_def podCapacity_def)
  show "dr_UnassignedTargets (DistributeTargets exPlan 2 None) = []"
    using DistributeTargets_capacity [OF exPlan_ok, of None 2]
    by (simp add: capacityOK_def Let_def distributeOptions_def)
qed

lemma currentOf_distributeOptions:
  assumes "planOK plan"
  shows "gget0 [] (currentOf (distributeOptions plan n td)) p =
    sort (gkeys (gget0 [] (ap_CurrentTargetAssignment plan) p))"
  using assms
  by (simp add: currentOf_def distributeOptions_def currentSlices_get planOK_def strsetsWf_def)

text \<open>
  C21: Placement is sticky: as long as a pod is in range and does not hold more targets than its
  capacity, every target that runs on it stays on it.
\<close>

theorem DistributeTargets_sticky:
  assumes "planOK plan" and "capacityOK td"
    and "t \<in> set (gkeys (gget0 [] (ap_CurrentTargetAssignment plan) p))"
    and "p < (if numPods \<le> 0 then 1 else numPods)"
    and "int (length (gget0 [] (ap_CurrentTargetAssignment plan) p)) \<le>
      podCapacity (length (ap_Targets plan)) (distributeOptions plan numPods td)"
  shows "t \<in> podTargets (DistributeTargets plan numPods td) p"
proof -
  let ?opts = "distributeOptions plan numPods td"
  let ?cap = "podCapacity (length (ap_Targets plan)) ?opts"
  note ok = planOK_options [OF assms(1,2), of numPods]
  have "t \<in> set (gkeys (ap_Targets plan))"
    using assms(1,3) by (auto simp: planOK_def)
  then have ne: "ap_Targets plan \<noteq> []" by auto
  have "p \<in> set (gkeys (ap_CurrentTargetAssignment plan))"
    using assms(3) by (cases "gget (ap_CurrentTargetAssignment plan) p") (auto simp: gget0_def gm.keys_iff)
  then have p: "0 \<le> p" "p < po_NumPods ?opts"
    using assms(1,4) by (auto simp: planOK_def strsetsWf_def distributeOptions_def)
  have "length (sortByScore p (sort (gkeys (gget0 [] (ap_CurrentTargetAssignment plan) p)))) \<le> nat ?cap"
    using assms(5) by (simp add: sortByScore_def gkeys_def)
  then have "t \<in> set (kept ?cap (currentOf ?opts) p)"
    using assms(3) by (simp add: kept_def currentOf_distributeOptions [OF assms(1)])
  then have "t \<in> set (gget0 [] (boundedLoadRendezvousHash (ap_Targets plan) ?opts) p)"
    using boundedLoad_sticky [OF ok ne p] by auto
  then show ?thesis
    by (simp add: DistributeTargets_def dist.podTargets_place [OF assms(1,2)] distributeTargets_ok [OF ok])
qed

theorem DistributeTargets_sticky_witness:
  "''n/a'' \<in> podTargets (DistributeTargets exPlan 2 None) 1"
  by (rule DistributeTargets_sticky [OF exPlan_ok])
    (simp_all add: capacityOK_def exPlan_def emptyPlan_def gget0_def gget_def gkeys_def
      podCapacity_def distributeOptions_def go_div_def)

text \<open>
  C22: The order in which Go iterates over the map of targets does not influence where they are
  placed: two plans whose target maps have the same names give every pod the same targets.
\<close>

theorem DistributeTargets_deterministic:
  assumes "planOK plan" and "planOK plan'" and "capacityOK td"
    and "set (gkeys (ap_Targets plan)) = set (gkeys (ap_Targets plan'))"
    and "ap_CurrentTargetAssignment plan = ap_CurrentTargetAssignment plan'"
  shows "podTargets (DistributeTargets plan n td) = podTargets (DistributeTargets plan' n td)"
proof
  fix p
  have opts: "distributeOptions plan n td = distributeOptions plan' n td"
    using assms(5) by (simp add: distributeOptions_def)
  have "distinct (gkeys (ap_Targets plan))" "distinct (gkeys (ap_Targets plan'))"
    using assms(1,2) by (simp_all add: planOK_def gm.keys_distinct)
  then have "mset (gkeys (ap_Targets plan)) = mset (gkeys (ap_Targets plan'))"
    using assms(4) by (simp add: set_eq_iff_mset_eq_distinct)
  then show "podTargets (DistributeTargets plan n td) p = podTargets (DistributeTargets plan' n td) p"
    using boundedLoad_order [of "ap_Targets plan" "ap_Targets plan'"] opts
      planOK_options [OF assms(1,3), of n] planOK_options [OF assms(2,3), of n]
    by (simp add: DistributeTargets_def dist.podTargets_place [OF assms(1,3)]
        dist.podTargets_place [OF assms(2,3)] distributeTargets_ok)
qed

theorem DistributeTargets_deterministic_witness:
  "podTargets (DistributeTargets exPlan 2 None) =
   podTargets (DistributeTargets (exPlan\<lparr>ap_Targets := rev (ap_Targets exPlan)\<rparr>) 2 None)"
  by (rule DistributeTargets_deterministic)
    (auto simp: exPlan_ok capacityOK_def planOK_def exPlan_def emptyPlan_def strsetsWf_def gwf_def
      gget0_def gget_def gkeys_def)

end
