(* ===== verification/Cluster_Plan.thy ===== *)
theory Cluster_Plan
  imports Pipeline_Resolve Distribute Target_State
begin

text \<open>
  The middle and the end of \<^verbatim>\<open>ClusterReconciler.Reconcile\<close>
  (\<^verbatim>\<open>internal/controller/cluster_controller.go\<close>): the pipelines of a cluster are gathered into a plan,
  the plan is cached (\<^verbatim>\<open>cluster_controller_plan.go\<close>) and sent to the pods, and the statuses of the
  pipelines and of the cluster are written.

  The state is a world \<open>'w\<close> of pods and stored objects that only the requests of the environment
  change. Parameters (the fields of \<open>cluster_env\<close>): the client's reads, the selectors, YAML and JSON,
  the file system, \<^verbatim>\<open>tls.X509KeyPair\<close>, HTTP exchanges, the status writes, and how an API error, a
  pointer and a quoted string print. A request that cannot be built is an exchange that fails.
\<close>

section \<open>The environment\<close>

record issuer =
  iss_CASecretName :: "string option" \<comment> \<open>\<^verbatim>\<open>Spec.CA\<close>, nil or with its secret name\<close>

text \<open>The client's certificate and key, and the certificates of its root pool; nil is \<open>None\<close>.\<close>

datatype http_client = PlainClient | TLSClient "(string \<times> string) option" "string list option"

record http_reply =
  hr_Status :: int
  hr_Body :: "string + string" \<comment> \<open>what \<^verbatim>\<open>io.ReadAll\<close> gives\<close>

record 'w cluster_env =
  ce_Readers :: readers
  ce_AsSelector :: selector_fn
  ce_Yaml :: "string yaml_fn"
  ce_Domain :: string
  ce_Getenv :: "string \<Rightarrow> string"
  ce_ReadFile :: "string \<Rightarrow> string + string"
  ce_KeyPair :: "string \<Rightarrow> string \<Rightarrow> string option" \<comment> \<open>the error, if any\<close>
  ce_Issuer :: "string \<Rightarrow> string \<Rightarrow> api_error + issuer"
  ce_PlanJSON :: "apply_plan \<Rightarrow> string + string"
  ce_MatchJSON :: "tunnel_target_match \<Rightarrow> string + string"
  ce_DecodeKeys :: "string \<Rightarrow> string + string list"
  ce_Do :: "http_client \<Rightarrow> string \<Rightarrow> string \<Rightarrow> string \<Rightarrow> 'w \<Rightarrow> (string + http_reply) \<times> 'w" \<comment> \<open>method, URL, body\<close>
  ce_GetPipeline :: "string \<Rightarrow> string \<Rightarrow> 'w \<Rightarrow> (api_error + pipeline) \<times> 'w"
  ce_UpdatePipeline :: "pipeline \<Rightarrow> 'w \<Rightarrow> api_error option \<times> 'w"
  ce_UpdateCluster :: "cluster \<Rightarrow> 'w \<Rightarrow> api_error option \<times> 'w"
  ce_ErrText :: "api_error \<Rightarrow> string"
  ce_PointerText :: "int option \<Rightarrow> string"
  ce_Quote :: "string \<Rightarrow> string" \<comment> \<open>\<^verbatim>\<open>%q\<close>\<close>

section \<open>Gathering a pipeline\<close>

definition metaNN :: "object_meta \<Rightarrow> string" where
  "metaNN m = nsname (m_Namespace m) (m_Name m)"

definition putProfile :: "target_profile_spec resource \<Rightarrow> pipeline_data \<Rightarrow> pipeline_data" where
  "putProfile p pd = pd\<lparr>pd_TargetProfiles := gput (pd_TargetProfiles pd) (metaNN (r_Meta p)) (r_Spec p)\<rparr>"

definition gatherTargets :: "readers \<Rightarrow> selector_fn \<Rightarrow> pipeline \<Rightarrow> pipeline_data \<Rightarrow> api_error + pipeline_data" where
  "gatherTargets rs asSelector pl pd =
     bindE (resolveTargets (rds_Targets rs) asSelector pl) (\<lambda>targets.
       let targetProfilesNames = fold (\<lambda>t m. gput m (ts_Profile (t_Spec t)) ()) targets [];
           pd = pd\<lparr>pd_Targets := fold (\<lambda>t m. gput m (metaNN (t_Meta t)) t) targets (pd_Targets pd)\<rparr>
       in foldE (\<lambda>name pd.
            bindE (rd_get (rds_TargetProfiles rs) (m_Namespace (pl_Meta pl)) name) (\<lambda>p. Inr (putProfile p pd)))
            (gkeys targetProfilesNames) pd)"

definition gatherSubscriptions :: "readers \<Rightarrow> selector_fn \<Rightarrow> pipeline \<Rightarrow> pipeline_data \<Rightarrow> api_error + pipeline_data" where
  "gatherSubscriptions rs asSelector pl pd =
     bindE (resolveSubscriptions (rds_Subscriptions rs) asSelector pl) (\<lambda>subscriptions.
       Inr (pd\<lparr>pd_Subscriptions :=
         fold (\<lambda>s m. gput m (metaNN (r_Meta s)) (r_Spec s)) subscriptions (pd_Subscriptions pd)\<rparr>))"

text \<open>An output keeps its static address when its services cannot be resolved.\<close>

definition putOutput :: "readers \<Rightarrow> string yaml_fn \<Rightarrow> string \<Rightarrow> string \<Rightarrow> output_spec resource \<Rightarrow> pipeline_data \<Rightarrow> pipeline_data" where
  "putOutput rs yaml domain pipelineNN out pd =
     (let outputNN = nsname pipelineNN (r_Name out);
          pd = pd\<lparr>pd_Outputs := gput (pd_Outputs pd) outputNN (r_Spec out)\<rparr>
      in if o_Type (r_Spec out) \<notin> set OutputTypesWithServiceRef then pd
         else case resolveOutputServiceAddresses (rds_Services rs) yaml domain out of
                Inl e \<Rightarrow> pd
              | Inr addrs \<Rightarrow>
                  if addrs = [] then pd
                  else pd\<lparr>pd_ResolvedOutputAddresses := gput (pd_ResolvedOutputAddresses pd) outputNN addrs\<rparr>)"

definition gatherOutputs ::
  "readers \<Rightarrow> selector_fn \<Rightarrow> string yaml_fn \<Rightarrow> string \<Rightarrow> pipeline \<Rightarrow> pipeline_data \<Rightarrow> api_error + pipeline_data" where
  "gatherOutputs rs asSelector yaml domain pl pd =
     bindE (resolveOutputs (rds_Outputs rs) asSelector pl) (\<lambda>outputs.
       Inr (fold (putOutput rs yaml domain (metaNN (pl_Meta pl))) outputs pd))"

definition gatherInputs :: "readers \<Rightarrow> selector_fn \<Rightarrow> pipeline \<Rightarrow> pipeline_data \<Rightarrow> api_error + pipeline_data" where
  "gatherInputs rs asSelector pl pd =
     bindE (resolveInputs (rds_Inputs rs) asSelector pl) (\<lambda>inputs.
       Inr (pd\<lparr>pd_Inputs :=
         fold (\<lambda>i m. gput m (nsname (metaNN (pl_Meta pl)) (r_Name i)) (r_Spec i)) inputs (pd_Inputs pd)\<rparr>))"

definition gatherOutputProcessors :: "readers \<Rightarrow> selector_fn \<Rightarrow> pipeline \<Rightarrow> pipeline_data \<Rightarrow> api_error + pipeline_data" where
  "gatherOutputProcessors rs asSelector pl pd =
     bindE (resolveOutputProcessors (rds_Processors rs) asSelector pl) (\<lambda>processors.
       Inr (fold (\<lambda>p pd.
         let processorNN = nsname (metaNN (pl_Meta pl)) (r_Name p)
         in pd\<lparr>pd_OutputProcessors := gput (pd_OutputProcessors pd) processorNN (r_Spec p),
               pd_OutputProcessorOrder := pd_OutputProcessorOrder pd @ [processorNN]\<rparr>) processors pd))"

definition gatherInputProcessors :: "readers \<Rightarrow> selector_fn \<Rightarrow> pipeline \<Rightarrow> pipeline_data \<Rightarrow> api_error + pipeline_data" where
  "gatherInputProcessors rs asSelector pl pd =
     bindE (resolveInputProcessors (rds_Processors rs) asSelector pl) (\<lambda>processors.
       Inr (fold (\<lambda>p pd.
         let processorNN = nsname (metaNN (pl_Meta pl)) (r_Name p)
         in pd\<lparr>pd_InputProcessors := gput (pd_InputProcessors pd) processorNN (r_Spec p),
               pd_InputProcessorOrder := pd_InputProcessorOrder pd @ [processorNN]\<rparr>) processors pd))"

text \<open>A profile of a tunnel policy may be missing; the profiles of targets may not.\<close>

definition tunnelProfile :: "readers \<Rightarrow> pipeline \<Rightarrow> string \<Rightarrow> pipeline_data \<Rightarrow> api_error + pipeline_data" where
  "tunnelProfile rs pl name pd =
     (if gget (pd_TargetProfiles pd) (nsname (m_Namespace (pl_Meta pl)) name) \<noteq> None then Inr pd
      else case rd_get (rds_TargetProfiles rs) (m_Namespace (pl_Meta pl)) name of
             Inl NotFound \<Rightarrow> Inr pd
           | Inl e \<Rightarrow> Inl e
           | Inr p \<Rightarrow> Inr (putProfile p pd))"

definition gatherTunnelPolicies ::
  "readers \<Rightarrow> pipeline \<Rightarrow> tunnel_policy_spec resource list \<Rightarrow> pipeline_data \<Rightarrow> api_error + pipeline_data" where
  "gatherTunnelPolicies rs pl policies pd =
     (let tunnelProfileNames = fold (\<lambda>p m.
            if tpol_Profile (r_Spec p) \<noteq> [] then gput m (tpol_Profile (r_Spec p)) () else m) policies [];
          pd = pd\<lparr>pd_TunnelTargetPolicies :=
            fold (\<lambda>p m. gput m (metaNN (r_Meta p)) (r_Spec p)) policies (pd_TunnelTargetPolicies pd)\<rparr>
      in foldE (tunnelProfile rs pl) (gkeys tunnelProfileNames) pd)"

datatype gathered = Gathered pipeline_data | MissingTunnel

definition gatherPipeline ::
  "readers \<Rightarrow> selector_fn \<Rightarrow> string yaml_fn \<Rightarrow> string \<Rightarrow> cluster \<Rightarrow> pipeline \<Rightarrow> api_error + gathered" where
  "gatherPipeline rs asSelector yaml domain cl pl =
     bindE (gatherTargets rs asSelector pl NewPipelineData) (\<lambda>pd.
     bindE (gatherSubscriptions rs asSelector pl pd) (\<lambda>pd.
     bindE (gatherOutputs rs asSelector yaml domain pl pd) (\<lambda>pd.
     bindE (gatherInputs rs asSelector pl pd) (\<lambda>pd.
     bindE (gatherOutputProcessors rs asSelector pl pd) (\<lambda>pd.
     bindE (gatherInputProcessors rs asSelector pl pd) (\<lambda>pd.
     bindE (resolveTunnelTargetPolicies (rds_TunnelTargetPolicies rs) asSelector pl) (\<lambda>policies.
       if policies \<noteq> [] \<and> cs_GRPCTunnel (cl_Spec cl) = None then Inr MissingTunnel
       else bindE (gatherTunnelPolicies rs pl policies pd) (\<lambda>pd. Inr (Gathered pd)))))))))"

section \<open>Pipeline status\<close>

definition PipelineConditionTypeReady :: string where "PipelineConditionTypeReady = ''Ready''"
definition PipelineConditionTypeResourcesResolved :: string where
  "PipelineConditionTypeResourcesResolved = ''ResourcesResolved''"

text \<open>An unchanged condition keeps the time of its last transition.\<close>

definition preserveTransition :: "condition list \<Rightarrow> condition \<Rightarrow> condition" where
  "preserveTransition old c =
     (case find (\<lambda>oc. co_Type oc = co_Type c \<and> co_Status oc = co_Status c) old of
        None \<Rightarrow> c
      | Some oc \<Rightarrow> c\<lparr>co_LastTransitionTime := co_LastTransitionTime oc\<rparr>)"

definition pipelineReady :: "pipeline_data \<Rightarrow> bool" where
  "pipelineReady pd \<longleftrightarrow>
     (length (pd_Targets pd) > 0 \<and> length (pd_Subscriptions pd) > 0 \<or>
      length (pd_TunnelTargetPolicies pd) > 0 \<and> length (pd_Subscriptions pd) > 0 \<or>
      length (pd_Inputs pd) > 0) \<and> length (pd_Outputs pd) > 0"

definition missingParts :: "pipeline_data \<Rightarrow> string list" where
  "missingParts pd =
     (if length (pd_Outputs pd) > 0 then [] else [''outputs'']) @
     (if \<not> length (pd_Targets pd) > 0 \<and> \<not> length (pd_Inputs pd) > 0 then [''targets or inputs''] else []) @
     (if length (pd_Targets pd) > 0 \<and> \<not> length (pd_Subscriptions pd) > 0 then [''subscriptions''] else [])"

definition lenText :: "'a list \<Rightarrow> string" where
  "lenText xs = Itoa (int (length xs))"

definition pipelineConditions :: "time \<Rightarrow> pipeline \<Rightarrow> pipeline_data \<Rightarrow> condition list" where
  "pipelineConditions now pl pd =
     [\<lparr>co_Type = PipelineConditionTypeReady,
       co_Status = (if pipelineReady pd then ''True'' else ''False''),
       co_ObservedGeneration = m_Generation (pl_Meta pl), co_LastTransitionTime = now,
       co_Reason = (if pipelineReady pd then ''PipelineReady'' else ''PipelineIncomplete''),
       co_Message = (if pipelineReady pd
         then ''Pipeline has '' @ lenText (pd_Targets pd) @ '' targets, '' @ lenText (pd_TunnelTargetPolicies pd) @
           '' tunnel policies, '' @ lenText (pd_Subscriptions pd) @ '' subscriptions, '' @ lenText (pd_Inputs pd) @
           '' inputs, '' @ lenText (pd_Outputs pd) @ '' outputs''
         else ''Pipeline missing: '' @ Join (missingParts pd) '', '')\<rparr>,
      \<lparr>co_Type = PipelineConditionTypeResourcesResolved, co_Status = ''True'',
       co_ObservedGeneration = m_Generation (pl_Meta pl), co_LastTransitionTime = now,
       co_Reason = ''ResourcesResolved'', co_Message = ''All referenced resources were successfully resolved''\<rparr>]"

definition pipelineStatusOf :: "time \<Rightarrow> pipeline \<Rightarrow> pipeline_data \<Rightarrow> pipeline_status" where
  "pipelineStatusOf now pl pd =
     \<lparr>pst_Status = (if pipelineReady pd then ''Active'' else ''Incomplete''),
      pst_TargetsCount = int32 (int (length (pd_Targets pd))),
      pst_SubscriptionsCount = int32 (int (length (pd_Subscriptions pd))),
      pst_InputsCount = int32 (int (length (pd_Inputs pd))),
      pst_OutputsCount = int32 (int (length (pd_Outputs pd))),
      pst_TunnelTargetPoliciesCount = int32 (int (length (pd_TunnelTargetPolicies pd))),
      pst_Conditions = map (preserveTransition (pst_Conditions (pl_Status pl))) (pipelineConditions now pl pd)\<rparr>"

definition conditionEqual :: "condition \<Rightarrow> condition \<Rightarrow> bool" where
  "conditionEqual a b \<longleftrightarrow> co_Type a = co_Type b \<and> co_Status a = co_Status b \<and>
     co_Reason a = co_Reason b \<and> co_Message a = co_Message b"

definition pipelineStatusEqual :: "pipeline_status \<Rightarrow> pipeline_status \<Rightarrow> bool" where
  "pipelineStatusEqual a b \<longleftrightarrow>
     pst_Status a = pst_Status b \<and> pst_TargetsCount a = pst_TargetsCount b \<and>
     pst_SubscriptionsCount a = pst_SubscriptionsCount b \<and> pst_InputsCount a = pst_InputsCount b \<and>
     pst_OutputsCount a = pst_OutputsCount b \<and> pst_TunnelTargetPoliciesCount a = pst_TunnelTargetPoliciesCount b \<and>
     list_all2 conditionEqual (pst_Conditions a) (pst_Conditions b)"

text \<open>The retry loop of both status writers: a conflict reads the object again.\<close>

datatype write_result = Written | Refetch api_error | Refused api_error | Conflicts

fun writePipelineStatus ::
  "'w cluster_env \<Rightarrow> nat \<Rightarrow> pipeline_status \<Rightarrow> string \<Rightarrow> string \<Rightarrow> 'w \<Rightarrow> write_result \<times> 'w" where
  "writePipelineStatus env 0 newStatus ns name w = (Conflicts, w)"
| "writePipelineStatus env (Suc n) newStatus ns name w =
     (case ce_GetPipeline env ns name w of
        (Inl e, w) \<Rightarrow> (Refetch e, w)
      | (Inr pl, w) \<Rightarrow>
          (case ce_UpdatePipeline env (pl\<lparr>pl_Status := newStatus\<rparr>) w of
             (None, w) \<Rightarrow> (Written, w)
           | (Some Conflict, w) \<Rightarrow> writePipelineStatus env n newStatus ns name w
           | (Some e, w) \<Rightarrow> (Refused e, w)))"

definition updatePipelineStatus ::
  "'w cluster_env \<Rightarrow> time \<Rightarrow> pipeline \<Rightarrow> pipeline_data \<Rightarrow> 'w \<Rightarrow> write_result option \<times> 'w" where
  "updatePipelineStatus env now pl pd w =
     (let newStatus = pipelineStatusOf now pl pd
      in if pipelineStatusEqual (pl_Status pl) newStatus then (None, w)
         else case writePipelineStatus env 5 newStatus (m_Namespace (pl_Meta pl)) (m_Name (pl_Meta pl)) w of
                (Refetch e, w) \<Rightarrow> (Some (Refetch e), w)
              | (Refused e, w) \<Rightarrow> (Some (Refused e), w)
              | (_, w) \<Rightarrow> (None, w))"

definition updatePipelineStatusWithError ::
  "'w cluster_env \<Rightarrow> time \<Rightarrow> pipeline \<Rightarrow> string \<Rightarrow> string \<Rightarrow> 'w \<Rightarrow> write_result option \<times> 'w" where
  "updatePipelineStatusWithError env now pl reason message w =
     (let newStatus = \<lparr>pst_Status = ''Error'', pst_TargetsCount = 0, pst_SubscriptionsCount = 0, pst_InputsCount = 0,
            pst_OutputsCount = 0, pst_TunnelTargetPoliciesCount = 0,
            pst_Conditions = [\<lparr>co_Type = PipelineConditionTypeReady, co_Status = ''False'',
              co_ObservedGeneration = m_Generation (pl_Meta pl), co_LastTransitionTime = now,
              co_Reason = reason, co_Message = message\<rparr>]\<rparr>
      in case writePipelineStatus env 5 newStatus (m_Namespace (pl_Meta pl)) (m_Name (pl_Meta pl)) w of
           (Written, w) \<Rightarrow> (None, w)
         | (r, w) \<Rightarrow> (Some r, w))"

section \<open>The plan of a cluster\<close>

type_synonym plans = "(string, apply_plan) gomap"

definition CachePlan :: "string \<Rightarrow> string \<Rightarrow> apply_plan \<Rightarrow> plans \<Rightarrow> plans" where
  "CachePlan ns name plan plans = gput plans (ns @ ''/'' @ name) plan"

definition GetClusterPlan :: "string \<Rightarrow> string \<Rightarrow> plans \<Rightarrow> string + apply_plan" where
  "GetClusterPlan ns name plans =
     (case gget plans (ns @ ''/'' @ name) of
        None \<Rightarrow> Inl (''plan not found for cluster '' @ ns @ ''/'' @ name)
      | Some plan \<Rightarrow> Inr plan)"

definition cleanupPlan :: "string \<Rightarrow> string \<Rightarrow> plans \<Rightarrow> plans" where
  "cleanupPlan ns name plans = gdel plans (ns @ ''/'' @ name)"

definition newBuilder :: "'w cluster_env \<Rightarrow> cluster \<Rightarrow> plan_builder" where
  "newBuilder env cl =
     (let creds = (\<lambda>ns ref. map_sum (ce_ErrText env) id (FetchCredentials (ce_Readers env) ns ref));
          b = WithClientTLS (ClientTLSConfigForCluster (cl_Spec cl)) (NewPlanBuilder (m_Name (cl_Meta cl)) (Some creds))
      in case cs_TargetDistribution (cl_Spec cl) of
           None \<Rightarrow> b
         | Some td \<Rightarrow> if td_PodCapacity td > 0 then WithTargetDistributionCapacity (td_PodCapacity td) b else b)"

text \<open>
  One round of the loop over the pipelines: the builder, \<^verbatim>\<open>pipelineDataMap\<close> and the world. Failed status
  writes are only logged.
\<close>

definition reconcilePipeline ::
  "'w cluster_env \<Rightarrow> time \<Rightarrow> cluster \<Rightarrow> pipeline \<Rightarrow> plan_builder \<times> (string, pipeline_data) gomap \<Rightarrow> 'w \<Rightarrow>
   (api_error + plan_builder \<times> (string, pipeline_data) gomap) \<times> 'w" where
  "reconcilePipeline env now cl pl = (\<lambda>(b, pds) w.
     if \<not> ps_Enabled (pl_Spec pl) then (Inr (b, pds), w)
     else case gatherPipeline (ce_Readers env) (ce_AsSelector env) (ce_Yaml env) (ce_Domain env) cl pl of
            Inl e \<Rightarrow> (Inl e, w)
          | Inr MissingTunnel \<Rightarrow>
              (Inr (b, pds), snd (updatePipelineStatusWithError env now pl ''ClusterMissingTunnel''
                (''Cluster '' @ m_Name (cl_Meta cl) @
                 '' does not have gRPC tunnel configured, but pipeline references tunnel target policies'') w))
          | Inr (Gathered pd) \<Rightarrow>
              (Inr (AddPipeline (metaNN (pl_Meta pl)) pd b, gput pds (metaNN (pl_Meta pl)) pd),
               snd (updatePipelineStatus env now pl pd w)))"

text \<open>From the list of pipelines to the cached plan.\<close>

datatype plan_failure = ReadError api_error | BuildError plan_error

fun foldW :: "('a \<Rightarrow> 's \<Rightarrow> 'w \<Rightarrow> ('e + 's) \<times> 'w) \<Rightarrow> 'a list \<Rightarrow> 's \<Rightarrow> 'w \<Rightarrow> ('e + 's) \<times> 'w" where
  "foldW f [] s w = (Inr s, w)"
| "foldW f (x # xs) s w =
     (case f x s w of
        (Inl e, w) \<Rightarrow> (Inl e, w)
      | (Inr s, w) \<Rightarrow> foldW f xs s w)"

definition reconcilePlan ::
  "'w cluster_env \<Rightarrow> time \<Rightarrow> cluster \<Rightarrow> plans \<Rightarrow> 'w \<Rightarrow>
   (plan_failure + pipeline list \<times> (string, pipeline_data) gomap \<times> apply_plan \<times> plans) \<times> 'w" where
  "reconcilePlan env now cl plans w =
     (case listPipelinesForCluster (ce_Readers env) cl of
        Inl e \<Rightarrow> (Inl (ReadError e), w)
      | Inr pipelines \<Rightarrow>
          (case foldW (reconcilePipeline env now cl) pipelines (newBuilder env cl, []) w of
             (Inl e, w) \<Rightarrow> (Inl (ReadError e), w)
           | (Inr (b, pds), w) \<Rightarrow>
               (case Build (ce_Yaml env) b of
                  Inl e \<Rightarrow> (Inl (BuildError e), w)
                | Inr plan \<Rightarrow>
                    (Inr (pipelines, pds, plan,
                       CachePlan (m_Namespace (cl_Meta cl)) (m_Name (cl_Meta cl)) plan plans), w))))"

end
