(* ===== verification/Cluster_Apply.thy ===== *)
theory Cluster_Apply
  imports Cluster_Plan
begin

text \<open>
  Sending a plan to the pods of a cluster and writing the cluster's status: the end of
  \<^verbatim>\<open>ClusterReconciler.Reconcile\<close> with \<^verbatim>\<open>applyConfigToPods\<close>, \<^verbatim>\<open>applyTunnelTargetMatches\<close> and
  \<^verbatim>\<open>createHTTPClientForCluster\<close>. The parameters are those of \<open>cluster_env\<close>.
\<close>

section \<open>The HTTP client\<close>

definition envOr :: "'w cluster_env \<Rightarrow> string \<Rightarrow> string \<Rightarrow> string" where
  "envOr env var dflt = (if ce_Getenv env var \<noteq> [] then ce_Getenv env var else dflt)"

definition GetControllerCertPath :: "'w cluster_env \<Rightarrow> string" where
  "GetControllerCertPath env = envOr env ''GNMIC_TLS_CERT'' ''/etc/gnmic-operator/certs/tls.crt''"

definition GetControllerKeyPath :: "'w cluster_env \<Rightarrow> string" where
  "GetControllerKeyPath env = envOr env ''GNMIC_TLS_KEY'' ''/etc/gnmic-operator/certs/tls.key''"

definition GetControllerCAPath :: "'w cluster_env \<Rightarrow> string" where
  "GetControllerCAPath env = envOr env ''GNMIC_TLS_CA'' ''/etc/gnmic-operator/ca/ca.crt''"

text \<open>\<^verbatim>\<open>fmt.Errorf\<close> with a wrapped error.\<close>

definition wrapE :: "string \<Rightarrow> string + 'a \<Rightarrow> string + 'a" where
  "wrapE prefix r = map_sum (\<lambda>e. prefix @ '': '' @ e) id r"

definition getIssuerCA :: "'w cluster_env \<Rightarrow> string \<Rightarrow> string \<Rightarrow> string + string" where
  "getIssuerCA env namespace issuerName =
     bindE (wrapE (''failed to get issuer '' @ issuerName)
       (map_sum (ce_ErrText env) id (ce_Issuer env namespace issuerName))) (\<lambda>issuer.
       case iss_CASecretName issuer of
         None \<Rightarrow> Inl (''issuer '' @ issuerName @ '' is not a CA issuer or has no secret configured'')
       | Some secretName \<Rightarrow>
           if secretName = [] then Inl (''issuer '' @ issuerName @ '' is not a CA issuer or has no secret configured'')
           else bindE (wrapE (''failed to get CA secret '' @ secretName)
             (map_sum (ce_ErrText env) id (rds_Secret (ce_Readers env) namespace secretName))) (\<lambda>data.
               case gget data ''tls.crt'' of
                 None \<Rightarrow> Inl (''CA secret '' @ secretName @ '' does not contain tls.crt'')
               | Some ca \<Rightarrow> Inr ca))"

definition createHTTPClientForCluster :: "'w cluster_env \<Rightarrow> cluster \<Rightarrow> string + http_client" where
  "createHTTPClientForCluster env cl =
     (case Option.bind (cs_API (cl_Spec cl)) api_TLS of
        None \<Rightarrow> Inr PlainClient
      | Some tls \<Rightarrow>
          bindE
            (if ct_IssuerRef tls = [] then Inr (None, None)
             else
               bindE (wrapE ''failed to read controller cert file'' (ce_ReadFile env (GetControllerCertPath env))) (\<lambda>cert.
               bindE (wrapE ''failed to read controller key file'' (ce_ReadFile env (GetControllerKeyPath env))) (\<lambda>key.
                 case ce_KeyPair env cert key of
                   Some e \<Rightarrow> Inl e
                 | None \<Rightarrow>
                     bindE (wrapE ''failed to get issuer CA'' (getIssuerCA env (m_Namespace (cl_Meta cl)) (ct_IssuerRef tls)))
                       (\<lambda>ca. Inr (Some (cert, key), Some [ca])))))
            (\<lambda>(certificate, rootCAs).
              if ct_BundleRef tls = [] then Inr (TLSClient certificate rootCAs)
              else bindE (wrapE ''failed to read controller ca file'' (ce_ReadFile env (GetControllerCAPath env))) (\<lambda>ca.
                Inr (TLSClient certificate
                  (Some ((case rootCAs of None \<Rightarrow> [] | Some cas \<Rightarrow> cas) @ [ca]))))))"

section \<open>Requests to a pod\<close>

definition successStatus :: "int \<Rightarrow> bool" where
  "successStatus code \<longleftrightarrow> \<not> (code < 200 \<or> code \<ge> 300)"

definition sendApplyRequest :: "'w cluster_env \<Rightarrow> http_client \<Rightarrow> string \<Rightarrow> apply_plan \<Rightarrow> 'w \<Rightarrow> (string + unit) \<times> 'w" where
  "sendApplyRequest env client url plan w =
     (case ce_PlanJSON env plan of
        Inl e \<Rightarrow> (Inl (''failed to marshal apply plan: '' @ e), w)
      | Inr jsonData \<Rightarrow>
          (case ce_Do env client ''POST'' url jsonData w of
             (Inl e, w) \<Rightarrow> (Inl (''failed to send request: '' @ e), w)
           | (Inr resp, w) \<Rightarrow>
               if successStatus (hr_Status resp) then (Inr (), w)
               else (Inl (case hr_Body resp of
                            Inl e \<Rightarrow> ''failed to read response body: '' @ e
                          | Inr body \<Rightarrow> ''gNMIc pod returned non-success status: '' @ Itoa (hr_Status resp)), w)))"

definition matchesURL :: "string \<Rightarrow> string" where
  "matchesURL podBase = podBase @ ''/api/v1/config/tunnel-target-matches''"

definition bodyText :: "http_reply \<Rightarrow> string" where
  "bodyText resp = (case hr_Body resp of Inl e \<Rightarrow> [] | Inr body \<Rightarrow> body)"

definition getTunnelTargetMatchIDs ::
  "'w cluster_env \<Rightarrow> http_client \<Rightarrow> string \<Rightarrow> 'w \<Rightarrow> (string + string list) \<times> 'w" where
  "getTunnelTargetMatchIDs env client podBase w =
     (case ce_Do env client ''GET'' (matchesURL podBase) [] w of
        (Inl e, w) \<Rightarrow> (Inl e, w)
      | (Inr resp, w) \<Rightarrow>
          if \<not> successStatus (hr_Status resp)
          then (Inl (''gNMIc pod returned non-success status '' @ Itoa (hr_Status resp) @ '': '' @ bodyText resp), w)
          else (wrapE ''failed to decode tunnel-target-matches list'' (bindE (hr_Body resp) (ce_DecodeKeys env)), w))"

definition deleteTunnelTargetMatch ::
  "'w cluster_env \<Rightarrow> http_client \<Rightarrow> string \<Rightarrow> string \<Rightarrow> 'w \<Rightarrow> (string + unit) \<times> 'w" where
  "deleteTunnelTargetMatch env client podBase matchID w =
     (case ce_Do env client ''DELETE'' (matchesURL podBase @ ''/'' @ matchID) [] w of
        (Inl e, w) \<Rightarrow> (Inl e, w)
      | (Inr resp, w) \<Rightarrow>
          if hr_Status resp = 404 then (Inr (), w)
          else if successStatus (hr_Status resp) then (Inr (), w)
          else (Inl (''gNMIc pod returned non-success status '' @ Itoa (hr_Status resp) @ '': '' @ bodyText resp), w))"

definition postTunnelTargetMatch ::
  "'w cluster_env \<Rightarrow> http_client \<Rightarrow> string \<Rightarrow> tunnel_target_match \<Rightarrow> unit \<Rightarrow> 'w \<Rightarrow> (string + unit) \<times> 'w" where
  "postTunnelTargetMatch env client podBase tm = (\<lambda>_ w.
     case ce_MatchJSON env tm of
       Inl e \<Rightarrow> (Inl (''failed to marshal tunnel target match '' @ ce_Quote env (ttm_ID tm) @ '': '' @ e), w)
     | Inr jsonData \<Rightarrow>
         (case ce_Do env client ''POST'' (matchesURL podBase) jsonData w of
            (Inl e, w) \<Rightarrow> (Inl (''failed to send tunnel-target-match request: '' @ e), w)
          | (Inr resp, w) \<Rightarrow>
              if successStatus (hr_Status resp) then (Inr (), w)
              else (Inl (''gNMIc pod returned non-success status '' @ Itoa (hr_Status resp) @
                '' for tunnel-target-match '' @ ce_Quote env (ttm_ID tm) @ '': '' @ bodyText resp), w)))"

text \<open>Stale matches are deleted first; a failed deletion is only logged.\<close>

definition applyTunnelTargetMatches ::
  "'w cluster_env \<Rightarrow> http_client \<Rightarrow> string \<Rightarrow> (string, tunnel_target_match) gomap \<Rightarrow> 'w \<Rightarrow> (string + unit) \<times> 'w" where
  "applyTunnelTargetMatches env client podBase matches w =
     (case getTunnelTargetMatchIDs env client podBase w of
        (Inl e, w) \<Rightarrow> (Inl (''failed to list existing tunnel-target-matches: '' @ e), w)
      | (Inr existingIDs, w) \<Rightarrow>
          (let desiredIDs = map (ttm_ID \<circ> snd) matches;
               w = fold (\<lambda>matchID w. if matchID \<in> set desiredIDs then w
                     else snd (deleteTunnelTargetMatch env client podBase matchID w)) existingIDs w
           in foldW (postTunnelTargetMatch env client podBase) (map snd matches) () w))"

definition applyToPod ::
  "'w cluster_env \<Rightarrow> http_client \<Rightarrow> cluster \<Rightarrow> apply_plan \<Rightarrow> (int, apply_plan) gomap \<Rightarrow> int \<Rightarrow> unit \<Rightarrow> 'w \<Rightarrow> (string + unit) \<times> 'w" where
  "applyToPod env client cl plan perPod podIndex = (\<lambda>_ w.
     case gget perPod podIndex of
       None \<Rightarrow> (Inr (), w)
     | Some onePlan \<Rightarrow>
         (let base = podBaseURL (ce_Domain env) cl (resourcePrefix @ m_Name (cl_Meta cl)) podIndex
          in case sendApplyRequest env client (base @ ''/api/v1/config/apply'') onePlan w of
               (Inl e, w) \<Rightarrow> (Inl (''failed to apply config to pod '' @ Itoa podIndex @ '': '' @ e), w)
             | (Inr _, w) \<Rightarrow>
                 (case applyTunnelTargetMatches env client base (ap_TunnelTargetMatches plan) w of
                    (Inl e, w) \<Rightarrow> (Inl (''failed to apply tunnel-target-matches to pod '' @ Itoa podIndex @ '': '' @ e), w)
                  | (Inr _, w) \<Rightarrow> (Inr (), w))))"

text \<open>The number of targets that found no place, or the first error.\<close>

definition applyConfigToPods :: "'w cluster_env \<Rightarrow> cluster \<Rightarrow> apply_plan \<Rightarrow> int \<Rightarrow> 'w \<Rightarrow> (string + int) \<times> 'w" where
  "applyConfigToPods env cl plan numPods w =
     (case createHTTPClientForCluster env cl of
        Inl e \<Rightarrow> (Inl (''failed to create HTTP client: '' @ e), w)
      | Inr client \<Rightarrow>
          (let dist = DistributeTargets plan numPods (cs_TargetDistribution (cl_Spec cl))
           in case foldW (applyToPod env client cl plan (dr_PerPodPlans dist)) [0..numPods - 1] () w of
                (Inl e, w) \<Rightarrow> (Inl e, w)
              | (Inr _, w) \<Rightarrow> (Inr (int32 (int (length (dr_UnassignedTargets dist)))), w)))"

section \<open>Cluster status\<close>

definition ConditionTypeReady :: string where "ConditionTypeReady = ''Ready''"
definition ConditionTypeCertificatesReady :: string where "ConditionTypeCertificatesReady = ''CertificatesReady''"
definition ConditionTypeConfigApplied :: string where "ConditionTypeConfigApplied = ''ConfigApplied''"
definition ConditionTypeCapacityExhausted :: string where "ConditionTypeCapacityExhausted = ''CapacityExhausted''"

text \<open>What the rest of the reconciler reads of the StatefulSet.\<close>

record statefulset_view =
  sts_Replicas :: "int option"
  sts_ReadyReplicas :: int
  sts_SelectorText :: string \<comment> \<open>\<^verbatim>\<open>metav1.FormatLabelSelector\<close>\<close>

text \<open>The keys of one map of all pipelines, as a set.\<close>

definition uniqueKeys :: "(pipeline_data \<Rightarrow> (string, 'v) gomap) \<Rightarrow> (string, pipeline_data) gomap \<Rightarrow> strset" where
  "uniqueKeys f pds = fold (\<lambda>(_, pd). fold (\<lambda>k m. gput m k ()) (gkeys (f pd))) pds []"

definition condition_of :: "cluster \<Rightarrow> time \<Rightarrow> string \<Rightarrow> string \<Rightarrow> string \<Rightarrow> string \<Rightarrow> condition" where
  "condition_of cl now type status reason message =
     \<lparr>co_Type = type, co_Status = status, co_ObservedGeneration = m_Generation (cl_Meta cl),
      co_LastTransitionTime = now, co_Reason = reason, co_Message = message\<rparr>"

definition hasIssuer :: "cluster_tls option \<Rightarrow> bool" where
  "hasIssuer tls = (case tls of None \<Rightarrow> False | Some t \<Rightarrow> ct_IssuerRef t \<noteq> [])"

text \<open>\<open>applied\<close> is the result of \<^verbatim>\<open>applyConfigToPods\<close>: the configuration error or the unassigned targets.\<close>

definition readyCondition :: "'w cluster_env \<Rightarrow> cluster \<Rightarrow> time \<Rightarrow> int \<Rightarrow> string + int \<Rightarrow> condition" where
  "readyCondition env cl now readyReplicas applied =
     (let cond = condition_of cl now ConditionTypeReady;
          desired = (case cs_Replicas (cl_Spec cl) of None \<Rightarrow> 0 | Some n \<Rightarrow> n)
      in if readyReplicas \<ge> desired \<and> \<not> isl applied
         then cond ''True'' ''ClusterReady'' (''All '' @ Itoa readyReplicas @ '' replicas are ready and configured'')
         else if readyReplicas > 0 \<and> \<not> isl applied
         then cond ''True'' ''ClusterPartiallyReady''
                (Itoa readyReplicas @ '' of '' @ ce_PointerText env (cs_Replicas (cl_Spec cl)) @ '' replicas are ready and configured'')
         else cond ''False'' ''ClusterNotReady''
                (if readyReplicas = 0 then ''Waiting for pods to be ready'' else ''Configuration not yet applied''))"

definition configCondition :: "cluster \<Rightarrow> time \<Rightarrow> int \<Rightarrow> string + int \<Rightarrow> condition" where
  "configCondition cl now numPods applied =
     (case applied of
        Inr _ \<Rightarrow> condition_of cl now ConditionTypeConfigApplied ''True'' ''ConfigurationApplied''
                   (''Configuration applied to '' @ Itoa numPods @ '' pods'')
      | Inl e \<Rightarrow> condition_of cl now ConditionTypeConfigApplied ''False'' ''ConfigurationFailed''
                   (''Failed to apply configuration: '' @ e))"

definition capacityCondition :: "cluster \<Rightarrow> time \<Rightarrow> string + int \<Rightarrow> condition list" where
  "capacityCondition cl now applied =
     (case applied of
        Inl e \<Rightarrow> []
      | Inr unassigned \<Rightarrow>
          if unassigned > 0
          then [condition_of cl now ConditionTypeCapacityExhausted ''True'' ''InsufficientCapacity''
                  (Itoa unassigned @ '' target(s) could not be assigned, all pods at capacity'')]
          else [condition_of cl now ConditionTypeCapacityExhausted ''False'' ''SufficientCapacity'' ''All targets assigned''])"

definition clusterConditions :: "'w cluster_env \<Rightarrow> time \<Rightarrow> cluster \<Rightarrow> statefulset_view \<Rightarrow> int \<Rightarrow> string + int \<Rightarrow> condition list" where
  "clusterConditions env now cl sts numPods applied =
     [readyCondition env cl now (sts_ReadyReplicas sts) applied] @
     (if hasIssuer (Option.bind (cs_API (cl_Spec cl)) api_TLS)
      then [condition_of cl now ConditionTypeCertificatesReady ''True'' ''CertificatesIssued'' ''TLS certificates are ready'']
      else []) @
     [configCondition cl now numPods applied] @ capacityCondition cl now applied"

definition clusterStatusOf ::
  "'w cluster_env \<Rightarrow> time \<Rightarrow> cluster \<Rightarrow> statefulset_view \<Rightarrow> pipeline list \<Rightarrow> (string, pipeline_data) gomap \<Rightarrow>
   int \<Rightarrow> string + int \<Rightarrow> cluster_status" where
  "clusterStatusOf env now cl sts pipelines pds numPods applied =
     \<lparr>cst_Conditions = map (preserveTransition (cst_Conditions (cl_Status cl))) (clusterConditions env now cl sts numPods applied),
      cst_ReadyReplicas = sts_ReadyReplicas sts,
      cst_Selector = sts_SelectorText sts,
      cst_PipelinesCount = int32 (int (length pipelines)),
      cst_TargetsCount = int32 (int (length (uniqueKeys pd_Targets pds))),
      cst_UnassignedTargets = (case applied of Inl e \<Rightarrow> 0 | Inr unassigned \<Rightarrow> unassigned),
      cst_SubscriptionsCount = int32 (int (length (uniqueKeys pd_Subscriptions pds))),
      cst_InputsCount = int32 (int (length (uniqueKeys pd_Inputs pds))),
      cst_OutputsCount = int32 (int (length (uniqueKeys pd_Outputs pds)))\<rparr>"

definition clusterStatusEqual :: "cluster_status \<Rightarrow> cluster_status \<Rightarrow> bool" where
  "clusterStatusEqual a b \<longleftrightarrow>
     cst_ReadyReplicas a = cst_ReadyReplicas b \<and> cst_PipelinesCount a = cst_PipelinesCount b \<and>
     cst_TargetsCount a = cst_TargetsCount b \<and> cst_UnassignedTargets a = cst_UnassignedTargets b \<and>
     cst_SubscriptionsCount a = cst_SubscriptionsCount b \<and> cst_InputsCount a = cst_InputsCount b \<and>
     cst_OutputsCount a = cst_OutputsCount b \<and> list_all2 conditionEqual (cst_Conditions a) (cst_Conditions b)"

text \<open>
  The end of \<^verbatim>\<open>Reconcile\<close>, after the StatefulSet and the services: nothing is sent until all desired
  replicas are ready.
\<close>

definition reconcileApply ::
  "'w cluster_env \<Rightarrow> time \<Rightarrow> cluster \<Rightarrow> statefulset_view \<Rightarrow> pipeline list \<Rightarrow> (string, pipeline_data) gomap \<Rightarrow>
   apply_plan \<Rightarrow> 'w \<Rightarrow> reconcile_result \<times> 'w" where
  "reconcileApply env now cl sts pipelines pds plan w =
     (let desiredReplicas = (case sts_Replicas sts of None \<Rightarrow> 0 | Some n \<Rightarrow> n)
      in if sts_ReadyReplicas sts < desiredReplicas then (RequeueAfter second, w)
         else
           (let (applied, w) = applyConfigToPods env cl plan desiredReplicas w;
                newStatus = clusterStatusOf env now cl sts pipelines pds desiredReplicas applied;
                w = (if clusterStatusEqual (cl_Status cl) newStatus then w
                     else snd (ce_UpdateCluster env (cl\<lparr>cl_Status := newStatus\<rparr>) w))
            in (if isl applied then RequeueAfter (10 * second) else Done, w)))"

end
