(* ===== verification/Pipeline_Correct.thy ===== *)
theory Pipeline_Correct
  imports Pipeline_Resolve Plan_Correct
begin

text \<open>
  The resources a pipeline resolves are exactly those it references, so that a change of any of them
  reconciles the pipeline's cluster.
\<close>

section \<open>Resolving\<close>

text \<open>A reader of the named resources a store has in a namespace.\<close>

definition readsStore :: "('a \<Rightarrow> object_meta) \<Rightarrow> 'a reader \<Rightarrow> string \<Rightarrow> (string \<times> string \<Rightarrow> 'a option) \<Rightarrow> bool" where
  "readsStore meta rd ns A \<longleftrightarrow>
     (\<forall>n. rd_get rd ns n = (case A (ns, n) of None \<Rightarrow> Inl NotFound | Some x \<Rightarrow> Inr x)) \<and>
     (\<forall>p. \<exists>xs. rd_list rd ns p = Inr xs \<and> set xs = {x. \<exists>n. A (ns, n) = Some x \<and> p (m_Labels (meta x))}) \<and>
     (\<forall>n x. A (ns, n) = Some x \<longrightarrow> m_Namespace (meta x) = ns \<and> m_Name (meta x) = n)"

lemma readsStore_get: "readsStore meta rd ns A \<Longrightarrow> rd_get rd ns n = (case A (ns, n) of None \<Rightarrow> Inl NotFound | Some x \<Rightarrow> Inr x)"
  by (simp add: readsStore_def)

lemma readsStore_list:
  assumes "readsStore meta rd ns A"
  obtains xs where "rd_list rd ns p = Inr xs" and "set xs = {x. \<exists>n. A (ns, n) = Some x \<and> p (m_Labels (meta x))}"
proof -
  have "\<forall>p. \<exists>xs. rd_list rd ns p = Inr xs \<and> set xs = {x. \<exists>n. A (ns, n) = Some x \<and> p (m_Labels (meta x))}"
    using assms unfolding readsStore_def by (elim conjE)
  from this [rule_format, of p] show thesis using that by (elim exE conjE)
qed

lemma readsStore_name: "readsStore meta rd ns A \<Longrightarrow> A (ns, n) = Some x \<Longrightarrow> m_Name (meta x) = n"
  by (simp add: readsStore_def)

text \<open>What one selector selects of a namespace, and what references and selectors do together.\<close>

definition selects :: "selector_fn \<Rightarrow> label_selector \<Rightarrow> labels \<Rightarrow> bool" where
  "selects asSelector sel lbls \<longleftrightarrow>
     \<not> emptySelector sel \<and> (case asSelector sel of Inl e \<Rightarrow> False | Inr p \<Rightarrow> p lbls)"

definition inNamespace :: "(string \<times> string \<Rightarrow> 'a option) \<Rightarrow> string \<Rightarrow> 'a set" where
  "inNamespace A ns = {x. \<exists>n. A (ns, n) = Some x}"

lemma addUnseen_set:
  assumes "\<forall>y \<in> set result. nm y = nm x \<longrightarrow> y = x"
  shows "set (addUnseen nm x result) = insert x (set result)"
  using assms by (auto simp: addUnseen_def)

lemma names_unique:
  assumes "readsStore meta rd ns A" and "x \<in> inNamespace A ns" and "y \<in> inNamespace A ns"
    and "m_Name (meta x) = m_Name (meta y)"
  shows "x = y"
  using assms readsStore_name [OF assms(1)] unfolding inNamespace_def by force

lemma addUnseen_fold_set:
  assumes "readsStore meta rd ns A" and "\<And>x. nm x = m_Name (meta x)"
    and "set items \<subseteq> inNamespace A ns" and "set result \<subseteq> inNamespace A ns"
  shows "set (fold (addUnseen nm) items result) = set result \<union> set items"
  using assms(3,4)
proof (induction items arbitrary: result)
  case (Cons x items)
  have "set (addUnseen nm x result) = insert x (set result)"
    using Cons.prems names_unique [OF assms(1)] by (intro addUnseen_set) (auto simp: assms(2))
  then show ?case using Cons by auto
qed simp

lemma resolveRef_set:
  assumes "readsStore meta rd ns A" and "\<And>x. nm x = m_Name (meta x)"
    and "resolveRef nm rd ns ref result = Inr result'" and "set result \<subseteq> inNamespace A ns"
  shows "set result' = set result \<union> {x. A (ns, ref) = Some x}"
proof (cases "A (ns, ref)")
  case None
  then show ?thesis using assms(3) by (simp add: resolveRef_def readsStore_get [OF assms(1)])
next
  case (Some x)
  have "set (addUnseen nm x result) = insert x (set result)"
  proof (intro addUnseen_set ballI impI)
    fix y assume "y \<in> set result" "nm y = nm x"
    then show "y = x"
      using names_unique [OF assms(1), of y x] assms(4) Some by (auto simp: assms(2) inNamespace_def)
  qed
  then show ?thesis using Some assms(3) by (simp add: resolveRef_def readsStore_get [OF assms(1)])
qed

lemma resolveSelector_set:
  assumes "readsStore meta rd ns A" and "\<And>x. nm x = m_Name (meta x)"
    and "resolveSelector nm rd asSelector ns sel result = Inr result'" and "set result \<subseteq> inNamespace A ns"
  shows "set result' = set result \<union> {x \<in> inNamespace A ns. selects asSelector sel (m_Labels (meta x))}"
proof (cases "emptySelector sel")
  case True
  then show ?thesis using assms(3) by (simp add: resolveSelector_def selects_def)
next
  case False
  then obtain p where p: "asSelector sel = Inr p"
    using assms(3) by (auto simp: resolveSelector_def bindE_Inr_iff)
  obtain xs where xs: "rd_list rd ns p = Inr xs" "set xs = {x. \<exists>n. A (ns, n) = Some x \<and> p (m_Labels (meta x))}"
    by (rule readsStore_list [OF assms(1)])
  have "result' = fold (addUnseen nm) xs result"
    using assms(3) False p xs(1) by (simp add: resolveSelector_def)
  moreover have "set (fold (addUnseen nm) xs result) = set result \<union> set xs"
    using xs(2) by (intro addUnseen_fold_set [OF assms(1,2) _ assms(4)]) (auto simp: inNamespace_def)
  ultimately show ?thesis using False p xs(2) by (auto simp: selects_def inNamespace_def)
qed

lemma resolveRefs_set:
  assumes "readsStore meta rd ns A" and "\<And>x. nm x = m_Name (meta x)"
    and "foldE (resolveRef nm rd ns) refs result = Inr result'" and "set result \<subseteq> inNamespace A ns"
  shows "set result' = set result \<union> {x. \<exists>n \<in> set refs. A (ns, n) = Some x}"
  using assms(3,4)
proof (induction refs arbitrary: result)
  case (Cons ref refs)
  obtain r1 where r1: "resolveRef nm rd ns ref result = Inr r1" "foldE (resolveRef nm rd ns) refs r1 = Inr result'"
    using Cons.prems(1) by (auto simp: bindE_Inr_iff split: sum.splits)
  have s1: "set r1 = set result \<union> {x. A (ns, ref) = Some x}"
    by (rule resolveRef_set [OF assms(1,2) r1(1) Cons.prems(2)])
  have "set r1 \<subseteq> inNamespace A ns" using s1 Cons.prems(2) by (auto simp: inNamespace_def)
  then show ?case using Cons.IH [OF r1(2)] s1 by auto
qed simp

lemma resolveSelectors_set:
  assumes "readsStore meta rd ns A" and "\<And>x. nm x = m_Name (meta x)"
    and "foldE (resolveSelector nm rd asSelector ns) sels result = Inr result'" and "set result \<subseteq> inNamespace A ns"
  shows "set result' = set result \<union> {x \<in> inNamespace A ns. \<exists>sel \<in> set sels. selects asSelector sel (m_Labels (meta x))}"
  using assms(3,4)
proof (induction sels arbitrary: result)
  case (Cons sel sels)
  obtain r1 where r1: "resolveSelector nm rd asSelector ns sel result = Inr r1"
    "foldE (resolveSelector nm rd asSelector ns) sels r1 = Inr result'"
    using Cons.prems(1) by (auto simp: bindE_Inr_iff split: sum.splits)
  have s1: "set r1 = set result \<union> {x \<in> inNamespace A ns. selects asSelector sel (m_Labels (meta x))}"
    by (rule resolveSelector_set [OF assms(1,2) r1(1) Cons.prems(2)])
  have "set r1 \<subseteq> inNamespace A ns" using s1 Cons.prems(2) by auto
  then show ?case using Cons.IH [OF r1(2)] s1 by auto
qed auto

lemma resolveAll_set:
  assumes "readsStore meta rd ns A" and "\<And>x. nm x = m_Name (meta x)"
    and "resolveAll nm rd asSelector ns refs sels = Inr xs"
  shows "set xs = {x. \<exists>n. A (ns, n) = Some x \<and>
    (n \<in> set refs \<or> (\<exists>sel \<in> set sels. selects asSelector sel (m_Labels (meta x))))}"
proof -
  obtain r where r: "foldE (resolveRef nm rd ns) refs [] = Inr r"
    "foldE (resolveSelector nm rd asSelector ns) sels r = Inr xs"
    using assms(3) by (auto simp: resolveAll_def bindE_Inr_iff)
  have s: "set r = {x. \<exists>n \<in> set refs. A (ns, n) = Some x}"
    using resolveRefs_set [OF assms(1,2) r(1)] by simp
  then have "set r \<subseteq> inNamespace A ns" by (auto simp: inNamespace_def)
  from resolveSelectors_set [OF assms(1,2) r(2) this] s show ?thesis by (auto simp: inNamespace_def)
qed

lemma resolveAll_total:
  assumes "readsStore meta rd ns A" and "\<forall>sel \<in> set sels. emptySelector sel \<or> (\<exists>p. asSelector sel = Inr p)"
  shows "\<exists>xs. resolveAll nm rd asSelector ns refs sels = Inr xs"
proof -
  have "\<exists>r. foldE (resolveRef nm rd ns) refs [] = Inr r \<and> True"
    by (rule foldE_total) (auto simp: resolveRef_def readsStore_get [OF assms(1)] split: option.split)
  then obtain r where "foldE (resolveRef nm rd ns) refs [] = Inr r" by blast
  moreover have "\<exists>xs. foldE (resolveSelector nm rd asSelector ns) sels r = Inr xs \<and> True"
  proof (rule foldE_total)
    fix sel result assume "sel \<in> set sels"
    then consider "emptySelector sel" | p where "\<not> emptySelector sel" "asSelector sel = Inr p" using assms(2) by blast
    then show "\<exists>s'. resolveSelector nm rd asSelector ns sel result = Inr s' \<and> True"
    proof cases
      case 2
      obtain xs where "rd_list rd ns p = Inr xs" by (rule readsStore_list [OF assms(1)])
      with 2 show ?thesis by (simp add: resolveSelector_def)
    qed (simp add: resolveSelector_def)
  qed simp
  ultimately show ?thesis by (auto simp: resolveAll_def)
qed

section \<open>Processors\<close>

lemma processorRef_step:
  assumes "readsStore r_Meta rd ns A"
  shows "processorRef rd ns ref procs = Inr (procs @ [case A (ns, ref) of None \<Rightarrow> zeroProcessor | Some p \<Rightarrow> p])"
  by (simp add: processorRef_def readsStore_get [OF assms] split: option.split)

lemma processorRefs_set:
  assumes "readsStore r_Meta rd ns A" and "foldE (processorRef rd ns) refs procs = Inr procs'"
  shows "procs' = procs @ map (\<lambda>ref. case A (ns, ref) of None \<Rightarrow> zeroProcessor | Some p \<Rightarrow> p) refs"
  using assms(2)
proof (induction refs arbitrary: procs)
  case (Cons ref refs)
  from Cons.prems have "foldE (processorRef rd ns) refs
      (procs @ [case A (ns, ref) of None \<Rightarrow> zeroProcessor | Some p \<Rightarrow> p]) = Inr procs'"
    by (simp only: foldE.simps bindE_Inr processorRef_step [OF assms(1), of ref])
  from Cons.IH [OF this] show ?case by simp
qed simp

lemma processorItems_set:
  assumes "readsStore r_Meta rd ns A" and "set items \<subseteq> inNamespace A ns" and "set procs \<subseteq> inNamespace A ns"
  shows "set (fold (\<lambda>x ps. if r_Name x \<in> set inRefs then ps else addUnseen r_Name x ps) items procs) =
    set procs \<union> {x \<in> set items. r_Name x \<notin> set inRefs}"
  using assms(2,3)
proof (induction items arbitrary: procs)
  case (Cons x items)
  have "set (addUnseen r_Name x procs) = insert x (set procs)"
    using Cons.prems names_unique [OF assms(1)] by (intro addUnseen_set) (auto simp: r_Name_def)
  then show ?case using Cons by auto
qed simp

lemma processorSelectors_set:
  assumes "readsStore r_Meta rd ns A"
    and "foldE (processorSelector rd asSelector ns inRefs) sels procs = Inr procs'" and "set procs \<subseteq> inNamespace A ns"
  shows "set procs' = set procs \<union>
    {x \<in> inNamespace A ns. r_Name x \<notin> set inRefs \<and> (\<exists>sel \<in> set sels. selects asSelector sel (m_Labels (r_Meta x)))}"
  using assms(2,3)
proof (induction sels arbitrary: procs)
  case (Cons sel sels)
  obtain p1 where p1: "processorSelector rd asSelector ns inRefs sel procs = Inr p1"
    "foldE (processorSelector rd asSelector ns inRefs) sels p1 = Inr procs'"
    using Cons.prems(1) by (auto simp: bindE_Inr_iff)
  have s1: "set p1 = set procs \<union> {x \<in> inNamespace A ns. r_Name x \<notin> set inRefs \<and> selects asSelector sel (m_Labels (r_Meta x))}"
  proof (cases "emptySelector sel")
    case False
    then obtain p where p: "asSelector sel = Inr p"
      using p1(1) by (auto simp: processorSelector_def bindE_Inr_iff)
    obtain xs where xs: "rd_list rd ns p = Inr xs" "set xs = {x. \<exists>n. A (ns, n) = Some x \<and> p (m_Labels (r_Meta x))}"
      by (rule readsStore_list [OF assms(1)])
    have "set xs \<subseteq> inNamespace A ns" using xs(2) by (auto simp: inNamespace_def)
    from processorItems_set [OF assms(1) this Cons.prems(2), of inRefs] show ?thesis
      using p1(1) False p xs by (auto simp: processorSelector_def selects_def inNamespace_def)
  qed (use p1(1) in \<open>simp add: processorSelector_def selects_def\<close>)
  then have "set p1 \<subseteq> inNamespace A ns" using Cons.prems(2) by auto
  then show ?case using Cons.IH [OF p1(2)] s1 by auto
qed auto

lemma resolveProcessors_set:
  assumes "readsStore r_Meta rd ns A" and "resolveProcessors rd asSelector ns refs sels = Inr xs"
    and "A (ns, n) = Some x" and "n \<noteq> []"
  shows "x \<in> set xs \<longleftrightarrow> n \<in> set refs \<or> (\<exists>sel \<in> set sels. selects asSelector sel (m_Labels (r_Meta x)))"
proof -
  let ?f = "\<lambda>ref. case A (ns, ref) of None \<Rightarrow> zeroProcessor | Some p \<Rightarrow> p"
  obtain sp where sp: "foldE (processorSelector rd asSelector ns (map r_Name (map ?f refs))) sels [] = Inr sp"
    and xs: "xs = map ?f refs @ sort_key r_Name sp"
    using assms(2) processorRefs_set [OF assms(1), of refs "[]"] by (auto simp: resolveProcessors_def bindE_Inr_iff)
  have sel: "set sp = {x \<in> inNamespace A ns. r_Name x \<notin> set (map r_Name (map ?f refs)) \<and>
      (\<exists>sel \<in> set sels. selects asSelector sel (m_Labels (r_Meta x)))}"
    using processorSelectors_set [OF assms(1) sp] by simp
  have name: "r_Name x = n" using readsStore_name [OF assms(1,3)] by (simp add: r_Name_def)
  have named: "r_Name (?f ref) = n \<longleftrightarrow> ref = n" for ref
  proof (cases "A (ns, ref)")
    case None
    then show ?thesis using assms(3,4) by (auto simp: r_Name_def zeroProcessor_def)
  next
    case (Some p)
    then show ?thesis using readsStore_name [OF assms(1) Some] by (simp add: r_Name_def)
  qed
  have "n \<in> set (map r_Name (map ?f refs)) \<longleftrightarrow> (\<exists>ref \<in> set refs. r_Name (?f ref) = n)"
    by (simp only: set_map image_iff bex_simps) metis
  also have "\<dots> \<longleftrightarrow> n \<in> set refs" by (simp only: named) simp
  finally have refs: "n \<in> set (map r_Name (map ?f refs)) \<longleftrightarrow> n \<in> set refs" .
  have "x \<in> inNamespace A ns" using assms(3) by (auto simp: inNamespace_def)
  then have "x \<in> set sp \<longleftrightarrow> n \<notin> set refs \<and> (\<exists>sel \<in> set sels. selects asSelector sel (m_Labels (r_Meta x)))"
    unfolding sel mem_Collect_eq name refs by simp
  moreover have "x \<in> set (map ?f refs) \<longleftrightarrow> n \<in> set refs"
  proof
    assume "x \<in> set (map ?f refs)"
    then obtain ref where "ref \<in> set refs" "x = ?f ref" by auto
    then show "n \<in> set refs" using name named [of ref] by simp
  next
    assume "n \<in> set refs"
    then have "?f n \<in> set (map ?f refs)" unfolding set_map by (rule imageI)
    then show "x \<in> set (map ?f refs)" using assms(3) by (simp only: option.case)
  qed
  ultimately show ?thesis
    unfolding xs set_append Un_iff set_sort by blast
qed

section \<open>Resolvers and watches\<close>

lemma clusterSet_keys:
  "set (gkeys (fold (\<lambda>pl m. if \<not> P pl then m else if Q pl then gput m (f pl) () else m) pls m)) =
     set (gkeys m) \<union> f ` {pl \<in> set pls. P pl \<and> Q pl}"
  by (induction pls arbitrary: m) (auto simp: gm.keys_put)

lemma findClusters_set:
  assumes "rds_Pipelines rs ns = Inr pls"
  shows "set (findClustersReferencingResource rs asSelector ns n lbls kind) =
    (\<lambda>pl. (ns, ps_ClusterRef (pl_Spec pl))) `
      {pl \<in> set pls. ps_Enabled (pl_Spec pl) \<and> pipelineReferencesResource asSelector pl n lbls kind}"
  unfolding findClustersReferencingResource_def assms by (simp add: clusterSet_keys image_image)

text \<open>
  What the cluster controller relies on for every kind of resource: a resolver returns a stored
  resource exactly when the pipeline references it.
\<close>

locale resolver =
  fixes meta :: "'a \<Rightarrow> object_meta" and kind :: resource_type
    and resolve :: "'a reader \<Rightarrow> selector_fn \<Rightarrow> pipeline \<Rightarrow> api_error + 'a list"
  assumes exact: "readsStore meta rd (m_Namespace (pl_Meta pl)) A \<Longrightarrow> resolve rd asSelector pl = Inr xs \<Longrightarrow>
    A (m_Namespace (pl_Meta pl), n) = Some x \<Longrightarrow> n \<noteq> [] \<Longrightarrow>
    x \<in> set xs \<longleftrightarrow> pipelineReferencesResource asSelector pl n (m_Labels (meta x)) kind"
begin

lemma watched:
  assumes "readsStore meta rd (m_Namespace (pl_Meta pl)) A" and "resolve rd asSelector pl = Inr xs"
    and "A (m_Namespace (pl_Meta pl), n) = Some x" and "n \<noteq> []" and "x \<in> set xs"
    and "rds_Pipelines rs (m_Namespace (pl_Meta pl)) = Inr pls" and "pl \<in> set pls" and "ps_Enabled (pl_Spec pl)"
  shows "(m_Namespace (pl_Meta pl), ps_ClusterRef (pl_Spec pl)) \<in>
    set (findClustersReferencingResource rs asSelector (m_Namespace (pl_Meta pl)) n (m_Labels (meta x)) kind)"
proof -
  have ref: "pipelineReferencesResource asSelector pl n (m_Labels (meta x)) kind"
    using exact [OF assms(1-4)] assms(5) by simp
  show ?thesis
    using assms(6-8) ref by (auto simp: findClusters_set)
qed

end

lemma references_iff:
  "pipelineReferencesResource asSelector pl n lbls kind \<longleftrightarrow>
     n \<in> set (refsOf kind (pl_Spec pl)) \<or> (\<exists>sel \<in> set (selectorsOf kind (pl_Spec pl)). selects asSelector sel lbls)"
  by (simp add: pipelineReferencesResource_def selects_def list_ex_iff)

lemma resolveAll_exact:
  assumes "readsStore meta rd (m_Namespace (pl_Meta pl)) A" and "\<And>x. nm x = m_Name (meta x)"
    and "resolveAll nm rd asSelector (m_Namespace (pl_Meta pl)) (refsOf kind (pl_Spec pl)) (selectorsOf kind (pl_Spec pl)) = Inr xs"
    and "A (m_Namespace (pl_Meta pl), n) = Some x"
  shows "x \<in> set xs \<longleftrightarrow> pipelineReferencesResource asSelector pl n (m_Labels (meta x)) kind"
  unfolding references_iff resolveAll_set [OF assms(1-3)] mem_Collect_eq
  using assms(4) readsStore_name [OF assms(1)] by metis

interpretation targets: resolver t_Meta TargetType resolveTargets
proof
  fix rd :: "target reader" and A asSelector pl xs n x
  assume "readsStore t_Meta rd (m_Namespace (pl_Meta pl)) A" "resolveTargets rd asSelector pl = Inr xs"
    "A (m_Namespace (pl_Meta pl), n) = Some x"
  then show "x \<in> set xs \<longleftrightarrow> pipelineReferencesResource asSelector pl n (m_Labels (t_Meta x)) TargetType"
    by (intro resolveAll_exact [of t_Meta rd _ A t_Name]) (simp_all add: t_Name_def resolveTargets_def)
qed

interpretation subscriptions: resolver r_Meta SubscriptionType resolveSubscriptions
  by unfold_locales (erule resolveAll_exact [where nm = r_Name]; simp add: r_Name_def resolveSubscriptions_def)

interpretation outputs: resolver r_Meta OutputType resolveOutputs
  by unfold_locales (erule resolveAll_exact [where nm = r_Name]; simp add: r_Name_def resolveOutputs_def)

interpretation inputs: resolver r_Meta InputType resolveInputs
  by unfold_locales (erule resolveAll_exact [where nm = r_Name]; simp add: r_Name_def resolveInputs_def)

interpretation policies: resolver r_Meta TunnelTargetPolicyType resolveTunnelTargetPolicies
  by unfold_locales (erule resolveAll_exact [where nm = r_Name]; simp add: r_Name_def resolveTunnelTargetPolicies_def)

interpretation output_processors: resolver r_Meta OutputProcessorType resolveOutputProcessors
  by unfold_locales (simp add: references_iff resolveOutputProcessors_def resolveProcessors_set)

interpretation input_processors: resolver r_Meta InputProcessorType resolveInputProcessors
  by unfold_locales (simp add: references_iff resolveInputProcessors_def resolveProcessors_set)

section \<open>Targets and their profiles\<close>

lemma addRequests_set: "set (addRequests reqs results) = set results \<union> set reqs"
  unfolding addRequests_def by (induction reqs arbitrary: results) auto

lemma profileClusters_set:
  "set (fold (\<lambda>t results. if ts_Profile (t_Spec t) \<noteq> p then results
      else addRequests (f t) results) ts results) =
   set results \<union> {r. \<exists>t \<in> set ts. ts_Profile (t_Spec t) = p \<and> r \<in> set (f t)}"
  by (induction ts arbitrary: results) (auto simp: addRequests_set)

lemma findClustersForTargetProfile_set:
  assumes "rd_list (rds_Targets rs) (m_Namespace (r_Meta profile)) (\<lambda>_. True) = Inr ts"
  shows "set (findClustersForTargetProfile rs asSelector profile) =
    {r. \<exists>t \<in> set ts. ts_Profile (t_Spec t) = m_Name (r_Meta profile) \<and> r \<in> set (findClustersForTarget rs asSelector t)}"
  unfolding findClustersForTargetProfile_def assms by (simp add: profileClusters_set)

lemma target_profile_watched:
  assumes "readsStore t_Meta (rds_Targets rs) (m_Namespace (r_Meta profile)) A"
    and "A (m_Namespace (r_Meta profile), n) = Some t" and "ts_Profile (t_Spec t) = m_Name (r_Meta profile)"
    and "r \<in> set (findClustersForTarget rs asSelector t)"
  shows "r \<in> set (findClustersForTargetProfile rs asSelector profile)"
proof -
  obtain ts where ts: "rd_list (rds_Targets rs) (m_Namespace (r_Meta profile)) (\<lambda>_. True) = Inr ts"
    "set ts = {x. \<exists>n. A (m_Namespace (r_Meta profile), n) = Some x \<and> True}"
    by (rule readsStore_list [OF assms(1)])
  have "t \<in> set ts" using assms(2) ts(2) by auto
  with assms(3,4) show ?thesis unfolding findClustersForTargetProfile_set [OF ts(1)] by blast
qed

text \<open>
  A stored target is resolved by an enabled pipeline exactly when the pipeline names it or a
  selector of the pipeline matches its labels. Then an update of the target, and an update of the
  profile the target uses, reconcile the cluster of the pipeline.
\<close>

theorem resolved_targets_watched:
  assumes "readsStore t_Meta (rds_Targets rs) (m_Namespace (pl_Meta pl)) A"
    and "resolveTargets (rds_Targets rs) asSelector pl = Inr xs"
    and "A (m_Namespace (pl_Meta pl), n) = Some t" and "n \<noteq> []"
    and "rds_Pipelines rs (m_Namespace (pl_Meta pl)) = Inr pls" and "pl \<in> set pls" and "ps_Enabled (pl_Spec pl)"
    and "m_Namespace (r_Meta profile) = m_Namespace (pl_Meta pl)" and "m_Name (r_Meta profile) = ts_Profile (t_Spec t)"
  shows "(t \<in> set xs \<longleftrightarrow> n \<in> set (ps_TargetRefs (pl_Spec pl)) \<or>
      (\<exists>sel \<in> set (ps_TargetSelectors (pl_Spec pl)). selects asSelector sel (m_Labels (t_Meta t)))) \<and>
    (t \<in> set xs \<longrightarrow>
      (m_Namespace (pl_Meta pl), ps_ClusterRef (pl_Spec pl)) \<in> set (findClustersForTarget rs asSelector t) \<and>
      (m_Namespace (pl_Meta pl), ps_ClusterRef (pl_Spec pl)) \<in> set (findClustersForTargetProfile rs asSelector profile))"
proof -
  let ?req = "(m_Namespace (pl_Meta pl), ps_ClusterRef (pl_Spec pl))"
  have meta: "m_Namespace (t_Meta t) = m_Namespace (pl_Meta pl)" "m_Name (t_Meta t) = n"
    using assms(1,3) by (simp_all add: readsStore_def)
  have watched: "t \<in> set xs \<Longrightarrow> ?req \<in> set (findClustersForTarget rs asSelector t)"
    using targets.watched [OF assms(1-4) _ assms(5-7)] meta by (simp add: findClustersForTarget_def)
  moreover have "t \<in> set xs \<Longrightarrow> ?req \<in> set (findClustersForTargetProfile rs asSelector profile)"
    by (rule target_profile_watched [of rs profile A n]) (use assms watched in simp_all)
  ultimately show ?thesis
    using targets.exact [OF assms(1-4)] by (simp add: references_iff)
qed

text \<open>A reader of a list of resources, for examples.\<close>

definition listReader :: "('a \<Rightarrow> object_meta) \<Rightarrow> 'a list \<Rightarrow> 'a reader" where
  "listReader meta xs =
     \<lparr>rd_get = (\<lambda>ns n. case find (\<lambda>x. m_Namespace (meta x) = ns \<and> m_Name (meta x) = n) xs of
        None \<Rightarrow> Inl NotFound | Some x \<Rightarrow> Inr x),
      rd_list = (\<lambda>ns p. Inr (filter (\<lambda>x. m_Namespace (meta x) = ns \<and> p (m_Labels (meta x))) xs))\<rparr>"

definition listStore :: "('a \<Rightarrow> object_meta) \<Rightarrow> 'a list \<Rightarrow> string \<times> string \<Rightarrow> 'a option" where
  "listStore meta xs = (\<lambda>(ns, n). find (\<lambda>x. m_Namespace (meta x) = ns \<and> m_Name (meta x) = n) xs)"

lemma find_unique:
  assumes "distinct (map f xs)" and "x \<in> set xs"
  shows "find (\<lambda>y. f y = f x) xs = Some x"
  using assms by (induction xs) (auto simp: image_iff)

lemma listReader_readsStore:
  assumes "distinct (map (\<lambda>x. (m_Namespace (meta x), m_Name (meta x))) xs)"
  shows "readsStore meta (listReader meta xs) ns (listStore meta xs)"
proof -
  have "(\<exists>n. listStore meta xs (ns, n) = Some x) \<longleftrightarrow> x \<in> set xs \<and> m_Namespace (meta x) = ns" for x
    using find_unique [OF assms, of x] by (fastforce simp: listStore_def find_Some_iff)
  then show ?thesis
    by (auto simp: readsStore_def listReader_def listStore_def find_Some_iff split: option.split)
qed

text \<open>A pipeline that selects the leaf routers of its namespace and names one more target.\<close>

definition exSelector :: selector_fn where
  "exSelector sel = Inr (matchLabels (ls_MatchLabels sel))"

definition exLeaf :: "string \<Rightarrow> target" where
  "exLeaf name = (exTarget name)\<lparr>t_Meta := (exMeta name)\<lparr>m_Labels := [(''role'', ''leaf'')]\<rparr>\<rparr>"

definition exCR :: pipeline where
  "exCR = \<lparr>pl_Meta = exMeta ''pipe'',
     pl_Spec = \<lparr>ps_ClusterRef = ''c1'', ps_Enabled = True,
       ps_TargetSelectors = [\<lparr>ls_MatchLabels = [(''role'', ''leaf'')], ls_MatchExpressions = []\<rparr>],
       ps_TargetRefs = [''t1''], ps_TunnelTargetPolicySelectors = [], ps_TunnelTargetPolicyRefs = [],
       ps_SubscriptionSelectors = [], ps_SubscriptionRefs = [''s1''],
       ps_Outputs = \<lparr>os_OutputSelectors = [], os_OutputRefs = [''o1''], os_ProcessorSelectors = [], os_ProcessorRefs = []\<rparr>,
       ps_Inputs = \<lparr>is_InputSelectors = [], is_InputRefs = [], is_ProcessorSelectors = [], is_ProcessorRefs = []\<rparr>,
       ps_Labels = []\<rparr>,
     pl_Status = \<lparr>pst_Status = [], pst_TargetsCount = 0, pst_SubscriptionsCount = 0, pst_InputsCount = 0,
       pst_OutputsCount = 0, pst_TunnelTargetPoliciesCount = 0, pst_Conditions = []\<rparr>\<rparr>"

definition exTargets :: "target list" where
  "exTargets = [exTarget ''t1'', exLeaf ''t2'', exTarget ''t3'']"

definition exReadersOf :: "target list \<Rightarrow> string \<Rightarrow> pipeline \<Rightarrow> readers" where
  "exReadersOf targets profile pl = \<lparr>rds_Targets = listReader t_Meta targets,
     rds_TargetProfiles = listReader r_Meta [\<lparr>r_Meta = exMeta profile, r_Spec = exProfile\<rparr>],
     rds_Subscriptions = listReader r_Meta [\<lparr>r_Meta = exMeta ''s1'', r_Spec = exSubscription\<rparr>],
     rds_Outputs = listReader r_Meta [\<lparr>r_Meta = exMeta ''o1'', r_Spec = exOutput ''file''\<rparr>],
     rds_Inputs = listReader r_Meta [], rds_Processors = listReader r_Meta [],
     rds_TunnelTargetPolicies = listReader r_Meta [], rds_Services = listReader sv_Meta [],
     rds_Pipelines = (\<lambda>ns. Inr (if ns = ''n'' then [pl] else [])),
     rds_Secret = (\<lambda>ns n. Inl NotFound)\<rparr>"

definition exReaders :: readers where
  "exReaders = exReadersOf exTargets ''p'' exCR"

lemma exTargets_reads: "readsStore t_Meta (rds_Targets exReaders) ns (listStore t_Meta exTargets)"
  unfolding exReaders_def exReadersOf_def readers.simps
  by (rule listReader_readsStore) (simp add: exTargets_def exTarget_def exLeaf_def exMeta_def)

lemma exTargets_resolved: "resolveTargets (rds_Targets exReaders) exSelector exCR = Inr [exTarget ''t1'', exLeaf ''t2'']"
  by code_simp

theorem resolved_targets_watched_witness:
  "(''n'', ''c1'') \<in> set (findClustersForTarget exReaders exSelector (exLeaf ''t2'')) \<and>
   (''n'', ''c1'') \<in> set (findClustersForTargetProfile exReaders exSelector \<lparr>r_Meta = exMeta ''p'', r_Spec = exProfile\<rparr>)"
proof -
  have "listStore t_Meta exTargets (m_Namespace (pl_Meta exCR), ''t2'') = Some (exLeaf ''t2'')" by code_simp
  moreover have "rds_Pipelines exReaders (m_Namespace (pl_Meta exCR)) = Inr [exCR]" by code_simp
  moreover have "ps_Enabled (pl_Spec exCR)" "ps_ClusterRef (pl_Spec exCR) = ''c1''" "m_Namespace (pl_Meta exCR) = ''n''"
    by (simp_all add: exCR_def exMeta_def)
  ultimately show ?thesis
    using resolved_targets_watched [OF exTargets_reads exTargets_resolved, of "''t2''" "exLeaf ''t2''" "[exCR]"
      "\<lparr>r_Meta = exMeta ''p'', r_Spec = exProfile\<rparr>"]
    by (simp add: exMeta_def exLeaf_def exTarget_def)
qed

end
