(* ===== verification/Cluster_Correct.thy ===== *)
theory Cluster_Correct
  imports Cluster_Apply Pipeline_Correct
begin

text \<open>
  The cluster reconciler from the pipelines of a cluster to the configuration of its pods: which
  targets the plan holds and where they are placed, what the pods hold after the plan is sent, and
  that the statuses settle.
\<close>

section \<open>Gathering\<close>

lemma gput_fold_get:
  assumes "\<And>x y. x \<in> set xs \<Longrightarrow> y \<in> set xs \<Longrightarrow> f x = f y \<Longrightarrow> g x = g y"
  shows "gget (fold (\<lambda>x m. gput m (f x) (g x)) xs m) k = Some v \<longleftrightarrow>
    (\<exists>x \<in> set xs. f x = k \<and> g x = v) \<or> (\<forall>x \<in> set xs. f x \<noteq> k) \<and> gget m k = Some v"
  using assms
proof (induction xs arbitrary: m)
  case (Cons x xs)
  have IH: "gget (fold (\<lambda>x m. gput m (f x) (g x)) xs (gput m (f x) (g x))) k = Some v \<longleftrightarrow>
    (\<exists>x \<in> set xs. f x = k \<and> g x = v) \<or> (\<forall>x \<in> set xs. f x \<noteq> k) \<and> gget (gput m (f x) (g x)) k = Some v"
    by (rule Cons.IH) (use Cons.prems in auto)
  have same: "g y = g x" if "y \<in> set xs" "f y = f x" for y
    using Cons.prems [of y x] that by simp
  show ?case
  proof (cases "f x = k")
    case True
    have "(\<exists>y \<in> set xs. f y = k \<and> g y = v) \<or> (\<forall>y \<in> set xs. f y \<noteq> k) \<and> g x = v \<longleftrightarrow>
      g x = v \<or> (\<exists>y \<in> set xs. f y = k \<and> g y = v)"
      using same True by metis
    then show ?thesis using True IH by (simp add: gm.get_put)
  qed (simp add: IH gm.get_put)
qed simp

lemma gput_fold_wf: "gwf m \<Longrightarrow> gwf (fold (\<lambda>x m. gput m (f x) (g x)) xs m)"
  by (induction xs arbitrary: m) (auto simp: gm.wf_put)

lemma gput_fold_keys: "set (gkeys (fold (\<lambda>x m. gput m (f x) (g x)) xs m)) = set (gkeys m) \<union> f ` set xs"
  by (induction xs arbitrary: m) (auto simp: gm.keys_put)

text \<open>What no later step of the loop takes away: targets stay, profiles are only added.\<close>

definition extends :: "pipeline_data \<Rightarrow> pipeline_data \<Rightarrow> bool" where
  "extends pd pd' \<longleftrightarrow> pd_Targets pd' = pd_Targets pd \<and>
     set (gkeys (pd_TargetProfiles pd)) \<subseteq> set (gkeys (pd_TargetProfiles pd')) \<and> (pipelineWf pd \<longrightarrow> pipelineWf pd')"

lemma extends_refl [simp]: "extends pd pd"
  by (simp add: extends_def)

lemma extends_trans: "extends a b \<Longrightarrow> extends b c \<Longrightarrow> extends a c"
  by (auto simp: extends_def)

lemma extends_fold: "(\<And>x pd. extends pd (f x pd)) \<Longrightarrow> extends pd (fold f xs pd)"
  by (induction xs arbitrary: pd) (auto intro: extends_trans)

lemma putProfile_extends [simp]: "extends pd (putProfile p pd)"
  by (auto simp: extends_def putProfile_def pipelineWf_def gm.keys_put)

lemma putOutput_extends: "extends pd (putOutput rs yaml domain nn x pd)"
  by (auto simp: putOutput_def extends_def pipelineWf_def gm.wf_put Let_def split: sum.split)

lemma gather_extends:
  "gatherSubscriptions rs sel pl pd = Inr pd' \<Longrightarrow> extends pd pd'"
  "gatherInputs rs sel pl pd = Inr pd' \<Longrightarrow> extends pd pd'"
  by (auto simp: gatherSubscriptions_def gatherInputs_def bindE_Inr_iff extends_def pipelineWf_def gput_fold_wf)

lemma gatherOutputs_extends: "gatherOutputs rs sel yaml domain pl pd = Inr pd' \<Longrightarrow> extends pd pd'"
  by (auto simp: gatherOutputs_def bindE_Inr_iff intro: extends_fold putOutput_extends)

lemma gatherProcessors_extends:
  "gatherOutputProcessors rs sel pl pd = Inr pd' \<Longrightarrow> extends pd pd'"
  "gatherInputProcessors rs sel pl pd = Inr pd' \<Longrightarrow> extends pd pd'"
  by (auto simp: gatherOutputProcessors_def gatherInputProcessors_def bindE_Inr_iff
      intro!: extends_fold) (auto simp: extends_def pipelineWf_def Let_def gm.wf_put)

lemma gatherTunnel_extends:
  assumes "gatherTunnelPolicies rs pl policies pd = Inr pd'"
  shows "extends pd pd'"
proof -
  let ?pd = "pd\<lparr>pd_TunnelTargetPolicies :=
    fold (\<lambda>p m. gput m (metaNN (r_Meta p)) (r_Spec p)) policies (pd_TunnelTargetPolicies pd)\<rparr>"
  have "extends ?pd pd'"
    using assms unfolding gatherTunnelPolicies_def Let_def
    by (rule foldE_inv [where I = "extends ?pd"])
      (auto simp: tunnelProfile_def split: if_splits sum.splits api_error.splits intro: extends_trans)
  moreover have "extends pd ?pd" by (simp add: extends_def pipelineWf_def gput_fold_wf)
  ultimately show ?thesis by (rule extends_trans [rotated])
qed

lemma gatherPipeline_extends:
  assumes "gatherPipeline rs sel yaml domain cl pl = Inr (Gathered pd')"
  obtains pd where "gatherTargets rs sel pl NewPipelineData = Inr pd" and "extends pd pd'"
proof -
  obtain pd a b c d e where pd: "gatherTargets rs sel pl NewPipelineData = Inr pd" "extends pd a" "extends a b"
    "extends b c" "extends c d" "extends d e" "extends e pd'"
    using assms unfolding gatherPipeline_def
    by (auto simp: bindE_Inr_iff split: if_splits
        dest!: gather_extends gatherOutputs_extends gatherProcessors_extends gatherTunnel_extends)
  then show thesis using that by (meson extends_trans)
qed

lemma resolveTargets_store:
  assumes "readsStore t_Meta rd (m_Namespace (pl_Meta pl)) A" and "resolveTargets rd sel pl = Inr ts"
  shows "t \<in> set ts \<longleftrightarrow> (\<exists>n. A (m_Namespace (pl_Meta pl), n) = Some t \<and>
    pipelineReferencesResource sel pl n (m_Labels (t_Meta t)) TargetType)"
  using resolveAll_set [OF assms(1) _ assms(2) [unfolded resolveTargets_def]] by (auto simp: t_Name_def references_iff)

lemma readsStore_namespace:
  "readsStore meta rd ns A \<Longrightarrow> A (ns, n) = Some x \<Longrightarrow> metaNN (meta x) = nsname ns n"
  by (simp add: readsStore_def metaNN_def)

lemma gatherTargets_profiles:
  assumes "gatherTargets rs sel pl pd = Inr pd'"
    and "readsStore r_Meta (rds_TargetProfiles rs) (m_Namespace (pl_Meta pl)) P"
    and "resolveTargets (rds_Targets rs) sel pl = Inr ts"
  shows "\<forall>t \<in> set ts. nsname (m_Namespace (pl_Meta pl)) (ts_Profile (t_Spec t)) \<in> set (gkeys (pd_TargetProfiles pd'))"
    and "pd_Targets pd' = fold (\<lambda>t m. gput m (metaNN (t_Meta t)) t) ts (pd_Targets pd)"
    and "pipelineWf pd \<Longrightarrow> pipelineWf pd'"
proof -
  let ?ns = "m_Namespace (pl_Meta pl)"
  let ?names = "gkeys (fold (\<lambda>t m. gput m (ts_Profile (t_Spec t)) ()) ts [])"
  let ?step = "\<lambda>name pd. bindE (rd_get (rds_TargetProfiles rs) ?ns name) (\<lambda>p. Inr (putProfile p pd))"
  let ?pd = "pd\<lparr>pd_Targets := fold (\<lambda>t m. gput m (metaNN (t_Meta t)) t) ts (pd_Targets pd)\<rparr>"
  let ?I = "\<lambda>done pd'. extends ?pd pd' \<and> (\<forall>n \<in> set done. nsname ?ns n \<in> set (gkeys (pd_TargetProfiles pd')))"
  have run: "foldE ?step ?names ?pd = Inr pd'"
    using assms(1,3) by (simp add: gatherTargets_def Let_def)
  have "?I ([] @ ?names) pd'"
  proof (rule foldE_inv_done [OF run, where I = ?I])
    fix n ns' s s' assume I: "?I ns' s" and step: "?step n s = Inr s'" and "n \<in> set ?names"
    from step obtain p where p: "P (?ns, n) = Some p" "s' = putProfile p s"
      by (auto simp: bindE_Inr_iff readsStore_get [OF assms(2)] split: option.splits)
    have "metaNN (r_Meta p) = nsname ?ns n" by (rule readsStore_namespace [OF assms(2) p(1)])
    then show "?I (ns' @ [n]) s'"
      using I p(2) by (auto simp: gm.keys_put putProfile_def extends_def pipelineWf_def)
  qed simp
  then have I: "extends ?pd pd'" "\<forall>n \<in> set ?names. nsname ?ns n \<in> set (gkeys (pd_TargetProfiles pd'))" by simp_all
  then show "\<forall>t \<in> set ts. nsname ?ns (ts_Profile (t_Spec t)) \<in> set (gkeys (pd_TargetProfiles pd'))"
    by (simp add: gput_fold_keys)
  from I(1) show "pd_Targets pd' = fold (\<lambda>t m. gput m (metaNN (t_Meta t)) t) ts (pd_Targets pd)"
    "pipelineWf pd \<Longrightarrow> pipelineWf pd'"
    by (simp_all add: extends_def pipelineWf_def gput_fold_wf)
qed

lemma gatherPipeline_targets:
  assumes "gatherPipeline rs sel yaml domain cl pl = Inr (Gathered pd)" and "m_Namespace (pl_Meta pl) = ns"
    and "readsStore t_Meta (rds_Targets rs) ns A"
    and "readsStore r_Meta (rds_TargetProfiles rs) ns P"
    and "CHR ''/'' \<notin> set ns"
  shows "pipelineWf pd"
    and "gget (pd_Targets pd) k = Some t \<longleftrightarrow> (\<exists>n. k = nsname ns n \<and> A (ns, n) = Some t \<and>
      pipelineReferencesResource sel pl n (m_Labels (t_Meta t)) TargetType)"
    and "gget (pd_Targets pd) k = Some t \<Longrightarrow> hasProfile pd k (ts_Profile (t_Spec t))"
proof -
  obtain pd0 where pd0: "gatherTargets rs sel pl NewPipelineData = Inr pd0" "extends pd0 pd"
    by (rule gatherPipeline_extends [OF assms(1)])
  obtain ts where ts: "resolveTargets (rds_Targets rs) sel pl = Inr ts"
    using pd0(1) by (auto simp: gatherTargets_def bindE_Inr_iff)
  note facts = gatherTargets_profiles [OF pd0(1) assms(4) [folded assms(2)] ts]
  have "pipelineWf NewPipelineData" by (simp add: pipelineWf_def NewPipelineData_def)
  with facts(3) show "pipelineWf pd" using pd0(2) by (simp add: extends_def)
  have nn: "metaNN (t_Meta t) = nsname ns n" if "A (ns, n) = Some t" for n t
    by (rule readsStore_namespace [OF assms(3) that])
  note store = resolveTargets_store [OF assms(3) [folded assms(2)] ts, unfolded assms(2)]
  have mem: "gget (pd_Targets pd) k = Some t \<longleftrightarrow> (\<exists>x \<in> set ts. metaNN (t_Meta x) = k \<and> x = t)"
  proof -
    have "x = y" if "x \<in> set ts" "y \<in> set ts" "metaNN (t_Meta x) = metaNN (t_Meta y)" for x y
      using that nn assms(5) unfolding store by (metis SplitNN_nsname option.inject snd_conv)
    then show ?thesis
      using pd0(2) facts(2) by (simp add: extends_def NewPipelineData_def gput_fold_get)
  qed
  show get: "gget (pd_Targets pd) k = Some t \<longleftrightarrow> (\<exists>n. k = nsname ns n \<and> A (ns, n) = Some t \<and>
      pipelineReferencesResource sel pl n (m_Labels (t_Meta t)) TargetType)"
    using nn store [of t] by (auto simp: mem)
  assume t: "gget (pd_Targets pd) k = Some t"
  with mem have "t \<in> set ts" by simp
  then have "nsname ns (ts_Profile (t_Spec t)) \<in> set (gkeys (pd_TargetProfiles pd))"
    using facts(1) pd0(2) assms(2) by (auto simp: extends_def)
  moreover obtain n where "k = nsname ns n" using t get by blast
  ultimately show "hasProfile pd k (ts_Profile (t_Spec t))"
    using assms(5) by (simp add: hasProfile_def gm.keys_iff)
qed

section \<open>The pipelines of a plan\<close>

lemma foldW_inv_done:
  assumes "foldW f xs s w = (Inr s', w')" and "I ys s"
    and "\<And>x ys s s' w w'. I ys s \<Longrightarrow> f x s w = (Inr s', w') \<Longrightarrow> x \<in> set xs \<Longrightarrow> I (ys @ [x]) s'"
  shows "I (ys @ xs) s'"
  using assms
proof (induction xs arbitrary: s w ys)
  case (Cons x xs)
  obtain s1 w1 where s1: "f x s w = (Inr s1, w1)" "foldW f xs s1 w1 = (Inr s', w')"
    using Cons.prems(1) by (auto split: prod.splits sum.splits)
  have "I ((ys @ [x]) @ xs) s'"
    by (rule Cons.IH [OF s1(2) Cons.prems(3) [OF Cons.prems(2) s1(1)]]) (use Cons.prems(3) in auto)
  then show ?case by simp
qed simp

lemma newBuilder_fields: "freshBuilder (newBuilder env cl)" "b_pipelines (newBuilder env cl) = []"
  by (simp_all add: newBuilder_def freshBuilder_def WithClientTLS_def WithTargetDistributionCapacity_def
      NewPlanBuilder_def Let_def split: option.split)

text \<open>The pipelines that take part in the plan of a cluster, with their data.\<close>

definition takesPart :: "'w cluster_env \<Rightarrow> cluster \<Rightarrow> pipeline \<Rightarrow> pipeline_data \<Rightarrow> bool" where
  "takesPart env cl pl pd \<longleftrightarrow> ps_Enabled (pl_Spec pl) \<and>
     gatherPipeline (ce_Readers env) (ce_AsSelector env) (ce_Yaml env) (ce_Domain env) cl pl = Inr (Gathered pd)"

definition loopInv ::
  "'w cluster_env \<Rightarrow> cluster \<Rightarrow> pipeline list \<Rightarrow> plan_builder \<times> (string, pipeline_data) gomap \<Rightarrow> bool" where
  "loopInv env cl pls = (\<lambda>(b, pds). b = (newBuilder env cl)\<lparr>b_pipelines := pds\<rparr> \<and> gwf pds \<and>
     (\<forall>k pd. gget pds k = Some pd \<longleftrightarrow> (\<exists>pl \<in> set pls. k = metaNN (pl_Meta pl) \<and> takesPart env cl pl pd)))"

lemma loopInv_step:
  assumes "loopInv env cl ys s" and "reconcilePipeline env now cl pl s w = (Inr s', w')"
    and "\<forall>y \<in> set ys. metaNN (pl_Meta y) = metaNN (pl_Meta pl) \<longrightarrow> y = pl"
  shows "loopInv env cl (ys @ [pl]) s'"
proof -
  obtain b pds where s: "s = (b, pds)" by (cases s)
  show ?thesis
  proof (cases "\<exists>pd. takesPart env cl pl pd")
    case True
    then obtain pd where pd: "takesPart env cl pl pd" ..
    then have s': "s' = (AddPipeline (metaNN (pl_Meta pl)) pd b, gput pds (metaNN (pl_Meta pl)) pd)"
      using assms(2) by (auto simp: s reconcilePipeline_def takesPart_def)
    have uniq: "takesPart env cl pl pd' \<longleftrightarrow> pd' = pd" for pd' using pd by (auto simp: takesPart_def)
    show ?thesis
      using assms(1,3) uniq unfolding s s' loopInv_def
      by (auto simp: AddPipeline_def gm.wf_put gm.get_put)
  next
    case False
    then have "s' = s"
      using assms(2) by (auto simp: s reconcilePipeline_def takesPart_def split: if_splits sum.splits gathered.splits)
    with False assms(1) show ?thesis by (auto simp: loopInv_def)
  qed
qed

lemma loop_pipelines:
  assumes "foldW (reconcilePipeline env now cl) pls (newBuilder env cl, []) w = (Inr s, w')"
    and "inj_on (\<lambda>pl. metaNN (pl_Meta pl)) (set pls)"
  shows "loopInv env cl pls s"
proof -
  have "set ([] @ pls) \<subseteq> set pls \<and> loopInv env cl ([] @ pls) s"
  proof (rule foldW_inv_done [OF assms(1), where I = "\<lambda>ys s. set ys \<subseteq> set pls \<and> loopInv env cl ys s"])
    show "set [] \<subseteq> set pls \<and> loopInv env cl [] (newBuilder env cl, [])"
      by (simp add: loopInv_def newBuilder_fields(2))
  next
    fix x ys s s' w w'
    assume I: "set ys \<subseteq> set pls \<and> loopInv env cl ys s" and step: "reconcilePipeline env now cl x s w = (Inr s', w')"
      and x: "x \<in> set pls"
    have "\<forall>y \<in> set ys. metaNN (pl_Meta y) = metaNN (pl_Meta x) \<longrightarrow> y = x"
      using I x assms(2) by (auto dest: inj_onD)
    from loopInv_step [OF _ step this] I x show "set (ys @ [x]) \<subseteq> set pls \<and> loopInv env cl (ys @ [x]) s'" by simp
  qed
  then show ?thesis by simp
qed

text \<open>What a reconciliation that reaches a plan has read.\<close>

definition clusterReads ::
  "'w cluster_env \<Rightarrow> string \<Rightarrow> (string \<times> string \<Rightarrow> target option) \<Rightarrow>
   (string \<times> string \<Rightarrow> target_profile_spec resource option) \<Rightarrow> pipeline list \<Rightarrow> bool" where
  "clusterReads env ns A P pls \<longleftrightarrow> CHR ''/'' \<notin> set ns \<and>
     readsStore t_Meta (rds_Targets (ce_Readers env)) ns A \<and>
     readsStore r_Meta (rds_TargetProfiles (ce_Readers env)) ns P \<and>
     rds_Pipelines (ce_Readers env) ns = Inr pls \<and>
     (\<forall>pl \<in> set pls. m_Namespace (pl_Meta pl) = ns) \<and> inj_on (\<lambda>pl. m_Name (pl_Meta pl)) (set pls)"

lemma clusterReads_inj: "clusterReads env ns A P pls \<Longrightarrow> S \<subseteq> set pls \<Longrightarrow> inj_on (\<lambda>pl. metaNN (pl_Meta pl)) S"
proof (rule inj_onI)
  fix x y
  assume reads: "clusterReads env ns A P pls" "S \<subseteq> set pls" and xy: "x \<in> S" "y \<in> S"
    and eq: "metaNN (pl_Meta x) = metaNN (pl_Meta y)"
  have "m_Namespace (pl_Meta x) = ns" "m_Namespace (pl_Meta y) = ns" using reads xy by (auto simp: clusterReads_def)
  with eq have "m_Name (pl_Meta x) = m_Name (pl_Meta y)" by (simp add: metaNN_def nsname_def)
  then show "x = y" using reads xy by (auto simp: clusterReads_def dest: inj_onD)
qed

lemma takesPart_targets:
  assumes "takesPart env cl pl pd" and "clusterReads env ns A P pls" and "pl \<in> set pls"
  shows "pipelineWf pd"
    and "gget (pd_Targets pd) k = Some t \<longleftrightarrow> (\<exists>n. k = nsname ns n \<and> A (ns, n) = Some t \<and>
      pipelineReferencesResource (ce_AsSelector env) pl n (m_Labels (t_Meta t)) TargetType)"
    and "gget (pd_Targets pd) k = Some t \<Longrightarrow> hasProfile pd k (ts_Profile (t_Spec t))"
proof -
  have facts: "gatherPipeline (ce_Readers env) (ce_AsSelector env) (ce_Yaml env) (ce_Domain env) cl pl = Inr (Gathered pd)"
    "m_Namespace (pl_Meta pl) = ns" "readsStore t_Meta (rds_Targets (ce_Readers env)) ns A"
    "readsStore r_Meta (rds_TargetProfiles (ce_Readers env)) ns P" "CHR ''/'' \<notin> set ns"
    using assms by (auto simp: takesPart_def clusterReads_def)
  from gatherPipeline_targets [OF facts] show "pipelineWf pd"
    "gget (pd_Targets pd) k = Some t \<longleftrightarrow> (\<exists>n. k = nsname ns n \<and> A (ns, n) = Some t \<and>
      pipelineReferencesResource (ce_AsSelector env) pl n (m_Labels (t_Meta t)) TargetType)"
    "gget (pd_Targets pd) k = Some t \<Longrightarrow> hasProfile pd k (ts_Profile (t_Spec t))"
    by blast+
qed

lemma reconcilePlan_parts:
  assumes "reconcilePlan env now cl plans w = (Inr (pipelines, pds, plan, plans'), w')"
    and "clusterReads env (m_Namespace (cl_Meta cl)) A P pls"
  obtains b where "Build (ce_Yaml env) b = Inr plan" and "loopInv env cl pipelines (b, pds)"
    and "pipelines = filter (\<lambda>pl. ps_ClusterRef (pl_Spec pl) = m_Name (cl_Meta cl) \<and> ps_Enabled (pl_Spec pl)) pls"
    and "plans' = CachePlan (m_Namespace (cl_Meta cl)) (m_Name (cl_Meta cl)) plan plans"
proof -
  obtain b w1 where run: "listPipelinesForCluster (ce_Readers env) cl = Inr pipelines"
    "foldW (reconcilePipeline env now cl) pipelines (newBuilder env cl, []) w = (Inr (b, pds), w1)"
    "Build (ce_Yaml env) b = Inr plan" "plans' = CachePlan (m_Namespace (cl_Meta cl)) (m_Name (cl_Meta cl)) plan plans"
    using assms(1) by (auto simp: reconcilePlan_def split: sum.splits prod.splits)
  have pls: "pipelines = filter (\<lambda>pl. ps_ClusterRef (pl_Spec pl) = m_Name (cl_Meta cl) \<and> ps_Enabled (pl_Spec pl)) pls"
    using run(1) assms(2) by (auto simp: listPipelinesForCluster_def clusterReads_def)
  then have "loopInv env cl pipelines (b, pds)"
    by (intro loop_pipelines [OF run(2)] clusterReads_inj [OF assms(2)]) auto
  with run pls that show thesis by blast
qed

lemma loopInv_builder:
  assumes "loopInv env cl pipelines (b, pds)" and "clusterReads env ns A P pls" and "set pipelines \<subseteq> set pls"
  shows "builderWf b" and "targetsResolved b"
    and "pd \<in> set (map snd (b_pipelines b)) \<longleftrightarrow> (\<exists>pl \<in> set pipelines. takesPart env cl pl pd)"
proof -
  have b: "b_pipelines b = pds" "freshBuilder b" and wf: "gwf pds"
    and get: "\<And>k pd. gget pds k = Some pd \<longleftrightarrow> (\<exists>pl \<in> set pipelines. k = metaNN (pl_Meta pl) \<and> takesPart env cl pl pd)"
    using assms(1) newBuilder_fields(1) [of env cl] by (auto simp: loopInv_def freshBuilder_def)
  have mem: "pd \<in> set (map snd (b_pipelines b)) \<longleftrightarrow> (\<exists>pl \<in> set pipelines. takesPart env cl pl pd)" for pd
  proof -
    have "pd \<in> set (map snd pds) \<longleftrightarrow> (\<exists>k. gget pds k = Some pd)"
      using gget_in [OF wf] gget_Some_in by force
    then show ?thesis unfolding b get by blast
  qed
  show "pd \<in> set (map snd (b_pipelines b)) \<longleftrightarrow> (\<exists>pl \<in> set pipelines. takesPart env cl pl pd)" by (rule mem)
  have part: "pipelineWf pd" "\<And>t tg. (t, tg) \<in> set (pd_Targets pd) \<Longrightarrow> hasProfile pd t (ts_Profile (t_Spec tg)) \<and>
      (\<exists>n. t = nsname ns n \<and> A (ns, n) = Some tg)"
    if pd: "pd \<in> set (map snd (b_pipelines b))" for pd
  proof -
    obtain pl where pl: "pl \<in> set pls" "takesPart env cl pl pd" using pd mem assms(3) by blast
    show wf: "pipelineWf pd" by (rule takesPart_targets(1) [OF pl(2) assms(2) pl(1)])
    fix t tg assume "(t, tg) \<in> set (pd_Targets pd)"
    then have "gget (pd_Targets pd) t = Some tg" using wf by (intro gget_in) (simp_all add: pipelineWf_def)
    then show "hasProfile pd t (ts_Profile (t_Spec tg)) \<and> (\<exists>n. t = nsname ns n \<and> A (ns, n) = Some tg)"
      using takesPart_targets(2,3) [OF pl(2) assms(2) pl(1)] by blast
  qed
  show "builderWf b"
    using b(2) part(1) by (fastforce simp: builderWf_def list_all_iff)
  have "CHR ''/'' \<notin> set ns" using assms(2) by (simp add: clusterReads_def)
  show "targetsResolved b"
    unfolding targetsResolved_def
  proof (intro conjI ballI impI)
    fix pd x assume "pd \<in> set (map snd (b_pipelines b))" "x \<in> set (pd_Targets pd)"
    then show "hasProfile pd (fst x) (ts_Profile (t_Spec (snd x)))" using part(2) [of pd "fst x" "snd x"] by simp
  next
    fix pd pd' x y
    assume pds: "pd \<in> set (map snd (b_pipelines b))" "pd' \<in> set (map snd (b_pipelines b))"
      and xy: "x \<in> set (pd_Targets pd)" "y \<in> set (pd_Targets pd')" "fst x = fst y"
    obtain n where n: "fst x = nsname ns n" "A (ns, n) = Some (snd x)" using part(2) [OF pds(1), of "fst x" "snd x"] xy(1) by auto
    obtain n' where n': "fst y = nsname ns n'" "A (ns, n') = Some (snd y)" using part(2) [OF pds(2), of "fst y" "snd y"] xy(2) by auto
    have "n = n'" using n(1) n'(1) xy(3) by (simp add: nsname_def)
    with n n' show "snd x = snd y" by simp
  qed
qed

lemma plan_targets:
  assumes "Build (ce_Yaml env) b = Inr plan" and "loopInv env cl pipelines (b, pds)"
    and "clusterReads env ns A P pls" and "set pipelines \<subseteq> set pls"
  shows "k \<in> set (gkeys (ap_Targets plan)) \<longleftrightarrow>
    (\<exists>n t pl pd. k = nsname ns n \<and> A (ns, n) = Some t \<and> pl \<in> set pipelines \<and> takesPart env cl pl pd \<and>
       pipelineReferencesResource (ce_AsSelector env) pl n (m_Labels (t_Meta t)) TargetType)"
  unfolding Build_targets(1) [OF assms(1) loopInv_builder(1) [OF assms(2-4)]]
proof safe
  fix pd t assume "pd \<in> set (map snd (b_pipelines b))" and t: "gget (pd_Targets pd) k = Some t"
  then obtain pl where pl: "pl \<in> set pipelines" "takesPart env cl pl pd" "pl \<in> set pls"
    using loopInv_builder(3) [OF assms(2-4)] assms(4) by blast
  then show "\<exists>n t pl pd. k = nsname ns n \<and> A (ns, n) = Some t \<and> pl \<in> set pipelines \<and> takesPart env cl pl pd \<and>
       pipelineReferencesResource (ce_AsSelector env) pl n (m_Labels (t_Meta t)) TargetType"
    using t takesPart_targets(2) [OF pl(2) assms(3) pl(3)] by blast
next
  fix n t pl pd
  assume n: "A (ns, n) = Some t" "pipelineReferencesResource (ce_AsSelector env) pl n (m_Labels (t_Meta t)) TargetType"
    and pl: "pl \<in> set pipelines" "takesPart env cl pl pd"
  have "pl \<in> set pls" using pl(1) assms(4) by auto
  from takesPart_targets(2,3) [OF pl(2) assms(3) this] n
  have "gget (pd_Targets pd) (nsname ns n) = Some t" "hasProfile pd (nsname ns n) (ts_Profile (t_Spec t))" by blast+
  moreover have "pd \<in> set (map snd (b_pipelines b))" using loopInv_builder(3) [OF assms(2-4)] pl by blast
  ultimately show "\<exists>pd \<in> set (map snd (b_pipelines b)). \<exists>tg. gget (pd_Targets pd) (nsname ns n) = Some tg \<and>
      hasProfile pd (nsname ns n) (ts_Profile (t_Spec tg))" by blast
qed

text \<open>
  C1: When a reconciliation reaches a plan, the cached plan of the cluster holds exactly the stored
  targets that an enabled pipeline of the cluster references, except for pipelines set aside for a
  missing tunnel, and the distribution puts each of them on exactly one pod in range or reports it
  unassigned.
\<close>

theorem cluster_targets_placed:
  assumes "clusterReads env (m_Namespace (cl_Meta cl)) A P pls"
    and "reconcilePlan env now cl plans w = (Inr (pipelines, pds, plan, plans'), w')"
    and "capacityOK (cs_TargetDistribution (cl_Spec cl))" and "0 < numPods"
  shows "GetClusterPlan (m_Namespace (cl_Meta cl)) (m_Name (cl_Meta cl)) plans' = Inr plan \<and>
    set (gkeys (ap_Targets plan)) =
      {nsname (m_Namespace (cl_Meta cl)) n | n. \<exists>t pl pd.
         A (m_Namespace (cl_Meta cl), n) = Some t \<and> pl \<in> set pls \<and> ps_ClusterRef (pl_Spec pl) = m_Name (cl_Meta cl) \<and>
         takesPart env cl pl pd \<and>
         pipelineReferencesResource (ce_AsSelector env) pl n (m_Labels (t_Meta t)) TargetType} \<and>
    (let r = DistributeTargets plan numPods (cs_TargetDistribution (cl_Spec cl)) in
      \<forall>k \<in> set (gkeys (ap_Targets plan)).
        if k \<in> set (dr_UnassignedTargets r) then \<forall>p. k \<notin> podTargets r p
        else \<exists>!p. k \<in> podTargets r p \<and> 0 \<le> p \<and> p < numPods)"
proof -
  obtain b where b: "Build (ce_Yaml env) b = Inr plan" "loopInv env cl pipelines (b, pds)"
    "pipelines = filter (\<lambda>pl. ps_ClusterRef (pl_Spec pl) = m_Name (cl_Meta cl) \<and> ps_Enabled (pl_Spec pl)) pls"
    "plans' = CachePlan (m_Namespace (cl_Meta cl)) (m_Name (cl_Meta cl)) plan plans"
    by (rule reconcilePlan_parts [OF assms(2,1)])
  have sub: "set pipelines \<subseteq> set pls" using b(3) by auto
  have enabled: "takesPart env cl pl pd \<Longrightarrow> ps_Enabled (pl_Spec pl)" for pl pd by (simp add: takesPart_def)
  have "planOK plan"
    by (rule Build_planOK [OF b(1) loopInv_builder(1,2) [OF b(2) assms(1) sub]])
  note part = targets_partition [OF this assms(3), of numPods, unfolded Let_def]
  show ?thesis
  proof (intro conjI)
    show "GetClusterPlan (m_Namespace (cl_Meta cl)) (m_Name (cl_Meta cl)) plans' = Inr plan"
      by (simp add: b(4) CachePlan_def GetClusterPlan_def gm.get_put)
    show "set (gkeys (ap_Targets plan)) =
      {nsname (m_Namespace (cl_Meta cl)) n | n. \<exists>t pl pd.
         A (m_Namespace (cl_Meta cl), n) = Some t \<and> pl \<in> set pls \<and> ps_ClusterRef (pl_Spec pl) = m_Name (cl_Meta cl) \<and>
         takesPart env cl pl pd \<and>
         pipelineReferencesResource (ce_AsSelector env) pl n (m_Labels (t_Meta t)) TargetType}"
      using enabled unfolding plan_targets [OF b(1,2) assms(1) sub] set_eq_iff mem_Collect_eq b(3) set_filter by metis
    show "let r = DistributeTargets plan numPods (cs_TargetDistribution (cl_Spec cl)) in
      \<forall>k \<in> set (gkeys (ap_Targets plan)).
        if k \<in> set (dr_UnassignedTargets r) then \<forall>p. k \<notin> podTargets r p
        else \<exists>!p. k \<in> podTargets r p \<and> 0 \<le> p \<and> p < numPods"
      unfolding Let_def using part assms(4) by auto
  qed
qed

text \<open>An environment over the example resources, whose world is that of the pods.\<close>

definition exEnvOver :: "readers \<Rightarrow> (string \<Rightarrow> string \<Rightarrow> string \<Rightarrow> 'w \<Rightarrow> (string + http_reply) \<times> 'w) \<Rightarrow> 'w cluster_env" where
  "exEnvOver rs exchange = \<lparr>ce_Readers = rs, ce_AsSelector = exSelector, ce_Yaml = exYaml, ce_Domain = ''cluster.local'',
     ce_Getenv = (\<lambda>_. []), ce_ReadFile = (\<lambda>_. Inl []), ce_KeyPair = (\<lambda>_ _. None), ce_Issuer = (\<lambda>_ _. Inl NotFound),
     ce_PlanJSON = (\<lambda>_. Inr []), ce_MatchJSON = (\<lambda>m. Inr (ttm_ID m)), ce_DecodeKeys = (\<lambda>_. Inr []),
     ce_Do = (\<lambda>_. exchange), ce_GetPipeline = (\<lambda>_ _ w. (Inl NotFound, w)), ce_UpdatePipeline = (\<lambda>_ w. (None, w)),
     ce_UpdateCluster = (\<lambda>_ w. (None, w)), ce_ErrText = (\<lambda>_. ''error''), ce_PointerText = (\<lambda>_. ''0xc000''),
     ce_Quote = (\<lambda>s. s)\<rparr>"

definition exIdle :: "unit cluster_env" where
  "exIdle = exEnvOver exReaders (\<lambda>_ _ _ w. (Inl [], w))"

definition exCluster :: cluster where
  "exCluster = \<lparr>cl_Meta = exMeta ''c1'',
     cl_Spec = \<lparr>cs_Image = ''gnmic'', cs_Replicas = Some 2, cs_API = None, cs_ClientTLS = None, cs_GRPCTunnel = None,
       cs_Resources = \<lparr>rr_Requests = [], rr_Limits = []\<rparr>, cs_Env = [],
       cs_TargetDistribution = None\<rparr>,
     cl_Status = \<lparr>cst_Conditions = [], cst_ReadyReplicas = 0, cst_Selector = [], cst_PipelinesCount = 0,
       cst_TargetsCount = 0, cst_UnassignedTargets = 0, cst_SubscriptionsCount = 0, cst_InputsCount = 0,
       cst_OutputsCount = 0\<rparr>\<rparr>"

lemma exIdle_reads:
  "clusterReads exIdle ''n'' (listStore t_Meta exTargets)
     (listStore r_Meta [\<lparr>r_Meta = exMeta ''p'', r_Spec = exProfile\<rparr>]) [exCR]"
  unfolding clusterReads_def
proof (intro conjI)
  show "readsStore t_Meta (rds_Targets (ce_Readers exIdle)) ''n'' (listStore t_Meta exTargets)"
    using exTargets_reads by (simp add: exIdle_def exEnvOver_def)
  show "readsStore r_Meta (rds_TargetProfiles (ce_Readers exIdle)) ''n''
      (listStore r_Meta [\<lparr>r_Meta = exMeta ''p'', r_Spec = exProfile\<rparr>])"
    unfolding exIdle_def exEnvOver_def cluster_env.simps exReaders_def exReadersOf_def readers.simps by (rule listReader_readsStore) simp
qed (simp_all add: exIdle_def exEnvOver_def exReaders_def exReadersOf_def exCR_def exMeta_def)

lemma exReconciled_targets:
  "map_sum (\<lambda>_. ()) (\<lambda>(_, _, plan, _). gkeys (ap_Targets plan)) (fst (reconcilePlan exIdle 0 exCluster [] ())) =
     Inr [''n/t1'', ''n/t2'']"
  by code_simp

theorem cluster_targets_placed_witness:
  "\<exists>plan plans'. GetClusterPlan ''n'' ''c1'' plans' = Inr plan \<and> set (gkeys (ap_Targets plan)) = {''n/t1'', ''n/t2''} \<and>
     (\<exists>n. ''n/t2'' = nsname ''n'' n \<and> listStore t_Meta exTargets (''n'', n) \<noteq> None)"
proof -
  obtain pipelines pds plan plans' where run: "reconcilePlan exIdle 0 exCluster [] () = (Inr (pipelines, pds, plan, plans'), ())"
    and keys: "gkeys (ap_Targets plan) = [''n/t1'', ''n/t2'']"
    using exReconciled_targets by (cases "reconcilePlan exIdle 0 exCluster [] ()") (auto simp: map_sum_def split: sum.splits)
  have meta: "m_Namespace (cl_Meta exCluster) = ''n''" "m_Name (cl_Meta exCluster) = ''c1''" "capacityOK (cs_TargetDistribution (cl_Spec exCluster))"
    by (simp_all add: exCluster_def exMeta_def capacityOK_def)
  have two: "(0 :: int) < 2" by simp
  note placed = cluster_targets_placed [OF _ run meta(3), unfolded meta, OF exIdle_reads two, THEN conjunct1]
    cluster_targets_placed [OF _ run meta(3), unfolded meta, OF exIdle_reads two, THEN conjunct2, THEN conjunct1]
  have "''n/t2'' \<in> set (gkeys (ap_Targets plan))" by (simp add: keys)
  then have "\<exists>n. ''n/t2'' = nsname ''n'' n \<and> listStore t_Meta exTargets (''n'', n) \<noteq> None"
    unfolding placed(2) mem_Collect_eq by blast
  moreover have "set (gkeys (ap_Targets plan)) = {''n/t1'', ''n/t2''}" by (simp add: keys)
  ultimately show ?thesis using placed(1) by blast
qed

end
