(* ===== verification/Pods_Correct.thy ===== *)
theory Pods_Correct
  imports Cluster_Correct
begin

text \<open>
  What the pods of a cluster hold after a plan is sent, and that the statuses of pipelines and clusters
  settle. The pods' HTTP interface is a hypothesis: \<open>servesPods\<close> states what each request does.
\<close>

section \<open>Pods\<close>

record pod_state =
  pod_Config :: "string option" \<comment> \<open>the body of the last applied configuration\<close>
  pod_Matches :: "string \<Rightarrow> string option" \<comment> \<open>tunnel target matches by ID\<close>

definition atPod :: "('b \<Rightarrow> 'p) \<Rightarrow> 'b \<Rightarrow> ('p \<Rightarrow> 'p) \<Rightarrow> 'b \<Rightarrow> 'p" where
  "atPod f b g = f(b := g (f b))"

lemma atPod_atPod: "atPod (atPod f b g) b h = atPod f b (\<lambda>p. h (g p))"
  by (simp add: atPod_def)

lemma atPod_id [simp]: "atPod f b (\<lambda>p. p) = f"
  by (simp add: atPod_def)

lemma atPod_same [simp]: "atPod f b g b = g (f b)"
  by (simp add: atPod_def)

lemma atPod_other [simp]: "c \<noteq> b \<Longrightarrow> atPod f b g c = f c"
  by (simp add: atPod_def)

text \<open>The pods at the base URLs \<open>B\<close> answer every request and do what it asks.\<close>

definition servesPods ::
  "'w cluster_env \<Rightarrow> http_client \<Rightarrow> string set \<Rightarrow> ('w \<Rightarrow> string \<Rightarrow> pod_state) \<Rightarrow> bool" where
  "servesPods env client B repr \<longleftrightarrow> (\<forall>w. \<forall>b \<in> B.
     (\<forall>body. \<exists>r w'. ce_Do env client ''POST'' (b @ ''/api/v1/config/apply'') body w = (Inr r, w') \<and>
        successStatus (hr_Status r) \<and> repr w' = atPod (repr w) b (\<lambda>p. p\<lparr>pod_Config := Some body\<rparr>)) \<and>
     (\<exists>r w' ids. ce_Do env client ''GET'' (matchesURL b) [] w = (Inr r, w') \<and> successStatus (hr_Status r) \<and>
        bindE (hr_Body r) (ce_DecodeKeys env) = Inr ids \<and> set ids = dom (pod_Matches (repr w b)) \<and> repr w' = repr w) \<and>
     (\<forall>i. \<exists>r w'. ce_Do env client ''DELETE'' (matchesURL b @ ''/'' @ i) [] w = (Inr r, w') \<and>
        repr w' = atPod (repr w) b (\<lambda>p. p\<lparr>pod_Matches := (pod_Matches p)(i := None)\<rparr>)) \<and>
     (\<forall>tm body. ce_MatchJSON env tm = Inr body \<longrightarrow>
        (\<exists>r w'. ce_Do env client ''POST'' (matchesURL b) body w = (Inr r, w') \<and> successStatus (hr_Status r) \<and>
           repr w' = atPod (repr w) b (\<lambda>p. p\<lparr>pod_Matches := (pod_Matches p)(ttm_ID tm \<mapsto> body)\<rparr>))))"

lemma serves_config:
  assumes "servesPods env client B repr" and "b \<in> B"
  obtains r w' where "ce_Do env client ''POST'' (b @ ''/api/v1/config/apply'') body w = (Inr r, w')"
    and "successStatus (hr_Status r)" and "repr w' = atPod (repr w) b (\<lambda>p. p\<lparr>pod_Config := Some body\<rparr>)"
  using assms unfolding servesPods_def by meson

lemma serves_list:
  assumes "servesPods env client B repr" and "b \<in> B"
  obtains r w' ids where "ce_Do env client ''GET'' (matchesURL b) [] w = (Inr r, w')" and "successStatus (hr_Status r)"
    and "bindE (hr_Body r) (ce_DecodeKeys env) = Inr ids" and "set ids = dom (pod_Matches (repr w b))" and "repr w' = repr w"
  using assms unfolding servesPods_def by meson

lemma serves_delete:
  assumes "servesPods env client B repr" and "b \<in> B"
  obtains r w' where "ce_Do env client ''DELETE'' (matchesURL b @ ''/'' @ i) [] w = (Inr r, w')"
    and "repr w' = atPod (repr w) b (\<lambda>p. p\<lparr>pod_Matches := (pod_Matches p)(i := None)\<rparr>)"
  using assms unfolding servesPods_def by meson

lemma serves_match:
  assumes "servesPods env client B repr" and "b \<in> B" and "ce_MatchJSON env tm = Inr body"
  obtains r w' where "ce_Do env client ''POST'' (matchesURL b) body w = (Inr r, w')" and "successStatus (hr_Status r)"
    and "repr w' = atPod (repr w) b (\<lambda>p. p\<lparr>pod_Matches := (pod_Matches p)(ttm_ID tm \<mapsto> body)\<rparr>)"
  using assms unfolding servesPods_def by meson

section \<open>Tunnel target matches\<close>

definition dropIDs :: "string set \<Rightarrow> (string \<Rightarrow> string option) \<Rightarrow> string \<Rightarrow> string option" where
  "dropIDs S m = (\<lambda>i. if i \<in> S then None else m i)"

lemma dropIDs_upd: "dropIDs S (m(i := None)) = dropIDs (insert i S) m"
  by (auto simp: dropIDs_def)

lemma deletes_pod:
  assumes "servesPods env client B repr" and "b \<in> B"
  shows "repr (fold (\<lambda>i w. if i \<in> D then w else snd (deleteTunnelTargetMatch env client b i w)) ids w) =
    atPod (repr w) b (\<lambda>p. p\<lparr>pod_Matches := dropIDs (set ids - D) (pod_Matches p)\<rparr>)"
proof (induction ids arbitrary: w)
  case (Cons i ids)
  show ?case
  proof (cases "i \<in> D")
    case True
    then have "set (i # ids) - D = set ids - D" by auto
    with True Cons show ?thesis by simp
  next
    case False
    obtain r w' where w': "ce_Do env client ''DELETE'' (matchesURL b @ ''/'' @ i) [] w = (Inr r, w')"
      "repr w' = atPod (repr w) b (\<lambda>p. p\<lparr>pod_Matches := (pod_Matches p)(i := None)\<rparr>)"
      by (rule serves_delete [OF assms])
    have "snd (deleteTunnelTargetMatch env client b i w) = w'" unfolding deleteTunnelTargetMatch_def w'(1) by simp
    moreover have "insert i (set ids - D) = set (i # ids) - D" using False by auto
    ultimately show ?thesis
      using False by (simp add: Cons.IH w'(2) atPod_atPod dropIDs_upd)
  qed
qed (simp add: dropIDs_def)

definition putMatches :: "'w cluster_env \<Rightarrow> tunnel_target_match list \<Rightarrow> (string \<Rightarrow> string option) \<Rightarrow> string \<Rightarrow> string option" where
  "putMatches env tms m = fold (\<lambda>tm m. m(ttm_ID tm \<mapsto> projr (ce_MatchJSON env tm))) tms m"

lemma posts_pod:
  assumes "servesPods env client B repr" and "b \<in> B" and "\<forall>tm \<in> set tms. \<not> isl (ce_MatchJSON env tm)"
  shows "\<exists>w'. foldW (postTunnelTargetMatch env client b) tms () w = (Inr (), w') \<and>
    repr w' = atPod (repr w) b (\<lambda>p. p\<lparr>pod_Matches := putMatches env tms (pod_Matches p)\<rparr>)"
  using assms(3)
proof (induction tms arbitrary: w)
  case (Cons tm tms)
  obtain body where body: "ce_MatchJSON env tm = Inr body" using Cons.prems by (auto simp: not_isl_ex)
  obtain r w1 where w1: "ce_Do env client ''POST'' (matchesURL b) body w = (Inr r, w1)" "successStatus (hr_Status r)"
    "repr w1 = atPod (repr w) b (\<lambda>p. p\<lparr>pod_Matches := (pod_Matches p)(ttm_ID tm \<mapsto> body)\<rparr>)"
    by (rule serves_match [OF assms(1,2) body])
  then have "postTunnelTargetMatch env client b tm () w = (Inr (), w1)" by (simp add: postTunnelTargetMatch_def body)
  moreover obtain w' where "foldW (postTunnelTargetMatch env client b) tms () w1 = (Inr (), w')"
    "repr w' = atPod (repr w1) b (\<lambda>p. p\<lparr>pod_Matches := putMatches env tms (pod_Matches p)\<rparr>)"
    using Cons.IH [of w1] Cons.prems by (meson list.set_intros(2))
  moreover have "putMatches env (tm # tms) m = putMatches env tms (m(ttm_ID tm \<mapsto> body))" for m
    by (simp add: putMatches_def body)
  ultimately show ?case unfolding w1(3) by (intro exI [of _ w']) (simp add: atPod_atPod)
qed (simp add: putMatches_def)

lemma putMatches_get:
  "putMatches env tms m i = (if \<exists>tm \<in> set tms. ttm_ID tm = i
     then Some (projr (ce_MatchJSON env (last (filter (\<lambda>tm. ttm_ID tm = i) tms)))) else m i)"
  unfolding putMatches_def
proof (induction tms arbitrary: m)
  case (Cons tm tms)
  have "filter (\<lambda>tm. ttm_ID tm = i) tms = [] \<longleftrightarrow> \<not> (\<exists>tm \<in> set tms. ttm_ID tm = i)" by (auto simp: filter_empty_conv)
  with Cons show ?case by auto
qed simp

text \<open>The matches a plan asks for: the last of the matches with an ID counts.\<close>

definition desiredMatches :: "'w cluster_env \<Rightarrow> (string, tunnel_target_match) gomap \<Rightarrow> string \<Rightarrow> string option" where
  "desiredMatches env matches = putMatches env (map snd matches) Map.empty"

lemma applyTunnelTargetMatches_pod:
  assumes "servesPods env client B repr" and "b \<in> B" and "\<forall>x \<in> set matches. \<not> isl (ce_MatchJSON env (snd x))"
  shows "\<exists>w'. applyTunnelTargetMatches env client b matches w = (Inr (), w') \<and>
    repr w' = atPod (repr w) b (\<lambda>p. p\<lparr>pod_Matches := desiredMatches env matches\<rparr>)"
proof -
  obtain r w1 ids where w1: "ce_Do env client ''GET'' (matchesURL b) [] w = (Inr r, w1)" "successStatus (hr_Status r)"
    "bindE (hr_Body r) (ce_DecodeKeys env) = Inr ids" "set ids = dom (pod_Matches (repr w b))" "repr w1 = repr w"
    by (rule serves_list [OF assms(1,2)])
  let ?D = "set (map (ttm_ID \<circ> snd) matches)"
  let ?w2 = "fold (\<lambda>i w. if i \<in> ?D then w else snd (deleteTunnelTargetMatch env client b i w)) ids w1"
  have list: "getTunnelTargetMatchIDs env client b w = (Inr ids, w1)"
    using w1(1-3) by (simp add: getTunnelTargetMatchIDs_def wrapE_def)
  obtain w' where w': "foldW (postTunnelTargetMatch env client b) (map snd matches) () ?w2 = (Inr (), w')"
    "repr w' = atPod (repr ?w2) b (\<lambda>p. p\<lparr>pod_Matches := putMatches env (map snd matches) (pod_Matches p)\<rparr>)"
    using posts_pod [OF assms(1,2), of "map snd matches" ?w2] assms(3) by auto
  have restricted: "pod_Matches (repr ?w2 b) i = None" if "i \<notin> ?D" for i
    using that w1(4,5) by (auto simp: deletes_pod [OF assms(1,2)] dropIDs_def dom_def)
  have "putMatches env (map snd matches) (pod_Matches (repr ?w2 b)) = desiredMatches env matches"
  proof
    fix i
    show "putMatches env (map snd matches) (pod_Matches (repr ?w2 b)) i = desiredMatches env matches i"
      using restricted [of i] unfolding desiredMatches_def putMatches_get by auto
  qed
  then have "repr w' c = atPod (repr w) b (\<lambda>p. p\<lparr>pod_Matches := desiredMatches env matches\<rparr>) c" for c
    unfolding w'(2) by (cases "c = b") (simp_all add: deletes_pod [OF assms(1,2)] w1(5))
  then have "repr w' = atPod (repr w) b (\<lambda>p. p\<lparr>pod_Matches := desiredMatches env matches\<rparr>)" by (rule ext)
  moreover have "applyTunnelTargetMatches env client b matches w = (Inr (), w')"
    unfolding applyTunnelTargetMatches_def list prod.case sum.case Let_def by (rule w'(1))
  ultimately show ?thesis by blast
qed

section \<open>Sending a plan\<close>

lemma applyToPod_pod:
  assumes "servesPods env client B repr" and "podBaseURL (ce_Domain env) cl (resourcePrefix @ m_Name (cl_Meta cl)) p \<in> B"
    and "\<forall>x \<in> set (ap_TunnelTargetMatches plan). \<not> isl (ce_MatchJSON env (snd x))"
    and "gget perPod p = Some pp" and "ce_PlanJSON env pp = Inr j"
  shows "\<exists>w'. applyToPod env client cl plan perPod p () w = (Inr (), w') \<and>
    repr w' = atPod (repr w) (podBaseURL (ce_Domain env) cl (resourcePrefix @ m_Name (cl_Meta cl)) p)
      (\<lambda>_. \<lparr>pod_Config = Some j, pod_Matches = desiredMatches env (ap_TunnelTargetMatches plan)\<rparr>)"
proof -
  let ?b = "podBaseURL (ce_Domain env) cl (resourcePrefix @ m_Name (cl_Meta cl)) p"
  obtain r w1 where w1: "ce_Do env client ''POST'' (?b @ ''/api/v1/config/apply'') j w = (Inr r, w1)"
    "successStatus (hr_Status r)" "repr w1 = atPod (repr w) ?b (\<lambda>p. p\<lparr>pod_Config := Some j\<rparr>)"
    by (rule serves_config [OF assms(1,2)])
  have send: "sendApplyRequest env client (?b @ ''/api/v1/config/apply'') pp w = (Inr (), w1)"
    using w1(1,2) assms(5) by (simp add: sendApplyRequest_def)
  obtain w2 where w2: "applyTunnelTargetMatches env client ?b (ap_TunnelTargetMatches plan) w1 = (Inr (), w2)"
    "repr w2 = atPod (repr w1) ?b (\<lambda>p. p\<lparr>pod_Matches := desiredMatches env (ap_TunnelTargetMatches plan)\<rparr>)"
    using applyTunnelTargetMatches_pod [OF assms(1-3)] by blast
  then have "applyToPod env client cl plan perPod p () w = (Inr (), w2)"
    unfolding applyToPod_def assms(4) Let_def option.case send by simp
  moreover have "repr w2 = atPod (repr w) ?b
      (\<lambda>_. \<lparr>pod_Config = Some j, pod_Matches = desiredMatches env (ap_TunnelTargetMatches plan)\<rparr>)"
    unfolding w2(2) w1(3) atPod_atPod by (cases "repr w ?b") (simp add: atPod_def)
  ultimately show ?thesis by blast
qed

definition podURL :: "'w cluster_env \<Rightarrow> cluster \<Rightarrow> int \<Rightarrow> string" where
  "podURL env cl p = podBaseURL (ce_Domain env) cl (resourcePrefix @ m_Name (cl_Meta cl)) p"

lemma podURL_inj: "podURL env cl p = podURL env cl q \<Longrightarrow> p = q"
  unfolding podURL_def podBaseURL_def podNameOf_def Let_def by (auto dest: Itoa_inj)

text \<open>What a pod should hold: a pod without a plan keeps what it has.\<close>

definition wantedState ::
  "'w cluster_env \<Rightarrow> apply_plan \<Rightarrow> (int, apply_plan) gomap \<Rightarrow> int \<Rightarrow> pod_state \<Rightarrow> pod_state" where
  "wantedState env plan perPod p old =
     (case gget perPod p of
        None \<Rightarrow> old
      | Some pp \<Rightarrow> \<lparr>pod_Config = Some (projr (ce_PlanJSON env pp)),
                    pod_Matches = desiredMatches env (ap_TunnelTargetMatches plan)\<rparr>)"

definition marshals :: "'w cluster_env \<Rightarrow> apply_plan \<Rightarrow> (int, apply_plan) gomap \<Rightarrow> bool" where
  "marshals env plan perPod \<longleftrightarrow> (\<forall>x \<in> set (ap_TunnelTargetMatches plan). \<not> isl (ce_MatchJSON env (snd x))) \<and>
     (\<forall>p pp. gget perPod p = Some pp \<longrightarrow> \<not> isl (ce_PlanJSON env pp))"

lemma applyToPod_wanted:
  assumes "servesPods env client B repr" and "podURL env cl p \<in> B" and "marshals env plan perPod"
  shows "\<exists>w'. applyToPod env client cl plan perPod p () w = (Inr (), w') \<and>
    repr w' = atPod (repr w) (podURL env cl p) (wantedState env plan perPod p)"
proof (cases "gget perPod p")
  case None
  then show ?thesis by (simp add: applyToPod_def wantedState_def atPod_def)
next
  case (Some pp)
  then have "\<not> isl (ce_PlanJSON env pp)" using assms(3) by (simp add: marshals_def)
  then obtain j where j: "ce_PlanJSON env pp = Inr j" unfolding not_isl_ex ..
  have "\<forall>x \<in> set (ap_TunnelTargetMatches plan). \<not> isl (ce_MatchJSON env (snd x))" using assms(3) by (simp add: marshals_def)
  note ok = applyToPod_pod [OF assms(1) assms(2) [unfolded podURL_def] this Some j]
  have "wantedState env plan perPod p =
      (\<lambda>_. \<lparr>pod_Config = Some j, pod_Matches = desiredMatches env (ap_TunnelTargetMatches plan)\<rparr>)"
    by (rule ext) (simp add: wantedState_def Some j)
  then show ?thesis unfolding podURL_def using ok by simp
qed

lemma applyPods_wanted:
  assumes "servesPods env client B repr" and "marshals env plan perPod"
    and "distinct ps" and "podURL env cl ` set ps \<subseteq> B"
  shows "\<exists>w'. foldW (applyToPod env client cl plan perPod) ps () w = (Inr (), w') \<and>
    (\<forall>p \<in> set ps. repr w' (podURL env cl p) = wantedState env plan perPod p (repr w (podURL env cl p))) \<and>
    (\<forall>c. c \<notin> podURL env cl ` set ps \<longrightarrow> repr w' c = repr w c)"
  using assms(3,4)
proof (induction ps arbitrary: w)
  case (Cons p ps)
  obtain w1 where w1: "applyToPod env client cl plan perPod p () w = (Inr (), w1)"
    "repr w1 = atPod (repr w) (podURL env cl p) (wantedState env plan perPod p)"
    using applyToPod_wanted [OF assms(1) _ assms(2), of cl p w] Cons.prems(2) by auto
  obtain w' where w': "foldW (applyToPod env client cl plan perPod) ps () w1 = (Inr (), w')"
    "\<forall>p \<in> set ps. repr w' (podURL env cl p) = wantedState env plan perPod p (repr w1 (podURL env cl p))"
    "\<forall>c. c \<notin> podURL env cl ` set ps \<longrightarrow> repr w' c = repr w1 c"
    using Cons.IH [of w1] Cons.prems by auto
  have other: "podURL env cl q \<noteq> podURL env cl p" if "q \<in> set ps" for q
    using that Cons.prems(1) by (auto dest: podURL_inj)
  then have fresh: "podURL env cl p \<notin> podURL env cl ` set ps" by (metis imageE)
  have "repr w' (podURL env cl q) = wantedState env plan perPod q (repr w (podURL env cl q))" if "q \<in> set (p # ps)" for q
    using that w'(2,3) fresh other w1(2) by (cases "q = p") simp_all
  moreover have "repr w' c = repr w c" if "c \<notin> podURL env cl ` set (p # ps)" for c
    using that w'(3) w1(2) by simp
  moreover have "foldW (applyToPod env client cl plan perPod) (p # ps) () w = (Inr (), w')"
    using w1(1) w'(1) by simp
  ultimately show ?case by blast
qed simp


text \<open>A cluster of one pod, whose matches are kept as a list.\<close>

definition exBase :: string where
  "exBase = podURL exIdle exCluster 0"

type_synonym ex_pod = "string option \<times> (string, string) gomap"

text \<open>Identifiers as one text: every character is marked, a slash ends an identifier.\<close>

definition exEncode :: "string list \<Rightarrow> string" where
  "exEncode ids = concat (map (\<lambda>i. concat (map (\<lambda>c. [CHR ''.'', c]) i) @ ''/'') ids)"

fun exDecode :: "string \<Rightarrow> string \<Rightarrow> string list" where
  "exDecode acc [] = []"
| "exDecode acc [c] = [rev acc]"
| "exDecode acc (c # d # s) = (if c = CHR ''/'' then rev acc # exDecode [] (d # s) else exDecode (d # acc) s)"

lemma exDecode_mark: "exDecode acc (concat (map (\<lambda>c. [CHR ''.'', c]) i) @ ''/'' @ s) = (rev acc @ i) # exDecode [] s"
  by (induction i arbitrary: acc) (auto, cases s, auto)

lemma exDecode_encode: "exDecode [] (exEncode ids) = ids"
  unfolding exEncode_def by (induction ids) (simp_all add: exDecode_mark [of "[]", simplified])

definition exServe :: "string \<Rightarrow> string \<Rightarrow> string \<Rightarrow> ex_pod \<Rightarrow> (string + http_reply) \<times> ex_pod" where
  "exServe method url body = (\<lambda>(config, ms).
     (Inr \<lparr>hr_Status = 200, hr_Body = Inr (exEncode (gkeys ms))\<rparr>,
      if method = ''POST'' \<and> url = exBase @ ''/api/v1/config/apply'' then (Some body, ms)
      else if method = ''DELETE'' then (config, gdel ms (drop (length (matchesURL exBase @ ''/'')) url))
      else if method = ''POST'' then (config, gput ms body body)
      else (config, ms)))"

definition exPods :: "ex_pod cluster_env" where
  "exPods = (exEnvOver exReaders exServe)\<lparr>ce_DecodeKeys := (\<lambda>s. Inr (exDecode [] s))\<rparr>"

definition exPodState :: "ex_pod \<Rightarrow> string \<Rightarrow> pod_state" where
  "exPodState w b = (if b = exBase then \<lparr>pod_Config = fst w, pod_Matches = gget (snd w)\<rparr>
     else \<lparr>pod_Config = None, pod_Matches = Map.empty\<rparr>)"

lemma exPodState_atPod:
  assumes "\<lparr>pod_Config = fst w', pod_Matches = gget (snd w')\<rparr> = g \<lparr>pod_Config = fst w, pod_Matches = gget (snd w)\<rparr>"
  shows "exPodState w' = atPod (exPodState w) exBase g"
  by (rule ext) (simp add: exPodState_def atPod_def assms)

lemma exPods_do:
  "ce_Do exPods PlainClient ''POST'' (exBase @ ''/api/v1/config/apply'') body (config, ms) =
     (Inr \<lparr>hr_Status = 200, hr_Body = Inr (exEncode (gkeys ms))\<rparr>, (Some body, ms))"
  "ce_Do exPods PlainClient ''GET'' (matchesURL exBase) [] (config, ms) =
     (Inr \<lparr>hr_Status = 200, hr_Body = Inr (exEncode (gkeys ms))\<rparr>, (config, ms))"
  "ce_Do exPods PlainClient ''DELETE'' (matchesURL exBase @ ''/'' @ i) [] (config, ms) =
     (Inr \<lparr>hr_Status = 200, hr_Body = Inr (exEncode (gkeys ms))\<rparr>, (config, gdel ms i))"
  "ce_Do exPods PlainClient ''POST'' (matchesURL exBase) body (config, ms) =
     (Inr \<lparr>hr_Status = 200, hr_Body = Inr (exEncode (gkeys ms))\<rparr>, (config, gput ms body body))"
  by (simp_all add: exPods_def exEnvOver_def exServe_def) (simp add: matchesURL_def)

lemma exPods_serve: "servesPods exPods PlainClient {exBase} exPodState"
  unfolding servesPods_def
proof (intro allI ballI conjI impI)
  fix w :: ex_pod and b assume "b \<in> {exBase}"
  then have b: "b = exBase" by simp
  obtain config ms where w: "w = (config, ms)" by (cases w)
  show "\<exists>r w'. ce_Do exPods PlainClient ''POST'' (b @ ''/api/v1/config/apply'') body w = (Inr r, w') \<and>
      successStatus (hr_Status r) \<and> exPodState w' = atPod (exPodState w) b (\<lambda>p. p\<lparr>pod_Config := Some body\<rparr>)" for body
    unfolding b w exPods_do using exPodState_atPod [of "(Some body, ms)" "\<lambda>p. p\<lparr>pod_Config := Some body\<rparr>" "(config, ms)"]
    by (simp add: successStatus_def)
  show "\<exists>r w' ids. ce_Do exPods PlainClient ''GET'' (matchesURL b) [] w = (Inr r, w') \<and> successStatus (hr_Status r) \<and>
      bindE (hr_Body r) (ce_DecodeKeys exPods) = Inr ids \<and> set ids = dom (pod_Matches (exPodState w b)) \<and>
      exPodState w' = exPodState w"
    unfolding b w exPods_do
    by (auto simp: successStatus_def exPods_def exDecode_encode exPodState_def gm.keys_iff)
  show "\<exists>r w'. ce_Do exPods PlainClient ''DELETE'' (matchesURL b @ ''/'' @ i) [] w = (Inr r, w') \<and>
      exPodState w' = atPod (exPodState w) b (\<lambda>p. p\<lparr>pod_Matches := (pod_Matches p)(i := None)\<rparr>)" for i
  proof -
    have "gget (gdel ms i) = (gget ms)(i := None)" by (rule ext) (simp add: gm.get_del)
    then show ?thesis
      unfolding b w exPods_do
      using exPodState_atPod [of "(config, gdel ms i)" "\<lambda>p. p\<lparr>pod_Matches := (pod_Matches p)(i := None)\<rparr>" "(config, ms)"] by simp
  qed
  show "\<exists>r w'. ce_Do exPods PlainClient ''POST'' (matchesURL b) body w = (Inr r, w') \<and> successStatus (hr_Status r) \<and>
      exPodState w' = atPod (exPodState w) b (\<lambda>p. p\<lparr>pod_Matches := (pod_Matches p)(ttm_ID tm \<mapsto> body)\<rparr>)"
    if "ce_MatchJSON exPods tm = Inr body" for tm body
  proof -
    have id: "ttm_ID tm = body" using that by (simp add: exPods_def exEnvOver_def)
    have "gget (gput ms body body) = (gget ms)(body \<mapsto> body)" by (rule ext) (simp add: gm.get_put)
    then show ?thesis
      unfolding b w exPods_do id
      using exPodState_atPod [of "(config, gput ms body body)" "\<lambda>p. p\<lparr>pod_Matches := (pod_Matches p)(body \<mapsto> body)\<rparr>" "(config, ms)"]
      by (simp add: successStatus_def)
  qed
qed

definition exTunnelPlan :: apply_plan where
  "exTunnelPlan = exPlan\<lparr>ap_TunnelTargetMatches := [(''n/tp'', \<lparr>ttm_Type = ''router'', ttm_ID = ''lab'', ttm_Config = None\<rparr>)]\<rparr>"

lemma exTunnelPlan_pod: "gget (dr_PerPodPlans (DistributeTargets exTunnelPlan 1 (cs_TargetDistribution (cl_Spec exCluster)))) 0 \<noteq> None"
  by code_simp


section \<open>Statuses\<close>

lemma preserveTransition_fields [simp]:
  "co_Type (preserveTransition old c) = co_Type c" "co_Status (preserveTransition old c) = co_Status c"
  "co_Reason (preserveTransition old c) = co_Reason c" "co_Message (preserveTransition old c) = co_Message c"
  by (simp_all add: preserveTransition_def split: option.split)

text \<open>Two conditions that differ at most in their times.\<close>

lemma preserved_equal:
  "list_all2 conditionEqual (map (preserveTransition old) cs) (map (preserveTransition old') cs') \<longleftrightarrow>
   list_all2 conditionEqual cs cs'"
  unfolding list.rel_map conditionEqual_def preserveTransition_fields ..

lemma find_nth:
  assumes "distinct (map f xs)" and "i < length xs" and "Q (xs ! i)" and "\<And>x. x \<in> set xs \<Longrightarrow> Q x \<Longrightarrow> f x = f (xs ! i)"
  shows "find Q xs = Some (xs ! i)"
proof -
  have "\<not> Q (xs ! j)" if "j < i" for j
  proof
    assume "Q (xs ! j)"
    then have "map f xs ! j = map f xs ! i" using assms(2,4) that by simp
    then show False using assms(1,2) that by (auto simp: distinct_conv_nth)
  qed
  then show ?thesis using assms(2,3) by (auto simp: find_Some_iff)
qed

lemma preserved_times:
  assumes "list_all2 conditionEqual cs cs'" and "distinct (map co_Type cs)"
  shows "map co_LastTransitionTime (map (preserveTransition (map (preserveTransition old) cs)) cs') =
    map co_LastTransitionTime (map (preserveTransition old) cs)"
proof (rule nth_equalityI)
  show "length (map co_LastTransitionTime (map (preserveTransition (map (preserveTransition old) cs)) cs')) =
      length (map co_LastTransitionTime (map (preserveTransition old) cs))"
    using assms(1) by (simp add: list_all2_conv_all_nth)
  let ?P = "map (preserveTransition old) cs"
  fix i assume "i < length (map co_LastTransitionTime (map (preserveTransition ?P) cs'))"
  then have i: "i < length cs'" "i < length ?P" "conditionEqual (cs ! i) (cs' ! i)"
    using assms(1) by (simp_all add: list_all2_conv_all_nth)
  have "map co_Type ?P = map co_Type cs" by simp
  then have "find (\<lambda>oc. co_Type oc = co_Type (cs' ! i) \<and> co_Status oc = co_Status (cs' ! i)) ?P = Some (?P ! i)"
    using i assms(2) by (intro find_nth [where f = co_Type]) (auto simp: conditionEqual_def comp_def)
  then have "co_LastTransitionTime (preserveTransition ?P (cs' ! i)) = co_LastTransitionTime (?P ! i)"
    by (simp add: preserveTransition_def)
  then show "map co_LastTransitionTime (map (preserveTransition ?P) cs') ! i = map co_LastTransitionTime ?P ! i"
    using i by simp
qed

lemma statusConditions:
  "pst_Conditions (pipelineStatusOf now pl pd) =
     map (preserveTransition (pst_Conditions (pl_Status pl))) (pipelineConditions now pl pd)"
  by (simp add: pipelineStatusOf_def)

lemma conditionEqual_of:
  "conditionEqual (condition_of cl now t s r m) (condition_of cl' now' t' s' r' m') \<longleftrightarrow> t = t' \<and> s = s' \<and> r = r' \<and> m = m'"
  by (simp add: conditionEqual_def condition_of_def)

lemma readyCondition_equal:
  "conditionEqual (readyCondition env cl now n applied) (readyCondition env' (cl\<lparr>cl_Status := st\<rparr>) now' n applied) \<longleftrightarrow>
     (case cs_Replicas (cl_Spec cl) of None \<Rightarrow> 0 | Some r \<Rightarrow> r) \<le> n \<or> n \<le> 0 \<or> isl applied \<or>
     ce_PointerText env (cs_Replicas (cl_Spec cl)) = ce_PointerText env' (cs_Replicas (cl_Spec cl))"
  by (auto simp: readyCondition_def conditionEqual_of Let_def)

lemma clusterConditions_equal:
  "list_all2 conditionEqual (clusterConditions env now cl sts k applied) (clusterConditions env' now' (cl\<lparr>cl_Status := st\<rparr>) sts k applied) \<longleftrightarrow>
     conditionEqual (readyCondition env cl now (sts_ReadyReplicas sts) applied)
       (readyCondition env' (cl\<lparr>cl_Status := st\<rparr>) now' (sts_ReadyReplicas sts) applied)"
  by (simp add: clusterConditions_def configCondition_def capacityCondition_def conditionEqual_of split: sum.split)

text \<open>
  Statuses settle. A pipeline status that was written is not written again while the pipeline
  resolves to the same data, and the conditions keep the times of their last transition. A cluster
  status compares equal to the one computed by the next reconciliation in the same situation, except
  when the cluster is partially ready: then it depends on how a pointer prints.
\<close>

theorem statuses_settle:
  "updatePipelineStatus env now' (pl\<lparr>pl_Status := pipelineStatusOf now pl pd\<rparr>) pd w = (None, w) \<and>
   map co_LastTransitionTime (pst_Conditions (pipelineStatusOf now' (pl\<lparr>pl_Status := pipelineStatusOf now pl pd\<rparr>) pd)) =
     map co_LastTransitionTime (pst_Conditions (pipelineStatusOf now pl pd)) \<and>
   (clusterStatusEqual (clusterStatusOf env now cl sts pls pds k applied)
      (clusterStatusOf env' now' (cl\<lparr>cl_Status := clusterStatusOf env now cl sts pls pds k applied\<rparr>) sts pls pds k applied) \<longleftrightarrow>
    (case cs_Replicas (cl_Spec cl) of None \<Rightarrow> 0 | Some r \<Rightarrow> r) \<le> sts_ReadyReplicas sts \<or> sts_ReadyReplicas sts \<le> 0 \<or>
    isl applied \<or> ce_PointerText env (cs_Replicas (cl_Spec cl)) = ce_PointerText env' (cs_Replicas (cl_Spec cl)))"
proof (intro conjI)
  let ?st = "pipelineStatusOf now pl pd"
  let ?st' = "pipelineStatusOf now' (pl\<lparr>pl_Status := ?st\<rparr>) pd"
  have conds: "list_all2 conditionEqual (pipelineConditions now pl pd) (pipelineConditions now' (pl\<lparr>pl_Status := ?st\<rparr>) pd)"
    by (simp add: pipelineConditions_def conditionEqual_def)
  then have "pipelineStatusEqual ?st ?st'"
    by (simp add: pipelineStatusEqual_def pipelineStatusOf_def preserved_equal)
  then show "updatePipelineStatus env now' (pl\<lparr>pl_Status := ?st\<rparr>) pd w = (None, w)"
    by (simp add: updatePipelineStatus_def Let_def)
  show "map co_LastTransitionTime (pst_Conditions ?st') = map co_LastTransitionTime (pst_Conditions ?st)"
  proof -
    have "distinct (map co_Type (pipelineConditions now pl pd))"
      by (simp add: pipelineConditions_def PipelineConditionTypeReady_def PipelineConditionTypeResourcesResolved_def)
    from preserved_times [OF conds this, of "pst_Conditions (pl_Status pl)"] show ?thesis
      unfolding statusConditions [symmetric] by (simp add: statusConditions del: map_map)
  qed
  show "clusterStatusEqual (clusterStatusOf env now cl sts pls pds k applied)
      (clusterStatusOf env' now' (cl\<lparr>cl_Status := clusterStatusOf env now cl sts pls pds k applied\<rparr>) sts pls pds k applied) \<longleftrightarrow>
    (case cs_Replicas (cl_Spec cl) of None \<Rightarrow> 0 | Some r \<Rightarrow> r) \<le> sts_ReadyReplicas sts \<or> sts_ReadyReplicas sts \<le> 0 \<or>
    isl applied \<or> ce_PointerText env (cs_Replicas (cl_Spec cl)) = ce_PointerText env' (cs_Replicas (cl_Spec cl))"
    by (simp add: clusterStatusEqual_def clusterStatusOf_def preserved_equal clusterConditions_equal readyCondition_equal)
qed

end
