(* ===== verification/Owned_Objects.thy ===== *)
theory Owned_Objects
  imports Cluster_Apply
begin

text \<open>
  The objects the cluster controller owns (certificates, services, ConfigMaps, StatefulSets) as an
  API client sees them, and the three request sequences that \<^verbatim>\<open>cluster_controller.go\<close> repeats for
  every kind: create or change one object, delete one, delete those of a list.

  The client of a kind is a parameter, a record of functions over a world \<open>'w\<close>.
  \<open>reliableObjects\<close> is the documented meaning of its requests on a store, for requests that do not
  fail; it names what no request of the kind touches as \<open>rest\<close>.
\<close>

section \<open>Kinds and clients\<close>

text \<open>What every kind has: its metadata, and the controlling owner among its owner references.\<close>

record 'o kind =
  k_Meta :: "'o \<Rightarrow> object_meta"
  k_Controller :: "'o \<Rightarrow> string option"
  k_SetController :: "string option \<Rightarrow> 'o \<Rightarrow> 'o"

definition k_Name :: "'o kind \<Rightarrow> 'o \<Rightarrow> string" where
  "k_Name K x = m_Name (k_Meta K x)"

definition k_Namespace :: "'o kind \<Rightarrow> 'o \<Rightarrow> string" where
  "k_Namespace K x = m_Namespace (k_Meta K x)"

definition k_Key :: "'o kind \<Rightarrow> 'o \<Rightarrow> string \<times> string" where
  "k_Key K x = (k_Namespace K x, k_Name K x)"

text \<open>\<^verbatim>\<open>client.MatchingLabels\<close>.\<close>

definition matchingLabels :: "labels \<Rightarrow> labels \<Rightarrow> bool" where
  "matchingLabels wanted ls \<longleftrightarrow> list_all (\<lambda>(k, v). gget ls k = Some v) wanted"

text \<open>\<^verbatim>\<open>Create\<close> and \<^verbatim>\<open>Update\<close> read the server's answer back into the object.\<close>

record ('o, 'w) objects =
  ob_get :: "string \<Rightarrow> string \<Rightarrow> 'w \<Rightarrow> api_error + 'o" \<comment> \<open>namespace, name\<close>
  ob_list :: "string \<Rightarrow> labels \<Rightarrow> 'w \<Rightarrow> api_error + 'o list"
  ob_create :: "'o \<Rightarrow> 'w \<Rightarrow> (api_error + 'o) \<times> 'w"
  ob_update :: "'o \<Rightarrow> 'w \<Rightarrow> (api_error + 'o) \<times> 'w"
  ob_delete :: "string \<Rightarrow> string \<Rightarrow> 'w \<Rightarrow> api_error option \<times> 'w"
  ob_setRef :: "cluster \<Rightarrow> 'o \<Rightarrow> api_error + 'o" \<comment> \<open>\<^verbatim>\<open>controllerutil.SetControllerReference\<close>\<close>

text \<open>How a handler ends without a result: an error, or a nil pointer that is followed.\<close>

datatype failure = ApiFailure api_error | TextFailure string | NilPanic

section \<open>Request sequences\<close>

text \<open>\<^verbatim>\<open>x, err := f(); if err != nil { return err }\<close> for a call that changes the world.\<close>

definition bindW :: "('w \<Rightarrow> ('e + 'a) \<times> 'w) \<Rightarrow> ('a \<Rightarrow> 'w \<Rightarrow> ('e + 'b) \<times> 'w) \<Rightarrow> 'w \<Rightarrow> ('e + 'b) \<times> 'w" where
  "bindW f g w = (case f w of (Inl e, w) \<Rightarrow> (Inl e, w) | (Inr x, w) \<Rightarrow> g x w)"

lemma bindW_Inr: "f w = (Inr x, w') \<Longrightarrow> bindW f g w = g x w'"
  by (simp add: bindW_def)

lemma bindW_Inl: "f w = (Inl e, w') \<Longrightarrow> bindW f g w = (Inl e, w')"
  by (simp add: bindW_def)

definition returnW :: "'a \<Rightarrow> 'w \<Rightarrow> ('e + 'a) \<times> 'w" where
  "returnW x w = (Inr x, w)"

lemma returnW_apply [simp]: "returnW x w = (Inr x, w)"
  by (simp add: returnW_def)

definition apiW :: "api_error + 'a \<Rightarrow> 'w \<Rightarrow> (failure + 'a) \<times> 'w" where
  "apiW r w = (map_sum ApiFailure id r, w)"

definition apiCall :: "('w \<Rightarrow> (api_error + 'a) \<times> 'w) \<Rightarrow> 'w \<Rightarrow> (failure + 'a) \<times> 'w" where
  "apiCall f w = map_prod (map_sum ApiFailure id) id (f w)"

text \<open>
  \<^verbatim>\<open>Get\<close>, then \<^verbatim>\<open>Create\<close> when the object is not found, otherwise \<^verbatim>\<open>Update\<close> when it has to change. The
  result is the object as it was found and changed, \<open>None\<close> after a creation.
\<close>

definition createOrChange ::
  "('o, 'w) objects \<Rightarrow> string \<Rightarrow> string \<Rightarrow> 'o \<Rightarrow> ('o \<Rightarrow> 'o option) \<Rightarrow> 'w \<Rightarrow> (failure + 'o option) \<times> 'w" where
  "createOrChange ob ns name desired change w =
     (case ob_get ob ns name w of
        Inl NotFound \<Rightarrow> bindW (apiCall (ob_create ob desired)) (\<lambda>_. returnW None) w
      | Inl e \<Rightarrow> (Inl (ApiFailure e), w)
      | Inr current \<Rightarrow>
          (case change current of
             None \<Rightarrow> (Inr (Some current), w)
           | Some changed \<Rightarrow> bindW (apiCall (ob_update ob changed)) (\<lambda>x. returnW (Some x)) w))"

text \<open>\<^verbatim>\<open>Delete\<close>, where an object that is not found is no error.\<close>

definition deleteObject :: "('o, 'w) objects \<Rightarrow> string \<Rightarrow> string \<Rightarrow> 'w \<Rightarrow> (failure + unit) \<times> 'w" where
  "deleteObject ob ns name w =
     (case ob_delete ob ns name w of
        (None, w) \<Rightarrow> (Inr (), w)
      | (Some NotFound, w) \<Rightarrow> (Inr (), w)
      | (Some e, w) \<Rightarrow> (Inl (ApiFailure e), w))"

definition deleteObjects ::
  "'o kind \<Rightarrow> ('o, 'w) objects \<Rightarrow> 'o list \<Rightarrow> 'w \<Rightarrow> (failure + unit) \<times> 'w" where
  "deleteObjects K ob xs w = foldW (\<lambda>x _. deleteObject ob (k_Namespace K x) (k_Name K x)) xs () w"

text \<open>\<^verbatim>\<open>List\<close> whose failure ends the handler, unless it is a \<^verbatim>\<open>NotFound\<close> (\<^verbatim>\<open>client.IgnoreNotFound\<close>).\<close>

definition deleteMatching ::
  "'o kind \<Rightarrow> ('o, 'w) objects \<Rightarrow> string \<Rightarrow> labels \<Rightarrow> 'w \<Rightarrow> (failure + unit) \<times> 'w" where
  "deleteMatching K ob ns wanted w =
     (case ob_list ob ns wanted w of
        Inl NotFound \<Rightarrow> (Inr (), w)
      | Inl e \<Rightarrow> (Inl (ApiFailure e), w)
      | Inr xs \<Rightarrow> deleteObjects K ob xs w)"

text \<open>\<^verbatim>\<open>Get\<close>, then \<^verbatim>\<open>Delete\<close>, whose \<^verbatim>\<open>NotFound\<close> is an error here.\<close>

definition ensureAbsent :: "'o kind \<Rightarrow> ('o, 'w) objects \<Rightarrow> string \<Rightarrow> string \<Rightarrow> 'w \<Rightarrow> (failure + unit) \<times> 'w" where
  "ensureAbsent K ob ns name w =
     (case ob_get ob ns name w of
        Inl NotFound \<Rightarrow> (Inr (), w)
      | Inl e \<Rightarrow> (Inl (ApiFailure e), w)
      | Inr x \<Rightarrow>
          (case ob_delete ob (k_Namespace K x) (k_Name K x) w of
             (None, w) \<Rightarrow> (Inr (), w)
           | (Some e, w) \<Rightarrow> (Inl (ApiFailure e), w)))"

section \<open>A reliable server\<close>

type_synonym 'o objstore = "string \<times> string \<Rightarrow> 'o option"

text \<open>\<open>norm\<close> is what the server makes of an object it stores: the defaults of the kind filled in.\<close>

definition reliableObjects ::
  "'o kind \<Rightarrow> ('o \<Rightarrow> 'o) \<Rightarrow> ('o, 'w) objects \<Rightarrow> ('w \<Rightarrow> 'o objstore) \<Rightarrow> ('w \<Rightarrow> 'r) \<Rightarrow> bool" where
  "reliableObjects K norm ob repr rest \<longleftrightarrow>
     (\<forall>w ns n x. repr w (ns, n) = Some x \<longrightarrow> k_Key K x = (ns, n)) \<and>
     (\<forall>w ns n. ob_get ob ns n w = (case repr w (ns, n) of None \<Rightarrow> Inl NotFound | Some x \<Rightarrow> Inr x)) \<and>
     (\<forall>w ns wanted. \<exists>xs. ob_list ob ns wanted w = Inr xs \<and>
        set xs = {x. \<exists>n. repr w (ns, n) = Some x \<and> matchingLabels wanted (m_Labels (k_Meta K x))}) \<and>
     (\<forall>w x. repr w (k_Key K x) = None \<longrightarrow> (\<exists>w'. ob_create ob x w = (Inr (norm x), w') \<and>
        repr w' = (repr w)(k_Key K x \<mapsto> norm x) \<and> rest w' = rest w)) \<and>
     (\<forall>w x. repr w (k_Key K x) \<noteq> None \<longrightarrow> (\<exists>w'. ob_update ob x w = (Inr (norm x), w') \<and>
        repr w' = (repr w)(k_Key K x \<mapsto> norm x) \<and> rest w' = rest w)) \<and>
     (\<forall>w ns n. \<exists>w'. ob_delete ob ns n w = (if repr w (ns, n) = None then Some NotFound else None, w') \<and>
        repr w' = (repr w)((ns, n) := None) \<and> rest w' = rest w) \<and>
     (\<forall>cl x. m_Namespace (k_Meta K x) = m_Namespace (cl_Meta cl) \<and>
        (k_Controller K x = None \<or> k_Controller K x = Some (m_Name (cl_Meta cl))) \<longrightarrow>
        ob_setRef ob cl x = Inr (k_SetController K (Some (m_Name (cl_Meta cl))) x))"

text \<open>A kind whose metadata the owner reference leaves alone.\<close>

definition kindOK :: "'o kind \<Rightarrow> bool" where
  "kindOK K \<longleftrightarrow> (\<forall>c x. k_Meta K (k_SetController K c x) = k_Meta K x)"

lemma kindOK_key [simp]: "kindOK K \<Longrightarrow> k_Key K (k_SetController K c x) = k_Key K x"
  by (simp add: kindOK_def k_Key_def k_Name_def k_Namespace_def)

lemma foldW_append:
  "foldW f (xs @ ys) s w = (case foldW f xs s w of (Inl e, w) \<Rightarrow> (Inl e, w) | (Inr s, w) \<Rightarrow> foldW f ys s w)"
  by (induction xs arbitrary: s w) (auto split: prod.splits sum.splits)

lemmas reliable_laws = reliableObjects_def [THEN iffD1]

lemmas reliable_law1 = reliable_laws [THEN conjunct1]
  and reliable_law2 = reliable_laws [THEN conjunct2, THEN conjunct1]
  and reliable_law3 = reliable_laws [THEN conjunct2, THEN conjunct2, THEN conjunct1]
  and reliable_law4 = reliable_laws [THEN conjunct2, THEN conjunct2, THEN conjunct2, THEN conjunct1]
  and reliable_law5 = reliable_laws [THEN conjunct2, THEN conjunct2, THEN conjunct2, THEN conjunct2, THEN conjunct1]
  and reliable_law6 = reliable_laws [THEN conjunct2, THEN conjunct2, THEN conjunct2, THEN conjunct2, THEN conjunct2, THEN conjunct1]
  and reliable_law7 = reliable_laws [THEN conjunct2, THEN conjunct2, THEN conjunct2, THEN conjunct2, THEN conjunct2, THEN conjunct2]

lemma object_named: "reliableObjects K norm ob repr rest \<Longrightarrow> repr w k = Some x \<Longrightarrow> k_Key K x = k"
  using reliable_law1 [of K norm ob repr rest] by (cases k) auto

lemma object_get:
  "reliableObjects K norm ob repr rest \<Longrightarrow>
   ob_get ob ns n w = (case repr w (ns, n) of None \<Rightarrow> Inl NotFound | Some x \<Rightarrow> Inr x)"
  using reliable_law2 [of K norm ob repr rest] by auto

lemma object_list:
  assumes "reliableObjects K norm ob repr rest"
  obtains xs where "ob_list ob ns wanted w = Inr xs"
    and "set xs = {x. \<exists>n. repr w (ns, n) = Some x \<and> matchingLabels wanted (m_Labels (k_Meta K x))}"
  using reliable_law3 [OF assms, rule_format, of ns wanted w] that by (elim exE conjE)

lemma reliable_create:
  assumes "reliableObjects K norm ob repr rest" and "repr w (k_Key K x) = None"
  obtains w' where "ob_create ob x w = (Inr (norm x), w')" and "repr w' = (repr w)(k_Key K x \<mapsto> norm x)" and "rest w' = rest w"
  using reliable_law4 [OF assms(1)] assms(2) by auto

lemma object_update:
  assumes "reliableObjects K norm ob repr rest" and "repr w (k_Key K x) \<noteq> None"
  obtains w' where "ob_update ob x w = (Inr (norm x), w')" and "repr w' = (repr w)(k_Key K x \<mapsto> norm x)" and "rest w' = rest w"
  using reliable_law5 [OF assms(1)] assms(2) by auto

lemma reliable_delete:
  assumes "reliableObjects K norm ob repr rest"
  obtains w' where "ob_delete ob ns n w = (if repr w (ns, n) = None then Some NotFound else None, w')"
    and "repr w' = (repr w)((ns, n) := None)" and "rest w' = rest w"
  using reliable_law6 [OF assms] by metis

lemma reliable_setRef:
  "reliableObjects K norm ob repr rest \<Longrightarrow> k_Namespace K x = m_Namespace (cl_Meta cl) \<Longrightarrow>
   k_Controller K x = None \<or> k_Controller K x = Some (m_Name (cl_Meta cl)) \<Longrightarrow>
   ob_setRef ob cl x = Inr (k_SetController K (Some (m_Name (cl_Meta cl))) x)"
  using reliable_law7 [of K norm ob repr rest] by (simp add: k_Namespace_def)

text \<open>What \<open>createOrChange\<close> leaves in the place of an object.\<close>

definition settled :: "('o \<Rightarrow> 'o) \<Rightarrow> 'o \<Rightarrow> ('o \<Rightarrow> 'o option) \<Rightarrow> 'o option \<Rightarrow> 'o" where
  "settled norm desired change current =
     (case current of None \<Rightarrow> norm desired | Some c \<Rightarrow> (case change c of None \<Rightarrow> c | Some c' \<Rightarrow> norm c'))"

lemma createOrChange_reliable:
  assumes rel: "reliableObjects K norm ob repr rest" and key: "k_Key K desired = (ns, n)"
    and keeps: "\<And>c c'. repr w (ns, n) = Some c \<Longrightarrow> change c = Some c' \<Longrightarrow> k_Key K c' = k_Key K c"
  obtains w' where
    "createOrChange ob ns n desired change w =
       (Inr (map_option (\<lambda>c. settled norm desired change (Some c)) (repr w (ns, n))), w')"
    and "repr w' = (repr w)((ns, n) \<mapsto> settled norm desired change (repr w (ns, n)))" and "rest w' = rest w"
proof (cases "repr w (ns, n)")
  case None
  with rel key obtain w' where "ob_create ob desired w = (Inr (norm desired), w')"
    "repr w' = (repr w)((ns, n) \<mapsto> norm desired)" "rest w' = rest w"
    by (metis reliable_create)
  with None show ?thesis
    by (intro that [of w'])
      (simp_all add: createOrChange_def object_get [OF rel] bindW_def apiCall_def returnW_def settled_def)
next
  case (Some c)
  have c: "k_Key K c = (ns, n)"
    using rel Some by (rule object_named)
  show ?thesis
  proof (cases "change c")
    case None
    with Some show ?thesis
      by (intro that [of w]) (auto simp: createOrChange_def object_get [OF rel] settled_def)
  next
    case (Some c')
    have key: "k_Key K c' = (ns, n)"
      using keeps [OF \<open>repr w (ns, n) = Some c\<close> Some] c by simp
    then have "repr w (k_Key K c') \<noteq> None"
      using \<open>repr w (ns, n) = Some c\<close> by simp
    with rel obtain w' where "ob_update ob c' w = (Inr (norm c'), w')" "repr w' = (repr w)(k_Key K c' \<mapsto> norm c')" "rest w' = rest w"
      by (rule object_update)
    with key Some \<open>repr w (ns, n) = Some c\<close> show ?thesis
      by (intro that [of w'])
        (simp_all add: createOrChange_def object_get [OF rel] bindW_def apiCall_def returnW_def settled_def)
  qed
qed

lemma deleteObject_reliable:
  assumes "reliableObjects K norm ob repr rest"
  obtains w' where "deleteObject ob ns n w = (Inr (), w')" and "repr w' = (repr w)((ns, n) := None)" and "rest w' = rest w"
proof -
  obtain w' where "ob_delete ob ns n w = (if repr w (ns, n) = None then Some NotFound else None, w')"
    "repr w' = (repr w)((ns, n) := None)" "rest w' = rest w"
    using assms by (rule reliable_delete)
  with that show thesis
    by (cases "repr w (ns, n)") (simp_all add: deleteObject_def)
qed

lemma deleteObjects_reliable:
  assumes "reliableObjects K norm ob repr rest"
  obtains w' where "deleteObjects K ob xs w = (Inr (), w')"
    and "repr w' = (\<lambda>k. if k \<in> k_Key K ` set xs then None else repr w k)" and "rest w' = rest w"
proof -
  have "\<exists>w'. deleteObjects K ob xs w = (Inr (), w') \<and>
      repr w' = (\<lambda>k. if k \<in> k_Key K ` set xs then None else repr w k) \<and> rest w' = rest w"
  proof (induction xs arbitrary: w)
    case Nil
    then show ?case by (simp add: deleteObjects_def)
  next
    case (Cons x xs)
    obtain w1 where w1: "deleteObject ob (k_Namespace K x) (k_Name K x) w = (Inr (), w1)"
      "repr w1 = (repr w)((k_Namespace K x, k_Name K x) := None)" "rest w1 = rest w"
      using assms by (rule deleteObject_reliable)
    from Cons.IH [of w1] obtain w' where "deleteObjects K ob xs w1 = (Inr (), w')"
      "repr w' = (\<lambda>k. if k \<in> k_Key K ` set xs then None else repr w1 k)" "rest w' = rest w1"
      by blast
    with w1 show ?case
      by (auto simp: deleteObjects_def k_Key_def)
  qed
  with that show thesis by blast
qed

lemma deleteMatching_reliable:
  assumes "reliableObjects K norm ob repr rest"
  obtains w' where "deleteMatching K ob ns wanted w = (Inr (), w')"
    and "repr w' = (\<lambda>k. case repr w k of
        None \<Rightarrow> None
      | Some x \<Rightarrow> if fst k = ns \<and> matchingLabels wanted (m_Labels (k_Meta K x)) then None else Some x)"
    and "rest w' = rest w"
proof -
  obtain xs where xs: "ob_list ob ns wanted w = Inr xs"
    "set xs = {x. \<exists>n. repr w (ns, n) = Some x \<and> matchingLabels wanted (m_Labels (k_Meta K x))}"
    using assms by (rule object_list)
  obtain w' where w': "deleteObjects K ob xs w = (Inr (), w')"
    "repr w' = (\<lambda>k. if k \<in> k_Key K ` set xs then None else repr w k)" "rest w' = rest w"
    using assms by (rule deleteObjects_reliable)
  have "repr w' k = (case repr w k of None \<Rightarrow> None
      | Some x \<Rightarrow> if fst k = ns \<and> matchingLabels wanted (m_Labels (k_Meta K x)) then None else Some x)" for k
  proof (cases "repr w k")
    case (Some x)
    then have "k_Key K x = k"
      using assms by (metis object_named)
    then have "k \<in> k_Key K ` set xs \<longleftrightarrow> fst k = ns \<and> matchingLabels wanted (m_Labels (k_Meta K x))"
      unfolding xs(2) image_iff using Some
      by (cases k) (auto, metis assms fst_conv object_named, metis assms option.inject object_named)
    with Some w'(2) show ?thesis by simp
  qed (use w'(2) in simp)
  with xs(1) w' that show thesis
    by (auto simp: deleteMatching_def)
qed

lemma ensureAbsent_reliable:
  assumes rel: "reliableObjects K norm ob repr rest"
  obtains w' where "ensureAbsent K ob ns n w = (Inr (), w')" and "repr w' = (repr w)((ns, n) := None)" and "rest w' = rest w"
proof (cases "repr w (ns, n)")
  case None
  then show ?thesis
    by (intro that [of w]) (auto simp: ensureAbsent_def object_get [OF rel])
next
  case (Some x)
  have key: "k_Namespace K x = ns" "k_Name K x = n"
    using object_named [OF rel Some] by (simp_all add: k_Key_def)
  obtain w' where "ob_delete ob ns n w = (if repr w (ns, n) = None then Some NotFound else None, w')"
    "repr w' = (repr w)((ns, n) := None)" "rest w' = rest w"
    using rel by (rule reliable_delete)
  with Some key show ?thesis
    by (intro that [of w']) (simp_all add: ensureAbsent_def object_get [OF rel])
qed

section \<open>A server in memory\<close>

text \<open>The objects of a kind as a list inside a world, the first of a key counts.\<close>

definition memObj :: "'o kind \<Rightarrow> 'o list \<Rightarrow> 'o objstore" where
  "memObj K xs k = find (\<lambda>x. k_Key K x = k) xs"

definition memDrop :: "'o kind \<Rightarrow> string \<times> string \<Rightarrow> 'o list \<Rightarrow> 'o list" where
  "memDrop K k xs = filter (\<lambda>x. k_Key K x \<noteq> k) xs"

definition memObjects :: "'o kind \<Rightarrow> ('w \<Rightarrow> 'o list) \<Rightarrow> ('o list \<Rightarrow> 'w \<Rightarrow> 'w) \<Rightarrow> ('o, 'w) objects" where
  "memObjects K get put =
     \<lparr>ob_get = (\<lambda>ns n w. case memObj K (get w) (ns, n) of None \<Rightarrow> Inl NotFound | Some x \<Rightarrow> Inr x),
      ob_list = (\<lambda>ns wanted w. Inr (filter (\<lambda>x. k_Namespace K x = ns \<and> matchingLabels wanted (m_Labels (k_Meta K x)) \<and>
        memObj K (get w) (k_Key K x) = Some x) (get w))),
      ob_create = (\<lambda>x w. if memObj K (get w) (k_Key K x) = None then (Inr x, put (x # get w) w)
        else (Inl (ApiError ''AlreadyExists''), w)),
      ob_update = (\<lambda>x w. if memObj K (get w) (k_Key K x) = None then (Inl NotFound, w)
        else (Inr x, put (x # memDrop K (k_Key K x) (get w)) w)),
      ob_delete = (\<lambda>ns n w. (if memObj K (get w) (ns, n) = None then Some NotFound else None,
        put (memDrop K (ns, n) (get w)) w)),
      ob_setRef = (\<lambda>cl x. if k_Namespace K x = m_Namespace (cl_Meta cl) \<and>
          (k_Controller K x = None \<or> k_Controller K x = Some (m_Name (cl_Meta cl)))
        then Inr (k_SetController K (Some (m_Name (cl_Meta cl))) x) else Inl (ApiError ''AlreadyOwned''))\<rparr>"

lemma memObj_Cons: "memObj K (x # xs) = (memObj K xs)(k_Key K x \<mapsto> x)"
  by (rule ext) (auto simp: memObj_def)

lemma memObj_drop: "memObj K (memDrop K k xs) = (memObj K xs)(k := None)"
proof
  fix k'
  show "memObj K (memDrop K k xs) k' = ((memObj K xs)(k := None)) k'"
    by (induction xs) (auto simp: memObj_def memDrop_def)
qed

lemma memObj_key: "memObj K xs k = Some x \<Longrightarrow> k_Key K x = k \<and> x \<in> set xs"
  by (auto simp: memObj_def find_Some_iff)

theorem memObjects_reliable:
  assumes "\<And>xs w. get (put xs w) = xs" and "\<And>xs w. rest (put xs w) = rest w"
  shows "reliableObjects K id (memObjects K get put) (\<lambda>w. memObj K (get w)) rest"
  unfolding reliableObjects_def
proof (intro conjI allI)
  fix w ns wanted
  show "\<exists>xs. ob_list (memObjects K get put) ns wanted w = Inr xs \<and>
      set xs = {x. \<exists>n. memObj K (get w) (ns, n) = Some x \<and> matchingLabels wanted (m_Labels (k_Meta K x))}"
    by (auto simp: memObjects_def k_Key_def) (frule memObj_key, simp add: k_Key_def)+
qed (auto simp: memObjects_def assms memObj_Cons memObj_drop k_Namespace_def dest: memObj_key)

end
