(* ===== verification/Certificates.thy ===== *)
theory Certificates
  imports Owned_Objects
begin

text \<open>
  The cert-manager certificates of a cluster (\<^verbatim>\<open>internal/controller/cluster_controller.go\<close>): one per
  pod for the API, one per pod for the gRPC tunnel, and one client certificate. The two loops over the
  pods share their contract, the locale \<open>pod_certificates\<close>; it is interpreted on the API and on the
  tunnel certificates.
\<close>

section \<open>Labels\<close>

definition LabelClusterName :: string where "LabelClusterName = ''operator.gnmic.dev/cluster''"
definition LabelPodName :: string where "LabelPodName = ''operator.gnmic.dev/pod-name''"
definition LabelCertType :: string where "LabelCertType = ''operator.gnmic.dev/cert-type''"
definition LabelValueCertTypeClient :: string where "LabelValueCertTypeClient = ''client''"
definition LabelValueCertTypeTunnel :: string where "LabelValueCertTypeTunnel = ''tunnel''"

definition nameLabel :: string where "nameLabel = ''app.kubernetes.io/name''"
definition managedByLabel :: string where "managedByLabel = ''app.kubernetes.io/managed-by''"

text \<open>The labels every owned object carries.\<close>

definition ownedLabels :: "cluster \<Rightarrow> labels" where
  "ownedLabels cl = [(nameLabel, ''gnmic''), (managedByLabel, ''gnmic-operator''), (LabelClusterName, m_Name (cl_Meta cl))]"

definition newMeta :: "string \<Rightarrow> string \<Rightarrow> labels \<Rightarrow> object_meta" where
  "newMeta name ns ls = \<lparr>m_Name = name, m_Namespace = ns, m_Labels = ls, m_Generation = 0, m_ResourceVersion = [],
     m_Finalizers = [], m_Deleting = False\<rparr>"

section \<open>Certificates\<close>

datatype key_usage = UsageServerAuth | UsageClientAuth | UsageDigitalSignature | UsageKeyEncipherment | OtherUsage string

record certificate_spec =
  crs_SecretName :: string
  crs_SecretLabels :: labels
  crs_IssuerName :: string
  crs_IssuerKind :: string
  crs_CommonName :: string
  crs_DNSNames :: "string list"
  crs_Usages :: "key_usage list"

record certificate =
  crt_Meta :: object_meta
  crt_Controller :: "string option"
  crt_Spec :: certificate_spec
  crt_Conditions :: "(string \<times> string) list" \<comment> \<open>type and status\<close>

definition certKind :: "certificate kind" where
  "certKind = \<lparr>k_Meta = crt_Meta, k_Controller = crt_Controller, k_SetController = (\<lambda>c x. x\<lparr>crt_Controller := c\<rparr>)\<rparr>"

definition certificateNeedsUpdate :: "certificate \<Rightarrow> certificate \<Rightarrow> bool" where
  "certificateNeedsUpdate current desired \<longleftrightarrow>
     crs_SecretName (crt_Spec current) \<noteq> crs_SecretName (crt_Spec desired) \<or>
     crs_IssuerName (crt_Spec current) \<noteq> crs_IssuerName (crt_Spec desired) \<or>
     crs_CommonName (crt_Spec current) \<noteq> crs_CommonName (crt_Spec desired) \<or>
     crs_DNSNames (crt_Spec current) \<noteq> crs_DNSNames (crt_Spec desired)"

text \<open>The first \<^verbatim>\<open>Ready\<close> condition decides.\<close>

definition isCertificateReady :: "certificate \<Rightarrow> bool" where
  "isCertificateReady cert =
     (case find (\<lambda>(type, _). type = ''Ready'') (crt_Conditions cert) of
        None \<Rightarrow> False
      | Some (_, status) \<Rightarrow> status = ''True'')"

definition podDNSNames :: "string \<Rightarrow> cluster \<Rightarrow> string \<Rightarrow> string \<Rightarrow> string list" where
  "podDNSNames domain cl podName stsName =
     [podName,
      podName @ ''.'' @ stsName,
      podName @ ''.'' @ stsName @ ''.'' @ m_Namespace (cl_Meta cl),
      podName @ ''.'' @ stsName @ ''.'' @ m_Namespace (cl_Meta cl) @ ''.svc'',
      podName @ ''.'' @ stsName @ ''.'' @ m_Namespace (cl_Meta cl) @ ''.svc.'' @ domain]"

text \<open>The builders are called with a TLS section whose issuer is set; \<open>issuerRef\<close> is its name.\<close>

definition buildCertificate :: "string \<Rightarrow> cluster \<Rightarrow> string \<Rightarrow> string \<Rightarrow> string \<Rightarrow> string \<Rightarrow> certificate" where
  "buildCertificate domain cl issuerRef certName podName stsName =
     \<lparr>crt_Meta = newMeta certName (m_Namespace (cl_Meta cl)) (ownedLabels cl),
      crt_Controller = None,
      crt_Spec = \<lparr>crs_SecretName = certName,
        crs_SecretLabels = [(LabelClusterName, m_Name (cl_Meta cl)), (LabelPodName, podName)],
        crs_IssuerName = issuerRef, crs_IssuerKind = ''Issuer'', crs_CommonName = podName,
        crs_DNSNames = podDNSNames domain cl podName stsName,
        crs_Usages = [UsageServerAuth, UsageClientAuth, UsageDigitalSignature, UsageKeyEncipherment]\<rparr>,
      crt_Conditions = []\<rparr>"

definition tunnelServiceName :: "cluster \<Rightarrow> string" where
  "tunnelServiceName cl = resourcePrefix @ m_Name (cl_Meta cl) @ ''-grpc-tunnel''"

definition buildTunnelCertificate ::
  "string \<Rightarrow> cluster \<Rightarrow> grpc_tunnel \<Rightarrow> string \<Rightarrow> string \<Rightarrow> string \<Rightarrow> string \<Rightarrow> certificate" where
  "buildTunnelCertificate domain cl tunnel issuerRef certName podName stsName =
     (let svc = tunnelServiceName cl; ns = m_Namespace (cl_Meta cl);
          dnsNames = podDNSNames domain cl podName stsName @
            (if gt_Service tunnel = None then []
             else [svc, svc @ ''.'' @ ns, svc @ ''.'' @ ns @ ''.svc'', svc @ ''.'' @ ns @ ''.svc.'' @ domain])
      in \<lparr>crt_Meta = newMeta certName ns (ownedLabels cl @ [(LabelCertType, LabelValueCertTypeTunnel)]),
          crt_Controller = None,
          crt_Spec = \<lparr>crs_SecretName = certName,
            crs_SecretLabels = [(LabelClusterName, m_Name (cl_Meta cl)), (LabelPodName, podName),
              (LabelCertType, LabelValueCertTypeTunnel)],
            crs_IssuerName = issuerRef, crs_IssuerKind = ''Issuer'', crs_CommonName = podName, crs_DNSNames = dnsNames,
            crs_Usages = [UsageServerAuth, UsageClientAuth, UsageDigitalSignature, UsageKeyEncipherment]\<rparr>,
          crt_Conditions = []\<rparr>)"

definition buildClientTLSCertificate :: "cluster \<Rightarrow> string \<Rightarrow> string \<Rightarrow> certificate" where
  "buildClientTLSCertificate cl issuerRef certName =
     (let commonName = m_Name (cl_Meta cl) @ ''.'' @ m_Namespace (cl_Meta cl)
      in \<lparr>crt_Meta = newMeta certName (m_Namespace (cl_Meta cl)) (ownedLabels cl @ [(LabelCertType, LabelValueCertTypeClient)]),
          crt_Controller = None,
          crt_Spec = \<lparr>crs_SecretName = certName,
            crs_SecretLabels = [(LabelClusterName, m_Name (cl_Meta cl)), (LabelCertType, LabelValueCertTypeClient)],
            crs_IssuerName = issuerRef, crs_IssuerKind = ''Issuer'', crs_CommonName = commonName,
            crs_DNSNames = [commonName],
            crs_Usages = [UsageClientAuth, UsageDigitalSignature, UsageKeyEncipherment]\<rparr>,
          crt_Conditions = []\<rparr>)"

section \<open>Reconciling certificates\<close>

definition changeCertificate :: "certificate \<Rightarrow> certificate \<Rightarrow> certificate option" where
  "changeCertificate desired current =
     (if certificateNeedsUpdate current desired then Some (current\<lparr>crt_Spec := crt_Spec desired\<rparr>) else None)"

text \<open>One certificate: owned, created or changed; the result says whether it is ready.\<close>

definition ensureCertificate ::
  "(certificate, 'w) objects \<Rightarrow> cluster \<Rightarrow> certificate \<Rightarrow> 'w \<Rightarrow> (failure + bool) \<times> 'w" where
  "ensureCertificate ob cl cert =
     bindW (apiW (ob_setRef ob cl cert)) (\<lambda>cert.
     bindW (createOrChange ob (m_Namespace (cl_Meta cl)) (m_Name (crt_Meta cert)) cert (changeCertificate cert)) (\<lambda>r.
       returnW (case r of None \<Rightarrow> False | Some current \<Rightarrow> isCertificateReady current)))"

definition ensurePod ::
  "(certificate, 'w) objects \<Rightarrow> cluster \<Rightarrow> (int \<Rightarrow> certificate) \<Rightarrow> int \<Rightarrow> bool \<Rightarrow> 'w \<Rightarrow> (failure + bool) \<times> 'w" where
  "ensurePod ob cl build i allReady = bindW (ensureCertificate ob cl (build i)) (\<lambda>ready. returnW (allReady \<and> ready))"

text \<open>The loop over the replicas and the deletion of the certificates of replicas that are gone.\<close>

definition reconcilePodCertificates ::
  "(certificate, 'w) objects \<Rightarrow> cluster \<Rightarrow> int \<Rightarrow> (int \<Rightarrow> certificate) \<Rightarrow> labels \<Rightarrow> (string \<Rightarrow> int) \<Rightarrow>
   'w \<Rightarrow> (failure + bool) \<times> 'w" where
  "reconcilePodCertificates ob cl replicas build wanted ordinal =
     bindW (foldW (ensurePod ob cl build) [0..replicas - 1] True) (\<lambda>allReady.
     bindW (\<lambda>w. apiW (ob_list ob (m_Namespace (cl_Meta cl)) wanted w) w) (\<lambda>certs.
     bindW (deleteObjects certKind ob (filter (\<lambda>c. ordinal (m_Name (crt_Meta c)) \<ge> replicas) certs)) (\<lambda>_.
       returnW allReady)))"

definition clusterWanted :: "cluster \<Rightarrow> labels" where
  "clusterWanted cl = [(LabelClusterName, m_Name (cl_Meta cl))]"

definition typeWanted :: "string \<Rightarrow> cluster \<Rightarrow> labels" where
  "typeWanted type cl = [(LabelClusterName, m_Name (cl_Meta cl)), (LabelCertType, type)]"

definition apiCertificate :: "string \<Rightarrow> cluster \<Rightarrow> string \<Rightarrow> int \<Rightarrow> certificate" where
  "apiCertificate domain cl issuerRef i =
     (let stsName = statefulSetName (m_Name (cl_Meta cl)); podName = podNameOf stsName i
      in buildCertificate domain cl issuerRef (apiCertName podName) podName stsName)"

definition tunnelCertificate :: "string \<Rightarrow> cluster \<Rightarrow> grpc_tunnel \<Rightarrow> string \<Rightarrow> int \<Rightarrow> certificate" where
  "tunnelCertificate domain cl tunnel issuerRef i =
     (let stsName = statefulSetName (m_Name (cl_Meta cl)); podName = podNameOf stsName i
      in buildTunnelCertificate domain cl tunnel issuerRef (tunnelCertName podName) podName stsName)"

definition apiOrdinal :: "cluster \<Rightarrow> string \<Rightarrow> int" where
  "apiOrdinal cl name = extractOrdinalFromCertName name (statefulSetName (m_Name (cl_Meta cl)))"

definition tunnelOrdinal :: "cluster \<Rightarrow> string \<Rightarrow> int" where
  "tunnelOrdinal cl name = extractOrdinalFromTunnelCertName name (statefulSetName (m_Name (cl_Meta cl)))"

definition reconcileCertificates ::
  "string \<Rightarrow> (certificate, 'w) objects \<Rightarrow> cluster \<Rightarrow> 'w \<Rightarrow> (failure + bool) \<times> 'w" where
  "reconcileCertificates domain ob cl w =
     (case Option.bind (cs_API (cl_Spec cl)) api_TLS of
        None \<Rightarrow> (Inr True, w)
      | Some tls \<Rightarrow>
          if ct_IssuerRef tls = [] then (Inr True, w)
          else case cs_Replicas (cl_Spec cl) of
                 None \<Rightarrow> (Inl NilPanic, w)
               | Some replicas \<Rightarrow>
                   reconcilePodCertificates ob cl replicas (apiCertificate domain cl (ct_IssuerRef tls)) (clusterWanted cl)
                     (apiOrdinal cl) w)"

definition cleanupCertificates :: "(certificate, 'w) objects \<Rightarrow> cluster \<Rightarrow> 'w \<Rightarrow> (failure + unit) \<times> 'w" where
  "cleanupCertificates ob cl = deleteMatching certKind ob (m_Namespace (cl_Meta cl)) (clusterWanted cl)"

definition reconcileTunnelCertificates ::
  "string \<Rightarrow> (certificate, 'w) objects \<Rightarrow> cluster \<Rightarrow> 'w \<Rightarrow> (failure + bool) \<times> 'w" where
  "reconcileTunnelCertificates domain ob cl w =
     (case cs_GRPCTunnel (cl_Spec cl) of
        None \<Rightarrow> (Inr True, w)
      | Some tunnel \<Rightarrow>
          (case gt_TLS tunnel of
             None \<Rightarrow> (Inr True, w)
           | Some tls \<Rightarrow>
               if ct_IssuerRef tls = [] then (Inr True, w)
               else case cs_Replicas (cl_Spec cl) of
                      None \<Rightarrow> (Inl NilPanic, w)
                    | Some replicas \<Rightarrow>
                        reconcilePodCertificates ob cl replicas (tunnelCertificate domain cl tunnel (ct_IssuerRef tls))
                          (typeWanted LabelValueCertTypeTunnel cl)
                          (tunnelOrdinal cl) w))"

definition cleanupTunnelCertificates :: "(certificate, 'w) objects \<Rightarrow> cluster \<Rightarrow> 'w \<Rightarrow> (failure + unit) \<times> 'w" where
  "cleanupTunnelCertificates ob cl =
     deleteMatching certKind ob (m_Namespace (cl_Meta cl)) (typeWanted LabelValueCertTypeTunnel cl)"

definition reconcileClientTLSCertificates ::
  "(certificate, 'w) objects \<Rightarrow> cluster \<Rightarrow> 'w \<Rightarrow> (failure + bool) \<times> 'w" where
  "reconcileClientTLSCertificates ob cl w =
     (case cs_ClientTLS (cl_Spec cl) of
        None \<Rightarrow> (Inr True, w)
      | Some tls \<Rightarrow>
          if ct_IssuerRef tls = [] then (Inr True, w)
          else ensureCertificate ob cl
                 (buildClientTLSCertificate cl (ct_IssuerRef tls) (clientCertName (m_Name (cl_Meta cl)))) w)"

definition cleanupClientTLSCertificates :: "(certificate, 'w) objects \<Rightarrow> cluster \<Rightarrow> 'w \<Rightarrow> (failure + unit) \<times> 'w" where
  "cleanupClientTLSCertificates ob cl = deleteObject ob (m_Namespace (cl_Meta cl)) (clientCertName (m_Name (cl_Meta cl)))"

definition cleanupClientTLSCertificatesLegacy ::
  "(certificate, 'w) objects \<Rightarrow> cluster \<Rightarrow> 'w \<Rightarrow> (failure + unit) \<times> 'w" where
  "cleanupClientTLSCertificatesLegacy ob cl =
     deleteMatching certKind ob (m_Namespace (cl_Meta cl)) (typeWanted LabelValueCertTypeClient cl)"

section \<open>One certificate\<close>

lemma certKind_sels [simp]:
  "k_Meta certKind = crt_Meta" "k_Controller certKind = crt_Controller"
  "k_SetController certKind c x = x\<lparr>crt_Controller := c\<rparr>" "k_Name certKind x = m_Name (crt_Meta x)"
  "k_Namespace certKind x = m_Namespace (crt_Meta x)"
  "k_Key certKind x = (m_Namespace (crt_Meta x), m_Name (crt_Meta x))"
  by (simp_all add: certKind_def k_Key_def k_Name_def k_Namespace_def)

definition certKey :: "certificate \<Rightarrow> string \<times> string" where
  "certKey c = (m_Namespace (crt_Meta c), m_Name (crt_Meta c))"

text \<open>What stands for a built certificate after its reconciliation.\<close>

definition settledCert :: "cluster \<Rightarrow> certificate \<Rightarrow> certificate option \<Rightarrow> certificate" where
  "settledCert cl cert current =
     settled id (cert\<lparr>crt_Controller := Some (m_Name (cl_Meta cl))\<rparr>) (changeCertificate cert) current"

lemma changeCertificate_owner [simp]: "changeCertificate (cert\<lparr>crt_Controller := c\<rparr>) = changeCertificate cert"
  by (rule ext) (simp add: changeCertificate_def certificateNeedsUpdate_def)

lemma settledCert_agrees: "\<not> certificateNeedsUpdate (settledCert cl cert current) cert"
  by (simp add: settledCert_def settled_def changeCertificate_def certificateNeedsUpdate_def split: option.split)

lemma settledCert_again [simp]: "settledCert cl cert (Some (settledCert cl cert current)) = settledCert cl cert current"
  by (simp add: settledCert_def settled_def changeCertificate_def certificateNeedsUpdate_def split: option.split)

lemma settledCert_ready [simp]: "isCertificateReady (settledCert cl cert (Some c)) = isCertificateReady c"
  by (simp add: settledCert_def settled_def changeCertificate_def isCertificateReady_def split: option.split)

lemma settledCert_new: "isCertificateReady (settledCert cl (buildCertificate d cl i n p s) None) = False"
  by (simp add: settledCert_def settled_def isCertificateReady_def buildCertificate_def)

definition readyAt :: "certificate objstore \<Rightarrow> certificate \<Rightarrow> bool" where
  "readyAt A cert = (case A (certKey cert) of None \<Rightarrow> False | Some c \<Rightarrow> isCertificateReady c)"

lemma ensureCertificate_reliable:
  assumes rel: "reliableObjects certKind id ob repr rest"
    and cert: "m_Namespace (crt_Meta cert) = m_Namespace (cl_Meta cl)" "crt_Controller cert = None"
  obtains w' where "ensureCertificate ob cl cert w = (Inr (readyAt (repr w) cert), w')"
    and "repr w' = (repr w)(certKey cert \<mapsto> settledCert cl cert (repr w (certKey cert)))" and "rest w' = rest w"
proof -
  let ?own = "cert\<lparr>crt_Controller := Some (m_Name (cl_Meta cl))\<rparr>"
  have own: "ob_setRef ob cl cert = Inr ?own"
    using reliable_setRef [OF rel, of cert cl] cert by simp
  have key: "k_Key certKind ?own = (m_Namespace (cl_Meta cl), m_Name (crt_Meta cert))"
    using cert by simp
  have keeps: "changeCertificate ?own c = Some c' \<Longrightarrow> k_Key certKind c' = k_Key certKind c" for c c'
    by (auto simp: changeCertificate_def split: if_splits)
  obtain w' where "createOrChange ob (m_Namespace (cl_Meta cl)) (m_Name (crt_Meta cert)) ?own (changeCertificate ?own) w =
       (Inr (map_option (\<lambda>c. settled id ?own (changeCertificate ?own) (Some c))
          (repr w (m_Namespace (cl_Meta cl), m_Name (crt_Meta cert)))), w')"
    "repr w' = (repr w)((m_Namespace (cl_Meta cl), m_Name (crt_Meta cert)) \<mapsto>
       settled id ?own (changeCertificate ?own) (repr w (m_Namespace (cl_Meta cl), m_Name (crt_Meta cert))))" "rest w' = rest w"
    using rel key keeps by (rule createOrChange_reliable)
  with own cert show thesis
    by (intro that [of w'])
      (auto simp: ensureCertificate_def bindW_def apiW_def returnW_def readyAt_def certKey_def
        simp flip: settledCert_def split: option.split)
qed

section \<open>The certificates of the pods\<close>

text \<open>
  The abstract effect: the certificate of every pod is there as built, the certificates of pods that are
  gone are not, and nothing else has changed.
\<close>

definition podCertsSynced ::
  "cluster \<Rightarrow> int \<Rightarrow> (int \<Rightarrow> certificate) \<Rightarrow> labels \<Rightarrow> (string \<Rightarrow> int) \<Rightarrow>
   certificate objstore \<Rightarrow> certificate objstore \<Rightarrow> bool" where
  "podCertsSynced cl n build wanted ordinal A A' \<longleftrightarrow>
     (\<forall>i \<in> {0..<n}. A' (certKey (build i)) = Some (settledCert cl (build i) (A (certKey (build i))))) \<and>
     (\<forall>k. k \<notin> (\<lambda>i. certKey (build i)) ` {0..<n} \<longrightarrow>
        A' k = (case A k of
            None \<Rightarrow> None
          | Some c \<Rightarrow> if fst k = m_Namespace (cl_Meta cl) \<and> matchingLabels wanted (m_Labels (crt_Meta c)) \<and> n \<le> ordinal (snd k)
                      then None else Some c))"

lemma synced_outside:
  "podCertsSynced cl n build wanted ordinal A A' \<Longrightarrow> k \<notin> (\<lambda>i. certKey (build i)) ` {0..<n} \<Longrightarrow>
   A' k = (case A k of
       None \<Rightarrow> None
     | Some c \<Rightarrow> if fst k = m_Namespace (cl_Meta cl) \<and> matchingLabels wanted (m_Labels (crt_Meta c)) \<and> n \<le> ordinal (snd k)
                 then None else Some c)"
  unfolding podCertsSynced_def by blast

lemma podCertsSynced_twice:
  assumes "podCertsSynced cl n build wanted ordinal A A'" and "podCertsSynced cl n build wanted ordinal A' A''"
  shows "A'' = A'"
proof
  fix k
  show "A'' k = A' k"
  proof (cases "k \<in> (\<lambda>i. certKey (build i)) ` {0..<n}")
    case True
    with assms show ?thesis
      by (auto simp: podCertsSynced_def)
  next
    case False
    from synced_outside [OF assms(1) False] synced_outside [OF assms(2) False] show ?thesis
      by (auto split: option.splits if_splits)
  qed
qed

locale pod_certificates =
  fixes cl :: cluster and build :: "int \<Rightarrow> certificate" and wanted :: labels and ordinal :: "string \<Rightarrow> int"
  assumes build_ns: "m_Namespace (crt_Meta (build i)) = m_Namespace (cl_Meta cl)"
    and build_free: "crt_Controller (build i) = None"
    and build_ordinal: "0 \<le> i \<Longrightarrow> i < 2 ^ 63 \<Longrightarrow> ordinal (m_Name (crt_Meta (build i))) = i"
begin

lemma key_inj: "inj_on (\<lambda>i. certKey (build i)) {0..<2 ^ 63}"
  by (rule inj_onI) (metis atLeastLessThan_iff build_ordinal certKey_def prod.inject)

lemma ensure_loop:
  assumes rel: "reliableObjects certKind id ob repr rest" and "distinct is" and "set is \<subseteq> {0..<2 ^ 63}"
  shows "\<exists>w'. foldW (ensurePod ob cl build) is r w =
      (Inr (r \<and> (\<forall>i \<in> set is. readyAt (repr w) (build i))), w') \<and>
    (\<forall>i \<in> set is. repr w' (certKey (build i)) = Some (settledCert cl (build i) (repr w (certKey (build i))))) \<and>
    (\<forall>k. k \<notin> (\<lambda>i. certKey (build i)) ` set is \<longrightarrow> repr w' k = repr w k) \<and> rest w' = rest w"
  using assms(2,3)
proof (induction "is" arbitrary: r w)
  case (Cons i "is")
  obtain w1 where w1: "ensureCertificate ob cl (build i) w = (Inr (readyAt (repr w) (build i)), w1)"
    "repr w1 = (repr w)(certKey (build i) \<mapsto> settledCert cl (build i) (repr w (certKey (build i))))" "rest w1 = rest w"
    by (rule ensureCertificate_reliable [OF rel build_ns build_free])
  have step: "ensurePod ob cl build i r w = (Inr (r \<and> readyAt (repr w) (build i)), w1)"
    by (simp add: ensurePod_def bindW_def w1(1))
  have other: "certKey (build j) \<noteq> certKey (build i)" if "j \<in> set is" for j
    using inj_onD [OF key_inj, of j i] that Cons.prems by auto
  obtain w' where w': "foldW (ensurePod ob cl build) is
      (r \<and> readyAt (repr w) (build i)) w1 =
      (Inr ((r \<and> readyAt (repr w) (build i)) \<and> (\<forall>i \<in> set is. readyAt (repr w1) (build i))), w')"
    "\<forall>i \<in> set is. repr w' (certKey (build i)) = Some (settledCert cl (build i) (repr w1 (certKey (build i))))"
    "\<forall>k. k \<notin> (\<lambda>i. certKey (build i)) ` set is \<longrightarrow> repr w' k = repr w1 k" "rest w' = rest w1"
    using Cons.IH [of "r \<and> readyAt (repr w) (build i)" w1] Cons.prems by auto
  have same: "repr w1 (certKey (build j)) = repr w (certKey (build j))" if "j \<in> set is" for j
    using other [OF that] w1(2) by simp
  have "repr w' (certKey (build i)) = repr w1 (certKey (build i))"
    using w'(3) other by (metis (no_types, lifting) imageE)
  moreover have "(\<forall>j \<in> set is. readyAt (repr w1) (build j)) = (\<forall>j \<in> set is. readyAt (repr w) (build j))"
    by (simp add: readyAt_def same)
  ultimately show ?case
    using w1(2,3) w' same by (intro exI [of _ w']) (auto simp: step)
qed simp

theorem sync:
  assumes rel: "reliableObjects certKind id ob repr rest" and n: "0 \<le> n" "n < 2 ^ 63"
  obtains w' where "reconcilePodCertificates ob cl n build wanted ordinal w =
      (Inr (\<forall>i \<in> {0..<n}. readyAt (repr w) (build i)), w')"
    and "podCertsSynced cl n build wanted ordinal (repr w) (repr w')" and "rest w' = rest w"
proof -
  have range: "distinct [0..n - 1]" "set [0..n - 1] = {0..<n}" "set [0..n - 1] \<subseteq> {0..<2 ^ 63}"
    using n by auto
  obtain w1 where w1: "foldW (ensurePod ob cl build)
      [0..n - 1] True w = (Inr (\<forall>i \<in> {0..<n}. readyAt (repr w) (build i)), w1)"
    "\<forall>i \<in> {0..<n}. repr w1 (certKey (build i)) = Some (settledCert cl (build i) (repr w (certKey (build i))))"
    "\<forall>k. k \<notin> (\<lambda>i. certKey (build i)) ` {0..<n} \<longrightarrow> repr w1 k = repr w k" "rest w1 = rest w"
    using ensure_loop [OF rel range(1,3), of True w] unfolding range(2) by auto
  let ?drop = "\<lambda>c. n \<le> ordinal (m_Name (crt_Meta c))"
  obtain cs where cs: "ob_list ob (m_Namespace (cl_Meta cl)) wanted w1 = Inr cs"
    "set cs = {c. \<exists>m. repr w1 (m_Namespace (cl_Meta cl), m) = Some c \<and> matchingLabels wanted (m_Labels (crt_Meta c))}"
    by (rule object_list [OF rel, unfolded certKind_sels(1)])
  obtain w' where w': "deleteObjects certKind ob (filter ?drop cs) w1 = (Inr (), w')"
    "repr w' = (\<lambda>k. if k \<in> k_Key certKind ` set (filter ?drop cs) then None else repr w1 k)" "rest w' = rest w1"
    using rel by (rule deleteObjects_reliable)
  have named: "repr w1 k = Some c \<Longrightarrow> (m_Namespace (crt_Meta c), m_Name (crt_Meta c)) = k" for k c
    using object_named [OF rel, of w1 k c] by simp
  have gone: "k \<in> k_Key certKind ` set (filter ?drop cs) \<longleftrightarrow>
      (\<exists>c. repr w1 k = Some c \<and> fst k = m_Namespace (cl_Meta cl) \<and> matchingLabels wanted (m_Labels (crt_Meta c)) \<and> n \<le> ordinal (snd k))" for k
  proof
    assume "k \<in> k_Key certKind ` set (filter ?drop cs)"
    then obtain c m where c: "k = (m_Namespace (crt_Meta c), m_Name (crt_Meta c))" "?drop c"
      "repr w1 (m_Namespace (cl_Meta cl), m) = Some c" "matchingLabels wanted (m_Labels (crt_Meta c))"
      using cs(2) by auto
    with named [OF c(3)] show "\<exists>c. repr w1 k = Some c \<and> fst k = m_Namespace (cl_Meta cl) \<and>
        matchingLabels wanted (m_Labels (crt_Meta c)) \<and> n \<le> ordinal (snd k)"
      by auto
  next
    assume "\<exists>c. repr w1 k = Some c \<and> fst k = m_Namespace (cl_Meta cl) \<and> matchingLabels wanted (m_Labels (crt_Meta c)) \<and> n \<le> ordinal (snd k)"
    then obtain c where c: "repr w1 k = Some c" "fst k = m_Namespace (cl_Meta cl)" "matchingLabels wanted (m_Labels (crt_Meta c))"
      "n \<le> ordinal (snd k)" by blast
    with named [OF c(1)] have "c \<in> set (filter ?drop cs)" "k = k_Key certKind c"
      using cs(2) by auto
    then show "k \<in> k_Key certKind ` set (filter ?drop cs)" by blast
  qed
  have pods: "repr w' (certKey (build i)) = repr w1 (certKey (build i))" if "i \<in> {0..<n}" for i
    using gone [of "certKey (build i)"] w'(2) build_ordinal [of i] that n by (auto simp: certKey_def)
  have "podCertsSynced cl n build wanted ordinal (repr w) (repr w')"
    unfolding podCertsSynced_def
  proof (intro conjI ballI allI impI)
    fix i assume "i \<in> {0..<n}"
    then show "repr w' (certKey (build i)) = Some (settledCert cl (build i) (repr w (certKey (build i))))"
      using pods w1(2) by simp
  next
    fix k assume "k \<notin> (\<lambda>i. certKey (build i)) ` {0..<n}"
    then have "repr w1 k = repr w k" using w1(3) by blast
    then show "repr w' k = (case repr w k of None \<Rightarrow> None
        | Some c \<Rightarrow> if fst k = m_Namespace (cl_Meta cl) \<and> matchingLabels wanted (m_Labels (crt_Meta c)) \<and> n \<le> ordinal (snd k)
                    then None else Some c)"
      using gone [of k] w'(2) by (auto split: option.split)
  qed
  with w1 w' cs(1) show thesis
    by (intro that [of w']) (auto simp: reconcilePodCertificates_def bindW_def apiW_def returnW_def)
qed

end

interpretation api_certs: pod_certificates cl "apiCertificate domain cl issuerRef" "clusterWanted cl"
  "apiOrdinal cl" for cl domain issuerRef
  by unfold_locales
    (simp_all add: apiCertificate_def buildCertificate_def newMeta_def Let_def apiOrdinal_def ordinal_of_apiCertName)

interpretation tunnel_certs: pod_certificates cl "tunnelCertificate domain cl tunnel issuerRef"
  "typeWanted LabelValueCertTypeTunnel cl"
  "tunnelOrdinal cl" for cl domain tunnel issuerRef
  by unfold_locales
    (simp_all add: tunnelCertificate_def buildTunnelCertificate_def newMeta_def Let_def tunnelOrdinal_def ordinal_of_tunnelCertName)

section \<open>The certificates of a cluster\<close>

text \<open>The TLS section that asks for certificates from an issuer.\<close>

definition issuedBy :: "cluster_tls option \<Rightarrow> string \<Rightarrow> bool" where
  "issuedBy tls issuerRef \<longleftrightarrow> (\<exists>t. tls = Some t \<and> ct_IssuerRef t = issuerRef \<and> issuerRef \<noteq> [])"

lemma reconcileCertificates_sync:
  assumes rel: "reliableObjects certKind id ob repr rest"
    and "issuedBy (Option.bind (cs_API (cl_Spec cl)) api_TLS) issuerRef" and "cs_Replicas (cl_Spec cl) = Some n"
    and n: "0 \<le> n" "n < 2 ^ 63"
  obtains w' where "reconcileCertificates domain ob cl w =
      (Inr (\<forall>i \<in> {0..<n}. readyAt (repr w) (apiCertificate domain cl issuerRef i)), w')"
    and "podCertsSynced cl n (apiCertificate domain cl issuerRef) (clusterWanted cl)
      (apiOrdinal cl) (repr w) (repr w')"
    and "rest w' = rest w"
proof -
  have call: "reconcileCertificates domain ob cl w =
      reconcilePodCertificates ob cl n (apiCertificate domain cl issuerRef) (clusterWanted cl)
        (apiOrdinal cl) w"
    using assms(2,3) by (auto simp: reconcileCertificates_def issuedBy_def)
  obtain w' where "reconcilePodCertificates ob cl n (apiCertificate domain cl issuerRef) (clusterWanted cl) (apiOrdinal cl) w =
      (Inr (\<forall>i \<in> {0..<n}. readyAt (repr w) (apiCertificate domain cl issuerRef i)), w')"
    "podCertsSynced cl n (apiCertificate domain cl issuerRef) (clusterWanted cl) (apiOrdinal cl) (repr w) (repr w')" "rest w' = rest w"
    by (rule api_certs.sync [OF rel n])
  with call that show thesis by simp
qed

lemma reconcileTunnelCertificates_sync:
  assumes rel: "reliableObjects certKind id ob repr rest"
    and "cs_GRPCTunnel (cl_Spec cl) = Some tunnel" and "issuedBy (gt_TLS tunnel) issuerRef"
    and "cs_Replicas (cl_Spec cl) = Some n" and n: "0 \<le> n" "n < 2 ^ 63"
  obtains w' where "reconcileTunnelCertificates domain ob cl w =
      (Inr (\<forall>i \<in> {0..<n}. readyAt (repr w) (tunnelCertificate domain cl tunnel issuerRef i)), w')"
    and "podCertsSynced cl n (tunnelCertificate domain cl tunnel issuerRef) (typeWanted LabelValueCertTypeTunnel cl)
      (tunnelOrdinal cl) (repr w) (repr w')"
    and "rest w' = rest w"
proof -
  have call: "reconcileTunnelCertificates domain ob cl w =
      reconcilePodCertificates ob cl n (tunnelCertificate domain cl tunnel issuerRef) (typeWanted LabelValueCertTypeTunnel cl)
        (tunnelOrdinal cl) w"
    using assms(2,3,4) by (auto simp: reconcileTunnelCertificates_def issuedBy_def)
  obtain w' where "reconcilePodCertificates ob cl n (tunnelCertificate domain cl tunnel issuerRef) (typeWanted LabelValueCertTypeTunnel cl) (tunnelOrdinal cl) w =
      (Inr (\<forall>i \<in> {0..<n}. readyAt (repr w) (tunnelCertificate domain cl tunnel issuerRef i)), w')"
    "podCertsSynced cl n (tunnelCertificate domain cl tunnel issuerRef) (typeWanted LabelValueCertTypeTunnel cl) (tunnelOrdinal cl) (repr w) (repr w')" "rest w' = rest w"
    by (rule tunnel_certs.sync [OF rel n])
  with call that show thesis by simp
qed

text \<open>What the loops over the two kinds of certificates leave alone.\<close>

lemma synced_pod:
  assumes "podCertsSynced cl n build wanted ordinal A A'" and "0 \<le> i" and "i < n"
  shows "\<exists>c. A' (certKey (build i)) = Some c \<and> \<not> certificateNeedsUpdate c (build i) \<and>
    isCertificateReady c = (case A (certKey (build i)) of None \<Rightarrow> isCertificateReady (build i) | Some c \<Rightarrow> isCertificateReady c)"
proof -
  have "A' (certKey (build i)) = Some (settledCert cl (build i) (A (certKey (build i))))"
    using assms by (simp add: podCertsSynced_def)
  moreover have "isCertificateReady (settledCert cl (build i) None) = isCertificateReady (build i)"
    by (simp add: settledCert_def settled_def isCertificateReady_def)
  ultimately show ?thesis
    using settledCert_agrees by (auto split: option.split)
qed

lemma apiCertificate_name: "m_Name (crt_Meta (apiCertificate d cl iss i)) =
    apiCertName (podNameOf (statefulSetName (m_Name (cl_Meta cl))) i)"
  by (simp add: apiCertificate_def buildCertificate_def newMeta_def Let_def)

lemma tunnelCertificate_name: "m_Name (crt_Meta (tunnelCertificate d cl t iss i)) =
    tunnelCertName (podNameOf (statefulSetName (m_Name (cl_Meta cl))) i)"
  by (simp add: tunnelCertificate_def buildTunnelCertificate_def newMeta_def Let_def)

text \<open>What a loop leaves alone: the certificates in whose names it reads no ordinal of its own.\<close>

lemma synced_other:
  assumes "podCertsSynced cl n build wanted ordinal A A'" and "\<And>i. 0 \<le> i \<Longrightarrow> i < n \<Longrightarrow> snd k \<noteq> m_Name (crt_Meta (build i))"
    and "ordinal (snd k) < n"
  shows "A' k = A k"
proof -
  have "k \<notin> (\<lambda>i. certKey (build i)) ` {0..<n}"
    using assms(2) by (auto simp: certKey_def) blast
  from synced_outside [OF assms(1) this] assms(3) show ?thesis
    by (auto split: option.splits)
qed

lemma synced_bound:
  assumes "podCertsSynced cl n build wanted ordinal A A'" and "A' k = Some c" and "fst k = m_Namespace (cl_Meta cl)"
    and "matchingLabels wanted (m_Labels (crt_Meta c))" and "\<And>i. 0 \<le> i \<Longrightarrow> i < n \<Longrightarrow> ordinal (m_Name (crt_Meta (build i))) = i"
  shows "ordinal (snd k) < n"
proof (cases "k \<in> (\<lambda>i. certKey (build i)) ` {0..<n}")
  case True
  with assms(5) show ?thesis by (auto simp: certKey_def)
next
  case False
  from synced_outside [OF assms(1) this] assms(2-4) show ?thesis by (auto split: option.splits if_splits)
qed

lemma tunnel_no_apiOrdinal: "apiOrdinal cl (m_Name (crt_Meta (tunnelCertificate d cl t iss i))) = - 1"
  by (simp add: apiOrdinal_def tunnelCertificate_name ordinal_of_tunnelCert_as_apiCert)

lemma api_no_tunnelOrdinal: "tunnelOrdinal cl (m_Name (crt_Meta (apiCertificate d cl iss i))) = - 1"
  by (simp add: tunnelOrdinal_def apiCertificate_name ordinal_of_apiCert_as_tunnelCert)

lemma certKey_sels [simp]: "fst (certKey c) = m_Namespace (crt_Meta c)" "snd (certKey c) = m_Name (crt_Meta c)"
  by (simp_all add: certKey_def)

text \<open>The stores after the API certificates and then the tunnel certificates of a cluster were reconciled.\<close>

definition bothSynced ::
  "cluster \<Rightarrow> int \<Rightarrow> string \<Rightarrow> string \<Rightarrow> grpc_tunnel \<Rightarrow> string \<Rightarrow>
   certificate objstore \<Rightarrow> certificate objstore \<Rightarrow> certificate objstore \<Rightarrow> bool" where
  "bothSynced cl n domain apiIssuer tunnel tunnelIssuer A A1 A2 \<longleftrightarrow>
     podCertsSynced cl n (apiCertificate domain cl apiIssuer) (clusterWanted cl) (apiOrdinal cl) A A1 \<and>
     podCertsSynced cl n (tunnelCertificate domain cl tunnel tunnelIssuer) (typeWanted LabelValueCertTypeTunnel cl) (tunnelOrdinal cl) A1 A2 \<and>
     0 \<le> n \<and> n < 2 ^ 63"

lemma both_apiOrdinal:
  "bothSynced cl n domain apiIssuer tunnel tunnelIssuer A A1 A2 \<Longrightarrow> 0 \<le> i \<Longrightarrow> i < n \<Longrightarrow>
   apiOrdinal cl (m_Name (crt_Meta (apiCertificate domain cl apiIssuer i))) = i"
  using api_certs.build_ordinal [of i cl domain apiIssuer] by (simp add: bothSynced_def)

lemma both_names:
  assumes "bothSynced cl n domain apiIssuer tunnel tunnelIssuer A A1 A2" and "0 \<le> i" "i < n"
  shows "m_Name (crt_Meta (apiCertificate domain cl apiIssuer i)) \<noteq> m_Name (crt_Meta (tunnelCertificate domain cl tunnel tunnelIssuer j))"
  using both_apiOrdinal [OF assms] tunnel_no_apiOrdinal [of cl domain tunnel tunnelIssuer j] assms(2) by auto

text \<open>Neither reconciliation touches the certificates of the other.\<close>

lemma both_apart:
  assumes both: "bothSynced cl n domain apiIssuer tunnel tunnelIssuer A A1 A2" and i: "0 \<le> i" "i < n"
  shows "A1 (certKey (tunnelCertificate domain cl tunnel tunnelIssuer i)) = A (certKey (tunnelCertificate domain cl tunnel tunnelIssuer i))"
    and "A2 (certKey (apiCertificate domain cl apiIssuer i)) = A1 (certKey (apiCertificate domain cl apiIssuer i))"
proof -
  have sync: "podCertsSynced cl n (apiCertificate domain cl apiIssuer) (clusterWanted cl) (apiOrdinal cl) A A1"
    "podCertsSynced cl n (tunnelCertificate domain cl tunnel tunnelIssuer) (typeWanted LabelValueCertTypeTunnel cl) (tunnelOrdinal cl) A1 A2" "0 \<le> n"
    using both by (simp_all add: bothSynced_def)
  show "A1 (certKey (tunnelCertificate domain cl tunnel tunnelIssuer i)) = A (certKey (tunnelCertificate domain cl tunnel tunnelIssuer i))"
    using sync(1) by (rule synced_other) (use both_names [OF both, symmetric] sync(3) i in \<open>auto simp: tunnel_no_apiOrdinal\<close>)
  show "A2 (certKey (apiCertificate domain cl apiIssuer i)) = A1 (certKey (apiCertificate domain cl apiIssuer i))"
    using sync(2) by (rule synced_other) (use both_names [OF both i] sync(3) in \<open>auto simp: api_no_tunnelOrdinal\<close>)
qed

lemma both_bound:
  assumes both: "bothSynced cl n domain apiIssuer tunnel tunnelIssuer A A1 A2"
    and k: "A2 k = Some c" "fst k = m_Namespace (cl_Meta cl)" "matchingLabels (clusterWanted cl) (m_Labels (crt_Meta c))"
  shows "apiOrdinal cl (snd k) < n"
proof (cases "k \<in> (\<lambda>i. certKey (tunnelCertificate domain cl tunnel tunnelIssuer i)) ` {0..<n}")
  case True
  then show ?thesis by (auto simp: tunnel_no_apiOrdinal)
next
  case False
  have sync: "podCertsSynced cl n (apiCertificate domain cl apiIssuer) (clusterWanted cl) (apiOrdinal cl) A A1"
    "podCertsSynced cl n (tunnelCertificate domain cl tunnel tunnelIssuer) (typeWanted LabelValueCertTypeTunnel cl) (tunnelOrdinal cl) A1 A2"
    using both by (simp_all add: bothSynced_def)
  from synced_outside [OF sync(2) False] k(1) have "A1 k = Some c"
    by (auto split: option.splits if_splits)
  with sync(1) show ?thesis
    by (rule synced_bound) (use k(2,3) both_apiOrdinal [OF both] in auto)
qed

lemma both_again:
  assumes both: "bothSynced cl n domain apiIssuer tunnel tunnelIssuer A A1 A2"
    and again: "podCertsSynced cl n (apiCertificate domain cl apiIssuer) (clusterWanted cl) (apiOrdinal cl) A2 A3"
  shows "A3 = A2"
proof
  fix k
  show "A3 k = A2 k"
  proof (cases "k \<in> (\<lambda>i. certKey (apiCertificate domain cl apiIssuer i)) ` {0..<n}")
    case True
    with both again both_apart(2) [OF both] show ?thesis by (auto simp: bothSynced_def podCertsSynced_def)
  next
    case False
    from synced_outside [OF again this] both_bound [OF both, of k] show ?thesis
      by (force split: option.splits)
  qed
qed

text \<open>Certificates of other namespaces and of other clusters stay.\<close>

lemma both_others:
  assumes both: "bothSynced cl n domain apiIssuer tunnel tunnelIssuer A A1 A2" and c: "A k = Some c"
    and other: "fst k \<noteq> m_Namespace (cl_Meta cl) \<or> \<not> matchingLabels (clusterWanted cl) (m_Labels (crt_Meta c))"
    and keys: "\<forall>i \<in> {0..<n}. k \<noteq> certKey (apiCertificate domain cl apiIssuer i) \<and>
      k \<noteq> certKey (tunnelCertificate domain cl tunnel tunnelIssuer i)"
  shows "A2 k = Some c"
proof -
  have sync: "podCertsSynced cl n (apiCertificate domain cl apiIssuer) (clusterWanted cl) (apiOrdinal cl) A A1"
    "podCertsSynced cl n (tunnelCertificate domain cl tunnel tunnelIssuer) (typeWanted LabelValueCertTypeTunnel cl) (tunnelOrdinal cl) A1 A2"
    using both by (simp_all add: bothSynced_def)
  have out: "k \<notin> (\<lambda>i. certKey (apiCertificate domain cl apiIssuer i)) ` {0..<n}"
    "k \<notin> (\<lambda>i. certKey (tunnelCertificate domain cl tunnel tunnelIssuer i)) ` {0..<n}"
    using keys by blast+
  have "A1 k = Some c" using synced_outside [OF sync(1) out(1)] c other by auto
  with synced_outside [OF sync(2) out(2)] other show ?thesis
    by (auto simp: clusterWanted_def typeWanted_def matchingLabels_def)
qed


text \<open>A cluster of two pods with certificates for both, next to a server that has none yet.\<close>

definition exTLSCluster :: cluster where
  "exTLSCluster =
     \<lparr>cl_Meta = newMeta ''c'' ''n'' [],
      cl_Spec = \<lparr>cs_Image = ''i'', cs_Replicas = Some 2,
        cs_API = Some \<lparr>api_RestPort = 0, api_GNMIPort = 0,
          api_TLS = Some \<lparr>ct_IssuerRef = ''ca'', ct_BundleRef = [], ct_UseCSIDriver = False\<rparr>\<rparr>,
        cs_ClientTLS = None,
        cs_GRPCTunnel = Some \<lparr>gt_Port = 9, gt_TLS = Some \<lparr>ct_IssuerRef = ''ta'', ct_BundleRef = [], ct_UseCSIDriver = False\<rparr>,
          gt_Service = None\<rparr>,
        cs_Resources = \<lparr>rr_Requests = [], rr_Limits = []\<rparr>, cs_Env = [], cs_TargetDistribution = None\<rparr>,
      cl_Status = \<lparr>cst_Conditions = [], cst_ReadyReplicas = 0, cst_Selector = [], cst_PipelinesCount = 0,
        cst_TargetsCount = 0, cst_UnassignedTargets = 0, cst_SubscriptionsCount = 0, cst_InputsCount = 0,
        cst_OutputsCount = 0\<rparr>\<rparr>"

definition exCerts :: "(certificate, certificate list) objects" where
  "exCerts = memObjects certKind id (\<lambda>xs _. xs)"

lemma exCerts_reliable: "reliableObjects certKind id exCerts (memObj certKind) (\<lambda>_. ())"
  using memObjects_reliable [of id "\<lambda>xs _. xs" "\<lambda>_. ()" certKind] by (simp add: exCerts_def)


end
