(* ===== verification/Services.thy ===== *)
theory Services
  imports Certificates
begin

text \<open>
  The services and the CA ConfigMap of a cluster (\<^verbatim>\<open>internal/controller/cluster_controller.go\<close>): the
  headless service of the pods, the tunnel service, one service per Prometheus output, and the copy of
  the controller's CA.

  Parameters: the clients of the two kinds, the YAML reader of an output's \<^verbatim>\<open>listen\<close> and \<^verbatim>\<open>path\<close>
  fields, and the file system. \<^verbatim>\<open>strings.TrimSpace\<close> is modelled on ASCII text.
\<close>

section \<open>Kinds\<close>

definition LabelOutputName :: string where "LabelOutputName = ''operator.gnmic.dev/output''"
definition LabelPipelineName :: string where "LabelPipelineName = ''operator.gnmic.dev/pipeline''"
definition LabelServiceType :: string where "LabelServiceType = ''operator.gnmic.dev/service-type''"
definition LabelValueServiceTypeTunnel :: string where "LabelValueServiceTypeTunnel = ''tunnel''"
definition LabelValueServiceTypePrometheusOutput :: string where
  "LabelValueServiceTypePrometheusOutput = ''prometheus-output''"
definition LabelValueServiceTypeHeadless :: string where "LabelValueServiceTypeHeadless = ''rest-api''"
definition LabelValueOutputTypePrometheus :: string where "LabelValueOutputTypePrometheus = ''prometheus-output''"

datatype int_or_string = FromInt32 int | FromString string

fun intstr_String :: "int_or_string \<Rightarrow> string" where
  "intstr_String (FromInt32 i) = Itoa i"
| "intstr_String (FromString s) = s"

record svc_port =
  sp_Name :: string
  sp_Port :: int
  sp_TargetPort :: int_or_string \<comment> \<open>zero is \<open>FromInt32 0\<close>\<close>
  sp_Protocol :: string

record service_object =
  svc_Meta :: object_meta
  svc_Annotations :: labels
  svc_Controller :: "string option"
  svc_Type :: string
  svc_ClusterIP :: string
  svc_Selector :: labels
  svc_Ports :: "svc_port list"

definition svcKind :: "service_object kind" where
  "svcKind = \<lparr>k_Meta = svc_Meta, k_Controller = svc_Controller, k_SetController = (\<lambda>c x. x\<lparr>svc_Controller := c\<rparr>)\<rparr>"

record config_map_object =
  cm_Meta :: object_meta
  cm_Controller :: "string option"
  cm_Data :: "(string, string) gomap"

definition cmKind :: "config_map_object kind" where
  "cmKind = \<lparr>k_Meta = cm_Meta, k_Controller = cm_Controller, k_SetController = (\<lambda>c x. x\<lparr>cm_Controller := c\<rparr>)\<rparr>"

text \<open>An owned object is given its controller reference before it is created or compared.\<close>

definition ensureOwned ::
  "'o kind \<Rightarrow> ('o, 'w) objects \<Rightarrow> cluster \<Rightarrow> 'o \<Rightarrow> ('o \<Rightarrow> 'o \<Rightarrow> 'o option) \<Rightarrow> 'w \<Rightarrow> (failure + unit) \<times> 'w" where
  "ensureOwned K ob cl desired change =
     bindW (apiW (ob_setRef ob cl desired)) (\<lambda>desired.
     bindW (createOrChange ob (k_Namespace K desired) (k_Name K desired) desired (change desired)) (\<lambda>_. returnW ()))"

section \<open>The headless service\<close>

definition servicePortsEqual :: "svc_port list \<Rightarrow> svc_port list \<Rightarrow> bool" where
  "servicePortsEqual a b \<longleftrightarrow>
     list_all2 (\<lambda>x y. sp_Name x = sp_Name y \<and> sp_Port x = sp_Port y \<and> sp_Protocol x = sp_Protocol y \<and>
       intstr_String (sp_TargetPort x) = intstr_String (sp_TargetPort y)) a b"

definition restPortOf :: "cluster \<Rightarrow> int" where
  "restPortOf cl =
     (case cs_API (cl_Spec cl) of
        None \<Rightarrow> defaultRestPort
      | Some api \<Rightarrow> if api_RestPort api \<noteq> 0 then api_RestPort api else defaultRestPort)"

definition buildHeadlessService :: "cluster \<Rightarrow> service_object" where
  "buildHeadlessService cl =
     \<lparr>svc_Meta = newMeta (statefulSetName (m_Name (cl_Meta cl))) (m_Namespace (cl_Meta cl))
        (ownedLabels cl @ [(LabelServiceType, LabelValueServiceTypeHeadless)]),
      svc_Annotations = [], svc_Controller = None, svc_Type = [], svc_ClusterIP = ''None'',
      svc_Selector = clusterWanted cl,
      svc_Ports =
        \<lparr>sp_Name = ''rest'', sp_Port = restPortOf cl, sp_TargetPort = FromInt32 0, sp_Protocol = ''TCP''\<rparr> #
        (case cs_API (cl_Spec cl) of
           None \<Rightarrow> []
         | Some api \<Rightarrow>
             if api_GNMIPort api = 0 then []
             else [\<lparr>sp_Name = ''gnmi'', sp_Port = api_GNMIPort api, sp_TargetPort = FromInt32 0, sp_Protocol = ''TCP''\<rparr>])\<rparr>"

definition changePorts :: "service_object \<Rightarrow> service_object \<Rightarrow> service_object option" where
  "changePorts desired current =
     (if servicePortsEqual (svc_Ports current) (svc_Ports desired) then None
      else Some (current\<lparr>svc_Ports := svc_Ports desired\<rparr>))"

definition reconcileHeadlessService :: "(service_object, 'w) objects \<Rightarrow> cluster \<Rightarrow> 'w \<Rightarrow> (failure + unit) \<times> 'w" where
  "reconcileHeadlessService ob cl = ensureOwned svcKind ob cl (buildHeadlessService cl) changePorts"

definition ensureServiceAbsent :: "(service_object, 'w) objects \<Rightarrow> string \<Rightarrow> string \<Rightarrow> 'w \<Rightarrow> (failure + unit) \<times> 'w" where
  "ensureServiceAbsent = ensureAbsent svcKind"

section \<open>The tunnel service\<close>

definition buildTunnelService :: "cluster \<Rightarrow> grpc_tunnel \<Rightarrow> service_object" where
  "buildTunnelService cl tunnel =
     (let ls = ownedLabels cl @ [(LabelServiceType, LabelValueServiceTypeTunnel)];
          (type, ls, annotations) =
            (case gt_Service tunnel of
               None \<Rightarrow> (''LoadBalancer'', ls, [])
             | Some s \<Rightarrow>
                 (if sc_Type s \<noteq> [] then sc_Type s else ''LoadBalancer'',
                  maps_Copy ls (sc_Labels s), maps_Copy [] (sc_Annotations s)))
      in \<lparr>svc_Meta = newMeta (tunnelServiceName cl) (m_Namespace (cl_Meta cl)) ls,
          svc_Annotations = annotations, svc_Controller = None, svc_Type = type, svc_ClusterIP = [],
          svc_Selector = clusterWanted cl,
          svc_Ports = [\<lparr>sp_Name = ''tunnel'', sp_Port = gt_Port tunnel, sp_TargetPort = FromInt32 (gt_Port tunnel),
            sp_Protocol = ''TCP''\<rparr>]\<rparr>)"

text \<open>\<^verbatim>\<open>current.Spec = desired.Spec\<close>.\<close>

definition setServiceSpec :: "service_object \<Rightarrow> service_object \<Rightarrow> service_object" where
  "setServiceSpec desired current =
     current\<lparr>svc_Type := svc_Type desired, svc_ClusterIP := svc_ClusterIP desired, svc_Selector := svc_Selector desired,
       svc_Ports := svc_Ports desired\<rparr>"

definition changeTunnelService :: "service_object \<Rightarrow> service_object \<Rightarrow> service_object option" where
  "changeTunnelService desired current =
     (if svc_Type current \<noteq> svc_Type desired \<or> length (svc_Ports current) \<noteq> length (svc_Ports desired) \<or>
         sp_Port (svc_Ports current ! 0) \<noteq> sp_Port (svc_Ports desired ! 0) \<or>
         \<not> maps_Equal (svc_Selector current) (svc_Selector desired)
      then Some (setServiceSpec desired current) else None)"

definition reconcileTunnelService :: "(service_object, 'w) objects \<Rightarrow> cluster \<Rightarrow> 'w \<Rightarrow> (failure + unit) \<times> 'w" where
  "reconcileTunnelService ob cl =
     (case cs_GRPCTunnel (cl_Spec cl) of
        None \<Rightarrow> returnW ()
      | Some tunnel \<Rightarrow> ensureOwned svcKind ob cl (buildTunnelService cl tunnel) changeTunnelService)"

definition cleanupTunnelService :: "(service_object, 'w) objects \<Rightarrow> cluster \<Rightarrow> 'w \<Rightarrow> (failure + unit) \<times> 'w" where
  "cleanupTunnelService ob cl = deleteObject ob (m_Namespace (cl_Meta cl)) (tunnelServiceName cl)"

section \<open>The controller's CA\<close>

definition controllerCACMSfx :: string where "controllerCACMSfx = ''-controller-ca''"

definition controllerCAName :: "cluster \<Rightarrow> string" where
  "controllerCAName cl = resourcePrefix @ m_Name (cl_Meta cl) @ controllerCACMSfx"

definition changeCA :: "config_map_object \<Rightarrow> config_map_object \<Rightarrow> config_map_object option" where
  "changeCA desired current =
     (if gget0 [] (cm_Data current) ''ca.crt'' \<noteq> gget0 [] (cm_Data desired) ''ca.crt''
      then Some (current\<lparr>cm_Data := cm_Data desired\<rparr>) else None)"

text \<open>\<open>isNotExist\<close> tells whether an error of the file system is that of a missing file.\<close>

definition reconcileControllerCA ::
  "'w cluster_env \<Rightarrow> (string \<Rightarrow> bool) \<Rightarrow> (config_map_object, 'w) objects \<Rightarrow> cluster \<Rightarrow> 'w \<Rightarrow> (failure + unit) \<times> 'w" where
  "reconcileControllerCA env isNotExist ob cl w =
     (case ce_ReadFile env (GetControllerCAPath env) of
        Inl e \<Rightarrow> if isNotExist e then (Inr (), w) else (Inl (TextFailure (''failed to read controller CA: '' @ e)), w)
      | Inr caData \<Rightarrow>
          ensureOwned cmKind ob cl
            \<lparr>cm_Meta = newMeta (controllerCAName cl) (m_Namespace (cl_Meta cl)) (ownedLabels cl), cm_Controller = None,
             cm_Data = [(''ca.crt'', caData)]\<rparr> changeCA w)"

definition cleanupControllerCA :: "(config_map_object, 'w) objects \<Rightarrow> cluster \<Rightarrow> 'w \<Rightarrow> (failure + unit) \<times> 'w" where
  "cleanupControllerCA ob cl = deleteObject ob (m_Namespace (cl_Meta cl)) (controllerCAName cl)"

section \<open>Prometheus services\<close>

definition TrimSpace :: "string \<Rightarrow> string" where
  "TrimSpace s = rev (dropWhile isSpace (rev (dropWhile isSpace s)))"

text \<open>The text after the last colon; \<open>None\<close> without one.\<close>

definition afterLastColon :: "string \<Rightarrow> string option" where
  "afterLastColon s =
     (if CHR '':'' \<in> set s then Some (rev (takeWhile (\<lambda>c. c \<noteq> CHR '':'') (rev s))) else None)"

definition parseListenPortAndPath ::
  "(string \<Rightarrow> string + string \<times> string) \<Rightarrow> string option \<Rightarrow> string + int \<times> string" where
  "parseListenPortAndPath listenYaml configRaw =
     (case configRaw of
        None \<Rightarrow> Inr (0, [])
      | Some raw \<Rightarrow>
          bindE (listenYaml raw) (\<lambda>(listen, path).
            let listen = TrimSpace listen;
                listen = (if listen = [] then '':'' @ Itoa PrometheusDefaultPort else listen);
                path = TrimSpace path;
                path = (if path = [] then PrometheusDefaultPath else path)
            in case afterLastColon listen of
                 None \<Rightarrow> Inl (''invalid listen format: '' @ listen)
               | Some portStr \<Rightarrow>
                   (case ParseInt portStr 32 of
                      None \<Rightarrow> Inl (''failed to parse port from listen: '' @ listen)
                    | Some port \<Rightarrow> Inr (port, path))))"

definition buildPrometheusService ::
  "cluster \<Rightarrow> string \<Rightarrow> string \<Rightarrow> string \<Rightarrow> int \<Rightarrow> string \<Rightarrow> output_spec \<Rightarrow> service_object" where
  "buildPrometheusService cl serviceName outputName pipelineName port urlPath outputSpec =
     (let ls = ownedLabels cl @ [(LabelServiceType, LabelValueOutputTypePrometheus), (LabelOutputName, outputName),
            (LabelPipelineName, pipelineName)];
          annotations = [(''prometheus.io/scrape'', ''true''), (''prometheus.io/port'', Itoa port),
            (''prometheus.io/path'', urlPath)];
          (type, annotations, ls) =
            (case o_Service outputSpec of
               None \<Rightarrow> (''ClusterIP'', annotations, ls)
             | Some s \<Rightarrow>
                 (if sc_Type s \<noteq> [] then sc_Type s else ''ClusterIP'',
                  maps_Copy annotations (sc_Annotations s), maps_Copy ls (sc_Labels s)))
      in \<lparr>svc_Meta = newMeta serviceName (m_Namespace (cl_Meta cl)) ls, svc_Annotations = annotations,
          svc_Controller = None, svc_Type = type, svc_ClusterIP = [], svc_Selector = clusterWanted cl,
          svc_Ports = [\<lparr>sp_Name = ''metrics'', sp_Port = port, sp_TargetPort = FromInt32 port, sp_Protocol = ''TCP''\<rparr>]\<rparr>)"

definition changePrometheusService :: "service_object \<Rightarrow> service_object \<Rightarrow> service_object option" where
  "changePrometheusService desired current =
     (let sameType = (svc_Type current = svc_Type desired);
          samePorts = servicePortsEqual (svc_Ports current) (svc_Ports desired);
          sameLabels = maps_Equal (m_Labels (svc_Meta current)) (m_Labels (svc_Meta desired));
          sameAnnotations = maps_Equal (svc_Annotations current) (svc_Annotations desired);
          current = (if sameType then current else current\<lparr>svc_Type := svc_Type desired\<rparr>);
          current = (if samePorts then current else current\<lparr>svc_Ports := svc_Ports desired\<rparr>);
          current = (if sameLabels then current
                     else current\<lparr>svc_Meta := (svc_Meta current)\<lparr>m_Labels := m_Labels (svc_Meta desired)\<rparr>\<rparr>);
          current = (if sameAnnotations then current else current\<lparr>svc_Annotations := svc_Annotations desired\<rparr>)
      in if sameType \<and> samePorts \<and> sameLabels \<and> sameAnnotations then None else Some current)"

definition reconcilePrometheusService ::
  "(service_object, 'w) objects \<Rightarrow> cluster \<Rightarrow> string \<Rightarrow> string \<Rightarrow> string \<Rightarrow> int \<Rightarrow> string \<Rightarrow> output_spec \<Rightarrow>
   'w \<Rightarrow> (failure + unit) \<times> 'w" where
  "reconcilePrometheusService ob cl serviceName outputName pipelineName port urlPath outputSpec =
     ensureOwned svcKind ob cl
       (buildPrometheusService cl serviceName outputName pipelineName port urlPath outputSpec) changePrometheusService"

definition prometheusWanted :: "string \<Rightarrow> labels" where
  "prometheusWanted clusterName =
     [(LabelClusterName, clusterName), (LabelServiceType, LabelValueServiceTypePrometheusOutput)]"

definition listPrometheusServicesForCluster ::
  "(service_object, 'w) objects \<Rightarrow> string \<Rightarrow> string \<Rightarrow> 'w \<Rightarrow> api_error + service_object list" where
  "listPrometheusServicesForCluster ob ns clusterName w = ob_list ob ns (prometheusWanted clusterName) w"

definition cleanupPrometheusServices ::
  "(service_object, 'w) objects \<Rightarrow> string \<Rightarrow> string \<Rightarrow> 'w \<Rightarrow> (failure + unit) \<times> 'w" where
  "cleanupPrometheusServices ob ns clusterName =
     bindW (\<lambda>w. apiW (listPrometheusServicesForCluster ob ns clusterName w) w) (deleteObjects svcKind ob)"

text \<open>The Prometheus outputs of all pipelines: output, pipeline, specification.\<close>

definition prometheusOutputs ::
  "(string, pipeline_data) gomap \<Rightarrow> (string, (string, output_spec) gomap) gomap" where
  "prometheusOutputs plan =
     fold (\<lambda>(pipelineName, pd). fold (\<lambda>(outputNN, spec) m.
       if o_Type spec \<noteq> PrometheusOutputType then m
       else gput m outputNN (gput (gget0 [] m outputNN) pipelineName spec)) (pd_Outputs pd)) plan []"

definition prometheusServiceName :: "cluster \<Rightarrow> string \<Rightarrow> string \<Rightarrow> string" where
  "prometheusServiceName cl pipelineName outputName =
     resourcePrefix @ m_Name (cl_Meta cl) @ ''-prom-'' @ pipelineName @ ''-'' @ outputName"

text \<open>The pipeline and the output in the name of an output.\<close>

definition splitOutputNN :: "string \<Rightarrow> string \<times> string" where
  "splitOutputNN outputNN = SplitNN (snd (SplitNN outputNN))"

text \<open>
  The body of the inner loop. The map of ports belongs to the plan and is written through, so it is
  part of the world; the state of the loop is the names of the desired services.
\<close>

definition besideW :: "('w \<Rightarrow> 'r \<times> 'w) \<Rightarrow> 'p \<times> 'w \<Rightarrow> 'r \<times> 'p \<times> 'w" where
  "besideW f = (\<lambda>(p, w). case f w of (r, w) \<Rightarrow> (r, p, w))"

definition prometheusStep ::
  "(string \<Rightarrow> string + string \<times> string) \<Rightarrow> (service_object, 'w) objects \<Rightarrow> cluster \<Rightarrow>
   string \<times> (string, output_spec) gomap \<times> string \<Rightarrow> strset \<Rightarrow> (string, int) gomap \<times> 'w \<Rightarrow>
   (failure + strset) \<times> (string, int) gomap \<times> 'w" where
  "prometheusStep listenYaml ob cl = (\<lambda>(outputNN, specs, pipelineName) desired (ports, w).
     case gget specs pipelineName of
       None \<Rightarrow> (Inr desired, ports, w)
     | Some spec \<Rightarrow>
         (case parseListenPortAndPath listenYaml (o_Config spec) of
            Inl e \<Rightarrow> (Inr desired, ports, w)
          | Inr (port, urlPath) \<Rightarrow>
              if port > 0 \<and> length specs > 1 then (Inr desired, ports, w)
              else
                (let (port, ports) = (if port = 0 then (gget0 0 ports outputNN, ports) else (port, gput ports outputNN port));
                     urlPath = (if urlPath = [] then PrometheusDefaultPath else urlPath);
                     (pipelineName, outputName) = splitOutputNN outputNN;
                     serviceName = prometheusServiceName cl pipelineName outputName
                 in bindW (besideW (reconcilePrometheusService ob cl serviceName outputName pipelineName port urlPath spec)) (\<lambda>_.
                      returnW (gput desired serviceName ())) (ports, w))))"

definition prometheusItems ::
  "(string, pipeline_data) gomap \<Rightarrow> (string \<times> (string, output_spec) gomap \<times> string) list" where
  "prometheusItems plan =
     concat (map (\<lambda>(outputNN, specs). map (\<lambda>pl. (outputNN, specs, pl)) (sort (gkeys specs))) (prometheusOutputs plan))"

definition reconcilePrometheusServices ::
  "(string \<Rightarrow> string + string \<times> string) \<Rightarrow> (service_object, 'w) objects \<Rightarrow> cluster \<Rightarrow> (string, pipeline_data) gomap \<Rightarrow>
   (string, int) gomap \<times> 'w \<Rightarrow> (failure + unit) \<times> (string, int) gomap \<times> 'w" where
  "reconcilePrometheusServices listenYaml ob cl plan =
     bindW (besideW (\<lambda>w. apiW (listPrometheusServicesForCluster ob (m_Namespace (cl_Meta cl)) (m_Name (cl_Meta cl)) w) w)) (\<lambda>existing.
     bindW (foldW (prometheusStep listenYaml ob cl) (prometheusItems plan) []) (\<lambda>desired.
       besideW (deleteObjects svcKind ob (filter (\<lambda>s. gget desired (m_Name (svc_Meta s)) = None) existing))))"

end
