(* ===== verification/Services_Correct.thy ===== *)
theory Services_Correct
  imports Services
begin

text \<open>
  What the reconciliation of the services leaves on a reliable server: the Prometheus services are
  exactly the desired ones, and the headless service is written again in every pass, because the
  server fills in the target ports that the comparison then takes for a change.
\<close>

section \<open>Owned objects\<close>

lemma svcKind_sels [simp]:
  "k_Meta svcKind = svc_Meta" "k_Controller svcKind = svc_Controller"
  "k_SetController svcKind c x = x\<lparr>svc_Controller := c\<rparr>" "k_Name svcKind x = m_Name (svc_Meta x)"
  "k_Namespace svcKind x = m_Namespace (svc_Meta x)"
  "k_Key svcKind x = (m_Namespace (svc_Meta x), m_Name (svc_Meta x))"
  by (simp_all add: svcKind_def k_Key_def k_Name_def k_Namespace_def)

lemma cmKind_sels [simp]:
  "k_Meta cmKind = cm_Meta" "k_Controller cmKind = cm_Controller"
  "k_SetController cmKind c x = x\<lparr>cm_Controller := c\<rparr>" "k_Name cmKind x = m_Name (cm_Meta x)"
  "k_Namespace cmKind x = m_Namespace (cm_Meta x)"
  "k_Key cmKind x = (m_Namespace (cm_Meta x), m_Name (cm_Meta x))"
  by (simp_all add: cmKind_def k_Key_def k_Name_def k_Namespace_def)

lemma kindsOK [simp]: "kindOK certKind" "kindOK svcKind" "kindOK cmKind"
  by (simp_all add: kindOK_def)

text \<open>The object in the place of a desired one after its reconciliation.\<close>

definition settledOwned ::
  "'o kind \<Rightarrow> ('o \<Rightarrow> 'o) \<Rightarrow> cluster \<Rightarrow> 'o \<Rightarrow> ('o \<Rightarrow> 'o \<Rightarrow> 'o option) \<Rightarrow> 'o option \<Rightarrow> 'o" where
  "settledOwned K norm cl desired change current =
     (let own = k_SetController K (Some (m_Name (cl_Meta cl))) desired in settled norm own (change own) current)"

lemma ensureOwned_reliable:
  assumes rel: "reliableObjects K norm ob repr rest" and K: "kindOK K"
    and desired: "k_Namespace K desired = m_Namespace (cl_Meta cl)" "k_Controller K desired = None"
    and keeps: "\<And>d c c'. change d c = Some c' \<Longrightarrow> k_Key K c' = k_Key K c"
  obtains w' where "ensureOwned K ob cl desired change w = (Inr (), w')"
    and "repr w' = (repr w)(k_Key K desired \<mapsto> settledOwned K norm cl desired change (repr w (k_Key K desired)))"
    and "rest w' = rest w"
proof -
  let ?own = "k_SetController K (Some (m_Name (cl_Meta cl))) desired"
  have own: "ob_setRef ob cl desired = Inr ?own"
    using reliable_setRef [OF rel desired(1)] desired(2) by simp
  have key: "k_Key K ?own = (k_Namespace K ?own, k_Name K ?own)" by (simp add: k_Key_def)
  have same: "(k_Namespace K ?own, k_Name K ?own) = k_Key K desired"
    unfolding key [symmetric] using K by simp
  obtain w' where "createOrChange ob (k_Namespace K ?own) (k_Name K ?own) ?own (change ?own) w =
       (Inr (map_option (\<lambda>c. settled norm ?own (change ?own) (Some c)) (repr w (k_Namespace K ?own, k_Name K ?own))), w')"
    "repr w' = (repr w)((k_Namespace K ?own, k_Name K ?own) \<mapsto>
       settled norm ?own (change ?own) (repr w (k_Namespace K ?own, k_Name K ?own)))" "rest w' = rest w"
    using rel key keeps by (rule createOrChange_reliable)
  with own same show thesis
    by (intro that [of w']) (auto simp: ensureOwned_def bindW_def apiW_def settledOwned_def Let_def)
qed

section \<open>What the server fills in\<close>

text \<open>The defaults of a service: its type, and the target port of a port, which is the port itself.\<close>

definition serviceDefaults :: "service_object \<Rightarrow> service_object" where
  "serviceDefaults s =
     s\<lparr>svc_Type := (if svc_Type s = [] then ''ClusterIP'' else svc_Type s),
       svc_Ports := map (\<lambda>p. if sp_TargetPort p = FromInt32 0 \<or> sp_TargetPort p = FromString []
         then p\<lparr>sp_TargetPort := FromInt32 (sp_Port p)\<rparr> else p) (svc_Ports s)\<rparr>"

lemma serviceDefaults_sels [simp]:
  "svc_Meta (serviceDefaults s) = svc_Meta s" "svc_Annotations (serviceDefaults s) = svc_Annotations s"
  "svc_Controller (serviceDefaults s) = svc_Controller s"
  by (simp_all add: serviceDefaults_def)

lemma change_keeps:
  "changePorts d c = Some c' \<Longrightarrow> svc_Meta c' = svc_Meta c"
  "changeTunnelService d c = Some c' \<Longrightarrow> svc_Meta c' = svc_Meta c"
  "changePrometheusService d c = Some c' \<Longrightarrow>
     m_Name (svc_Meta c') = m_Name (svc_Meta c) \<and> m_Namespace (svc_Meta c') = m_Namespace (svc_Meta c)"
  by (auto simp: changePorts_def changeTunnelService_def setServiceSpec_def changePrometheusService_def Let_def split: if_splits)

lemma servicePortsEqual_refl [simp]: "servicePortsEqual ps ps"
  by (simp add: servicePortsEqual_def list_all2_refl)

lemma maps_Equal_refl [simp]: "gwf m \<Longrightarrow> maps_Equal m m"
  by (simp add: maps_Equal_iff)

section \<open>Prometheus services\<close>

lemma ownedLabels_wf: "gwf (ownedLabels cl @ [(LabelServiceType, a), (LabelOutputName, b), (LabelPipelineName, c)])"
  by (simp add: gwf_def ownedLabels_def nameLabel_def managedByLabel_def LabelClusterName_def LabelServiceType_def
      LabelOutputName_def LabelPipelineName_def)

text \<open>What the comparison of a Prometheus service looks at.\<close>

definition isPromService :: "cluster \<Rightarrow> service_object \<Rightarrow> bool" where
  "isPromService cl d \<longleftrightarrow> m_Namespace (svc_Meta d) = m_Namespace (cl_Meta cl) \<and> svc_Controller d = None \<and>
     svc_Type d \<noteq> [] \<and> gwf (m_Labels (svc_Meta d)) \<and> gwf (svc_Annotations d) \<and>
     (\<exists>port. svc_Ports d = [\<lparr>sp_Name = ''metrics'', sp_Port = port, sp_TargetPort = FromInt32 port, sp_Protocol = ''TCP''\<rparr>])"

lemma built_isPromService: "isPromService cl (buildPrometheusService cl sn on pn port path spec)"
proof -
  have "gwf [(''prometheus.io/scrape'', ''true''), (''prometheus.io/port'', Itoa port), (''prometheus.io/path'', path)]"
    by (simp add: gwf_def)
  then show ?thesis
    using ownedLabels_wf by (auto simp: buildPrometheusService_def isPromService_def newMeta_def Let_def gwf_maps_Copy
        split: option.split)
qed

text \<open>After its reconciliation a service is not changed again.\<close>

lemma promService_agrees:
  assumes "isPromService cl d"
  shows "changePrometheusService d (settledOwned svcKind serviceDefaults cl d changePrometheusService current) = None"
proof -
  obtain port where port: "svc_Ports d = [\<lparr>sp_Name = ''metrics'', sp_Port = port, sp_TargetPort = FromInt32 port, sp_Protocol = ''TCP''\<rparr>]"
    and wf: "svc_Type d \<noteq> []" "gwf (m_Labels (svc_Meta d))" "gwf (svc_Annotations d)"
    using assms by (auto simp: isPromService_def)
  let ?own = "d\<lparr>svc_Controller := Some (m_Name (cl_Meta cl))\<rparr>"
  have ports: "servicePortsEqual (svc_Ports (serviceDefaults c)) (svc_Ports d)"
    if "servicePortsEqual (svc_Ports c) (svc_Ports d)" for c
    using that unfolding port by (auto simp: servicePortsEqual_def serviceDefaults_def list_all2_Cons2)
  have type: "svc_Type (serviceDefaults c) = svc_Type d" if "svc_Type c = svc_Type d" for c
    using that wf(1) by (simp add: serviceDefaults_def)
  have stored: "changePrometheusService d (serviceDefaults c) = None"
    if "svc_Type c = svc_Type d" "servicePortsEqual (svc_Ports c) (svc_Ports d)"
      "maps_Equal (m_Labels (svc_Meta c)) (m_Labels (svc_Meta d))" "maps_Equal (svc_Annotations c) (svc_Annotations d)" for c
    using that by (simp add: changePrometheusService_def ports type)
  show ?thesis
  proof (cases "case current of None \<Rightarrow> None | Some c \<Rightarrow> changePrometheusService ?own c")
    case None
    then show ?thesis
      using wf by (auto simp: settledOwned_def settled_def stored split: option.splits)
        (simp add: changePrometheusService_def Let_def split: if_splits)
  next
    case (Some c')
    then obtain c where c: "current = Some c" "changePrometheusService ?own c = Some c'"
      by (auto split: option.splits)
    from c(2) have "svc_Type c' = svc_Type d" "servicePortsEqual (svc_Ports c') (svc_Ports d)"
      "maps_Equal (m_Labels (svc_Meta c')) (m_Labels (svc_Meta d))" "maps_Equal (svc_Annotations c') (svc_Annotations d)"
      using wf by (auto simp: changePrometheusService_def Let_def split: if_splits)
    with c show ?thesis
      by (simp add: settledOwned_def settled_def stored)
  qed
qed

text \<open>The service one round of the loop wants, with the ports after it; \<open>None\<close> when it is skipped.\<close>

definition prometheusWants ::
  "(string \<Rightarrow> string + string \<times> string) \<Rightarrow> cluster \<Rightarrow> string \<times> (string, output_spec) gomap \<times> string \<Rightarrow>
   (string, int) gomap \<Rightarrow> ((string, int) gomap \<times> service_object) option" where
  "prometheusWants listenYaml cl = (\<lambda>(outputNN, specs, pipelineName) ports.
     case gget specs pipelineName of
       None \<Rightarrow> None
     | Some spec \<Rightarrow>
         (case parseListenPortAndPath listenYaml (o_Config spec) of
            Inl e \<Rightarrow> None
          | Inr (port, urlPath) \<Rightarrow>
              if port > 0 \<and> length specs > 1 then None
              else
                (let p = (if port = 0 then gget0 0 ports outputNN else port);
                     (pl, out) = splitOutputNN outputNN
                 in Some (if port = 0 then ports else gput ports outputNN port,
                      buildPrometheusService cl (prometheusServiceName cl pl out) out pl p
                        (if urlPath = [] then PrometheusDefaultPath else urlPath) spec))))"

fun prometheusDesired ::
  "(string \<Rightarrow> string + string \<times> string) \<Rightarrow> cluster \<Rightarrow> (string \<times> (string, output_spec) gomap \<times> string) list \<Rightarrow>
   (string, int) gomap \<Rightarrow> (string, int) gomap \<times> service_object list" where
  "prometheusDesired listenYaml cl [] ports = (ports, [])"
| "prometheusDesired listenYaml cl (item # items) ports =
     (case prometheusWants listenYaml cl item ports of
        None \<Rightarrow> prometheusDesired listenYaml cl items ports
      | Some (ports, d) \<Rightarrow> (let r = prometheusDesired listenYaml cl items ports in (fst r, d # snd r)))"

definition svcName :: "service_object \<Rightarrow> string" where
  "svcName s = m_Name (svc_Meta s)"

lemma prometheusStep_wants:
  "prometheusStep listenYaml ob cl item desired (ports, w) =
     (case prometheusWants listenYaml cl item ports of
        None \<Rightarrow> (Inr desired, ports, w)
      | Some (ports', d) \<Rightarrow> bindW (besideW (ensureOwned svcKind ob cl d changePrometheusService))
          (\<lambda>_. returnW (gput desired (svcName d) ())) (ports', w))"
proof -
  have name: "m_Name (svc_Meta (buildPrometheusService cl sn on pn port path spec)) = sn" for sn on pn port path spec
    by (simp add: buildPrometheusService_def newMeta_def Let_def split: option.split)
  show ?thesis
    by (cases item)
      (auto simp: prometheusStep_def prometheusWants_def reconcilePrometheusService_def Let_def svcName_def name
        split: option.split sum.split prod.split)
qed

lemma wants_isPromService: "prometheusWants listenYaml cl item ports = Some (ports', d) \<Longrightarrow> isPromService cl d"
  by (auto simp: prometheusWants_def Let_def built_isPromService split: option.splits sum.splits if_splits prod.splits)

lemma desired_isPromService:
  "d \<in> set (snd (prometheusDesired listenYaml cl items ports)) \<Longrightarrow> isPromService cl d"
  by (induction items arbitrary: ports)
    (auto simp: Let_def split: option.splits prod.splits dest: wants_isPromService)

definition svcKey :: "service_object \<Rightarrow> string \<times> string" where
  "svcKey s = (m_Namespace (svc_Meta s), m_Name (svc_Meta s))"

text \<open>
  A store serves a list of desired services: nothing outside the list has changed, and in the place of
  a service stands one that agrees with the last of that name.
\<close>

definition servesAll :: "service_object list \<Rightarrow> service_object objstore \<Rightarrow> service_object objstore \<Rightarrow> bool" where
  "servesAll ds A A' \<longleftrightarrow>
     (\<forall>k. k \<notin> svcKey ` set ds \<longrightarrow> A' k = A k) \<and>
     (\<forall>ds1 d ds2. ds = ds1 @ d # ds2 \<longrightarrow> svcKey d \<notin> svcKey ` set ds2 \<longrightarrow>
        (\<exists>s. A' (svcKey d) = Some s \<and> changePrometheusService d s = None))"

lemma servesAll_outside: "servesAll ds A A' \<Longrightarrow> k \<notin> svcKey ` set ds \<Longrightarrow> A' k = A k"
  unfolding servesAll_def by blast

lemma servesAll_Nil: "servesAll [] A A"
  by (simp add: servesAll_def)

lemma servesAll_Cons:
  assumes "A1 = A(svcKey d \<mapsto> s)" and "changePrometheusService d s = None" and "servesAll ds A1 A'"
  shows "servesAll (d # ds) A A'"
  unfolding servesAll_def
proof (intro conjI allI impI)
  fix k assume "k \<notin> svcKey ` set (d # ds)"
  moreover from this have "A' k = A1 k" by (simp add: servesAll_outside [OF assms(3)])
  ultimately show "A' k = A k" using assms(1) by auto
next
  fix ds1 d' ds2 assume split: "d # ds = ds1 @ d' # ds2" and last: "svcKey d' \<notin> svcKey ` set ds2"
  show "\<exists>s. A' (svcKey d') = Some s \<and> changePrometheusService d' s = None"
  proof (cases ds1)
    case Nil
    with split have "d' = d" "ds2 = ds" by simp_all
    with servesAll_outside [OF assms(3), of "svcKey d"] last assms(1,2) show ?thesis by simp
  next
    case (Cons x xs)
    with split have "ds = xs @ d' # ds2" by simp
    with last assms(3) show ?thesis by (auto simp: servesAll_def)
  qed
qed

lemma prometheus_loop:
  assumes rel: "reliableObjects svcKind serviceDefaults ob repr rest"
  shows "\<exists>w'. foldW (prometheusStep listenYaml ob cl) items known (ports, w) =
      (Inr (addAll known (map svcName (snd (prometheusDesired listenYaml cl items ports)))),
         fst (prometheusDesired listenYaml cl items ports), w') \<and>
    servesAll (snd (prometheusDesired listenYaml cl items ports)) (repr w) (repr w') \<and> rest w' = rest w"
proof (induction items arbitrary: ports known w)
  case Nil
  then show ?case by (simp add: addAll_def servesAll_Nil)
next
  case (Cons item items)
  show ?case
  proof (cases "prometheusWants listenYaml cl item ports")
    case None
    with Cons.IH [of known ports w] show ?thesis by (simp add: prometheusStep_wants)
  next
    case (Some want)
    obtain ports' d where want: "want = (ports', d)" by fastforce
    then have d: "isPromService cl d" using wants_isPromService Some by blast
    then have desired: "k_Namespace svcKind d = m_Namespace (cl_Meta cl)" "k_Controller svcKind d = None"
      by (simp_all add: isPromService_def)
    have keeps: "changePrometheusService d c = Some c' \<Longrightarrow> k_Key svcKind c' = k_Key svcKind c" for d c c'
      using change_keeps(3) by simp
    obtain w1 where w1: "ensureOwned svcKind ob cl d changePrometheusService w = (Inr (), w1)"
      "repr w1 = (repr w)(k_Key svcKind d \<mapsto>
         settledOwned svcKind serviceDefaults cl d changePrometheusService (repr w (k_Key svcKind d)))" "rest w1 = rest w"
      using rel kindsOK(2) desired keeps by (rule ensureOwned_reliable)
    obtain w' where w': "foldW (prometheusStep listenYaml ob cl) items (gput known (svcName d) ()) (ports', w1) =
        (Inr (addAll (gput known (svcName d) ()) (map svcName (snd (prometheusDesired listenYaml cl items ports')))),
           fst (prometheusDesired listenYaml cl items ports'), w')"
      "servesAll (snd (prometheusDesired listenYaml cl items ports')) (repr w1) (repr w')" "rest w' = rest w1"
      using Cons.IH [of "gput known (svcName d) ()" ports' w1] by blast
    have "servesAll (d # snd (prometheusDesired listenYaml cl items ports')) (repr w) (repr w')"
      by (rule servesAll_Cons [OF _ promService_agrees [OF d] w'(2)]) (simp add: w1(2) svcKey_def)
    with Some want w1 w' show ?thesis
      by (intro exI [of _ w']) (auto simp: prometheusStep_wants besideW_def bindW_def Let_def addAll_Cons)
  qed
qed

text \<open>Which of the listed services the clean-up drops, by their key.\<close>

lemma unwanted_names: "gget (addAll [] (map svcName ds)) n = None \<longleftrightarrow> n \<notin> svcName ` set ds"
  using gm.keys_iff [of n "addAll [] (map svcName ds)"] by auto

lemma dropped_keys:
  assumes rel: "reliableObjects svcKind norm ob repr rest" and ds: "\<And>d. d \<in> set ds \<Longrightarrow> m_Namespace (svc_Meta d) = ns"
    and ss: "set ss = {s. \<exists>n. repr w (ns, n) = Some s \<and> matchingLabels wanted (m_Labels (svc_Meta s))}"
  shows "k_Key svcKind ` set (filter (\<lambda>s. gget (addAll [] (map svcName ds)) (m_Name (svc_Meta s)) = None) ss) =
    {k. k \<notin> svcKey ` set ds \<and> (\<exists>s. repr w k = Some s \<and> fst k = ns \<and> matchingLabels wanted (m_Labels (svc_Meta s)))}"
    (is "?L = ?R")
proof -
  have named: "repr w k = Some s \<Longrightarrow> (m_Namespace (svc_Meta s), m_Name (svc_Meta s)) = k" for k s
    using object_named [OF rel, of w k s] by simp
  have key: "svcKey d = (ns, svcName d)" if "d \<in> set ds" for d using ds [OF that] by (simp add: svcKey_def svcName_def)
  show ?thesis
  proof
    show "?L \<subseteq> ?R"
    proof
      fix k assume "k \<in> ?L"
      then obtain s n where s: "k = (m_Namespace (svc_Meta s), m_Name (svc_Meta s))" "repr w (ns, n) = Some s"
        "matchingLabels wanted (m_Labels (svc_Meta s))" "m_Name (svc_Meta s) \<notin> svcName ` set ds"
        using ss by (auto simp: unwanted_names)
      moreover from named [OF s(2)] s(1) have "k = (ns, n)" by simp
      ultimately show "k \<in> ?R" using key by auto
    qed
    show "?R \<subseteq> ?L"
    proof
      fix k assume "k \<in> ?R"
      then obtain s where s: "repr w k = Some s" "fst k = ns" "matchingLabels wanted (m_Labels (svc_Meta s))" "k \<notin> svcKey ` set ds"
        by blast
      note k = named [OF s(1), symmetric]
      have "m_Name (svc_Meta s) \<notin> svcName ` set ds"
      proof
        assume "m_Name (svc_Meta s) \<in> svcName ` set ds"
        then obtain d where d: "d \<in> set ds" "svcName d = m_Name (svc_Meta s)" by auto
        with key [OF d(1)] k s(2) have "svcKey d = k" by auto
        with d(1) s(4) show False by blast
      qed
      moreover have "s \<in> set ss" using ss s(1-3) k by auto
      ultimately show "k \<in> ?L" using k by (auto simp: unwanted_names intro!: image_eqI)
    qed
  qed
qed

text \<open>
  C16: Prometheus services. On a reliable server the reconciliation returns, keeps every other kind of
  object, leaves a service for every Prometheus output whose \<^verbatim>\<open>listen\<close> field parses (the last one where
  the names of two coincide), with the type, ports, labels and annotations built for it, and removes
  every other Prometheus service of the cluster; services that are not Prometheus services of the
  cluster stay.
\<close>

theorem prometheus_services_exact:
  assumes rel: "reliableObjects svcKind serviceDefaults ob repr rest"
    and desired: "prometheusDesired listenYaml cl (prometheusItems plan) ports = (ports', ds)"
  shows "\<exists>w'. reconcilePrometheusServices listenYaml ob cl plan (ports, w) = (Inr (), ports', w') \<and> rest w' = rest w \<and>
    (\<forall>k. k \<notin> svcKey ` set ds \<longrightarrow> repr w' k =
       (case repr w k of
          None \<Rightarrow> None
        | Some s \<Rightarrow> if fst k = m_Namespace (cl_Meta cl) \<and> matchingLabels (prometheusWanted (m_Name (cl_Meta cl))) (m_Labels (svc_Meta s))
                    then None else Some s)) \<and>
    (\<forall>ds1 d ds2. ds = ds1 @ d # ds2 \<longrightarrow> svcKey d \<notin> svcKey ` set ds2 \<longrightarrow>
       (\<exists>s. repr w' (svcKey d) = Some s \<and> changePrometheusService d s = None))"
proof -
  let ?ns = "m_Namespace (cl_Meta cl)" and ?wanted = "prometheusWanted (m_Name (cl_Meta cl))"
  obtain ss where ss: "ob_list ob ?ns ?wanted w = Inr ss"
    "set ss = {s. \<exists>n. repr w (?ns, n) = Some s \<and> matchingLabels ?wanted (m_Labels (svc_Meta s))}"
    by (rule object_list [OF rel, unfolded svcKind_sels(1)])
  obtain w1 where w1: "foldW (prometheusStep listenYaml ob cl) (prometheusItems plan) [] (ports, w) =
      (Inr (addAll [] (map svcName ds)), ports', w1)"
    "servesAll ds (repr w) (repr w1)" "rest w1 = rest w"
    using prometheus_loop [OF rel, of listenYaml cl "prometheusItems plan" "[]" ports w] desired by auto
  have ns: "m_Namespace (svc_Meta d) = ?ns" if "d \<in> set ds" for d
    using desired_isPromService [of d listenYaml cl "prometheusItems plan" ports] desired that by (simp add: isPromService_def)
  let ?drop = "filter (\<lambda>s. gget (addAll [] (map svcName ds)) (m_Name (svc_Meta s)) = None) ss"
  obtain w' where w': "deleteObjects svcKind ob ?drop w1 = (Inr (), w')"
    "repr w' = (\<lambda>k. if k \<in> k_Key svcKind ` set ?drop then None else repr w1 k)" "rest w' = rest w1"
    using rel by (rule deleteObjects_reliable)
  have "k_Key svcKind ` set ?drop =
      {k. k \<notin> svcKey ` set ds \<and> (\<exists>s. repr w k = Some s \<and> fst k = ?ns \<and> matchingLabels ?wanted (m_Labels (svc_Meta s)))}"
    by (rule dropped_keys [OF rel _ ss(2)]) (rule ns)
  then have left: "repr w' k = (if k \<notin> svcKey ` set ds \<and>
      (\<exists>s. repr w k = Some s \<and> fst k = ?ns \<and> matchingLabels ?wanted (m_Labels (svc_Meta s))) then None else repr w1 k)" for k
    unfolding w'(2) by (simp only: mem_Collect_eq)
  have outside: "repr w' k = (case repr w k of None \<Rightarrow> None
      | Some s \<Rightarrow> if fst k = ?ns \<and> matchingLabels ?wanted (m_Labels (svc_Meta s)) then None else Some s)"
    if "k \<notin> svcKey ` set ds" for k
  proof -
    have "repr w1 k = repr w k" using w1(2) that by (rule servesAll_outside)
    with that show ?thesis unfolding left by (simp split: option.split)
  qed
  have inside: "\<exists>s. repr w' (svcKey d) = Some s \<and> changePrometheusService d s = None"
    if "ds = ds1 @ d # ds2" "svcKey d \<notin> svcKey ` set ds2" for ds1 d ds2
  proof -
    have "repr w' (svcKey d) = repr w1 (svcKey d)" using that(1) unfolding left by simp
    then show ?thesis using w1(2) that by (auto simp: servesAll_def)
  qed
  have "reconcilePrometheusServices listenYaml ob cl plan (ports, w) = (Inr (), ports', w')"
    using ss(1) w1(1) w'(1)
    by (simp add: reconcilePrometheusServices_def listPrometheusServicesForCluster_def besideW_def bindW_def apiW_def)
  then show ?thesis
    using w1(3) w'(3) outside inside by (intro exI [of _ w'] conjI allI impI) simp_all
qed

definition exPromPlan :: "(string, pipeline_data) gomap" where
  "exPromPlan = [(''n/p'', NewPipelineData\<lparr>pd_Outputs := [(''n/p/o'', \<lparr>o_Type = ''prometheus'', o_Config = Some ''c'',
     o_Service = None, o_ServiceRef = None, o_ServiceSelector = None\<rparr>)]\<rparr>)]"

text \<open>A server that fills in defaults before it stores.\<close>

definition defaulting :: "('o \<Rightarrow> 'o) \<Rightarrow> ('o, 'w) objects \<Rightarrow> ('o, 'w) objects" where
  "defaulting norm ob = ob\<lparr>ob_create := (\<lambda>x. ob_create ob (norm x)), ob_update := (\<lambda>x. ob_update ob (norm x))\<rparr>"

lemma defaulting_reliable:
  assumes rel: "reliableObjects K id ob repr rest" and key: "\<And>x. k_Key K (norm x) = k_Key K x"
  shows "reliableObjects K norm (defaulting norm ob) repr rest"
proof -
  have create: "\<exists>w'. ob_create ob (norm x) w = (Inr (norm x), w') \<and>
      repr w' = (repr w)(k_Key K x \<mapsto> norm x) \<and> rest w' = rest w" if "repr w (k_Key K x) = None" for w x
    using reliable_create [OF rel, of w "norm x"] that key by fastforce
  have update: "\<exists>w'. ob_update ob (norm x) w = (Inr (norm x), w') \<and>
      repr w' = (repr w)(k_Key K x \<mapsto> norm x) \<and> rest w' = rest w" if "repr w (k_Key K x) \<noteq> None" for w x
    using object_update [OF rel, of w "norm x"] that key by fastforce
  have sels: "ob_get (defaulting norm ob) = ob_get ob" "ob_list (defaulting norm ob) = ob_list ob"
    "ob_delete (defaulting norm ob) = ob_delete ob" "ob_setRef (defaulting norm ob) = ob_setRef ob"
    "ob_create (defaulting norm ob) x = ob_create ob (norm x)" "ob_update (defaulting norm ob) x = ob_update ob (norm x)" for x
    by (simp_all add: defaulting_def)
  show ?thesis
    unfolding reliableObjects_def sels
    by (intro conjI reliable_law1 [OF rel] reliable_law2 [OF rel] reliable_law3 [OF rel] reliable_law6 [OF rel]
        reliable_law7 [OF rel]) (intro allI impI create update, assumption)+
qed

definition exServices :: "(service_object, service_object list) objects" where
  "exServices = defaulting serviceDefaults (memObjects svcKind id (\<lambda>xs _. xs))"

lemma exServices_reliable: "reliableObjects svcKind serviceDefaults exServices (memObj svcKind) (\<lambda>_. ())"
proof -
  have "reliableObjects svcKind id (memObjects svcKind id (\<lambda>xs _. xs)) (memObj svcKind) (\<lambda>_. ())"
    using memObjects_reliable [of id "\<lambda>xs _. xs" "\<lambda>_. ()" svcKind] by simp
  then show ?thesis unfolding exServices_def by (rule defaulting_reliable) simp
qed

text \<open>An output that listens on port 9 next to a stale service of the cluster.\<close>

definition exStale :: service_object where
  "exStale = buildPrometheusService exTLSCluster ''old'' ''o'' ''p'' 8 ''/'' \<lparr>o_Type = ''prometheus'', o_Config = None,
     o_Service = None, o_ServiceRef = None, o_ServiceSelector = None\<rparr>"

theorem prometheus_services_exact_witness:
  "\<exists>w'. reconcilePrometheusServices (\<lambda>_. Inr ('':9'', [])) exServices exTLSCluster exPromPlan ([], [exStale]) = (Inr (), [(''n/p/o'', 9)], w') \<and>
     memObj svcKind w' (''n'', ''old'') = None \<and> memObj svcKind w' (''n'', ''gnmic-c-prom-p-o'') \<noteq> None"
proof -
  let ?d = "buildPrometheusService exTLSCluster ''gnmic-c-prom-p-o'' ''o'' ''p'' 9 ''/metrics'' \<lparr>o_Type = ''prometheus'',
      o_Config = Some ''c'', o_Service = None, o_ServiceRef = None, o_ServiceSelector = None\<rparr>"
  let ?spec = "\<lparr>o_Type = ''prometheus'', o_Config = Some ''c'', o_Service = None, o_ServiceRef = None, o_ServiceSelector = None\<rparr>"
  have "nat_dec 9 = ''9''" by code_simp
  with ParseInt_nat_dec [of 9 32] have "ParseInt ''9'' 32 = Some 9" by simp
  then have parse: "parseListenPortAndPath (\<lambda>_. Inr ('':9'', [])) (Some ''c'') = Inr (9, ''/metrics'')"
    by (simp add: parseListenPortAndPath_def TrimSpace_def isSpace_def afterLastColon_def PrometheusDefaultPath_def)
  have items: "prometheusItems exPromPlan = [(''n/p/o'', [(''n/p'', ?spec)], ''n/p'')]" "splitOutputNN ''n/p/o'' = (''p'', ''o'')"
    "prometheusServiceName exTLSCluster ''p'' ''o'' = ''gnmic-c-prom-p-o''"
    by code_simp+
  have desired: "prometheusDesired (\<lambda>_. Inr ('':9'', [])) exTLSCluster (prometheusItems exPromPlan) [] = ([(''n/p/o'', 9)], [?d])"
    by (simp add: items prometheusWants_def parse gget_def gput_def)
  have keys: "svcKey ?d = (''n'', ''gnmic-c-prom-p-o'')" "memObj svcKind [exStale] (''n'', ''old'') = Some exStale"
    "matchingLabels (prometheusWanted (m_Name (cl_Meta exTLSCluster))) (m_Labels (svc_Meta exStale))"
    "m_Namespace (cl_Meta exTLSCluster) = ''n''"
    by code_simp+
  from prometheus_services_exact [OF exServices_reliable desired, of "[exStale]"]
  obtain w' where w': "reconcilePrometheusServices (\<lambda>_. Inr ('':9'', [])) exServices exTLSCluster exPromPlan ([], [exStale]) = (Inr (), [(''n/p/o'', 9)], w')"
    and other: "\<forall>k. k \<notin> svcKey ` set [?d] \<longrightarrow> memObj svcKind w' k = (case memObj svcKind [exStale] k of None \<Rightarrow> None
        | Some s \<Rightarrow> if fst k = m_Namespace (cl_Meta exTLSCluster) \<and>
            matchingLabels (prometheusWanted (m_Name (cl_Meta exTLSCluster))) (m_Labels (svc_Meta s)) then None else Some s)"
    and here: "\<forall>ds1 d ds2. [?d] = ds1 @ d # ds2 \<longrightarrow> svcKey d \<notin> svcKey ` set ds2 \<longrightarrow>
        (\<exists>s. memObj svcKind w' (svcKey d) = Some s \<and> changePrometheusService d s = None)"
    by blast
  have "memObj svcKind w' (''n'', ''old'') = None"
    using other [rule_format, of "(''n'', ''old'')"] keys by simp
  moreover have "memObj svcKind w' (''n'', ''gnmic-c-prom-p-o'') \<noteq> None"
    using here [rule_format, of "[]" ?d "[]"] keys(1) by auto
  ultimately show ?thesis using w' by blast
qed

section \<open>The headless service\<close>

lemma restPortOf_nonzero: "restPortOf cl \<noteq> 0"
  by (simp add: restPortOf_def defaultRestPort_def split: option.split)

text \<open>A service as the server stores it; the name of a port is not a number.\<close>

definition storedService :: "service_object \<Rightarrow> bool" where
  "storedService s \<longleftrightarrow> serviceDefaults s = s \<and> list_all (\<lambda>p. sp_TargetPort p \<noteq> FromString (Itoa 0)) (svc_Ports s)"

lemma headless_differs:
  assumes "storedService s"
  shows "changePorts (buildHeadlessService cl) s \<noteq> None"
proof
  assume "changePorts (buildHeadlessService cl) s = None"
  then have "servicePortsEqual (svc_Ports s) (svc_Ports (buildHeadlessService cl))"
    by (simp add: changePorts_def split: if_splits)
  then obtain p qs where p: "svc_Ports s = p # qs" "sp_Port p = restPortOf cl" "intstr_String (sp_TargetPort p) = Itoa 0"
    by (auto simp: buildHeadlessService_def servicePortsEqual_def list_all2_Cons2)
  have "svc_Ports (serviceDefaults s) = svc_Ports s"
    using assms by (simp add: storedService_def)
  with p(1) have norm: "(if sp_TargetPort p = FromInt32 0 \<or> sp_TargetPort p = FromString []
      then p\<lparr>sp_TargetPort := FromInt32 (sp_Port p)\<rparr> else p) = p"
    by (simp add: serviceDefaults_def)
  show False
  proof (cases "sp_TargetPort p")
    case (FromInt32 i)
    with p(3) have "i = 0" by (auto dest: Itoa_inj)
    with FromInt32 norm have "sp_TargetPort p = FromInt32 (sp_Port p)"
      by (metis svc_port.select_convs(3) svc_port.surjective svc_port.update_convs(3))
    with FromInt32 \<open>i = 0\<close> p(2) restPortOf_nonzero [of cl] show False by simp
  next
    case (FromString t)
    with p(3) assms p(1) show False by (auto simp: storedService_def)
  qed
qed

text \<open>
  The headless service is there after its reconciliation, nothing else has changed, and it is
  never settled: the server stores the target ports the controller leaves open, and the controller
  compares them with its own zero ones, so the stored service differs from the desired one again and
  the next pass updates it again.
\<close>

theorem headless_never_settles:
  assumes rel: "reliableObjects svcKind serviceDefaults ob repr rest"
    and stored: "\<forall>k s. repr w k = Some s \<longrightarrow> storedService s"
  shows "\<exists>w' s. reconcileHeadlessService ob cl w = (Inr (), w') \<and>
    repr w' = (repr w)(svcKey (buildHeadlessService cl) \<mapsto> s) \<and> rest w' = rest w \<and> storedService s \<and>
    svc_Ports s = svc_Ports (serviceDefaults (buildHeadlessService cl)) \<and> changePorts (buildHeadlessService cl) s \<noteq> None"
proof -
  let ?d = "buildHeadlessService cl"
  let ?s = "settledOwned svcKind serviceDefaults cl ?d changePorts (repr w (svcKey ?d))"
  have desired: "k_Namespace svcKind ?d = m_Namespace (cl_Meta cl)" "k_Controller svcKind ?d = None"
    by (simp_all add: buildHeadlessService_def newMeta_def)
  have keeps: "changePorts d c = Some c' \<Longrightarrow> k_Key svcKind c' = k_Key svcKind c" for d c c'
    using change_keeps(1) by simp
  obtain w' where w': "ensureOwned svcKind ob cl ?d changePorts w = (Inr (), w')"
    "repr w' = (repr w)(k_Key svcKind ?d \<mapsto> settledOwned svcKind serviceDefaults cl ?d changePorts (repr w (k_Key svcKind ?d)))"
    "rest w' = rest w"
    using rel kindsOK(2) desired keeps by (rule ensureOwned_reliable)
  let ?own = "?d\<lparr>svc_Controller := Some (m_Name (cl_Meta cl))\<rparr>"
  have own: "changePorts ?own = changePorts ?d"
    by (rule ext) (simp add: changePorts_def)
  have idem: "serviceDefaults (serviceDefaults x) = serviceDefaults x" for x
    by (cases x) (auto simp: serviceDefaults_def)
  have ports: "svc_Ports ?s = svc_Ports (serviceDefaults ?d) \<and> serviceDefaults ?s = ?s"
  proof (cases "repr w (svcKey ?d)")
    case None
    then show ?thesis
      by (simp add: settledOwned_def settled_def idem) (simp add: serviceDefaults_def)
  next
    case (Some c)
    with stored headless_differs [of c cl] obtain c' where "changePorts ?d c = Some c'"
      by blast
    moreover from this have "svc_Ports c' = svc_Ports ?d"
      by (auto simp: changePorts_def split: if_splits)
    ultimately show ?thesis
      using Some by (simp add: settledOwned_def settled_def idem own) (simp add: serviceDefaults_def)
  qed
  have "list_all (\<lambda>p. sp_TargetPort p \<noteq> FromString (Itoa 0)) (svc_Ports (serviceDefaults ?d))"
    by (auto simp: serviceDefaults_def buildHeadlessService_def split: option.split)
  with ports have "storedService ?s" by (simp add: storedService_def)
  with headless_differs [OF this] ports w' show ?thesis
    by (intro exI [of _ w'] exI [of _ ?s]) (simp add: reconcileHeadlessService_def svcKey_def)
qed

theorem headless_never_settles_witness:
  "\<exists>w'. reconcileHeadlessService exServices exTLSCluster [] = (Inr (), w') \<and>
     memObj svcKind w' (''n'', ''gnmic-c'') \<noteq> None"
proof -
  have "\<forall>k s. memObj svcKind [] k = Some s \<longrightarrow> storedService s"
    by (simp add: memObj_def)
  moreover have "svcKey (buildHeadlessService exTLSCluster) = (''n'', ''gnmic-c'')"
    by code_simp
  ultimately show ?thesis
    using headless_never_settles [OF exServices_reliable, of "[]" exTLSCluster] by auto
qed

end
