(* ===== verification/Stateful_Set.thy ===== *)
theory Stateful_Set
  imports Services_Correct "HOL-Library.Sublist"
begin

text \<open>
  The StatefulSet of a cluster and the ConfigMap with the configuration of its pods
  (\<^verbatim>\<open>buildStatefulSet\<close>, \<^verbatim>\<open>buildConfigContent\<close>, \<^verbatim>\<open>reconcileStatefulSet\<close> and \<^verbatim>\<open>reconcileConfigMap\<close> of
  \<^verbatim>\<open>internal/controller/cluster_controller.go\<close>).

  Parameters: \<^verbatim>\<open>yaml.Marshal\<close> of the configuration and the clients of the two kinds. The configuration
  is a record: \<^verbatim>\<open>yaml\<close> writes the keys of a map in sorted order, whatever order they were set in.
\<close>

section \<open>The configuration of the pods\<close>

record tunnel_server =
  tsv_Address :: string
  tsv_EnableMetrics :: bool
  tsv_TLS :: "tls_config option"
  tsv_Targets :: "tunnel_target_match list option" \<comment> \<open>\<open>None\<close>: no \<^verbatim>\<open>targets\<close> key\<close>

record gnmic_config =
  gc_Address :: string
  gc_EnableMetrics :: bool
  gc_TLS :: "tls_config option" \<comment> \<open>\<open>None\<close> is written as null\<close>
  gc_Log :: bool
  gc_TunnelServer :: "tunnel_server option"

definition configTargets :: "(string, tunnel_target_match) gomap \<Rightarrow> tunnel_target_match list" where
  "configTargets matches = map (\<lambda>k. the (gget matches k)) (sort (gkeys matches))"

definition configOf :: "cluster \<Rightarrow> (string, tunnel_target_match) gomap \<Rightarrow> gnmic_config" where
  "configOf cl matches =
     \<lparr>gc_Address = '':'' @ Itoa (restPortOf cl), gc_EnableMetrics = True, gc_TLS = TLSConfigForClusterPod (cl_Spec cl),
      gc_Log = True,
      gc_TunnelServer =
        (case cs_GRPCTunnel (cl_Spec cl) of
           None \<Rightarrow> None
         | Some tunnel \<Rightarrow>
             if gt_Port tunnel = 0 then None
             else Some \<lparr>tsv_Address = '':'' @ Itoa (gt_Port tunnel), tsv_EnableMetrics = True,
               tsv_TLS = TunnelServerTLSConfig (cl_Spec cl),
               tsv_Targets = (if length matches > 0 then Some (configTargets matches) else None)\<rparr>)\<rparr>"

definition buildConfigContent ::
  "(gnmic_config \<Rightarrow> string + string) \<Rightarrow> cluster \<Rightarrow> (string, tunnel_target_match) gomap \<Rightarrow> string + string" where
  "buildConfigContent marshal cl matches = marshal (configOf cl matches)"

definition gNMIcConfigPath :: string where "gNMIcConfigPath = ''/etc/gnmic/config.yaml''"
definition gNMIcConfigFile :: string where "gNMIcConfigFile = ''config.yaml''"

definition configMapName :: "cluster \<Rightarrow> string" where
  "configMapName cl = resourcePrefix @ m_Name (cl_Meta cl) @ ''-config''"

definition buildConfigMap ::
  "(gnmic_config \<Rightarrow> string + string) \<Rightarrow> cluster \<Rightarrow> (string, tunnel_target_match) gomap \<Rightarrow> string + config_map_object" where
  "buildConfigMap marshal cl matches =
     bindE (wrapE ''failed to build config content'' (buildConfigContent marshal cl matches)) (\<lambda>content.
       Inr \<lparr>cm_Meta = newMeta (configMapName cl) (m_Namespace (cl_Meta cl)) [], cm_Controller = None,
            cm_Data = [(gNMIcConfigFile, content)]\<rparr>)"

section \<open>Pods\<close>

record secret_projection =
  pj_Secret :: string
  pj_Items :: "(string \<times> string) list" \<comment> \<open>key and path\<close>
  pj_Optional :: bool

datatype volume_source =
  ConfigMapVolume string bool \<comment> \<open>optional\<close>
| CSIVolume string bool labels \<comment> \<open>driver, read only, attributes\<close>
| ProjectedVolume "secret_projection list"
| SecretVolume string bool
| OtherVolume string

record volume =
  vol_Name :: string
  vol_Source :: volume_source

record volume_mount =
  vm_Name :: string
  vm_MountPath :: string
  vm_SubPath :: string
  vm_SubPathExpr :: string
  vm_ReadOnly :: bool

record container_port =
  cp_Name :: string
  cp_ContainerPort :: int

record container =
  ctr_Name :: string
  ctr_Image :: string
  ctr_Ports :: "container_port list"
  ctr_Command :: "string list"
  ctr_VolumeMounts :: "volume_mount list"
  ctr_Resources :: resource_requirements
  ctr_Env :: "env_var list"

record stateful_set =
  sf_Meta :: object_meta
  sf_Controller :: "string option"
  sf_Replicas :: "int option"
  sf_ServiceName :: string
  sf_Selector :: "labels option" \<comment> \<open>\<^verbatim>\<open>MatchLabels\<close>\<close>
  sf_TemplateLabels :: labels
  sf_Containers :: "container list"
  sf_Volumes :: "volume list"
  sf_ReadyReplicas :: int

definition stsKind :: "stateful_set kind" where
  "stsKind = \<lparr>k_Meta = sf_Meta, k_Controller = sf_Controller, k_SetController = (\<lambda>c x. x\<lparr>sf_Controller := c\<rparr>)\<rparr>"

definition buildContainerPorts :: "cluster \<Rightarrow> container_port list" where
  "buildContainerPorts cl =
     \<lparr>cp_Name = ''rest'', cp_ContainerPort = restPortOf cl\<rparr> #
     (case cs_API (cl_Spec cl) of
        None \<Rightarrow> []
      | Some api \<Rightarrow> if api_GNMIPort api \<noteq> 0 then [\<lparr>cp_Name = ''gnmi'', cp_ContainerPort = api_GNMIPort api\<rparr>] else []) @
     (case cs_GRPCTunnel (cl_Spec cl) of
        None \<Rightarrow> []
      | Some tunnel \<Rightarrow> if gt_Port tunnel \<noteq> 0 then [\<lparr>cp_Name = ''tunnel'', cp_ContainerPort = gt_Port tunnel\<rparr>] else [])"

definition CertFilesBasePath :: string where "CertFilesBasePath = ''/etc/gnmic/tls''"
definition TunnelCertFilesBasePath :: string where "TunnelCertFilesBasePath = ''/etc/gnmic/tunnel-tls''"
definition ClientTLSCertFilesBasePath :: string where "ClientTLSCertFilesBasePath = ''/etc/gnmic/client-tls''"
definition ClientCABundleMountPath :: string where "ClientCABundleMountPath = ''/etc/gnmic/client-ca''"
definition TunnelCABundleMountPath :: string where "TunnelCABundleMountPath = ''/etc/gnmic/tunnel-ca''"
definition ControllerCAMountPath :: string where "ControllerCAMountPath = ''/etc/gnmic/controller-ca''"

text \<open>The volumes, mounts and environment variables collected so far.\<close>

record pod_parts =
  pp_Volumes :: "volume list"
  pp_Mounts :: "volume_mount list"
  pp_Env :: "env_var list"

definition addVolume :: "string \<Rightarrow> volume_source \<Rightarrow> string \<Rightarrow> string \<Rightarrow> pod_parts \<Rightarrow> pod_parts" where
  "addVolume name source path subPathExpr pp =
     pp\<lparr>pp_Volumes := pp_Volumes pp @ [\<lparr>vol_Name = name, vol_Source = source\<rparr>],
        pp_Mounts := pp_Mounts pp @ [\<lparr>vm_Name = name, vm_MountPath = path, vm_SubPath = [], vm_SubPathExpr = subPathExpr,
          vm_ReadOnly = True\<rparr>]\<rparr>"

definition podNameEnv :: env_var where
  "podNameEnv = \<lparr>ev_Name = ''POD_NAME'', ev_Value = [], ev_ValueFrom = Some (FieldRef ''metadata.name'')\<rparr>"

definition addEnv :: "env_var \<Rightarrow> pod_parts \<Rightarrow> pod_parts" where
  "addEnv e pp = pp\<lparr>pp_Env := pp_Env pp @ [e]\<rparr>"

definition csiVolume :: "string \<Rightarrow> labels \<Rightarrow> volume_source" where
  "csiVolume issuerRef attrs =
     CSIVolume ''csi.cert-manager.io'' True
       ([(''csi.cert-manager.io/issuer-name'', issuerRef), (''csi.cert-manager.io/issuer-kind'', ''Issuer'')] @ attrs)"

definition certProjection :: "string \<Rightarrow> string \<Rightarrow> secret_projection" where
  "certProjection secretName podName =
     \<lparr>pj_Secret = secretName,
      pj_Items = [(''tls.crt'', podName @ ''/tls.crt''), (''tls.key'', podName @ ''/tls.key''), (''ca.crt'', podName @ ''/ca.crt'')],
      pj_Optional = True\<rparr>"

text \<open>The certificates of the pods: by the CSI driver, or projected from one secret per replica.\<close>

definition podCertVolume ::
  "string \<Rightarrow> cluster \<Rightarrow> cluster_tls \<Rightarrow> (string \<Rightarrow> string) \<Rightarrow> failure + volume_source" where
  "podCertVolume domain cl tls secretOf =
     (let stsName = statefulSetName (m_Name (cl_Meta cl))
      in if ct_UseCSIDriver tls
         then Inr (csiVolume (ct_IssuerRef tls) [(''csi.cert-manager.io/dns-names'',
                ''${POD_NAME}.'' @ stsName @ ''.'' @ m_Namespace (cl_Meta cl) @ ''.svc.'' @ domain)])
         else case cs_Replicas (cl_Spec cl) of
                None \<Rightarrow> Inl NilPanic
              | Some replicas \<Rightarrow>
                  Inr (ProjectedVolume (map (\<lambda>i. certProjection (secretOf (podNameOf stsName i)) (podNameOf stsName i))
                    [0..replicas - 1])))"

definition apiParts :: "string \<Rightarrow> cluster \<Rightarrow> pod_parts \<Rightarrow> failure + pod_parts" where
  "apiParts domain cl pp =
     (case Option.bind (cs_API (cl_Spec cl)) api_TLS of
        None \<Rightarrow> Inr pp
      | Some tls \<Rightarrow>
          bindE (if ct_IssuerRef tls = [] then Inr pp
                 else bindE (podCertVolume domain cl tls apiCertName) (\<lambda>v.
                   Inr (addEnv podNameEnv (addVolume ''tls-certs'' v CertFilesBasePath ''$(POD_NAME)'' pp)))) (\<lambda>pp.
            let pp = (if ct_BundleRef tls = [] then pp
                      else addVolume ''ca-bundle'' (ConfigMapVolume (ct_BundleRef tls) False) ''/etc/certs/ca'' [] pp)
            in Inr (if ct_IssuerRef tls = [] then pp
                    else addVolume ''controller-ca'' (ConfigMapVolume (controllerCAName cl) True) ControllerCAMountPath [] pp)))"

definition tunnelParts :: "string \<Rightarrow> cluster \<Rightarrow> pod_parts \<Rightarrow> failure + pod_parts" where
  "tunnelParts domain cl pp =
     (case Option.bind (cs_GRPCTunnel (cl_Spec cl)) gt_TLS of
        None \<Rightarrow> Inr pp
      | Some tls \<Rightarrow>
          bindE (if ct_IssuerRef tls = [] then Inr pp
                 else bindE (podCertVolume domain cl tls tunnelCertName) (\<lambda>v.
                   let pp = addVolume ''tunnel-tls-certs'' v TunnelCertFilesBasePath ''$(POD_NAME)'' pp
                   in Inr (if list_ex (\<lambda>e. ev_Name e = ''POD_NAME'') (pp_Env pp) then pp else addEnv podNameEnv pp))) (\<lambda>pp.
            Inr (if ct_BundleRef tls = [] then pp
                 else addVolume ''tunnel-ca-bundle'' (ConfigMapVolume (ct_BundleRef tls) False) TunnelCABundleMountPath [] pp)))"

definition clientParts :: "cluster \<Rightarrow> pod_parts \<Rightarrow> pod_parts" where
  "clientParts cl pp =
     (case cs_ClientTLS (cl_Spec cl) of
        None \<Rightarrow> pp
      | Some tls \<Rightarrow>
          (let commonName = m_Name (cl_Meta cl) @ ''.'' @ m_Namespace (cl_Meta cl);
               pp = (if ct_IssuerRef tls = [] then pp
                     else addVolume ''client-tls-certs''
                       (if ct_UseCSIDriver tls
                        then csiVolume (ct_IssuerRef tls)
                          [(''csi.cert-manager.io/common-name'', commonName), (''csi.cert-manager.io/dns-names'', commonName)]
                        else SecretVolume (clientCertName (m_Name (cl_Meta cl))) True) ClientTLSCertFilesBasePath [] pp)
           in if ct_BundleRef tls = [] then pp
              else addVolume ''client-ca-bundle'' (ConfigMapVolume (ct_BundleRef tls) False) ClientCABundleMountPath [] pp))"

definition baseParts :: "cluster \<Rightarrow> pod_parts" where
  "baseParts cl =
     \<lparr>pp_Volumes = [\<lparr>vol_Name = ''config'', vol_Source = ConfigMapVolume (configMapName cl) False\<rparr>],
      pp_Mounts = [\<lparr>vm_Name = ''config'', vm_MountPath = gNMIcConfigPath, vm_SubPath = gNMIcConfigFile, vm_SubPathExpr = [],
        vm_ReadOnly = False\<rparr>],
      pp_Env = cs_Env (cl_Spec cl)\<rparr>"

definition podParts :: "string \<Rightarrow> cluster \<Rightarrow> failure + pod_parts" where
  "podParts domain cl =
     bindE (apiParts domain cl (baseParts cl)) (\<lambda>pp. bindE (tunnelParts domain cl pp) (\<lambda>pp. Inr (clientParts cl pp)))"

definition buildStatefulSet ::
  "(gnmic_config \<Rightarrow> string + string) \<Rightarrow> string \<Rightarrow> cluster \<Rightarrow> (string, tunnel_target_match) gomap \<Rightarrow>
   failure + stateful_set \<times> config_map_object" where
  "buildStatefulSet marshal domain cl matches =
     bindE (map_sum TextFailure id (wrapE ''failed to build config map'' (buildConfigMap marshal cl matches))) (\<lambda>configMap.
     bindE (podParts domain cl) (\<lambda>pp.
       let stsName = statefulSetName (m_Name (cl_Meta cl))
       in Inr (\<lparr>sf_Meta = newMeta stsName (m_Namespace (cl_Meta cl)) (ownedLabels cl), sf_Controller = None,
            sf_Replicas = cs_Replicas (cl_Spec cl), sf_ServiceName = stsName, sf_Selector = Some (clusterWanted cl),
            sf_TemplateLabels = ownedLabels cl,
            sf_Containers = [\<lparr>ctr_Name = ''gnmic'', ctr_Image = cs_Image (cl_Spec cl), ctr_Ports = buildContainerPorts cl,
              ctr_Command = [''/app/gnmic'', ''collector'', ''--config'', ''/etc/gnmic/config.yaml''],
              ctr_VolumeMounts = pp_Mounts pp, ctr_Resources = cs_Resources (cl_Spec cl), ctr_Env = pp_Env pp\<rparr>],
            sf_Volumes = pp_Volumes pp, sf_ReadyReplicas = 0\<rparr>, configMap)))"

section \<open>Reconciling the StatefulSet\<close>

definition resourceListEqual :: "(string, int) gomap \<Rightarrow> (string, int) gomap \<Rightarrow> bool" where
  "resourceListEqual a b \<longleftrightarrow> length a = length b \<and> list_all (\<lambda>(k, v). gget b k = Some v) a"

definition resourcesEqual :: "resource_requirements \<Rightarrow> resource_requirements \<Rightarrow> bool" where
  "resourcesEqual a b \<longleftrightarrow> resourceListEqual (rr_Requests a) (rr_Requests b) \<and> resourceListEqual (rr_Limits a) (rr_Limits b)"

definition projected :: "volume \<Rightarrow> secret_projection list option" where
  "projected v = (case vol_Source v of ProjectedVolume ps \<Rightarrow> Some ps | _ \<Rightarrow> None)"

definition volumesEqual :: "volume list \<Rightarrow> volume list \<Rightarrow> bool" where
  "volumesEqual a b \<longleftrightarrow>
     length a = length b \<and>
     (let aMap = fold (\<lambda>v m. gput m (vol_Name v) v) a []
      in list_all (\<lambda>vb. case gget aMap (vol_Name vb) of
           None \<Rightarrow> False
         | Some va \<Rightarrow>
             (case (projected va, projected vb) of
                (Some x, Some y) \<Rightarrow> length x = length y
              | (x, y) \<Rightarrow> (x = None) = (y = None))) b)"

definition changeConfigMap :: "config_map_object \<Rightarrow> config_map_object \<Rightarrow> config_map_object option" where
  "changeConfigMap desired current =
     (if maps_Equal (cm_Data current) (cm_Data desired) then None else Some (current\<lparr>cm_Data := cm_Data desired\<rparr>))"

definition reconcileConfigMap ::
  "(config_map_object, 'w) objects \<Rightarrow> cluster \<Rightarrow> config_map_object \<Rightarrow> 'w \<Rightarrow> (failure + unit) \<times> 'w" where
  "reconcileConfigMap ob cl desired = ensureOwned cmKind ob cl desired changeConfigMap"

text \<open>The steps of the in-place update; the flag is \<^verbatim>\<open>needsUpdate\<close>.\<close>

definition updateReplicas :: "cluster \<Rightarrow> stateful_set \<Rightarrow> failure + bool \<times> stateful_set" where
  "updateReplicas cl current =
     (let changed = (True, current\<lparr>sf_Replicas := cs_Replicas (cl_Spec cl)\<rparr>)
      in case sf_Replicas current of
           None \<Rightarrow> Inr changed
         | Some n \<Rightarrow>
             (case cs_Replicas (cl_Spec cl) of
                None \<Rightarrow> Inl NilPanic
              | Some m \<Rightarrow> Inr (if n \<noteq> m then changed else (False, current))))"

definition updateContainer :: "cluster \<Rightarrow> stateful_set \<Rightarrow> bool \<times> stateful_set \<Rightarrow> bool \<times> stateful_set" where
  "updateContainer cl desired = (\<lambda>(u, current).
     case sf_Containers current of
       [] \<Rightarrow> (True, current\<lparr>sf_Containers := sf_Containers desired\<rparr>)
     | c # cs \<Rightarrow>
         (let sameImage = (ctr_Image c = cs_Image (cl_Spec cl));
              sameResources = resourcesEqual (ctr_Resources c) (cs_Resources (cl_Spec cl));
              c = (if sameImage then c else c\<lparr>ctr_Image := cs_Image (cl_Spec cl)\<rparr>);
              c = (if sameResources then c else c\<lparr>ctr_Resources := cs_Resources (cl_Spec cl)\<rparr>)
          in (u \<or> \<not> sameImage \<or> \<not> sameResources, current\<lparr>sf_Containers := c # cs\<rparr>)))"

definition updateLabels :: "stateful_set \<Rightarrow> bool \<times> stateful_set \<Rightarrow> bool \<times> stateful_set" where
  "updateLabels desired us =
     fold (\<lambda>(k, v) (u, current).
       if gget0 [] (sf_TemplateLabels current) k \<noteq> v
       then (True, current\<lparr>sf_TemplateLabels := gput (sf_TemplateLabels current) k v\<rparr>)
       else (u, current)) (sf_TemplateLabels desired) us"

definition updateSelector :: "stateful_set \<Rightarrow> bool \<times> stateful_set \<Rightarrow> bool \<times> stateful_set" where
  "updateSelector desired = (\<lambda>(u, current).
     if sf_Selector current = None then (True, current\<lparr>sf_Selector := sf_Selector desired\<rparr>) else (u, current))"

definition updateVolumes :: "stateful_set \<Rightarrow> bool \<times> stateful_set \<Rightarrow> bool \<times> stateful_set" where
  "updateVolumes desired = (\<lambda>(u, current).
     if volumesEqual (sf_Volumes current) (sf_Volumes desired) then (u, current)
     else (True, current\<lparr>sf_Volumes := sf_Volumes desired\<rparr>))"

definition changeStatefulSet :: "cluster \<Rightarrow> stateful_set \<Rightarrow> stateful_set \<Rightarrow> failure + bool \<times> stateful_set" where
  "changeStatefulSet cl desired current =
     bindE (updateReplicas cl current) (\<lambda>us.
       Inr (updateVolumes desired (updateSelector desired (updateLabels desired (updateContainer cl desired us)))))"

definition reconcileStatefulSet ::
  "(gnmic_config \<Rightarrow> string + string) \<Rightarrow> string \<Rightarrow> (config_map_object, 'w) objects \<Rightarrow> (stateful_set, 'w) objects \<Rightarrow>
   cluster \<Rightarrow> (string, tunnel_target_match) gomap \<Rightarrow> 'w \<Rightarrow> (failure + stateful_set) \<times> 'w" where
  "reconcileStatefulSet marshal domain cms sets cl matches w =
     (case buildStatefulSet marshal domain cl matches of
        Inl e \<Rightarrow> (Inl e, w)
      | Inr (desired, desiredConfigMap) \<Rightarrow>
          bindW (reconcileConfigMap cms cl desiredConfigMap) (\<lambda>_ w.
            case ob_get sets (m_Namespace (sf_Meta desired)) (m_Name (sf_Meta desired)) w of
              Inl NotFound \<Rightarrow>
                bindW (apiW (ob_setRef sets cl desired)) (\<lambda>desired. apiCall (ob_create sets desired)) w
            | Inl e \<Rightarrow> (Inl (ApiFailure e), w)
            | Inr current \<Rightarrow>
                (case changeStatefulSet cl desired current of
                   Inl e \<Rightarrow> (Inl e, w)
                 | Inr (False, current) \<Rightarrow> (Inr current, w)
                 | Inr (True, current) \<Rightarrow>
                     bindW (apiW (ob_setRef sets cl current)) (\<lambda>current. apiCall (ob_update sets current)) w)) w)"

definition ensureStatefulSetAbsent :: "(stateful_set, 'w) objects \<Rightarrow> string \<Rightarrow> string \<Rightarrow> 'w \<Rightarrow> (failure + unit) \<times> 'w" where
  "ensureStatefulSetAbsent = ensureAbsent stsKind"

section \<open>The mounted files\<close>

text \<open>A pod's parts up to the sources of its volumes: names and mount paths, in order.\<close>

definition partsOK :: "(string \<times> string) list \<Rightarrow> pod_parts \<Rightarrow> bool" where
  "partsOK ms pp \<longleftrightarrow> map vol_Name (pp_Volumes pp) = map fst ms \<and> map (\<lambda>m. (vm_Name m, vm_MountPath m)) (pp_Mounts pp) = ms"

lemma partsOK_addVolume [simp]: "partsOK ms pp \<Longrightarrow> partsOK (ms @ [(name, path)]) (addVolume name source path expr pp)"
  by (simp add: partsOK_def addVolume_def)

lemma partsOK_addEnv [simp]: "partsOK ms (addEnv e pp) = partsOK ms pp"
  by (simp add: partsOK_def addEnv_def)

definition tlsMounts :: "string \<Rightarrow> string \<Rightarrow> string \<Rightarrow> string \<Rightarrow> cluster_tls option \<Rightarrow> (string \<times> string) list" where
  "tlsMounts certs certPath bundle bundlePath tls =
     (case tls of
        None \<Rightarrow> []
      | Some t \<Rightarrow> (if ct_IssuerRef t = [] then [] else [(certs, certPath)]) @
                  (if ct_BundleRef t = [] then [] else [(bundle, bundlePath)]))"

definition caMounts :: "cluster \<Rightarrow> (string \<times> string) list" where
  "caMounts cl = (if hasIssuer (Option.bind (cs_API (cl_Spec cl)) api_TLS) then [(''controller-ca'', ControllerCAMountPath)] else [])"

lemma apiParts_mounts:
  assumes "apiParts domain cl pp = Inr pp'" and "partsOK ms pp"
  shows "partsOK (ms @ tlsMounts ''tls-certs'' CertFilesBasePath ''ca-bundle'' ''/etc/certs/ca''
    (Option.bind (cs_API (cl_Spec cl)) api_TLS) @ caMounts cl) pp'"
proof (cases "Option.bind (cs_API (cl_Spec cl)) api_TLS")
  case None
  with assms show ?thesis by (simp add: apiParts_def tlsMounts_def caMounts_def hasIssuer_def)
next
  case (Some tls)
  with assms partsOK_addVolume [of "ms @ _" _ _ _ _ _] show ?thesis
    by (cases "ct_IssuerRef tls = []"; cases "ct_BundleRef tls = []")
      (auto simp: apiParts_def tlsMounts_def caMounts_def hasIssuer_def Let_def bindE_Inr_iff partsOK_def addVolume_def addEnv_def)
qed

lemma tunnelParts_mounts:
  assumes "tunnelParts domain cl pp = Inr pp'" and "partsOK ms pp"
  shows "partsOK (ms @ tlsMounts ''tunnel-tls-certs'' TunnelCertFilesBasePath ''tunnel-ca-bundle'' TunnelCABundleMountPath
    (Option.bind (cs_GRPCTunnel (cl_Spec cl)) gt_TLS)) pp'"
proof (cases "Option.bind (cs_GRPCTunnel (cl_Spec cl)) gt_TLS")
  case None
  with assms show ?thesis by (simp add: tunnelParts_def tlsMounts_def)
next
  case (Some tls)
  with assms show ?thesis
    by (cases "ct_IssuerRef tls = []"; cases "ct_BundleRef tls = []")
      (auto simp: tunnelParts_def tlsMounts_def Let_def bindE_Inr_iff partsOK_def addVolume_def addEnv_def split: if_splits)
qed

lemma clientParts_mounts:
  "partsOK ms pp \<Longrightarrow> partsOK (ms @ tlsMounts ''client-tls-certs'' ClientTLSCertFilesBasePath ''client-ca-bundle''
     ClientCABundleMountPath (cs_ClientTLS (cl_Spec cl))) (clientParts cl pp)"
  by (auto simp: clientParts_def tlsMounts_def Let_def partsOK_def addVolume_def split: option.split)

definition podMounts :: "cluster \<Rightarrow> (string \<times> string) list" where
  "podMounts cl =
     [(''config'', gNMIcConfigPath)] @
     tlsMounts ''tls-certs'' CertFilesBasePath ''ca-bundle'' ''/etc/certs/ca'' (Option.bind (cs_API (cl_Spec cl)) api_TLS) @
     caMounts cl @
     tlsMounts ''tunnel-tls-certs'' TunnelCertFilesBasePath ''tunnel-ca-bundle'' TunnelCABundleMountPath
       (Option.bind (cs_GRPCTunnel (cl_Spec cl)) gt_TLS) @
     tlsMounts ''client-tls-certs'' ClientTLSCertFilesBasePath ''client-ca-bundle'' ClientCABundleMountPath
       (cs_ClientTLS (cl_Spec cl))"

lemma podParts_mounts:
  assumes "podParts domain cl = Inr pp"
  shows "partsOK (podMounts cl) pp"
proof -
  obtain pp1 pp2 where pp: "apiParts domain cl (baseParts cl) = Inr pp1" "tunnelParts domain cl pp1 = Inr pp2"
    "pp = clientParts cl pp2"
    using assms by (auto simp: podParts_def bindE_Inr_iff)
  have "partsOK [(''config'', gNMIcConfigPath)] (baseParts cl)"
    by (simp add: partsOK_def baseParts_def)
  from clientParts_mounts [OF tunnelParts_mounts [OF pp(2) apiParts_mounts [OF pp(1) this]], of cl]
  show ?thesis by (simp add: podMounts_def pp(3))
qed

lemmas mountPaths = gNMIcConfigPath_def CertFilesBasePath_def ControllerCAMountPath_def TunnelCertFilesBasePath_def
  TunnelCABundleMountPath_def ClientTLSCertFilesBasePath_def ClientCABundleMountPath_def

definition allMounts :: "(string \<times> string) list" where
  "allMounts =
     [(''config'', gNMIcConfigPath)] @ [(''tls-certs'', CertFilesBasePath), (''ca-bundle'', ''/etc/certs/ca'')] @
     [(''controller-ca'', ControllerCAMountPath)] @
     [(''tunnel-tls-certs'', TunnelCertFilesBasePath), (''tunnel-ca-bundle'', TunnelCABundleMountPath)] @
     [(''client-tls-certs'', ClientTLSCertFilesBasePath), (''client-ca-bundle'', ClientCABundleMountPath)]"

lemma tlsMounts_subseq: "subseq (tlsMounts a p b q tls) [(a, p), (b, q)]"
  by (simp add: tlsMounts_def split: option.split)

lemma podMounts_subseq: "subseq (podMounts cl) allMounts"
  unfolding podMounts_def allMounts_def
  by (intro list_emb_append_mono tlsMounts_subseq) (simp_all add: caMounts_def)

lemma podMounts_distinct: "distinct (map fst (podMounts cl))" "distinct (map snd (podMounts cl))"
proof -
  obtain N where "podMounts cl = nths allMounts N"
    using podMounts_subseq by (auto simp: subseq_conv_nths)
  moreover have "distinct (map fst allMounts)" "distinct (map snd allMounts)"
    by (simp_all add: allMounts_def mountPaths)
  ultimately show "distinct (map fst (podMounts cl))" "distinct (map snd (podMounts cl))"
    by (simp_all add: distinct_nthsI flip: nths_map)
qed

text \<open>The files the configurations of the pods, of the tunnel and of the targets name.\<close>

definition tlsFiles :: "cluster \<Rightarrow> string set" where
  "tlsFiles cl =
     (case TLSConfigForClusterPod (cl_Spec cl) of None \<Rightarrow> {} | Some t \<Rightarrow> {tls_CertFile t, tls_KeyFile t, tls_CAFile t}) \<union>
     (case TunnelServerTLSConfig (cl_Spec cl) of None \<Rightarrow> {} | Some t \<Rightarrow> {tls_CertFile t, tls_KeyFile t, tls_CAFile t}) \<union>
     (case ClientTLSConfigForCluster (cl_Spec cl) of None \<Rightarrow> {} | Some t \<Rightarrow> {cp_CertFile t, cp_KeyFile t, cp_CAFile t})"

text \<open>Where a mount puts the files of a certificate or of a bundle.\<close>

definition mountedFiles :: "string \<Rightarrow> string list" where
  "mountedFiles path = [path @ ''/tls.crt'', path @ ''/tls.key'', path @ ''/ca.crt'']"

lemma mountedFiles_of:
  "CertFilePath \<in> set (mountedFiles CertFilesBasePath)" "KeyFilePath \<in> set (mountedFiles CertFilesBasePath)"
  "ControllerCAFilePath \<in> set (mountedFiles ControllerCAMountPath)"
  "TunnelCertFilePath \<in> set (mountedFiles TunnelCertFilesBasePath)" "TunnelKeyFilePath \<in> set (mountedFiles TunnelCertFilesBasePath)"
  "TunnelCABundleFilePath \<in> set (mountedFiles TunnelCABundleMountPath)"
  "ClientTLSCertFilePath \<in> set (mountedFiles ClientTLSCertFilesBasePath)"
  "ClientTLSKeyFilePath \<in> set (mountedFiles ClientTLSCertFilesBasePath)"
  "ClientCABundleFilePath \<in> set (mountedFiles ClientCABundleMountPath)"
  by (simp_all add: mountedFiles_def mountPaths CertFilePath_def KeyFilePath_def ControllerCAFilePath_def TunnelCertFilePath_def
      TunnelKeyFilePath_def TunnelCABundleFilePath_def ClientTLSCertFilePath_def ClientTLSKeyFilePath_def ClientCABundleFilePath_def)

lemma tlsMounts_paths:
  "ct_IssuerRef t \<noteq> [] \<Longrightarrow> p \<in> snd ` set (tlsMounts a p b q (Some t))"
  "ct_BundleRef t \<noteq> [] \<Longrightarrow> q \<in> snd ` set (tlsMounts a p b q (Some t))"
  by (simp_all add: tlsMounts_def)

lemma podMounts_paths: "snd ` set (podMounts cl) =
    insert gNMIcConfigPath (
      snd ` set (tlsMounts ''tls-certs'' CertFilesBasePath ''ca-bundle'' ''/etc/certs/ca'' (Option.bind (cs_API (cl_Spec cl)) api_TLS)) \<union>
      snd ` set (caMounts cl) \<union>
      snd ` set (tlsMounts ''tunnel-tls-certs'' TunnelCertFilesBasePath ''tunnel-ca-bundle'' TunnelCABundleMountPath
        (Option.bind (cs_GRPCTunnel (cl_Spec cl)) gt_TLS)) \<union>
      snd ` set (tlsMounts ''client-tls-certs'' ClientTLSCertFilesBasePath ''client-ca-bundle'' ClientCABundleMountPath
        (cs_ClientTLS (cl_Spec cl))))"
  unfolding podMounts_def set_append image_Un by auto

text \<open>Every TLS section that names files mounts them.\<close>

lemma tlsFiles_mounted:
  assumes "f \<in> tlsFiles cl" and "f \<noteq> []"
  shows "\<exists>p \<in> snd ` set (podMounts cl). f \<in> set (mountedFiles p)"
proof -
  consider (api) t where "TLSConfigForClusterPod (cl_Spec cl) = Some t" "f \<in> {tls_CertFile t, tls_KeyFile t, tls_CAFile t}"
    | (tunnel) t where "TunnelServerTLSConfig (cl_Spec cl) = Some t" "f \<in> {tls_CertFile t, tls_KeyFile t, tls_CAFile t}"
    | (client) t where "ClientTLSConfigForCluster (cl_Spec cl) = Some t" "f \<in> {cp_CertFile t, cp_KeyFile t, cp_CAFile t}"
    using assms(1) unfolding tlsFiles_def by (auto split: option.splits)
  then show ?thesis
  proof cases
    case api
    then obtain tls where tls: "Option.bind (cs_API (cl_Spec cl)) api_TLS = Some tls"
      by (auto simp: TLSConfigForClusterPod_def split: option.splits)
    with api assms(2) have issuer: "ct_IssuerRef tls \<noteq> []" and f: "f \<in> {CertFilePath, KeyFilePath, ControllerCAFilePath}"
      by (auto simp: TLSConfigForClusterPod_def emptyTLSConfig_def split: if_splits)
    have "CertFilesBasePath \<in> snd ` set (podMounts cl)" "ControllerCAMountPath \<in> snd ` set (podMounts cl)"
      unfolding podMounts_paths tls using tlsMounts_paths(1) [OF issuer] issuer
      by (blast, simp add: caMounts_def hasIssuer_def tls)
    with f mountedFiles_of(1-3) show ?thesis by blast
  next
    case tunnel
    then obtain tls where tls: "Option.bind (cs_GRPCTunnel (cl_Spec cl)) gt_TLS = Some tls"
      by (auto simp: TunnelServerTLSConfig_def split: option.splits)
    with tunnel assms(2) have f: "f \<in> {TunnelCertFilePath, TunnelKeyFilePath} \<and> ct_IssuerRef tls \<noteq> [] \<or>
        f = TunnelCABundleFilePath \<and> ct_BundleRef tls \<noteq> []"
      by (auto simp: TunnelServerTLSConfig_def emptyTLSConfig_def Let_def split: if_splits)
    have "ct_IssuerRef tls \<noteq> [] \<Longrightarrow> TunnelCertFilesBasePath \<in> snd ` set (podMounts cl)"
      "ct_BundleRef tls \<noteq> [] \<Longrightarrow> TunnelCABundleMountPath \<in> snd ` set (podMounts cl)"
      unfolding podMounts_paths tls using tlsMounts_paths [of tls] by blast+
    with f mountedFiles_of(4-6) show ?thesis by blast
  next
    case client
    then obtain tls where tls: "cs_ClientTLS (cl_Spec cl) = Some tls"
      by (auto simp: ClientTLSConfigForCluster_def split: option.splits)
    with client assms(2) have f: "f \<in> {ClientTLSCertFilePath, ClientTLSKeyFilePath} \<and> ct_IssuerRef tls \<noteq> [] \<or>
        f = ClientCABundleFilePath \<and> ct_BundleRef tls \<noteq> []"
      by (auto simp: ClientTLSConfigForCluster_def Let_def split: if_splits)
    have "ct_IssuerRef tls \<noteq> [] \<Longrightarrow> ClientTLSCertFilesBasePath \<in> snd ` set (podMounts cl)"
      "ct_BundleRef tls \<noteq> [] \<Longrightarrow> ClientCABundleMountPath \<in> snd ` set (podMounts cl)"
      unfolding podMounts_paths tls using tlsMounts_paths [of tls] by blast+
    with f mountedFiles_of(7-9) show ?thesis by blast
  qed
qed



section \<open>The content of the ConfigMap\<close>

text \<open>
  The configuration of the pods does not depend on the order in which the map of tunnel matches is
  visited: two maps with the same entries give the same content, so an unchanged plan does not change
  the ConfigMap.
\<close>

theorem config_content_deterministic:
  assumes "gwf matches" and "gwf matches'" and "gget matches = gget matches'"
  shows "buildConfigContent marshal cl matches = buildConfigContent marshal cl matches'"
proof -
  have keys: "set (gkeys matches) = set (gkeys matches')"
    using assms(3) by (auto simp: gm.keys_iff)
  have "sort (gkeys matches) = sort (gkeys matches')"
    using assms keys by (intro sorted_distinct_set_unique) (simp_all add: gm.keys_distinct)
  with assms(3) have targets: "configTargets matches = configTargets matches'"
    unfolding configTargets_def by simp
  have len: "length matches = length matches'"
    using distinct_card [OF gm.keys_distinct [OF assms(1)]] distinct_card [OF gm.keys_distinct [OF assms(2)]] keys
    by (simp add: gkeys_def)
  show ?thesis
    unfolding buildConfigContent_def configOf_def targets len ..
qed

definition exMatch :: "string \<Rightarrow> tunnel_target_match" where
  "exMatch name = \<lparr>ttm_Type = ''t'', ttm_ID = name, ttm_Config = None\<rparr>"

theorem config_content_deterministic_witness:
  "buildConfigContent (\<lambda>c. Inr (gc_Address c @ concat (map ttm_ID (the (tsv_Targets (the (gc_TunnelServer c)))))))
       exTLSCluster [(''p'', exMatch ''x''), (''q'', exMatch ''y'')] =
     buildConfigContent (\<lambda>c. Inr (gc_Address c @ concat (map ttm_ID (the (tsv_Targets (the (gc_TunnelServer c)))))))
       exTLSCluster [(''q'', exMatch ''y''), (''p'', exMatch ''x'')]"
proof -
  have "gwf [(''p'', exMatch ''x''), (''q'', exMatch ''y'')]" "gwf [(''q'', exMatch ''y''), (''p'', exMatch ''x'')]"
    "gget [(''p'', exMatch ''x''), (''q'', exMatch ''y'')] = gget [(''q'', exMatch ''y''), (''p'', exMatch ''x'')]"
    by (auto simp: gwf_def gget_def fun_eq_iff)
  then show ?thesis by (rule config_content_deterministic)
qed

end
