(* ===== verification/Cluster_Reconcile.thy ===== *)
theory Cluster_Reconcile
  imports Stateful_Set
begin

text \<open>
  \<^verbatim>\<open>ClusterReconciler.Reconcile\<close> (\<^verbatim>\<open>internal/controller/cluster_controller.go\<close>) as a whole: the
  clean-up of a cluster that is gone, the deletion of one that is marked for it, its finalizer, and the
  sequence headless service, certificates, CA, tunnel service, plan, StatefulSet, Prometheus services,
  pods. The state is the plan cache and the world; \<open>owned_env\<close> holds the clients.
\<close>

section \<open>The environment\<close>

record 'w owned_env =
  oe_Cluster :: "'w cluster_env"
  oe_Certificates :: "(certificate, 'w) objects"
  oe_Services :: "(service_object, 'w) objects"
  oe_ConfigMaps :: "(config_map_object, 'w) objects"
  oe_StatefulSets :: "(stateful_set, 'w) objects"
  oe_GetCluster :: "string \<Rightarrow> string \<Rightarrow> 'w \<Rightarrow> api_error + cluster"
  oe_UpdateCluster :: "cluster \<Rightarrow> 'w \<Rightarrow> api_error option \<times> 'w" \<comment> \<open>the object, not its status\<close>
  oe_ListenYaml :: "string \<Rightarrow> string + string \<times> string"
  oe_Marshal :: "gnmic_config \<Rightarrow> string + string"
  oe_IsNotExist :: "string \<Rightarrow> bool"
  oe_FormatSelector :: "labels option \<Rightarrow> string"

datatype requeue = NoRequeue | Requeue | After duration

datatype cluster_failure = ObjectFailure failure | PlanFailure plan_failure

definition clusterFinalizer :: string where "clusterFinalizer = ''operator.gnmic.dev/cluster-finalizer''"

definition setFinalizers :: "string list \<Rightarrow> cluster \<Rightarrow> cluster" where
  "setFinalizers fs cl = cl\<lparr>cl_Meta := (cl_Meta cl)\<lparr>m_Finalizers := fs\<rparr>\<rparr>"

definition RemoveFinalizer :: "cluster \<Rightarrow> cluster" where
  "RemoveFinalizer cl = setFinalizers (filter (\<lambda>f. f \<noteq> clusterFinalizer) (m_Finalizers (cl_Meta cl))) cl"

definition AddFinalizer :: "cluster \<Rightarrow> cluster" where
  "AddFinalizer cl =
     (if clusterFinalizer \<in> set (m_Finalizers (cl_Meta cl)) then cl
      else setFinalizers (m_Finalizers (cl_Meta cl) @ [clusterFinalizer]) cl)"

definition updateCluster :: "'w owned_env \<Rightarrow> cluster \<Rightarrow> 'w \<Rightarrow> (failure + unit) \<times> 'w" where
  "updateCluster env cl w =
     (case oe_UpdateCluster env cl w of (None, w) \<Rightarrow> (Inr (), w) | (Some e, w) \<Rightarrow> (Inl (ApiFailure e), w))"

definition whenW :: "bool \<Rightarrow> ('w \<Rightarrow> (failure + unit) \<times> 'w) \<Rightarrow> 'w \<Rightarrow> (failure + unit) \<times> 'w" where
  "whenW b f = (if b then f else returnW ())"

text \<open>A TLS section with an issuer whose certificates the operator requests itself.\<close>

definition managedCerts :: "cluster_tls option \<Rightarrow> bool" where
  "managedCerts tls = (case tls of None \<Rightarrow> False | Some t \<Rightarrow> ct_IssuerRef t \<noteq> [] \<and> \<not> ct_UseCSIDriver t)"

definition apiTLS :: "cluster \<Rightarrow> cluster_tls option" where
  "apiTLS cl = Option.bind (cs_API (cl_Spec cl)) api_TLS"

definition tunnelTLS :: "cluster \<Rightarrow> cluster_tls option" where
  "tunnelTLS cl = Option.bind (cs_GRPCTunnel (cl_Spec cl)) gt_TLS"

section \<open>Deletion\<close>

text \<open>What goes with a cluster in any case: the StatefulSet, the headless service, the Prometheus services.\<close>

definition removeWorkload :: "'w owned_env \<Rightarrow> string \<Rightarrow> string \<Rightarrow> string \<Rightarrow> string \<Rightarrow> 'w \<Rightarrow> (failure + unit) \<times> 'w" where
  "removeWorkload env ns name reqNamespace reqName =
     bindW (ensureStatefulSetAbsent (oe_StatefulSets env) ns (resourcePrefix @ name)) (\<lambda>_.
     bindW (ensureServiceAbsent (oe_Services env) ns (resourcePrefix @ name)) (\<lambda>_.
       cleanupPrometheusServices (oe_Services env) reqNamespace reqName))"

definition removeOwned :: "'w owned_env \<Rightarrow> string \<Rightarrow> string \<Rightarrow> cluster \<Rightarrow> 'w \<Rightarrow> (failure + unit) \<times> 'w" where
  "removeOwned env reqNamespace reqName cl =
     bindW (removeWorkload env (m_Namespace (cl_Meta cl)) (m_Name (cl_Meta cl)) reqNamespace reqName) (\<lambda>_.
     bindW (whenW (managedCerts (apiTLS cl)) (cleanupCertificates (oe_Certificates env) cl)) (\<lambda>_.
     bindW (whenW (hasIssuer (apiTLS cl)) (cleanupControllerCA (oe_ConfigMaps env) cl)) (\<lambda>_.
     bindW (whenW (managedCerts (tunnelTLS cl)) (cleanupTunnelCertificates (oe_Certificates env) cl)) (\<lambda>_.
     bindW (whenW (managedCerts (cs_ClientTLS (cl_Spec cl))) (cleanupClientTLSCertificates (oe_Certificates env) cl)) (\<lambda>_.
     bindW (whenW (cs_GRPCTunnel (cl_Spec cl) \<noteq> None) (cleanupTunnelService (oe_Services env) cl)) (\<lambda>_.
       updateCluster env (RemoveFinalizer cl)))))))"

section \<open>What has to be there before the pods\<close>

text \<open>\<open>False\<close> when certificates are not ready: the handler comes back in two seconds.\<close>

definition whenReady :: "bool \<Rightarrow> ('w \<Rightarrow> (failure + bool) \<times> 'w) \<Rightarrow> ('w \<Rightarrow> (failure + bool) \<times> 'w) \<Rightarrow> 'w \<Rightarrow> (failure + bool) \<times> 'w" where
  "whenReady needed certs next = (if needed then bindW certs (\<lambda>ready. if ready then next else returnW False) else next)"

definition clientPrerequisites :: "'w owned_env \<Rightarrow> cluster \<Rightarrow> 'w \<Rightarrow> (failure + bool) \<times> 'w" where
  "clientPrerequisites env cl =
     whenReady (managedCerts (cs_ClientTLS (cl_Spec cl))) (reconcileClientTLSCertificates (oe_Certificates env) cl)
    (bindW (whenW (cs_GRPCTunnel (cl_Spec cl) \<noteq> None) (reconcileTunnelService (oe_Services env) cl)) (\<lambda>_.
       returnW True))"

definition tunnelPrerequisites :: "'w owned_env \<Rightarrow> cluster \<Rightarrow> 'w \<Rightarrow> (failure + bool) \<times> 'w" where
  "tunnelPrerequisites env cl =
     bindW (whenW (hasIssuer (apiTLS cl)) (reconcileControllerCA (oe_Cluster env) (oe_IsNotExist env) (oe_ConfigMaps env) cl)) (\<lambda>_.
     whenReady (managedCerts (tunnelTLS cl)) (reconcileTunnelCertificates (ce_Domain (oe_Cluster env)) (oe_Certificates env) cl)
       (clientPrerequisites env cl))"

definition reconcilePrerequisites :: "'w owned_env \<Rightarrow> cluster \<Rightarrow> 'w \<Rightarrow> (failure + bool) \<times> 'w" where
  "reconcilePrerequisites env cl =
     bindW (reconcileHeadlessService (oe_Services env) cl) (\<lambda>_.
     whenReady (managedCerts (apiTLS cl)) (reconcileCertificates (ce_Domain (oe_Cluster env)) (oe_Certificates env) cl)
       (tunnelPrerequisites env cl))"

section \<open>The whole handler\<close>

definition viewOf :: "'w owned_env \<Rightarrow> stateful_set \<Rightarrow> statefulset_view" where
  "viewOf env s = \<lparr>sts_Replicas = sf_Replicas s, sts_ReadyReplicas = sf_ReadyReplicas s,
     sts_SelectorText = oe_FormatSelector env (sf_Selector s)\<rparr>"

definition outcomeOf :: "reconcile_result \<Rightarrow> cluster_failure + requeue" where
  "outcomeOf r = (case r of Done \<Rightarrow> Inr NoRequeue | RequeueAfter d \<Rightarrow> Inr (After d) | Failed e \<Rightarrow> Inl (ObjectFailure (ApiFailure e)))"

definition failW :: "(failure + 'a) \<times> 'w \<Rightarrow> (cluster_failure + 'a) \<times> 'w" where
  "failW = map_prod (map_sum ObjectFailure id) id"

text \<open>
  From the plan on. The ports a Prometheus output sets itself are written into the map of the plan that
  is already in the cache, so they stay there when a service fails.
\<close>

definition reconcileWorkload ::
  "'w owned_env \<Rightarrow> time \<Rightarrow> cluster \<Rightarrow> plans \<Rightarrow> 'w \<Rightarrow> (cluster_failure + requeue) \<times> plans \<times> 'w" where
  "reconcileWorkload env now cl plans w =
     (case reconcilePlan (oe_Cluster env) now cl plans w of
        (Inl e, w) \<Rightarrow> (Inl (PlanFailure e), plans, w)
      | (Inr (pipelines, pds, plan, plans), w) \<Rightarrow>
          (case reconcileStatefulSet (oe_Marshal env) (ce_Domain (oe_Cluster env)) (oe_ConfigMaps env) (oe_StatefulSets env) cl
                  (ap_TunnelTargetMatches plan) w of
             (Inl e, w) \<Rightarrow> (Inl (ObjectFailure e), plans, w)
           | (Inr sts, w) \<Rightarrow>
               (case reconcilePrometheusServices (oe_ListenYaml env) (oe_Services env) cl pds (ap_PrometheusPorts plan, w) of
                  (r, ports, w) \<Rightarrow>
                    (let plan = plan\<lparr>ap_PrometheusPorts := ports\<rparr>;
                         plans = CachePlan (m_Namespace (cl_Meta cl)) (m_Name (cl_Meta cl)) plan plans
                     in case r of
                          Inl e \<Rightarrow> (Inl (ObjectFailure e), plans, w)
                        | Inr _ \<Rightarrow>
                            (case reconcileApply (oe_Cluster env) now cl (viewOf env sts) pipelines pds plan w of
                               (r, w) \<Rightarrow> (outcomeOf r, plans, w))))))"

definition Reconcile ::
  "'w owned_env \<Rightarrow> time \<Rightarrow> string \<Rightarrow> string \<Rightarrow> plans \<Rightarrow> 'w \<Rightarrow> (cluster_failure + requeue) \<times> plans \<times> 'w" where
  "Reconcile env now reqNamespace reqName plans w =
     (case oe_GetCluster env reqNamespace reqName w of
        Inl NotFound \<Rightarrow>
          (case failW (removeWorkload env reqNamespace reqName reqNamespace reqName w) of
             (Inl e, w) \<Rightarrow> (Inl e, plans, w)
           | (Inr _, w) \<Rightarrow> (Inr NoRequeue, cleanupPlan reqNamespace reqName plans, w))
      | Inl e \<Rightarrow> (Inl (ObjectFailure (ApiFailure e)), plans, w)
      | Inr cl \<Rightarrow>
          if m_Deleting (cl_Meta cl)
          then let plans = cleanupPlan reqNamespace reqName plans
               in if clusterFinalizer \<in> set (m_Finalizers (cl_Meta cl))
                  then (case failW (removeOwned env reqNamespace reqName cl w) of (r, w) \<Rightarrow> (map_sum id (\<lambda>_. NoRequeue) r, plans, w))
                  else (Inr NoRequeue, plans, w)
          else if clusterFinalizer \<notin> set (m_Finalizers (cl_Meta cl))
          then (case failW (updateCluster env (AddFinalizer cl) w) of (r, w) \<Rightarrow> (map_sum id (\<lambda>_. Requeue) r, plans, w))
          else (case failW (reconcilePrerequisites env cl w) of
                  (Inl e, w) \<Rightarrow> (Inl e, plans, w)
                | (Inr False, w) \<Rightarrow> (Inr (After (2 * second)), plans, w)
                | (Inr True, w) \<Rightarrow> reconcileWorkload env now cl plans w))"

end
