(* ===== verification/Reconcile_Correct.thy ===== *)
theory Reconcile_Correct
  imports Cluster_Reconcile Cluster_Correct
begin

text \<open>
  The cluster controller against a reliable server. The view of a world is its stores, one per kind;
  the properties say what a pass over a cluster leaves in them: after a deletion, before the
  certificates are ready, and for the StatefulSet.
\<close>

section \<open>The stores of a world\<close>

record 'x stores =
  st_Certs :: "certificate objstore"
  st_Services :: "service_object objstore"
  st_ConfigMaps :: "config_map_object objstore"
  st_Sets :: "stateful_set objstore"
  st_Clusters :: "cluster objstore"
  st_Rest :: 'x \<comment> \<open>pods, pipelines, everything else\<close>

text \<open>
  All clients are reliable on their store and leave the others alone; a cluster that is marked for
  deletion goes with its last finalizer.
\<close>

definition reliableEnv :: "'w owned_env \<Rightarrow> ('w \<Rightarrow> 'x stores) \<Rightarrow> bool" where
  "reliableEnv env view \<longleftrightarrow>
     reliableObjects certKind id (oe_Certificates env) (\<lambda>w. st_Certs (view w)) (\<lambda>w. (view w)\<lparr>st_Certs := Map.empty\<rparr>) \<and>
     reliableObjects svcKind serviceDefaults (oe_Services env) (\<lambda>w. st_Services (view w)) (\<lambda>w. (view w)\<lparr>st_Services := Map.empty\<rparr>) \<and>
     reliableObjects cmKind id (oe_ConfigMaps env) (\<lambda>w. st_ConfigMaps (view w)) (\<lambda>w. (view w)\<lparr>st_ConfigMaps := Map.empty\<rparr>) \<and>
     reliableObjects stsKind id (oe_StatefulSets env) (\<lambda>w. st_Sets (view w)) (\<lambda>w. (view w)\<lparr>st_Sets := Map.empty\<rparr>) \<and>
     (\<forall>ns n w. oe_GetCluster env ns n w = (case st_Clusters (view w) (ns, n) of None \<Rightarrow> Inl NotFound | Some cl \<Rightarrow> Inr cl)) \<and>
     (\<forall>w ns n cl. st_Clusters (view w) (ns, n) = Some cl \<longrightarrow> m_Namespace (cl_Meta cl) = ns \<and> m_Name (cl_Meta cl) = n) \<and>
     (\<forall>cl w. \<exists>w'. oe_UpdateCluster env cl w = (None, w') \<and> view w' = (view w)\<lparr>st_Clusters := (st_Clusters (view w))
        ((m_Namespace (cl_Meta cl), m_Name (cl_Meta cl)) :=
           (if m_Deleting (cl_Meta cl) \<and> m_Finalizers (cl_Meta cl) = [] then None else Some cl))\<rparr>)"

lemma reliableEnv_kinds:
  assumes "reliableEnv env view"
  shows "reliableObjects certKind id (oe_Certificates env) (\<lambda>w. st_Certs (view w)) (\<lambda>w. (view w)\<lparr>st_Certs := Map.empty\<rparr>)"
    and "reliableObjects svcKind serviceDefaults (oe_Services env) (\<lambda>w. st_Services (view w)) (\<lambda>w. (view w)\<lparr>st_Services := Map.empty\<rparr>)"
    and "reliableObjects cmKind id (oe_ConfigMaps env) (\<lambda>w. st_ConfigMaps (view w)) (\<lambda>w. (view w)\<lparr>st_ConfigMaps := Map.empty\<rparr>)"
    and "reliableObjects stsKind id (oe_StatefulSets env) (\<lambda>w. st_Sets (view w)) (\<lambda>w. (view w)\<lparr>st_Sets := Map.empty\<rparr>)"
  using assms unfolding reliableEnv_def by blast+

lemma reliableEnv_get:
  "reliableEnv env view \<Longrightarrow> oe_GetCluster env ns n w = (case st_Clusters (view w) (ns, n) of None \<Rightarrow> Inl NotFound | Some cl \<Rightarrow> Inr cl)"
  unfolding reliableEnv_def by blast

lemma reliableEnv_named:
  "reliableEnv env view \<Longrightarrow> st_Clusters (view w) (ns, n) = Some cl \<Longrightarrow> m_Namespace (cl_Meta cl) = ns \<and> m_Name (cl_Meta cl) = n"
  unfolding reliableEnv_def by blast

lemma updateCluster_reliable:
  assumes "reliableEnv env view"
  obtains w' where "updateCluster env cl w = (Inr (), w')"
    and "view w' = (view w)\<lparr>st_Clusters := (st_Clusters (view w))((m_Namespace (cl_Meta cl), m_Name (cl_Meta cl)) :=
           (if m_Deleting (cl_Meta cl) \<and> m_Finalizers (cl_Meta cl) = [] then None else Some cl))\<rparr>"
proof -
  obtain w' where "oe_UpdateCluster env cl w = (None, w')"
    "view w' = (view w)\<lparr>st_Clusters := (st_Clusters (view w))((m_Namespace (cl_Meta cl), m_Name (cl_Meta cl)) :=
           (if m_Deleting (cl_Meta cl) \<and> m_Finalizers (cl_Meta cl) = [] then None else Some cl))\<rparr>"
    using assms unfolding reliableEnv_def by blast
  with that show thesis by (simp add: updateCluster_def)
qed

text \<open>One store changed and the others blanked out equal: the change of the view.\<close>

lemma view_change:
  "st_Certs v' = Xce \<Longrightarrow> v'\<lparr>st_Certs := Map.empty\<rparr> = v\<lparr>st_Certs := Map.empty\<rparr> \<Longrightarrow> v' = v\<lparr>st_Certs := Xce\<rparr>"
  "st_Services v' = Xse \<Longrightarrow> v'\<lparr>st_Services := Map.empty\<rparr> = v\<lparr>st_Services := Map.empty\<rparr> \<Longrightarrow> v' = v\<lparr>st_Services := Xse\<rparr>"
  "st_ConfigMaps v' = Xco \<Longrightarrow> v'\<lparr>st_ConfigMaps := Map.empty\<rparr> = v\<lparr>st_ConfigMaps := Map.empty\<rparr> \<Longrightarrow> v' = v\<lparr>st_ConfigMaps := Xco\<rparr>"
  "st_Sets v' = Xst \<Longrightarrow> v'\<lparr>st_Sets := Map.empty\<rparr> = v\<lparr>st_Sets := Map.empty\<rparr> \<Longrightarrow> v' = v\<lparr>st_Sets := Xst\<rparr>"
  by (cases v; cases v'; simp)+

section \<open>Deletion\<close>

lemma stsKind_sels [simp]:
  "k_Meta stsKind = sf_Meta" "k_Controller stsKind = sf_Controller"
  "k_SetController stsKind c x = x\<lparr>sf_Controller := c\<rparr>" "k_Name stsKind x = m_Name (sf_Meta x)"
  "k_Namespace stsKind x = m_Namespace (sf_Meta x)"
  "k_Key stsKind x = (m_Namespace (sf_Meta x), m_Name (sf_Meta x))"
  by (simp_all add: stsKind_def k_Key_def k_Name_def k_Namespace_def)

text \<open>A store without the objects of a namespace that carry the labels.\<close>

definition dropMatching :: "'o kind \<Rightarrow> string \<Rightarrow> labels \<Rightarrow> 'o objstore \<Rightarrow> 'o objstore" where
  "dropMatching K ns wanted A = (\<lambda>k. case A k of
      None \<Rightarrow> None
    | Some x \<Rightarrow> if fst k = ns \<and> matchingLabels wanted (m_Labels (k_Meta K x)) then None else Some x)"

lemma cleanupPrometheus_deleteMatching:
  assumes "reliableObjects svcKind norm ob repr rest"
  shows "cleanupPrometheusServices ob ns name w = deleteMatching svcKind ob ns (prometheusWanted name) w"
proof -
  obtain xs where "ob_list ob ns (prometheusWanted name) w = Inr xs"
    using assms by (rule object_list)
  then show ?thesis
    by (simp add: cleanupPrometheusServices_def listPrometheusServicesForCluster_def bindW_def apiW_def deleteMatching_def)
qed

text \<open>The stores after each part of the clean-up.\<close>

definition withoutWorkload :: "string \<Rightarrow> string \<Rightarrow> 'x stores \<Rightarrow> 'x stores" where
  "withoutWorkload ns name v =
     v\<lparr>st_Sets := (st_Sets v)((ns, resourcePrefix @ name) := None),
       st_Services := dropMatching svcKind ns (prometheusWanted name) ((st_Services v)((ns, resourcePrefix @ name) := None))\<rparr>"

definition withoutCerts :: "cluster \<Rightarrow> certificate objstore \<Rightarrow> certificate objstore" where
  "withoutCerts cl A =
     (let ns = m_Namespace (cl_Meta cl);
          A = (if managedCerts (apiTLS cl) then dropMatching certKind ns (clusterWanted cl) A else A);
          A = (if managedCerts (tunnelTLS cl) then dropMatching certKind ns (typeWanted LabelValueCertTypeTunnel cl) A else A)
      in if managedCerts (cs_ClientTLS (cl_Spec cl)) then A((ns, clientCertName (m_Name (cl_Meta cl))) := None) else A)"

definition withoutOwned :: "cluster \<Rightarrow> 'x stores \<Rightarrow> 'x stores" where
  "withoutOwned cl v =
     (let ns = m_Namespace (cl_Meta cl); v = withoutWorkload ns (m_Name (cl_Meta cl)) v;
          cl' = RemoveFinalizer cl
      in v\<lparr>st_Certs := withoutCerts cl (st_Certs v),
           st_ConfigMaps := (if hasIssuer (apiTLS cl) then (st_ConfigMaps v)((ns, controllerCAName cl) := None) else st_ConfigMaps v),
           st_Services := (if cs_GRPCTunnel (cl_Spec cl) \<noteq> None then (st_Services v)((ns, tunnelServiceName cl) := None) else st_Services v),
           st_Clusters := (st_Clusters v)((ns, m_Name (cl_Meta cl)) := (if m_Finalizers (cl_Meta cl') = [] then None else Some cl'))\<rparr>)"

lemma removeWorkload_reliable:
  assumes rel: "reliableEnv env view"
  obtains w' where "removeWorkload env ns name ns name w = (Inr (), w')" and "view w' = withoutWorkload ns name (view w)"
proof -
  obtain w1 where w1: "ensureAbsent stsKind (oe_StatefulSets env) ns (resourcePrefix @ name) w = (Inr (), w1)"
    "st_Sets (view w1) = (st_Sets (view w))((ns, resourcePrefix @ name) := None)"
    "(view w1)\<lparr>st_Sets := Map.empty\<rparr> = (view w)\<lparr>st_Sets := Map.empty\<rparr>"
    using reliableEnv_kinds(4) [OF rel] by (rule ensureAbsent_reliable)
  obtain w2 where w2: "ensureAbsent svcKind (oe_Services env) ns (resourcePrefix @ name) w1 = (Inr (), w2)"
    "st_Services (view w2) = (st_Services (view w1))((ns, resourcePrefix @ name) := None)"
    "(view w2)\<lparr>st_Services := Map.empty\<rparr> = (view w1)\<lparr>st_Services := Map.empty\<rparr>"
    using reliableEnv_kinds(2) [OF rel] by (rule ensureAbsent_reliable)
  obtain w3 where w3: "deleteMatching svcKind (oe_Services env) ns (prometheusWanted name) w2 = (Inr (), w3)"
    "st_Services (view w3) = dropMatching svcKind ns (prometheusWanted name) (st_Services (view w2))"
    "(view w3)\<lparr>st_Services := Map.empty\<rparr> = (view w2)\<lparr>st_Services := Map.empty\<rparr>"
    using reliableEnv_kinds(2) [OF rel] unfolding dropMatching_def by (rule deleteMatching_reliable)
  have "view w3 = withoutWorkload ns name (view w)"
    unfolding view_change(2) [OF w3(2,3)] view_change(2) [OF w2(2,3)] view_change(4) [OF w1(2,3)]
    by (simp add: withoutWorkload_def)
  with w1(1) w2(1) w3(1) show thesis
    by (intro that [of w3]) (simp_all add: removeWorkload_def ensureStatefulSetAbsent_def ensureServiceAbsent_def bindW_def
        cleanupPrometheus_deleteMatching [OF reliableEnv_kinds(2) [OF rel]])
qed

text \<open>The steps of the clean-up as changes of the view.\<close>

lemma cleanup_views:
  assumes rel: "reliableEnv env view"
  shows "\<exists>w'. cleanupCertificates (oe_Certificates env) cl w = (Inr (), w') \<and>
      view w' = (view w)\<lparr>st_Certs := dropMatching certKind (m_Namespace (cl_Meta cl)) (clusterWanted cl) (st_Certs (view w))\<rparr>"
    and "\<exists>w'. cleanupTunnelCertificates (oe_Certificates env) cl w = (Inr (), w') \<and>
      view w' = (view w)\<lparr>st_Certs := dropMatching certKind (m_Namespace (cl_Meta cl)) (typeWanted LabelValueCertTypeTunnel cl) (st_Certs (view w))\<rparr>"
    and "\<exists>w'. cleanupClientTLSCertificates (oe_Certificates env) cl w = (Inr (), w') \<and>
      view w' = (view w)\<lparr>st_Certs := (st_Certs (view w))((m_Namespace (cl_Meta cl), clientCertName (m_Name (cl_Meta cl))) := None)\<rparr>"
    and "\<exists>w'. cleanupControllerCA (oe_ConfigMaps env) cl w = (Inr (), w') \<and>
      view w' = (view w)\<lparr>st_ConfigMaps := (st_ConfigMaps (view w))((m_Namespace (cl_Meta cl), controllerCAName cl) := None)\<rparr>"
    and "\<exists>w'. cleanupTunnelService (oe_Services env) cl w = (Inr (), w') \<and>
      view w' = (view w)\<lparr>st_Services := (st_Services (view w))((m_Namespace (cl_Meta cl), tunnelServiceName cl) := None)\<rparr>"
  unfolding cleanupCertificates_def cleanupTunnelCertificates_def cleanupClientTLSCertificates_def cleanupControllerCA_def
    cleanupTunnelService_def dropMatching_def
  by (rule deleteMatching_reliable [OF reliableEnv_kinds(1) [OF rel]], blast intro: view_change(1),
      rule deleteMatching_reliable [OF reliableEnv_kinds(1) [OF rel]], blast intro: view_change(1),
      rule deleteObject_reliable [OF reliableEnv_kinds(1) [OF rel]], blast intro: view_change(1),
      rule deleteObject_reliable [OF reliableEnv_kinds(3) [OF rel]], blast intro: view_change(3),
      rule deleteObject_reliable [OF reliableEnv_kinds(2) [OF rel]], blast intro: view_change(2))

lemma when_view:
  "\<exists>w'. f w = (Inr (), w') \<and> view w' = v \<Longrightarrow> \<exists>w'. whenW b f w = (Inr (), w') \<and> view w' = (if b then v else view w)"
  by (cases b) (auto simp: whenW_def)

lemma removeOwned_reliable:
  assumes rel: "reliableEnv env view" and del: "m_Deleting (cl_Meta cl)"
  obtains w' where "removeOwned env (m_Namespace (cl_Meta cl)) (m_Name (cl_Meta cl)) cl w = (Inr (), w')"
    and "view w' = withoutOwned cl (view w)"
proof -
  let ?ns = "m_Namespace (cl_Meta cl)" and ?n = "m_Name (cl_Meta cl)"
  note views = cleanup_views [OF rel, of cl]
  obtain w1 where w1: "removeWorkload env ?ns ?n ?ns ?n w = (Inr (), w1)" "view w1 = withoutWorkload ?ns ?n (view w)"
    using rel by (rule removeWorkload_reliable)
  obtain w2 where w2: "whenW (managedCerts (apiTLS cl)) (cleanupCertificates (oe_Certificates env) cl) w1 = (Inr (), w2)"
    "view w2 = (if managedCerts (apiTLS cl)
       then (view w1)\<lparr>st_Certs := dropMatching certKind ?ns (clusterWanted cl) (st_Certs (view w1))\<rparr> else view w1)"
    using when_view [where f = "cleanupCertificates (oe_Certificates env) cl", OF views(1) [of w1]] by blast
  obtain w3 where w3: "whenW (hasIssuer (apiTLS cl)) (cleanupControllerCA (oe_ConfigMaps env) cl) w2 = (Inr (), w3)"
    "view w3 = (if hasIssuer (apiTLS cl)
       then (view w2)\<lparr>st_ConfigMaps := (st_ConfigMaps (view w2))((?ns, controllerCAName cl) := None)\<rparr> else view w2)"
    using when_view [where f = "cleanupControllerCA (oe_ConfigMaps env) cl", OF views(4) [of w2]] by blast
  obtain w4 where w4: "whenW (managedCerts (tunnelTLS cl)) (cleanupTunnelCertificates (oe_Certificates env) cl) w3 = (Inr (), w4)"
    "view w4 = (if managedCerts (tunnelTLS cl)
       then (view w3)\<lparr>st_Certs := dropMatching certKind ?ns (typeWanted LabelValueCertTypeTunnel cl) (st_Certs (view w3))\<rparr> else view w3)"
    using when_view [where f = "cleanupTunnelCertificates (oe_Certificates env) cl", OF views(2) [of w3]] by blast
  obtain w5 where w5: "whenW (managedCerts (cs_ClientTLS (cl_Spec cl))) (cleanupClientTLSCertificates (oe_Certificates env) cl) w4 = (Inr (), w5)"
    "view w5 = (if managedCerts (cs_ClientTLS (cl_Spec cl))
       then (view w4)\<lparr>st_Certs := (st_Certs (view w4))((?ns, clientCertName ?n) := None)\<rparr> else view w4)"
    using when_view [where f = "cleanupClientTLSCertificates (oe_Certificates env) cl", OF views(3) [of w4]] by blast
  obtain w6 where w6: "whenW (cs_GRPCTunnel (cl_Spec cl) \<noteq> None) (cleanupTunnelService (oe_Services env) cl) w5 = (Inr (), w6)"
    "view w6 = (if cs_GRPCTunnel (cl_Spec cl) \<noteq> None
       then (view w5)\<lparr>st_Services := (st_Services (view w5))((?ns, tunnelServiceName cl) := None)\<rparr> else view w5)"
    using when_view [where f = "cleanupTunnelService (oe_Services env) cl", OF views(5) [of w5]] by blast
  obtain w7 where w7: "updateCluster env (RemoveFinalizer cl) w6 = (Inr (), w7)"
    "view w7 = (view w6)\<lparr>st_Clusters := (st_Clusters (view w6))((m_Namespace (cl_Meta (RemoveFinalizer cl)), m_Name (cl_Meta (RemoveFinalizer cl))) :=
       (if m_Deleting (cl_Meta (RemoveFinalizer cl)) \<and> m_Finalizers (cl_Meta (RemoveFinalizer cl)) = [] then None else Some (RemoveFinalizer cl)))\<rparr>"
    using rel by (rule updateCluster_reliable)
  have "view w7 = withoutOwned cl (view w)"
    unfolding w7(2) w6(2) w5(2) w4(2) w3(2) w2(2) w1(2) using del
    by (simp add: withoutOwned_def withoutCerts_def withoutWorkload_def Let_def RemoveFinalizer_def setFinalizers_def)
  with w1(1) w2(1) w3(1) w4(1) w5(1) w6(1) w7(1) show thesis
    by (intro that [of w7]) (simp_all add: removeOwned_def bindW_def)
qed

text \<open>What the clean-up takes away, and what it does not.\<close>

lemma dropMatching_cases: "dropMatching K ns wanted A k = None \<or> dropMatching K ns wanted A k = A k"
  by (simp add: dropMatching_def split: option.split)

lemma dropMatching_Some:
  "dropMatching K ns wanted A k = Some x \<longleftrightarrow> A k = Some x \<and> \<not> (fst k = ns \<and> matchingLabels wanted (m_Labels (k_Meta K x)))"
  by (auto simp: dropMatching_def split: option.splits if_splits)

lemma withoutCerts_cases: "withoutCerts cl A k = None \<or> withoutCerts cl A k = A k"
proof -
  have "\<exists>x. withoutCerts cl A k = Some x \<Longrightarrow> withoutCerts cl A k = A k"
    by (auto simp: withoutCerts_def Let_def dropMatching_Some split: if_splits)
  then show ?thesis by (cases "withoutCerts cl A k") auto
qed

lemma withoutCerts_gone:
  "managedCerts (apiTLS cl) \<Longrightarrow> withoutCerts cl A (m_Namespace (cl_Meta cl), n) = Some c \<Longrightarrow>
   \<not> matchingLabels (clusterWanted cl) (m_Labels (crt_Meta c))"
  by (auto simp: withoutCerts_def Let_def dropMatching_Some split: if_splits)

lemma withoutCerts_kept:
  assumes "A k = Some c" and "fst k \<noteq> m_Namespace (cl_Meta cl) \<or>
      gget (m_Labels (crt_Meta c)) LabelClusterName \<noteq> Some (m_Name (cl_Meta cl)) \<and> snd k \<noteq> clientCertName (m_Name (cl_Meta cl))"
  shows "withoutCerts cl A k = Some c"
proof -
  have "\<not> (fst k = m_Namespace (cl_Meta cl) \<and> matchingLabels (clusterWanted cl) (m_Labels (crt_Meta c)))"
    "\<not> (fst k = m_Namespace (cl_Meta cl) \<and> matchingLabels (typeWanted type cl) (m_Labels (crt_Meta c)))" for type
    using assms(2) by (auto simp: matchingLabels_def clusterWanted_def typeWanted_def)
  with assms show ?thesis
    by (cases k) (auto simp: withoutCerts_def Let_def dropMatching_Some)
qed

lemma withoutOwned_sels [simp]:
  "st_Sets (withoutOwned cl v) = (st_Sets v)((m_Namespace (cl_Meta cl), resourcePrefix @ m_Name (cl_Meta cl)) := None)"
  "st_Certs (withoutOwned cl v) = withoutCerts cl (st_Certs v)" "st_Rest (withoutOwned cl v) = st_Rest v"
  by (simp_all add: withoutOwned_def withoutWorkload_def Let_def)

lemma withoutOwned_service:
  assumes "st_Services (withoutOwned cl v) k = Some s"
  shows "st_Services v k = Some s \<and> k \<noteq> (m_Namespace (cl_Meta cl), resourcePrefix @ m_Name (cl_Meta cl)) \<and>
    \<not> (fst k = m_Namespace (cl_Meta cl) \<and> matchingLabels (prometheusWanted (m_Name (cl_Meta cl))) (m_Labels (svc_Meta s))) \<and>
    \<not> (k = (m_Namespace (cl_Meta cl), tunnelServiceName cl) \<and> cs_GRPCTunnel (cl_Spec cl) \<noteq> None)"
  using assms by (auto simp: withoutOwned_def withoutWorkload_def Let_def dropMatching_Some split: if_splits)


section \<open>Certificates before pods\<close>

text \<open>The certificates a cluster of \<open>n\<close> replicas waits for.\<close>

definition apiCerts :: "string \<Rightarrow> cluster \<Rightarrow> int \<Rightarrow> certificate list" where
  "apiCerts domain cl n =
     (if managedCerts (apiTLS cl) then map (apiCertificate domain cl (ct_IssuerRef (the (apiTLS cl)))) [0..n - 1] else [])"

definition tunnelCerts :: "string \<Rightarrow> cluster \<Rightarrow> int \<Rightarrow> certificate list" where
  "tunnelCerts domain cl n =
     (if managedCerts (tunnelTLS cl)
      then map (tunnelCertificate domain cl (the (cs_GRPCTunnel (cl_Spec cl))) (ct_IssuerRef (the (tunnelTLS cl)))) [0..n - 1] else [])"

definition clientCerts :: "cluster \<Rightarrow> certificate list" where
  "clientCerts cl =
     (if managedCerts (cs_ClientTLS (cl_Spec cl))
      then [buildClientTLSCertificate cl (ct_IssuerRef (the (cs_ClientTLS (cl_Spec cl)))) (clientCertName (m_Name (cl_Meta cl)))] else [])"

definition allReady :: "certificate list \<Rightarrow> certificate objstore \<Rightarrow> bool" where
  "allReady cs A = list_all (readyAt A) cs"

text \<open>The pods, the clusters and the rest of the world are as they were.\<close>

definition samePods :: "'x stores \<Rightarrow> 'x stores \<Rightarrow> bool" where
  "samePods v v' \<longleftrightarrow> st_Sets v' = st_Sets v \<and> st_Clusters v' = st_Clusters v \<and> st_Rest v' = st_Rest v"

lemma samePods_refl [simp]: "samePods v v"
  by (simp add: samePods_def)

lemma samePods_trans: "samePods u v \<Longrightarrow> samePods v w \<Longrightarrow> samePods u w"
  by (simp add: samePods_def)

lemma samePods_blank:
  "v'\<lparr>st_Certs := Map.empty\<rparr> = v\<lparr>st_Certs := Map.empty\<rparr> \<Longrightarrow> samePods v v'"
  "v'\<lparr>st_Services := Map.empty\<rparr> = v\<lparr>st_Services := Map.empty\<rparr> \<Longrightarrow> samePods v v' \<and> st_Certs v' = st_Certs v"
  "v'\<lparr>st_ConfigMaps := Map.empty\<rparr> = v\<lparr>st_ConfigMaps := Map.empty\<rparr> \<Longrightarrow> samePods v v' \<and> st_Certs v' = st_Certs v"
  by (cases v; cases v'; simp add: samePods_def)+

lemma managedCerts_issued: "managedCerts tls \<Longrightarrow> issuedBy tls (ct_IssuerRef (the tls))"
  by (auto simp: managedCerts_def issuedBy_def split: option.splits)

lemma synced_keeps_ready:
  assumes "podCertsSynced cl n build wanted ordinal A A'" and "0 \<le> n"
    and "\<And>i. 0 \<le> i \<Longrightarrow> i < n \<Longrightarrow> ordinal (m_Name (crt_Meta (build i))) = i" and "ordinal (m_Name (crt_Meta c)) = - 1"
  shows "readyAt A' c = readyAt A c"
proof -
  have "A' (certKey c) = A (certKey c)"
    by (rule synced_other [OF assms(1)]) (use assms in auto)
  then show ?thesis by (simp add: readyAt_def)
qed

text \<open>The three stages: what they report, and that they leave the later ones' certificates alone.\<close>

lemma api_stage:
  assumes rel: "reliableEnv env view" and n: "cs_Replicas (cl_Spec cl) = Some n" "0 \<le> n" "n < 2 ^ 63"
    and managed: "managedCerts (apiTLS cl)"
  shows "\<exists>w'. reconcileCertificates domain (oe_Certificates env) cl w = (Inr (allReady (apiCerts domain cl n) (st_Certs (view w))), w') \<and>
    samePods (view w) (view w') \<and>
    allReady (tunnelCerts domain cl n) (st_Certs (view w')) = allReady (tunnelCerts domain cl n) (st_Certs (view w)) \<and>
    allReady (clientCerts cl) (st_Certs (view w')) = allReady (clientCerts cl) (st_Certs (view w))"
proof -
  let ?iss = "ct_IssuerRef (the (apiTLS cl))"
  have issued: "issuedBy (Option.bind (cs_API (cl_Spec cl)) api_TLS) ?iss"
    using managedCerts_issued [OF managed] by (simp add: apiTLS_def)
  obtain w' where w': "reconcileCertificates domain (oe_Certificates env) cl w =
      (Inr (\<forall>i \<in> {0..<n}. readyAt (st_Certs (view w)) (apiCertificate domain cl ?iss i)), w')"
    "podCertsSynced cl n (apiCertificate domain cl ?iss) (clusterWanted cl) (apiOrdinal cl) (st_Certs (view w)) (st_Certs (view w'))"
    "(view w')\<lparr>st_Certs := Map.empty\<rparr> = (view w)\<lparr>st_Certs := Map.empty\<rparr>"
    using reliableEnv_kinds(1) [OF rel] issued n by (rule reconcileCertificates_sync)
  have ord: "apiOrdinal cl (m_Name (crt_Meta (apiCertificate domain cl ?iss i))) = i" if "0 \<le> i" "i < n" for i
    using api_certs.build_ordinal [of i cl domain ?iss] that n by simp
  note keep = synced_keeps_ready [OF w'(2) n(2) ord]
  have "allReady (tunnelCerts domain cl n) (st_Certs (view w')) = allReady (tunnelCerts domain cl n) (st_Certs (view w))"
    using keep [OF _ _ tunnel_no_apiOrdinal] by (auto simp: allReady_def tunnelCerts_def list_all_iff)
  moreover have "apiOrdinal cl (m_Name (crt_Meta (buildClientTLSCertificate cl iss (clientCertName (m_Name (cl_Meta cl)))))) = - 1" for iss
    by (simp add: apiOrdinal_def buildClientTLSCertificate_def Let_def newMeta_def ordinal_of_clientCert_as_apiCert)
  then have "allReady (clientCerts cl) (st_Certs (view w')) = allReady (clientCerts cl) (st_Certs (view w))"
    using keep by (auto simp: allReady_def clientCerts_def)
  ultimately show ?thesis
    using w'(1) managed samePods_blank(1) [OF w'(3)] by (auto simp: allReady_def apiCerts_def list_all_iff)
qed

lemma tunnel_stage:
  assumes rel: "reliableEnv env view" and n: "cs_Replicas (cl_Spec cl) = Some n" "0 \<le> n" "n < 2 ^ 63"
    and managed: "managedCerts (tunnelTLS cl)"
  shows "\<exists>w'. reconcileTunnelCertificates domain (oe_Certificates env) cl w = (Inr (allReady (tunnelCerts domain cl n) (st_Certs (view w))), w') \<and>
    samePods (view w) (view w') \<and> allReady (clientCerts cl) (st_Certs (view w')) = allReady (clientCerts cl) (st_Certs (view w))"
proof -
  let ?iss = "ct_IssuerRef (the (tunnelTLS cl))"
  obtain tunnel where tunnel: "cs_GRPCTunnel (cl_Spec cl) = Some tunnel"
    using managed by (cases "cs_GRPCTunnel (cl_Spec cl)") (auto simp: tunnelTLS_def managedCerts_def)
  have issued: "issuedBy (gt_TLS tunnel) ?iss"
    using managedCerts_issued [OF managed] tunnel by (simp add: tunnelTLS_def)
  obtain w' where w': "reconcileTunnelCertificates domain (oe_Certificates env) cl w =
      (Inr (\<forall>i \<in> {0..<n}. readyAt (st_Certs (view w)) (tunnelCertificate domain cl tunnel ?iss i)), w')"
    "podCertsSynced cl n (tunnelCertificate domain cl tunnel ?iss) (typeWanted LabelValueCertTypeTunnel cl) (tunnelOrdinal cl)
       (st_Certs (view w)) (st_Certs (view w'))"
    "(view w')\<lparr>st_Certs := Map.empty\<rparr> = (view w)\<lparr>st_Certs := Map.empty\<rparr>"
    using reliableEnv_kinds(1) [OF rel] tunnel issued n by (rule reconcileTunnelCertificates_sync)
  have ord: "tunnelOrdinal cl (m_Name (crt_Meta (tunnelCertificate domain cl tunnel ?iss i))) = i" if "0 \<le> i" "i < n" for i
    using tunnel_certs.build_ordinal [of i cl domain tunnel ?iss] that n by simp
  have "tunnelOrdinal cl (m_Name (crt_Meta (buildClientTLSCertificate cl iss (clientCertName (m_Name (cl_Meta cl)))))) = - 1" for iss
    by (simp add: tunnelOrdinal_def buildClientTLSCertificate_def Let_def newMeta_def ordinal_of_clientCert_as_tunnelCert)
  then have "allReady (clientCerts cl) (st_Certs (view w')) = allReady (clientCerts cl) (st_Certs (view w))"
    using synced_keeps_ready [OF w'(2) n(2) ord] by (auto simp: allReady_def clientCerts_def)
  then show ?thesis
    using w'(1) managed samePods_blank(1) [OF w'(3)] tunnel by (auto simp: allReady_def tunnelCerts_def list_all_iff)
qed

lemma client_stage:
  assumes rel: "reliableEnv env view" and managed: "managedCerts (cs_ClientTLS (cl_Spec cl))"
  shows "\<exists>w'. reconcileClientTLSCertificates (oe_Certificates env) cl w = (Inr (allReady (clientCerts cl) (st_Certs (view w))), w') \<and>
    samePods (view w) (view w')"
proof -
  let ?cert = "buildClientTLSCertificate cl (ct_IssuerRef (the (cs_ClientTLS (cl_Spec cl)))) (clientCertName (m_Name (cl_Meta cl)))"
  have cert: "m_Namespace (crt_Meta ?cert) = m_Namespace (cl_Meta cl)" "crt_Controller ?cert = None"
    by (simp_all add: buildClientTLSCertificate_def newMeta_def Let_def)
  obtain w' where w': "ensureCertificate (oe_Certificates env) cl ?cert w = (Inr (readyAt (st_Certs (view w)) ?cert), w')"
    "(view w')\<lparr>st_Certs := Map.empty\<rparr> = (view w)\<lparr>st_Certs := Map.empty\<rparr>"
    using reliableEnv_kinds(1) [OF rel] cert by (rule ensureCertificate_reliable)
  have "reconcileClientTLSCertificates (oe_Certificates env) cl w = ensureCertificate (oe_Certificates env) cl ?cert w"
    using managed by (auto simp: reconcileClientTLSCertificates_def managedCerts_def split: option.splits)
  then show ?thesis
    using w' managed samePods_blank(1) [OF w'(2)] by (simp add: allReady_def clientCerts_def)
qed

text \<open>The services and the CA in between touch neither pods nor certificates.\<close>

lemma headless_stage:
  assumes "reliableEnv env view"
  shows "\<exists>w'. reconcileHeadlessService (oe_Services env) cl w = (Inr (), w') \<and> samePods (view w) (view w') \<and> st_Certs (view w') = st_Certs (view w)"
  unfolding reconcileHeadlessService_def
  by (rule ensureOwned_reliable [OF reliableEnv_kinds(2) [OF assms] kindsOK(2), of "buildHeadlessService cl" cl changePorts w])
    (auto simp: buildHeadlessService_def newMeta_def dest: change_keeps(1) samePods_blank(2))

lemma tunnelService_stage:
  assumes "reliableEnv env view"
  shows "\<exists>w'. whenW b (reconcileTunnelService (oe_Services env) cl) w = (Inr (), w') \<and> samePods (view w) (view w')"
proof (cases "b \<and> cs_GRPCTunnel (cl_Spec cl) \<noteq> None")
  case True
  then obtain tunnel where tunnel: "cs_GRPCTunnel (cl_Spec cl) = Some tunnel" by blast
  have "\<exists>w'. ensureOwned svcKind (oe_Services env) cl (buildTunnelService cl tunnel) changeTunnelService w = (Inr (), w') \<and> samePods (view w) (view w')"
    by (rule ensureOwned_reliable [OF reliableEnv_kinds(2) [OF assms] kindsOK(2), of "buildTunnelService cl tunnel" cl changeTunnelService w])
      (auto simp: buildTunnelService_def newMeta_def Let_def dest: change_keeps(2) samePods_blank(2) split: option.split)
  with True tunnel show ?thesis by (simp add: whenW_def reconcileTunnelService_def)
qed (auto simp: whenW_def reconcileTunnelService_def returnW_def split: if_splits)

lemma ca_stage:
  assumes rel: "reliableEnv env view"
    and ca: "case ce_ReadFile (oe_Cluster env) (GetControllerCAPath (oe_Cluster env)) of Inl e \<Rightarrow> oe_IsNotExist env e | Inr _ \<Rightarrow> True"
  shows "\<exists>w'. whenW b (reconcileControllerCA (oe_Cluster env) (oe_IsNotExist env) (oe_ConfigMaps env) cl) w = (Inr (), w') \<and>
    samePods (view w) (view w') \<and> st_Certs (view w') = st_Certs (view w)"
proof (cases "b \<and> \<not> isl (ce_ReadFile (oe_Cluster env) (GetControllerCAPath (oe_Cluster env)))")
  case True
  then obtain caData where caData: "ce_ReadFile (oe_Cluster env) (GetControllerCAPath (oe_Cluster env)) = Inr caData"
    by (metis isl_def sum.exhaust_sel)
  let ?d = "\<lparr>cm_Meta = newMeta (controllerCAName cl) (m_Namespace (cl_Meta cl)) (ownedLabels cl), cm_Controller = None,
             cm_Data = [(''ca.crt'', caData)]\<rparr>"
  have "\<exists>w'. ensureOwned cmKind (oe_ConfigMaps env) cl ?d changeCA w = (Inr (), w') \<and> samePods (view w) (view w') \<and>
      st_Certs (view w') = st_Certs (view w)"
    by (rule ensureOwned_reliable [OF reliableEnv_kinds(3) [OF rel] kindsOK(3), of ?d cl changeCA w])
      (auto simp: newMeta_def changeCA_def dest: samePods_blank(3) split: if_splits)
  with True caData show ?thesis by (simp add: whenW_def reconcileControllerCA_def)
next
  case False
  with ca show ?thesis
    by (auto simp: whenW_def reconcileControllerCA_def returnW_def split: sum.splits)
qed

lemma whenReady_gate:
  assumes "needed \<Longrightarrow> \<exists>w1. certs w = (Inr certsOK, w1) \<and> R w1" and "\<not> needed \<Longrightarrow> certsOK \<and> R w"
    and "\<And>w1. R w1 \<Longrightarrow> \<exists>w2. next w1 = (Inr ok, w2) \<and> S w2" and "\<And>w1. R w1 \<Longrightarrow> S w1"
  shows "\<exists>w2. whenReady needed certs next w = (Inr (certsOK \<and> ok), w2) \<and> S w2"
proof (cases needed)
  case True
  then obtain w1 where w1: "certs w = (Inr certsOK, w1)" "R w1" using assms(1) by blast
  show ?thesis
  proof (cases certsOK)
    case True
    then show ?thesis
      using assms(3) [OF w1(2)] w1(1) \<open>needed\<close> by (auto simp: whenReady_def bindW_def)
  next
    case False
    then show ?thesis
      using assms(4) [OF w1(2)] w1(1) \<open>needed\<close> by (auto simp: whenReady_def bindW_def)
  qed
next
  case False
  then show ?thesis using assms(2,3) by (auto simp: whenReady_def)
qed

lemma clientPrerequisites_reliable:
  assumes rel: "reliableEnv env view"
  shows "\<exists>w'. clientPrerequisites env cl w = (Inr (allReady (clientCerts cl) (st_Certs (view w)) \<and> True), w') \<and> samePods (view w) (view w')"
  unfolding clientPrerequisites_def
proof (rule whenReady_gate [where R = "\<lambda>w'. samePods (view w) (view w')"])
  fix w1 assume "samePods (view w) (view w1)"
  then show "\<exists>w2. bindW (whenW (cs_GRPCTunnel (cl_Spec cl) \<noteq> None) (reconcileTunnelService (oe_Services env) cl)) (\<lambda>_. returnW True) w1 =
      (Inr True, w2) \<and> samePods (view w) (view w2)"
    using tunnelService_stage [OF rel, of "cs_GRPCTunnel (cl_Spec cl) \<noteq> None" cl w1] samePods_trans
    by (auto simp: bindW_def)
qed (use client_stage [OF rel] in \<open>auto simp: allReady_def clientCerts_def\<close>)

lemma tunnelPrerequisites_reliable:
  assumes rel: "reliableEnv env view" and n: "cs_Replicas (cl_Spec cl) = Some n" "0 \<le> n" "n < 2 ^ 63"
    and ca: "case ce_ReadFile (oe_Cluster env) (GetControllerCAPath (oe_Cluster env)) of Inl e \<Rightarrow> oe_IsNotExist env e | Inr _ \<Rightarrow> True"
  shows "\<exists>w'. tunnelPrerequisites env cl w = (Inr (allReady (tunnelCerts (ce_Domain (oe_Cluster env)) cl n) (st_Certs (view w)) \<and>
      allReady (clientCerts cl) (st_Certs (view w))), w') \<and> samePods (view w) (view w')"
proof -
  let ?d = "ce_Domain (oe_Cluster env)"
  let ?R = "\<lambda>w'. samePods (view w) (view w') \<and> allReady (clientCerts cl) (st_Certs (view w')) = allReady (clientCerts cl) (st_Certs (view w))"
  obtain w1 where w1: "whenW (hasIssuer (apiTLS cl)) (reconcileControllerCA (oe_Cluster env) (oe_IsNotExist env) (oe_ConfigMaps env) cl) w = (Inr (), w1)"
    "samePods (view w) (view w1)" "st_Certs (view w1) = st_Certs (view w)"
    using ca_stage [OF rel ca] by blast
  have "\<exists>w'. whenReady (managedCerts (tunnelTLS cl)) (reconcileTunnelCertificates ?d (oe_Certificates env) cl) (clientPrerequisites env cl) w1 =
      (Inr (allReady (tunnelCerts ?d cl n) (st_Certs (view w1)) \<and> allReady (clientCerts cl) (st_Certs (view w))), w') \<and> samePods (view w) (view w')"
  proof (rule whenReady_gate [where R = ?R])
    assume "managedCerts (tunnelTLS cl)"
    from tunnel_stage [OF rel n this, of ?d w1] w1 show "\<exists>w2. reconcileTunnelCertificates ?d (oe_Certificates env) cl w1 =
        (Inr (allReady (tunnelCerts ?d cl n) (st_Certs (view w1))), w2) \<and> ?R w2"
      by (auto intro: samePods_trans)
  next
    fix w2 assume R: "?R w2"
    with clientPrerequisites_reliable [OF rel, of cl w2]
    show "\<exists>w3. clientPrerequisites env cl w2 = (Inr (allReady (clientCerts cl) (st_Certs (view w))), w3) \<and> samePods (view w) (view w3)"
      by (auto intro: samePods_trans)
  qed (use w1 in \<open>auto simp: allReady_def tunnelCerts_def\<close>)
  with w1 show ?thesis by (auto simp: tunnelPrerequisites_def bindW_def)
qed

lemma prerequisites_reliable:
  assumes rel: "reliableEnv env view" and n: "cs_Replicas (cl_Spec cl) = Some n" "0 \<le> n" "n < 2 ^ 63"
    and ca: "case ce_ReadFile (oe_Cluster env) (GetControllerCAPath (oe_Cluster env)) of Inl e \<Rightarrow> oe_IsNotExist env e | Inr _ \<Rightarrow> True"
  shows "\<exists>w'. reconcilePrerequisites env cl w = (Inr (allReady (apiCerts (ce_Domain (oe_Cluster env)) cl n) (st_Certs (view w)) \<and>
      allReady (tunnelCerts (ce_Domain (oe_Cluster env)) cl n) (st_Certs (view w)) \<and> allReady (clientCerts cl) (st_Certs (view w))), w') \<and>
    samePods (view w) (view w')"
proof -
  let ?d = "ce_Domain (oe_Cluster env)"
  let ?later = "\<lambda>w. allReady (tunnelCerts ?d cl n) (st_Certs (view w)) \<and> allReady (clientCerts cl) (st_Certs (view w))"
  let ?R = "\<lambda>w'. samePods (view w) (view w') \<and> ?later w' = ?later w"
  obtain w1 where w1: "reconcileHeadlessService (oe_Services env) cl w = (Inr (), w1)" "samePods (view w) (view w1)"
    "st_Certs (view w1) = st_Certs (view w)"
    using headless_stage [OF rel] by blast
  have "\<exists>w'. whenReady (managedCerts (apiTLS cl)) (reconcileCertificates ?d (oe_Certificates env) cl) (tunnelPrerequisites env cl) w1 =
      (Inr (allReady (apiCerts ?d cl n) (st_Certs (view w1)) \<and> ?later w), w') \<and> samePods (view w) (view w')"
  proof (rule whenReady_gate [where R = ?R])
    assume "managedCerts (apiTLS cl)"
    from api_stage [OF rel n this, of ?d w1] w1 show "\<exists>w2. reconcileCertificates ?d (oe_Certificates env) cl w1 =
        (Inr (allReady (apiCerts ?d cl n) (st_Certs (view w1))), w2) \<and> ?R w2"
      by (auto intro: samePods_trans)
  next
    fix w2 assume R: "?R w2"
    obtain w3 where "tunnelPrerequisites env cl w2 = (Inr (?later w2), w3)" "samePods (view w2) (view w3)"
      using tunnelPrerequisites_reliable [OF rel n ca] by blast
    with R show "\<exists>w3. tunnelPrerequisites env cl w2 = (Inr (?later w), w3) \<and> samePods (view w) (view w3)"
      by (auto intro: samePods_trans)
  qed (use w1 in \<open>auto simp: allReady_def apiCerts_def\<close>)
  with w1 show ?thesis by (auto simp: reconcilePrerequisites_def bindW_def)
qed

text \<open>
  C6: Certificates before pods. A pass over a cluster goes on to the plan, the StatefulSet and the pods
  exactly when every certificate the cluster asks for (one per pod for the API and for the tunnel, one
  for the targets) was there and ready; otherwise it returns to come back in two seconds. Up to that
  decision no StatefulSet, no cluster, no pod and no cached plan has changed.
\<close>

theorem pods_wait_for_certificates:
  assumes rel: "reliableEnv env view" and cl: "st_Clusters (view w) (ns, name) = Some cl"
    and live: "\<not> m_Deleting (cl_Meta cl)" "clusterFinalizer \<in> set (m_Finalizers (cl_Meta cl))"
    and n: "cs_Replicas (cl_Spec cl) = Some n" "0 \<le> n" "n < 2 ^ 63"
    and ca: "case ce_ReadFile (oe_Cluster env) (GetControllerCAPath (oe_Cluster env)) of Inl e \<Rightarrow> oe_IsNotExist env e | Inr _ \<Rightarrow> True"
  shows "\<exists>w'. st_Sets (view w') = st_Sets (view w) \<and> st_Clusters (view w') = st_Clusters (view w) \<and> st_Rest (view w') = st_Rest (view w) \<and>
    Cluster_Reconcile.Reconcile env now ns name plans w =
      (if allReady (apiCerts (ce_Domain (oe_Cluster env)) cl n @ tunnelCerts (ce_Domain (oe_Cluster env)) cl n @ clientCerts cl) (st_Certs (view w))
       then reconcileWorkload env now cl plans w'
       else (Inr (After (2 * second)), plans, w'))"
proof -
  let ?d = "ce_Domain (oe_Cluster env)" and ?C = "st_Certs (view w)"
  obtain w' where w': "reconcilePrerequisites env cl w =
      (Inr (allReady (apiCerts ?d cl n) ?C \<and> allReady (tunnelCerts ?d cl n) ?C \<and> allReady (clientCerts cl) ?C), w')" "samePods (view w) (view w')"
    using prerequisites_reliable [OF rel n ca] by blast
  then have "Cluster_Reconcile.Reconcile env now ns name plans w =
      (if allReady (apiCerts ?d cl n) ?C \<and> allReady (tunnelCerts ?d cl n) ?C \<and> allReady (clientCerts cl) ?C
       then reconcileWorkload env now cl plans w' else (Inr (After (2 * second)), plans, w'))"
    using live by (simp add: Cluster_Reconcile.Reconcile_def reliableEnv_get [OF rel] cl failW_def split: bool.split)
  with w'(2) show ?thesis
    by (intro exI [of _ w']) (simp add: samePods_def allReady_def)
qed

section \<open>An environment in memory\<close>

record mem_world =
  mw_Certs :: "certificate list"
  mw_Services :: "service_object list"
  mw_ConfigMaps :: "config_map_object list"
  mw_Sets :: "stateful_set list"
  mw_Clusters :: "cluster list"

definition memCluster :: "cluster list \<Rightarrow> cluster objstore" where
  "memCluster cls k = find (\<lambda>cl. (m_Namespace (cl_Meta cl), m_Name (cl_Meta cl)) = k) cls"

definition memUpdateCluster :: "cluster \<Rightarrow> cluster list \<Rightarrow> cluster list" where
  "memUpdateCluster cl cls =
     (if m_Deleting (cl_Meta cl) \<and> m_Finalizers (cl_Meta cl) = []
      then filter (\<lambda>c. (m_Namespace (cl_Meta c), m_Name (cl_Meta c)) \<noteq> (m_Namespace (cl_Meta cl), m_Name (cl_Meta cl))) cls
      else cl # cls)"

lemma memCluster_key: "memCluster cls k = Some cl \<Longrightarrow> (m_Namespace (cl_Meta cl), m_Name (cl_Meta cl)) = k"
  by (auto simp: memCluster_def find_Some_iff)

lemma memCluster_update:
  "memCluster (memUpdateCluster cl cls) = (memCluster cls)((m_Namespace (cl_Meta cl), m_Name (cl_Meta cl)) :=
     (if m_Deleting (cl_Meta cl) \<and> m_Finalizers (cl_Meta cl) = [] then None else Some cl))"
proof
  fix k
  have "find (\<lambda>c. (m_Namespace (cl_Meta c), m_Name (cl_Meta c)) = k) (filter (\<lambda>c. (m_Namespace (cl_Meta c), m_Name (cl_Meta c)) \<noteq> k') cls) =
      (if k = k' then None else find (\<lambda>c. (m_Namespace (cl_Meta c), m_Name (cl_Meta c)) = k) cls)" for k'
    by (induction cls) auto
  then show "memCluster (memUpdateCluster cl cls) k = ((memCluster cls)((m_Namespace (cl_Meta cl), m_Name (cl_Meta cl)) :=
     (if m_Deleting (cl_Meta cl) \<and> m_Finalizers (cl_Meta cl) = [] then None else Some cl))) k"
    by (auto simp: memCluster_def memUpdateCluster_def)
qed

definition memView :: "mem_world \<Rightarrow> unit stores" where
  "memView w = \<lparr>st_Certs = memObj certKind (mw_Certs w), st_Services = memObj svcKind (mw_Services w),
     st_ConfigMaps = memObj cmKind (mw_ConfigMaps w), st_Sets = memObj stsKind (mw_Sets w),
     st_Clusters = memCluster (mw_Clusters w), st_Rest = ()\<rparr>"

definition memEnv :: "mem_world owned_env" where
  "memEnv = \<lparr>oe_Cluster = exEnvOver exReaders (\<lambda>_ _ _ w. (Inl [], w)),
     oe_Certificates = memObjects certKind mw_Certs (\<lambda>xs w. w\<lparr>mw_Certs := xs\<rparr>),
     oe_Services = defaulting serviceDefaults (memObjects svcKind mw_Services (\<lambda>xs w. w\<lparr>mw_Services := xs\<rparr>)),
     oe_ConfigMaps = memObjects cmKind mw_ConfigMaps (\<lambda>xs w. w\<lparr>mw_ConfigMaps := xs\<rparr>),
     oe_StatefulSets = memObjects stsKind mw_Sets (\<lambda>xs w. w\<lparr>mw_Sets := xs\<rparr>),
     oe_GetCluster = (\<lambda>ns n w. case memCluster (mw_Clusters w) (ns, n) of None \<Rightarrow> Inl NotFound | Some cl \<Rightarrow> Inr cl),
     oe_UpdateCluster = (\<lambda>cl w. (None, w\<lparr>mw_Clusters := memUpdateCluster cl (mw_Clusters w)\<rparr>)),
     oe_ListenYaml = (\<lambda>_. Inr ([], [])), oe_Marshal = (\<lambda>_. Inr []), oe_IsNotExist = (\<lambda>_. True), oe_FormatSelector = (\<lambda>_. [])\<rparr>"

lemma memEnv_reliable: "reliableEnv memEnv memView"
  unfolding reliableEnv_def
proof (intro conjI allI impI)
  show "reliableObjects certKind id (oe_Certificates memEnv) (\<lambda>w. st_Certs (memView w)) (\<lambda>w. (memView w)\<lparr>st_Certs := Map.empty\<rparr>)"
    using memObjects_reliable [of mw_Certs "\<lambda>xs w. w\<lparr>mw_Certs := xs\<rparr>" "\<lambda>w. (memView w)\<lparr>st_Certs := Map.empty\<rparr>" certKind]
    by (simp add: memEnv_def memView_def)
  show "reliableObjects svcKind serviceDefaults (oe_Services memEnv) (\<lambda>w. st_Services (memView w)) (\<lambda>w. (memView w)\<lparr>st_Services := Map.empty\<rparr>)"
    using memObjects_reliable [of mw_Services "\<lambda>xs w. w\<lparr>mw_Services := xs\<rparr>" "\<lambda>w. (memView w)\<lparr>st_Services := Map.empty\<rparr>" svcKind]
    by (auto simp: memEnv_def memView_def intro: defaulting_reliable)
  show "reliableObjects cmKind id (oe_ConfigMaps memEnv) (\<lambda>w. st_ConfigMaps (memView w)) (\<lambda>w. (memView w)\<lparr>st_ConfigMaps := Map.empty\<rparr>)"
    using memObjects_reliable [of mw_ConfigMaps "\<lambda>xs w. w\<lparr>mw_ConfigMaps := xs\<rparr>" "\<lambda>w. (memView w)\<lparr>st_ConfigMaps := Map.empty\<rparr>" cmKind]
    by (simp add: memEnv_def memView_def)
  show "reliableObjects stsKind id (oe_StatefulSets memEnv) (\<lambda>w. st_Sets (memView w)) (\<lambda>w. (memView w)\<lparr>st_Sets := Map.empty\<rparr>)"
    using memObjects_reliable [of mw_Sets "\<lambda>xs w. w\<lparr>mw_Sets := xs\<rparr>" "\<lambda>w. (memView w)\<lparr>st_Sets := Map.empty\<rparr>" stsKind]
    by (simp add: memEnv_def memView_def)
qed (auto simp: memEnv_def memView_def memCluster_update dest: memCluster_key split: option.split)

definition exLive :: cluster where
  "exLive = exTLSCluster\<lparr>cl_Meta := (cl_Meta exTLSCluster)\<lparr>m_Finalizers := [clusterFinalizer]\<rparr>\<rparr>"

definition exLeaving :: cluster where
  "exLeaving = exLive\<lparr>cl_Meta := (cl_Meta exLive)\<lparr>m_Deleting := True\<rparr>\<rparr>"

definition exMemWorld :: "cluster \<Rightarrow> mem_world" where
  "exMemWorld cl = \<lparr>mw_Certs = [apiCertificate ''d'' exTLSCluster ''ca'' 1], mw_Services = [], mw_ConfigMaps = [],
     mw_Sets = [], mw_Clusters = [cl]\<rparr>"


theorem pods_wait_for_certificates_witness:
  "\<exists>w'. Cluster_Reconcile.Reconcile memEnv 0 ''n'' ''c'' [] (exMemWorld exLive) = (Inr (After (2 * second)), [], w') \<and>
     st_Sets (memView w') = Map.empty"
proof -
  have cl: "st_Clusters (memView (exMemWorld exLive)) (''n'', ''c'') = Some exLive"
    and live: "\<not> m_Deleting (cl_Meta exLive)" "clusterFinalizer \<in> set (m_Finalizers (cl_Meta exLive))"
    and n: "cs_Replicas (cl_Spec exLive) = Some 2" "(0::int) \<le> 2" "(2::int) < 2 ^ 63"
    by code_simp+
  have ca: "case ce_ReadFile (oe_Cluster memEnv) (GetControllerCAPath (oe_Cluster memEnv)) of Inl e \<Rightarrow> oe_IsNotExist memEnv e | Inr _ \<Rightarrow> True"
    by (simp add: memEnv_def exEnvOver_def)
  have sets: "st_Sets (memView (exMemWorld exLive)) = Map.empty"
    by (rule ext) (simp add: memView_def exMemWorld_def memObj_def)
  have "\<not> allReady (apiCerts (ce_Domain (oe_Cluster memEnv)) exLive 2 @ tunnelCerts (ce_Domain (oe_Cluster memEnv)) exLive 2 @ clientCerts exLive)
      (st_Certs (memView (exMemWorld exLive)))"
    by code_simp
  with pods_wait_for_certificates [OF memEnv_reliable cl live n ca, of 0 "[]"] sets show ?thesis
    by auto
qed

end
