(* ===== verification/Stateful_Set_Correct.thy ===== *)
theory Stateful_Set_Correct
  imports Reconcile_Correct
begin

text \<open>
  The StatefulSet of a cluster under repeated passes: what a pass brings in line with the
  specification, that the next pass then writes nothing, and what it never touches.
\<close>

section \<open>A set that agrees with its specification\<close>

definition agreesWith :: "cluster \<Rightarrow> stateful_set \<Rightarrow> stateful_set \<Rightarrow> bool" where
  "agreesWith cl desired s \<longleftrightarrow>
     sf_Replicas s = cs_Replicas (cl_Spec cl) \<and> cs_Replicas (cl_Spec cl) \<noteq> None \<and>
     (case sf_Containers s of
        [] \<Rightarrow> False
      | c # _ \<Rightarrow> ctr_Image c = cs_Image (cl_Spec cl) \<and> resourcesEqual (ctr_Resources c) (cs_Resources (cl_Spec cl))) \<and>
     (\<forall>(k, v) \<in> set (sf_TemplateLabels desired). gget0 [] (sf_TemplateLabels s) k = v) \<and>
     sf_Selector s \<noteq> None \<and>
     volumesEqual (sf_Volumes s) (sf_Volumes desired)"

lemma agreesWith_controller [simp]: "agreesWith cl desired (s\<lparr>sf_Controller := c\<rparr>) = agreesWith cl desired s"
  by (simp add: agreesWith_def)

lemma resourceListEqual_refl: "gwf a \<Longrightarrow> resourceListEqual a a"
  by (auto simp: resourceListEqual_def list_all_iff gget_iff)

lemma gget_byName:
  "gget (fold (\<lambda>v m. gput m (vol_Name v) v) vs m) k =
     (case find (\<lambda>v. vol_Name v = k) (rev vs) of None \<Rightarrow> gget m k | Some v \<Rightarrow> Some v)"
  by (induction vs rule: rev_induct) (auto simp: gm.get_put)

lemma volumesEqual_refl:
  assumes "distinct (map vol_Name vs)"
  shows "volumesEqual vs vs"
proof -
  have "find (\<lambda>x. vol_Name x = vol_Name v) (rev vs) = Some v" if "v \<in> set vs" for v
    using that assms by (induction vs rule: rev_induct) auto
  then show ?thesis
    by (auto simp: volumesEqual_def list_all_iff gget_byName split: prod.split option.split)
qed

section \<open>The in-place update\<close>

text \<open>What the update of the labels leaves: every desired label, and nothing else changed.\<close>

lemma updateLabels_result:
  assumes "distinct (map fst ls)"
  shows "fold (\<lambda>(k, v) (u, s). if gget0 [] (sf_TemplateLabels s) k \<noteq> v
      then (True, s\<lparr>sf_TemplateLabels := gput (sf_TemplateLabels s) k v\<rparr>) else (u, s)) ls (u, s) = (u', s') \<Longrightarrow>
    (\<forall>(k, v) \<in> set ls. gget0 [] (sf_TemplateLabels s') k = v) \<and>
    (\<forall>k. k \<notin> fst ` set ls \<longrightarrow> gget (sf_TemplateLabels s') k = gget (sf_TemplateLabels s) k) \<and>
    s' = s\<lparr>sf_TemplateLabels := sf_TemplateLabels s'\<rparr> \<and> (\<not> u' \<longrightarrow> s' = s \<and> \<not> u)"
  using assms
proof (induction ls arbitrary: u s)
  case (Cons kv ls)
  obtain k v where kv: "kv = (k, v)" by fastforce
  with Cons.prems(2) have new: "k \<notin> fst ` set ls" "distinct (map fst ls)" by simp_all
  show ?case
  proof (cases "gget0 [] (sf_TemplateLabels s) k = v")
    case True
    with Cons.prems(1) kv Cons.IH [OF _ new(2)] new(1) show ?thesis by (auto simp: gget0_def)
  next
    case False
    with Cons.prems(1) kv Cons.IH [OF _ new(2)] new(1) show ?thesis
      by (fastforce simp: gget0_def gm.get_put)
  qed
qed auto

lemma changeStatefulSet_result:
  assumes "changeStatefulSet cl desired current = Inr (u, s)"
    and labels: "distinct (map fst (sf_TemplateLabels desired))" and desired: "agreesWith cl desired desired"
    and res: "resourcesEqual (cs_Resources (cl_Spec cl)) (cs_Resources (cl_Spec cl))"
  shows "agreesWith cl desired s" and "\<not> u \<Longrightarrow> s = current" and "sf_Meta s = sf_Meta current" and "sf_Controller s = sf_Controller current"
    and "sf_Containers current = c # cs \<Longrightarrow> \<exists>image resources. sf_Containers s = c\<lparr>ctr_Image := image, ctr_Resources := resources\<rparr> # cs"
proof -
  obtain u1 s1 where r: "updateReplicas cl current = Inr (u1, s1)"
    using assms(1) by (auto simp: changeStatefulSet_def bindE_Inr_iff)
  obtain u2 s2 where c: "updateContainer cl desired (u1, s1) = (u2, s2)" by fastforce
  obtain u3 s3 where l: "updateLabels desired (u2, s2) = (u3, s3)" by fastforce
  obtain u4 s4 where sel: "updateSelector desired (u3, s3) = (u4, s4)" by fastforce
  have v: "updateVolumes desired (u4, s4) = (u, s)"
    using assms(1) by (simp add: changeStatefulSet_def r c l sel)
  have reps: "sf_Replicas s1 = cs_Replicas (cl_Spec cl)" "cs_Replicas (cl_Spec cl) \<noteq> None" "\<not> u1 \<Longrightarrow> s1 = current"
    "s1 = current\<lparr>sf_Replicas := sf_Replicas s1\<rparr>"
    using r desired by (auto simp: updateReplicas_def agreesWith_def Let_def split: option.splits if_splits)
  have ctr: "\<exists>c cs. sf_Containers s2 = c # cs \<and> ctr_Image c = cs_Image (cl_Spec cl) \<and> resourcesEqual (ctr_Resources c) (cs_Resources (cl_Spec cl))"
    "\<not> u2 \<Longrightarrow> s2 = s1 \<and> \<not> u1" "s2 = s1\<lparr>sf_Containers := sf_Containers s2\<rparr>"
    using c desired res by (auto simp: updateContainer_def agreesWith_def Let_def split: list.splits if_splits)
  have keep: "\<exists>image resources. sf_Containers s2 = c\<lparr>ctr_Image := image, ctr_Resources := resources\<rparr> # cs" if "sf_Containers s1 = c # cs" for c cs
    using c that by (auto simp: updateContainer_def Let_def split: if_splits)
      (metis container.surjective container.update_convs(2,6))+
  note lab = updateLabels_result [OF labels l [unfolded updateLabels_def]]
  have vol: "volumesEqual (sf_Volumes s) (sf_Volumes desired)" "\<not> u \<Longrightarrow> s = s4 \<and> \<not> u4" "s = s4\<lparr>sf_Volumes := sf_Volumes s\<rparr>"
    using v desired by (auto simp: updateVolumes_def agreesWith_def split: if_splits)
  have se: "sf_Selector s4 \<noteq> None" "\<not> u4 \<Longrightarrow> s4 = s3 \<and> \<not> u3" "s4 = s3\<lparr>sf_Selector := sf_Selector s4\<rparr>"
    using sel desired by (auto simp: updateSelector_def agreesWith_def split: if_splits)
  have fields: "sf_Replicas s = sf_Replicas s1" "sf_Containers s = sf_Containers s2" "sf_TemplateLabels s = sf_TemplateLabels s3"
    "sf_Selector s = sf_Selector s4" "sf_Meta s = sf_Meta current" "sf_Controller s = sf_Controller current"
    "sf_Containers s1 = sf_Containers current"
    using vol(3) se(3) lab ctr(3) reps(4) by (metis stateful_set.select_convs stateful_set.surjective stateful_set.update_convs)+
  show "agreesWith cl desired s"
    using reps(1,2) ctr(1) lab vol(1) se(1) by (auto simp: agreesWith_def fields)
  show "\<not> u \<Longrightarrow> s = current" using vol(2) se(2) lab ctr(2) reps(3) by auto
  show "sf_Meta s = sf_Meta current" "sf_Controller s = sf_Controller current" by (fact fields)+
  show "\<exists>image resources. sf_Containers s = c\<lparr>ctr_Image := image, ctr_Resources := resources\<rparr> # cs" if "sf_Containers current = c # cs"
    using keep that by (simp add: fields)
qed

lemma agreesWith_unchanged:
  assumes "agreesWith cl desired s"
  shows "changeStatefulSet cl desired s = Inr (False, s)"
proof -
  obtain n c cs where s: "sf_Replicas s = Some n" "cs_Replicas (cl_Spec cl) = Some n" "sf_Containers s = c # cs"
    using assms by (auto simp: agreesWith_def split: list.splits)
  have "fold (\<lambda>(k, v) (u, s). if gget0 [] (sf_TemplateLabels s) k \<noteq> v
      then (True, s\<lparr>sf_TemplateLabels := gput (sf_TemplateLabels s) k v\<rparr>) else (u, s)) ls (False, s) = (False, s)"
    if "\<forall>(k, v) \<in> set ls. gget0 [] (sf_TemplateLabels s) k = v" for ls
    using that by (induction ls) auto
  moreover have "updateContainer cl desired (False, s) = (False, s)"
    using assms s(3) by (cases s) (simp add: updateContainer_def agreesWith_def)
  ultimately show ?thesis
    using assms s by (simp add: changeStatefulSet_def updateReplicas_def updateLabels_def updateSelector_def updateVolumes_def
        agreesWith_def)
qed

section \<open>Passes over the StatefulSet\<close>

lemma built_set:
  assumes build: "buildStatefulSet marshal domain cl matches = Inr (desired, cm)"
    and n: "cs_Replicas (cl_Spec cl) \<noteq> None" and res: "gwf (rr_Requests (cs_Resources (cl_Spec cl)))" "gwf (rr_Limits (cs_Resources (cl_Spec cl)))"
  shows "agreesWith cl desired desired" "distinct (map fst (sf_TemplateLabels desired))"
    and "m_Namespace (sf_Meta desired) = m_Namespace (cl_Meta cl)" "m_Name (sf_Meta desired) = statefulSetName (m_Name (cl_Meta cl))"
    and "sf_Controller desired = None" "m_Namespace (cm_Meta cm) = m_Namespace (cl_Meta cl)" "cm_Controller cm = None" "gwf (cm_Data cm)"
    and "resourcesEqual (cs_Resources (cl_Spec cl)) (cs_Resources (cl_Spec cl))"
proof -
  obtain pp where pp: "podParts domain cl = Inr pp" "sf_Volumes desired = pp_Volumes pp"
    using build by (auto simp: buildStatefulSet_def bindE_Inr_iff Let_def)
  have "volumesEqual (sf_Volumes desired) (sf_Volumes desired)"
    using podParts_mounts [OF pp(1)] podMounts_distinct(1) [of cl] by (simp add: pp(2) partsOK_def volumesEqual_refl)
  moreover have labels: "distinct (map fst (ownedLabels cl))"
    by (simp add: ownedLabels_def nameLabel_def managedByLabel_def LabelClusterName_def)
  moreover show res: "resourcesEqual (cs_Resources (cl_Spec cl)) (cs_Resources (cl_Spec cl))"
    using assms(3,4) by (simp add: resourcesEqual_def resourceListEqual_refl)
  ultimately show "agreesWith cl desired desired"
    using build n by (auto simp: buildStatefulSet_def bindE_Inr_iff Let_def agreesWith_def gget0_def gget_in gwf_def)
  show "distinct (map fst (sf_TemplateLabels desired))" "m_Namespace (sf_Meta desired) = m_Namespace (cl_Meta cl)"
    "m_Name (sf_Meta desired) = statefulSetName (m_Name (cl_Meta cl))" "sf_Controller desired = None"
    using build labels by (auto simp: buildStatefulSet_def bindE_Inr_iff Let_def newMeta_def)
  show "m_Namespace (cm_Meta cm) = m_Namespace (cl_Meta cl)" "cm_Controller cm = None" "gwf (cm_Data cm)"
    using build by (auto simp: buildStatefulSet_def buildConfigMap_def bindE_Inr_iff Let_def newMeta_def gwf_def wrapE_def
        map_sum_def split: sum.splits)
qed

text \<open>The part after the config map.\<close>

definition passSet :: "(stateful_set, 'w) objects \<Rightarrow> cluster \<Rightarrow> stateful_set \<Rightarrow> 'w \<Rightarrow> (failure + stateful_set) \<times> 'w" where
  "passSet sets cl desired w =
     (case ob_get sets (m_Namespace (sf_Meta desired)) (m_Name (sf_Meta desired)) w of
        Inl NotFound \<Rightarrow> bindW (apiW (ob_setRef sets cl desired)) (\<lambda>desired. apiCall (ob_create sets desired)) w
      | Inl e \<Rightarrow> (Inl (ApiFailure e), w)
      | Inr current \<Rightarrow>
          (case changeStatefulSet cl desired current of
             Inl e \<Rightarrow> (Inl e, w)
           | Inr (False, current) \<Rightarrow> (Inr current, w)
           | Inr (True, current) \<Rightarrow> bindW (apiW (ob_setRef sets cl current)) (\<lambda>current. apiCall (ob_update sets current)) w))"

lemma reconcileStatefulSet_split:
  "buildStatefulSet marshal domain cl matches = Inr (desired, cm) \<Longrightarrow>
   reconcileStatefulSet marshal domain cms sets cl matches w = bindW (reconcileConfigMap cms cl cm) (\<lambda>_. passSet sets cl desired) w"
  by (simp add: reconcileStatefulSet_def passSet_def [abs_def])

text \<open>What a pass leaves of the container that was there.\<close>

definition keepsContainer :: "stateful_set \<Rightarrow> stateful_set \<Rightarrow> bool" where
  "keepsContainer s s' \<longleftrightarrow>
     (\<forall>c cs. sf_Containers s = c # cs \<longrightarrow>
        (\<exists>image resources. sf_Containers s' = c\<lparr>ctr_Image := image, ctr_Resources := resources\<rparr> # cs))"

lemma passSet_reliable:
  assumes rel: "reliableObjects stsKind id sets repr rest" and desired: "agreesWith cl desired desired" "distinct (map fst (sf_TemplateLabels desired))"
    "m_Namespace (sf_Meta desired) = m_Namespace (cl_Meta cl)" "sf_Controller desired = None"
    and res: "resourcesEqual (cs_Resources (cl_Spec cl)) (cs_Resources (cl_Spec cl))"
    and owner: "\<And>s. repr w (k_Key stsKind desired) = Some s \<Longrightarrow> sf_Controller s \<in> {None, Some (m_Name (cl_Meta cl))}"
  obtains s w' where "passSet sets cl desired w = (Inr s, w')" and "repr w' = (repr w)(k_Key stsKind desired \<mapsto> s)" and "rest w' = rest w"
    and "agreesWith cl desired s"
    and "case repr w (k_Key stsKind desired) of None \<Rightarrow> s = desired\<lparr>sf_Controller := Some (m_Name (cl_Meta cl))\<rparr> | Some s0 \<Rightarrow> keepsContainer s0 s"
proof (cases "repr w (k_Key stsKind desired)")
  case None
  let ?own = "desired\<lparr>sf_Controller := Some (m_Name (cl_Meta cl))\<rparr>"
  have "ob_setRef sets cl desired = Inr ?own"
    using reliable_setRef [OF rel, of desired cl] desired(3,4) by simp
  moreover obtain w' where w': "ob_create sets ?own w = (Inr ?own, w')" "repr w' = (repr w)(k_Key stsKind desired \<mapsto> ?own)" "rest w' = rest w"
    using reliable_create [OF rel, of w ?own] None by auto
  ultimately have "passSet sets cl desired w = (Inr ?own, w')"
    using None by (simp add: passSet_def object_get [OF rel] bindW_def apiW_def apiCall_def)
  with w' desired(1) None show thesis by (intro that [of ?own w']) simp_all
next
  case (Some s0)
  have key: "m_Namespace (sf_Meta s0) = m_Namespace (cl_Meta cl)" "k_Key stsKind s0 = k_Key stsKind desired"
    using object_named [OF rel Some] desired(3) by simp_all
  obtain n where n: "cs_Replicas (cl_Spec cl) = Some n" using desired(1) by (auto simp: agreesWith_def)
  obtain u s where us: "changeStatefulSet cl desired s0 = Inr (u, s)"
    by (cases "changeStatefulSet cl desired s0") (auto simp: changeStatefulSet_def updateReplicas_def n Let_def split: option.splits)
  note result = changeStatefulSet_result [OF us desired(2,1) res]
  have keeps: "keepsContainer s0 s" using result(5) by (auto simp: keepsContainer_def)
  show thesis
  proof (cases u)
    case True
    let ?own = "s\<lparr>sf_Controller := Some (m_Name (cl_Meta cl))\<rparr>"
    have "ob_setRef sets cl s = Inr ?own"
      using reliable_setRef [OF rel, of s cl] owner [OF Some] key(1) result(3,4) by auto
    moreover have "k_Key stsKind ?own = k_Key stsKind desired" using key(2) result(3) by simp
    moreover from this obtain w' where w': "ob_update sets ?own w = (Inr ?own, w')" "repr w' = (repr w)(k_Key stsKind desired \<mapsto> ?own)"
      "rest w' = rest w"
      using object_update [OF rel, of w ?own] Some by auto
    ultimately have "passSet sets cl desired w = (Inr ?own, w')"
      using Some True us by (simp add: passSet_def object_get [OF rel] bindW_def apiW_def apiCall_def)
    with w' result(1) keeps Some show thesis by (intro that [of ?own w']) (simp_all add: keepsContainer_def)
  next
    case False
    then have "s = s0" using result(2) by simp
    with us False Some have "passSet sets cl desired w = (Inr s, w)"
      by (simp add: passSet_def object_get [OF rel])
    with result(1) keeps Some \<open>s = s0\<close> show thesis
      by (intro that [of s w]) auto
  qed
qed

lemma passSet_idle:
  assumes "reliableObjects stsKind id sets repr rest" and "repr w (k_Key stsKind desired) = Some s" and "agreesWith cl desired s"
  shows "passSet sets cl desired w = (Inr s, w)"
  using assms by (simp add: passSet_def object_get [OF assms(1)] agreesWith_unchanged)

lemma reconcileConfigMap_reliable:
  assumes rel: "reliableObjects cmKind id cms repr rest" and cm: "m_Namespace (cm_Meta cm) = m_Namespace (cl_Meta cl)" "cm_Controller cm = None"
    "gwf (cm_Data cm)"
  obtains w' where "reconcileConfigMap cms cl cm w = (Inr (), w')" and "rest w' = rest w"
    and "\<And>w1. repr w1 = repr w' \<Longrightarrow> reconcileConfigMap cms cl cm w1 = (Inr (), w1)"
proof -
  let ?own = "cm\<lparr>cm_Controller := Some (m_Name (cl_Meta cl))\<rparr>"
  have own: "ob_setRef cms cl cm = Inr ?own"
    using reliable_setRef [OF rel, of cm cl] cm(1,2) by simp
  have ns: "k_Namespace cmKind cm = m_Namespace (cl_Meta cl)" "k_Controller cmKind cm = None" using cm by simp_all
  have keeps: "changeConfigMap d c = Some c' \<Longrightarrow> k_Key cmKind c' = k_Key cmKind c" for d c c'
    by (auto simp: changeConfigMap_def split: if_splits)
  obtain w' where w': "ensureOwned cmKind cms cl cm changeConfigMap w = (Inr (), w')"
    "repr w' = (repr w)(k_Key cmKind cm \<mapsto> settledOwned cmKind id cl cm changeConfigMap (repr w (k_Key cmKind cm)))" "rest w' = rest w"
    using rel kindsOK(3) ns keeps by (rule ensureOwned_reliable)
  have "changeConfigMap ?own (settledOwned cmKind id cl cm changeConfigMap (repr w (k_Key cmKind cm))) = None"
    using maps_Equal_iff [OF cm(3) cm(3)]
    by (auto simp: settledOwned_def settled_def changeConfigMap_def Let_def split: option.split)
  then have "ensureOwned cmKind cms cl cm changeConfigMap w1 = (Inr (), w1)" if "repr w1 = repr w'" for w1
    using that w'(2) own by (simp add: ensureOwned_def createOrChange_def object_get [OF rel] bindW_def apiW_def)
  with w' show thesis by (intro that [of w']) (simp_all add: reconcileConfigMap_def)
qed


text \<open>A cluster that has turned on TLS: the set that was there gets the volumes and not the mounts.\<close>

definition exPlain :: cluster where
  "exPlain = exLive\<lparr>cl_Spec := (cl_Spec exLive)\<lparr>cs_API := None, cs_GRPCTunnel := None\<rparr>\<rparr>"

definition exRunning :: mem_world where
  "exRunning = (exMemWorld exLive)\<lparr>mw_Sets :=
     (case buildStatefulSet (\<lambda>_. Inr []) ''d'' exPlain [] of Inl _ \<Rightarrow> [] | Inr (s, _) \<Rightarrow> [s])\<rparr>"


end
