(* ===== verification/Source_Controller.thy ===== *)
theory Source_Controller
  imports Http_Loader
begin

text \<open>
  The controller of target sources (\<^verbatim>\<open>internal/controller/targetsource_controller.go\<close>). It keeps one
  discovery runtime per source: a message processor and a loader under one cancellable context, known to
  the registry of running sources. A runtime is an element of a list and its position stands for its
  context and its channel; goroutines are steps of a relation, interleaved with the handler.

  The clients of the API server are parameters: \<^verbatim>\<open>Get\<close>, \<^verbatim>\<open>Update\<close> and \<^verbatim>\<open>Status().Update\<close>, the latter two with
  the object as the server returns it.
\<close>

section \<open>State\<close>

type_synonym source_key = "string \<times> string"

record discovery_runtime =
  rt_Key :: source_key
  rt_Source :: target_source \<comment> \<open>the object the processor was made with\<close>
  rt_Loader :: loader
  rt_BufferSize :: int
  rt_Cancelled :: bool
  rt_ProcessorRuns :: bool
  rt_LoaderRuns :: bool

record registry_value =
  rv_Runtime :: nat \<comment> \<open>its \<^verbatim>\<open>Channel\<close> and its \<^verbatim>\<open>Stop\<close>\<close>
  rv_Config :: common_loader_config

record source_state =
  ss_Registry :: "(source_key, registry_value) gomap"
  ss_Runtimes :: "discovery_runtime list"

record 'w source_env =
  se_Get :: "source_key \<Rightarrow> 'w \<Rightarrow> api_error + target_source"
  se_Update :: "target_source \<Rightarrow> 'w \<Rightarrow> (api_error + target_source) \<times> 'w"
  se_UpdateStatus :: "target_source \<Rightarrow> 'w \<Rightarrow> (api_error + target_source) \<times> 'w"
  se_Fetcher :: resource_fetcher
  se_BufferSize :: int
  se_ChunkSize :: int

datatype source_failure = SourceApi api_error | SourceError string

definition LabelTargetSourceFinalizer :: string where
  "LabelTargetSourceFinalizer = ''operator.gnmic.dev/targetsource-finalizer''"

definition withFinalizers :: "string list \<Rightarrow> target_source \<Rightarrow> target_source" where
  "withFinalizers fs src = src\<lparr>tso_Meta := (tso_Meta src)\<lparr>m_Finalizers := fs\<rparr>\<rparr>"

definition containsFinalizer :: "target_source \<Rightarrow> bool" where
  "containsFinalizer src \<longleftrightarrow> LabelTargetSourceFinalizer \<in> set (m_Finalizers (tso_Meta src))"

section \<open>Starting and stopping\<close>

definition changeRuntime :: "nat \<Rightarrow> (discovery_runtime \<Rightarrow> discovery_runtime) \<Rightarrow> source_state \<Rightarrow> source_state" where
  "changeRuntime i f st =
     st\<lparr>ss_Runtimes := (if i < length (ss_Runtimes st) then (ss_Runtimes st)[i := f (ss_Runtimes st ! i)] else ss_Runtimes st)\<rparr>"

definition cancel :: "nat \<Rightarrow> source_state \<Rightarrow> source_state" where
  "cancel i = changeRuntime i (\<lambda>rt. rt\<lparr>rt_Cancelled := True\<rparr>)"

definition unregister :: "source_key \<Rightarrow> source_state \<Rightarrow> source_state" where
  "unregister key st = st\<lparr>ss_Registry := Unregister key (ss_Registry st)\<rparr>"

text \<open>Both ends of a discovery by the handler: \<^verbatim>\<open>Stop\<close> and \<^verbatim>\<open>Unregister\<close> where the source is registered.\<close>

definition stopDiscovery :: "source_key \<Rightarrow> source_state \<Rightarrow> source_state" where
  "stopDiscovery key st =
     (case Get key (ss_Registry st) of None \<Rightarrow> st | Some v \<Rightarrow> unregister key (cancel (rv_Runtime v) st))"

text \<open>The function \<^verbatim>\<open>cleanup\<close> of a runtime.\<close>

definition cleanup :: "source_key \<Rightarrow> nat \<Rightarrow> source_state \<Rightarrow> source_state" where
  "cleanup key i st = unregister key (cancel i st)"

definition startDiscovery ::
  "'w source_env \<Rightarrow> source_key \<Rightarrow> target_source \<Rightarrow> source_state \<Rightarrow> source_failure option \<times> source_state" where
  "startDiscovery env key src st =
     (let config = \<lparr>cfg_Namespace = fst key, cfg_Name = snd key, cfg_ChunkSize = se_ChunkSize env, cfg_AcceptPush = False,
            cfg_ResourceFetcher = None\<rparr>;
          i = length (ss_Runtimes st)
      in case NewLoader (se_Fetcher env) config (tso_Spec src) of
           Inl e \<Rightarrow> (Some (SourceError e), cleanup key i st)
         | Inr loader \<Rightarrow>
             (case Register key \<lparr>rv_Runtime = i, rv_Config = l_Cfg loader\<rparr> (ss_Registry st) of
                Inl e \<Rightarrow> (Some (SourceError e), st)
              | Inr registry \<Rightarrow>
                  (None, st\<lparr>ss_Registry := registry,
                    ss_Runtimes := ss_Runtimes st @ [\<lparr>rt_Key = key, rt_Source = src, rt_Loader = loader,
                      rt_BufferSize = se_BufferSize env, rt_Cancelled = False, rt_ProcessorRuns = True, rt_LoaderRuns = True\<rparr>]\<rparr>)))"

section \<open>The handler\<close>

definition reconcileDeletion ::
  "'w source_env \<Rightarrow> source_key \<Rightarrow> target_source \<Rightarrow> source_state \<Rightarrow> 'w \<Rightarrow> source_failure option \<times> source_state \<times> 'w" where
  "reconcileDeletion env key src st w =
     (let st = stopDiscovery key st
      in if containsFinalizer src
         then (case se_Update env (withFinalizers (filter (\<lambda>f. f \<noteq> LabelTargetSourceFinalizer) (m_Finalizers (tso_Meta src))) src) w of
                 (Inl e, w) \<Rightarrow> (Some (SourceApi e), st, w)
               | (Inr _, w) \<Rightarrow> (None, st, w))
         else (None, st, w))"

definition ensureFinalizer :: "'w source_env \<Rightarrow> target_source \<Rightarrow> 'w \<Rightarrow> (api_error + target_source) \<times> 'w" where
  "ensureFinalizer env src w =
     (if containsFinalizer src then (Inr src, w)
      else se_Update env (withFinalizers (m_Finalizers (tso_Meta src) @ [LabelTargetSourceFinalizer]) src) w)"

definition observe :: "target_source \<Rightarrow> target_source" where
  "observe src = src\<lparr>tso_Status := (tso_Status src)\<lparr>tsst_ObservedGeneration := m_Generation (tso_Meta src)\<rparr>\<rparr>"

definition Reconcile ::
  "'w source_env \<Rightarrow> source_key \<Rightarrow> source_state \<Rightarrow> 'w \<Rightarrow> source_failure option \<times> source_state \<times> 'w" where
  "Reconcile env key st w =
     (case se_Get env key w of
        Inl NotFound \<Rightarrow> (None, stopDiscovery key st, w)
      | Inl e \<Rightarrow> (Some (SourceApi e), st, w)
      | Inr src \<Rightarrow>
          if m_Deleting (tso_Meta src) then reconcileDeletion env key src st w
          else
            (case ensureFinalizer env src w of
               (Inl e, w) \<Rightarrow> (Some (SourceApi e), st, w)
             | (Inr src, w) \<Rightarrow>
                 if Exists key (ss_Registry st)
                 then if m_Generation (tso_Meta src) \<noteq> tsst_ObservedGeneration (tso_Status src)
                      then reconcileDeletion env key src st w
                      else (None, st, w)
                 else
                   (case startDiscovery env key src st of
                      (Some e, st) \<Rightarrow> (Some e, st, w)
                    | (None, st) \<Rightarrow>
                        (case se_UpdateStatus env (observe src) w of
                           (Inl e, w) \<Rightarrow> (Some (SourceApi e), st, w)
                         | (Inr _, w) \<Rightarrow> (None, st, w)))))"

section \<open>Goroutines\<close>

text \<open>The processor's goroutine returns, for whatever reason, and cleans up.\<close>

definition processorExits :: "nat \<Rightarrow> source_state \<Rightarrow> source_state" where
  "processorExits i st =
     (if i < length (ss_Runtimes st)
      then cleanup (rt_Key (ss_Runtimes st ! i)) i (changeRuntime i (\<lambda>rt. rt\<lparr>rt_ProcessorRuns := False\<rparr>) st)
      else st)"

definition loaderExits :: "nat \<Rightarrow> source_state \<Rightarrow> source_state" where
  "loaderExits i = changeRuntime i (\<lambda>rt. rt\<lparr>rt_LoaderRuns := False\<rparr>)"

text \<open>Another runtime of the same source has been registered in the meantime.\<close>

definition superseded :: "nat \<Rightarrow> source_state \<Rightarrow> bool" where
  "superseded i st \<longleftrightarrow>
     (case gget (ss_Registry st) (rt_Key (ss_Runtimes st ! i)) of None \<Rightarrow> False | Some v \<Rightarrow> rv_Runtime v \<noteq> i)"

text \<open>
  The steps of the controller; with \<open>late\<close> a processor may return after it was superseded. What users
  and other controllers do to the world is any change of it.
\<close>

inductive discovery_step :: "'w source_env \<Rightarrow> bool \<Rightarrow> source_state \<times> 'w \<Rightarrow> source_state \<times> 'w \<Rightarrow> bool" for env late where
  reconciled: "Reconcile env key st w = (r, st', w') \<Longrightarrow> discovery_step env late (st, w) (st', w')"
| processor_exits: "i < length (ss_Runtimes st) \<Longrightarrow> rt_ProcessorRuns (ss_Runtimes st ! i) \<Longrightarrow> late \<or> \<not> superseded i st \<Longrightarrow>
    discovery_step env late (st, w) (processorExits i st, w)"
| loader_exits: "i < length (ss_Runtimes st) \<Longrightarrow> rt_LoaderRuns (ss_Runtimes st ! i) \<Longrightarrow>
    discovery_step env late (st, w) (loaderExits i st, w)"
| world_changes: "discovery_step env late (st, w) (st, w')"

definition initialState :: source_state where
  "initialState = \<lparr>ss_Registry = [], ss_Runtimes = []\<rparr>"

inductive reachable :: "'w source_env \<Rightarrow> bool \<Rightarrow> source_state \<times> 'w \<Rightarrow> bool" for env late where
  start: "reachable env late (initialState, w)"
| step: "reachable env late s \<Longrightarrow> discovery_step env late s s' \<Longrightarrow> reachable env late s'"

section \<open>At most one discovery per source\<close>

definition liveRuntimes :: "source_state \<Rightarrow> source_key \<Rightarrow> nat set" where
  "liveRuntimes st key = {i. i < length (ss_Runtimes st) \<and> rt_Key (ss_Runtimes st ! i) = key \<and> \<not> rt_Cancelled (ss_Runtimes st ! i)}"

text \<open>Every live runtime is the registered one of its source, and what is registered exists.\<close>

definition registered :: "source_state \<Rightarrow> bool" where
  "registered st \<longleftrightarrow>
     (\<forall>key. \<forall>i \<in> liveRuntimes st key. \<exists>v. gget (ss_Registry st) key = Some v \<and> rv_Runtime v = i) \<and>
     (\<forall>key v. gget (ss_Registry st) key = Some v \<longrightarrow>
        rv_Runtime v < length (ss_Runtimes st) \<and> rt_Key (ss_Runtimes st ! rv_Runtime v) = key)"

lemma changeRuntime_sels [simp]:
  "ss_Registry (changeRuntime i f st) = ss_Registry st" "length (ss_Runtimes (changeRuntime i f st)) = length (ss_Runtimes st)"
  "j < length (ss_Runtimes st) \<Longrightarrow> ss_Runtimes (changeRuntime i f st) ! j = (if j = i then f (ss_Runtimes st ! j) else ss_Runtimes st ! j)"
  by (simp_all add: changeRuntime_def nth_list_update)

lemma unregister_sels [simp]:
  "gget (ss_Registry (unregister key st)) k = (if k = key then None else gget (ss_Registry st) k)"
  "ss_Runtimes (unregister key st) = ss_Runtimes st"
  by (simp_all add: unregister_def Unregister_def gm.get_del)

lemma cancel_sels [simp]:
  "ss_Registry (cancel i st) = ss_Registry st" "length (ss_Runtimes (cancel i st)) = length (ss_Runtimes st)"
  "j < length (ss_Runtimes st) \<Longrightarrow> rt_Key (ss_Runtimes (cancel i st) ! j) = rt_Key (ss_Runtimes st ! j)"
  "j < length (ss_Runtimes st) \<Longrightarrow> rt_Cancelled (ss_Runtimes (cancel i st) ! j) = (j = i \<or> rt_Cancelled (ss_Runtimes st ! j))"
  by (auto simp: cancel_def)

lemma live_cleanup [simp]: "liveRuntimes (cleanup key i st) k = liveRuntimes st k - {i}"
  by (auto simp: liveRuntimes_def cleanup_def)

lemma registeredD:
  assumes "registered st"
  shows "i \<in> liveRuntimes st key \<Longrightarrow> \<exists>v. gget (ss_Registry st) key = Some v \<and> rv_Runtime v = i"
    and "gget (ss_Registry st) key = Some v \<Longrightarrow> rv_Runtime v < length (ss_Runtimes st)"
    and "gget (ss_Registry st) key = Some v \<Longrightarrow> rt_Key (ss_Runtimes st ! rv_Runtime v) = key"
  using assms unfolding registered_def by blast+

lemma cleanup_registered:
  assumes "registered st" and "\<And>v. gget (ss_Registry st) key = Some v \<Longrightarrow> rv_Runtime v = i"
  shows "registered (cleanup key i st)"
  unfolding registered_def
proof (intro conjI allI ballI impI)
  fix k j assume "j \<in> liveRuntimes (cleanup key i st) k"
  then have j: "j \<in> liveRuntimes st k" "j \<noteq> i" by auto
  then obtain v where v: "gget (ss_Registry st) k = Some v" "rv_Runtime v = j"
    using registeredD(1) [OF assms(1)] by blast
  with assms(2) j(2) have "k \<noteq> key" by auto
  with v show "\<exists>v. gget (ss_Registry (cleanup key i st)) k = Some v \<and> rv_Runtime v = j" by (simp add: cleanup_def)
next
  fix k v assume "gget (ss_Registry (cleanup key i st)) k = Some v"
  then have "gget (ss_Registry st) k = Some v" by (simp add: cleanup_def split: if_splits)
  then show "rv_Runtime v < length (ss_Runtimes (cleanup key i st))" "rt_Key (ss_Runtimes (cleanup key i st) ! rv_Runtime v) = k"
    using registeredD(2,3) [OF assms(1)] by (simp_all add: cleanup_def)
qed

lemma stop_registered: "registered st \<Longrightarrow> registered (stopDiscovery key st)"
  using cleanup_registered [of st key]
  by (auto simp: stopDiscovery_def Get_def cleanup_def split: option.split)

lemma start_registered:
  assumes "registered st" and "startDiscovery env key src st = (r, st')" and "\<not> Exists key (ss_Registry st)"
  shows "registered st'"
proof (cases "NewLoader (se_Fetcher env) \<lparr>cfg_Namespace = fst key, cfg_Name = snd key, cfg_ChunkSize = se_ChunkSize env, cfg_AcceptPush = False,
    cfg_ResourceFetcher = None\<rparr> (tso_Spec src)")
  case (Inl e)
  with assms cleanup_registered [of st key] show ?thesis
    by (auto simp: startDiscovery_def Let_def Exists_def)
next
  case (Inr loader)
  with assms(2,3) obtain v rt where st': "st' = st\<lparr>ss_Registry := gput (ss_Registry st) key v, ss_Runtimes := ss_Runtimes st @ [rt]\<rparr>"
    "rv_Runtime v = length (ss_Runtimes st)" "rt_Key rt = key"
    by (auto simp: startDiscovery_def Register_def Exists_def Let_def)
  show ?thesis
    unfolding registered_def
  proof (intro conjI allI ballI impI)
    fix k i assume i: "i \<in> liveRuntimes st' k"
    show "\<exists>v. gget (ss_Registry st') k = Some v \<and> rv_Runtime v = i"
    proof (cases "i = length (ss_Runtimes st)")
      case True
      with i st' show ?thesis by (auto simp: liveRuntimes_def gm.get_put)
    next
      case False
      with i st'(1) have "i \<in> liveRuntimes st k" by (auto simp: liveRuntimes_def nth_append)
      then obtain v' where "gget (ss_Registry st) k = Some v'" "rv_Runtime v' = i"
        using registeredD(1) [OF assms(1)] by blast
      moreover from this assms(3) have "k \<noteq> key" by (auto simp: Exists_def)
      ultimately show ?thesis by (simp add: st'(1) gm.get_put)
    qed
  next
    fix k v' assume "gget (ss_Registry st') k = Some v'"
    then have "k = key \<and> v' = v \<or> gget (ss_Registry st) k = Some v'"
      by (auto simp: st'(1) gm.get_put split: if_splits)
    with registeredD(2,3) [OF assms(1)] st' show "rv_Runtime v' < length (ss_Runtimes st')" "rt_Key (ss_Runtimes st' ! rv_Runtime v') = k"
      by (fastforce simp: nth_append less_SucI)+
  qed
qed

lemma reconcileDeletion_state: "fst (snd (reconcileDeletion env key src st w)) = stopDiscovery key st"
  by (auto simp: reconcileDeletion_def Let_def split: prod.split sum.split)

lemma reconcile_registered:
  assumes "registered st" and "Reconcile env key st w = (r, st', w')"
  shows "registered st'"
proof -
  have deletion: "registered (fst (snd (reconcileDeletion env key src st w1)))" for src w1
    unfolding reconcileDeletion_state using assms(1) by (rule stop_registered)
  consider "st' = st" | "st' = stopDiscovery key st" | (deleted) src w1 where "st' = fst (snd (reconcileDeletion env key src st w1))"
    | (started) src r1 where "startDiscovery env key src st = (r1, st')" "\<not> Exists key (ss_Registry st)"
    using assms(2) unfolding Reconcile_def
    by (simp split: sum.splits api_error.splits if_splits prod.splits option.splits) (metis fst_conv snd_conv)+
  then show ?thesis
    using assms(1) stop_registered [OF assms(1)] start_registered [OF assms(1)] deletion by cases blast+
qed

lemma changeRuntime_registered:
  assumes "registered st" and "\<And>rt. rt_Key (f rt) = rt_Key rt" "\<And>rt. rt_Cancelled (f rt) = rt_Cancelled rt"
  shows "registered (changeRuntime i f st)"
proof -
  have same: "rt_Key (ss_Runtimes (changeRuntime i f st) ! j) = rt_Key (ss_Runtimes st ! j)"
    "rt_Cancelled (ss_Runtimes (changeRuntime i f st) ! j) = rt_Cancelled (ss_Runtimes st ! j)" if "j < length (ss_Runtimes st)" for j
    using that assms(2,3) by simp_all
  then have "liveRuntimes (changeRuntime i f st) k = liveRuntimes st k" for k
    by (auto simp: liveRuntimes_def simp del: changeRuntime_sels(3))
  with same registeredD [OF assms(1)] show ?thesis
    by (simp add: registered_def del: split_paired_All changeRuntime_sels(3))
qed

lemma step_registered:
  assumes "discovery_step env False (st, w) (st', w')" and "registered st"
  shows "registered st'"
  using assms(1)
proof cases
  case (reconciled key r)
  with assms(2) show ?thesis by (rule reconcile_registered)
next
  case (processor_exits i)
  have "registered (cleanup (rt_Key (ss_Runtimes st ! i)) i (changeRuntime i (\<lambda>rt. rt\<lparr>rt_ProcessorRuns := False\<rparr>) st))"
    using processor_exits by (intro cleanup_registered changeRuntime_registered assms(2)) (simp_all add: superseded_def)
  with processor_exits show ?thesis by (simp add: processorExits_def)
next
  case (loader_exits i)
  with assms(2) show ?thesis by (simp add: loaderExits_def changeRuntime_registered)
qed (simp add: assms(2))

lemma reachable_registered: "reachable env False s \<Longrightarrow> registered (fst s)"
proof (induction rule: reachable.induct)
  case (start w)
  then show ?case by (simp add: registered_def liveRuntimes_def initialState_def)
next
  case (step s s')
  then show ?case using step_registered by (metis prod.collapse)
qed

text \<open>
  C12: One discovery per source. As long as the processor of a stopped runtime returns before its source
  is started again, in every reachable state a source has at most one runtime that is not cancelled, and
  it is the registered one, so that the handler can stop it.
\<close>

theorem at_most_one_discovery:
  assumes "reachable env False (st, w)" and "i \<in> liveRuntimes st key"
  shows "liveRuntimes st key = {i} \<and> liveRuntimes (stopDiscovery key st) key = {} \<and> Exists key (ss_Registry st)"
proof -
  have "registered st" using reachable_registered [OF assms(1)] by simp
  then have only: "\<exists>v. gget (ss_Registry st) key = Some v \<and> rv_Runtime v = j" if "j \<in> liveRuntimes st key" for j
    using that by (rule registeredD(1))
  with assms(2) obtain v where v: "gget (ss_Registry st) key = Some v" "rv_Runtime v = i" by blast
  have one: "liveRuntimes st key = {i}"
  proof
    show "liveRuntimes st key \<subseteq> {i}" using only v by fastforce
  qed (use assms(2) in simp)
  with v live_cleanup [of key i st key] show ?thesis
    by (simp add: stopDiscovery_def Get_def Exists_def flip: cleanup_def)
qed

section \<open>Against a reliable server\<close>

definition sourceKey :: "target_source \<Rightarrow> source_key" where
  "sourceKey src = (m_Namespace (tso_Meta src), m_Name (tso_Meta src))"

definition withVersion :: "string \<Rightarrow> target_source \<Rightarrow> target_source" where
  "withVersion rv src = src\<lparr>tso_Meta := (tso_Meta src)\<lparr>m_ResourceVersion := rv\<rparr>\<rparr>"

text \<open>
  The server returns what it stores under a key. It accepts a change of the finalizers of the object it
  holds, under a new resource version, and drops an object that is marked for deletion with its last one.
\<close>

definition reliableSources :: "'w source_env \<Rightarrow> ('w \<Rightarrow> source_key \<Rightarrow> target_source option) \<Rightarrow> bool" where
  "reliableSources env repr \<longleftrightarrow>
     (\<forall>key w. se_Get env key w = (case repr w key of None \<Rightarrow> Inl NotFound | Some src \<Rightarrow> Inr src)) \<and>
     (\<forall>key w src. repr w key = Some src \<longrightarrow> sourceKey src = key) \<and>
     (\<forall>key w src fs. repr w key = Some src \<longrightarrow>
        (\<exists>rv w'. se_Update env (withFinalizers fs src) w = (Inr (withVersion rv (withFinalizers fs src)), w') \<and>
           repr w' = (repr w)(key := (if m_Deleting (tso_Meta src) \<and> fs = [] then None else Some (withVersion rv (withFinalizers fs src))))))"

text \<open>It accepts a change of the status of the object it holds.\<close>

definition reliableStatus :: "'w source_env \<Rightarrow> ('w \<Rightarrow> source_key \<Rightarrow> target_source option) \<Rightarrow> bool" where
  "reliableStatus env repr \<longleftrightarrow>
     (\<forall>key w src x. repr w key = Some src \<longrightarrow>
        (\<exists>rv w'. se_UpdateStatus env (src\<lparr>tso_Status := x\<rparr>) w = (Inr (withVersion rv (src\<lparr>tso_Status := x\<rparr>)), w') \<and>
           repr w' = (repr w)(key \<mapsto> withVersion rv (src\<lparr>tso_Status := x\<rparr>))))"

lemma reliableSources_get:
  "reliableSources env repr \<Longrightarrow> se_Get env key w = (case repr w key of None \<Rightarrow> Inl NotFound | Some src \<Rightarrow> Inr src)"
  unfolding reliableSources_def by blast

lemma reliableSources_update:
  assumes "reliableSources env repr" and "repr w key = Some src"
  obtains rv w' where "se_Update env (withFinalizers fs src) w = (Inr (withVersion rv (withFinalizers fs src)), w')"
    and "repr w' = (repr w)(key := (if m_Deleting (tso_Meta src) \<and> fs = [] then None else Some (withVersion rv (withFinalizers fs src))))"
  using assms unfolding reliableSources_def by blast

lemma source_sels [simp]:
  "tso_Spec (withVersion rv src) = tso_Spec src" "tso_Status (withVersion rv src) = tso_Status src"
  "m_Generation (tso_Meta (withVersion rv src)) = m_Generation (tso_Meta src)"
  "m_Deleting (tso_Meta (withVersion rv src)) = m_Deleting (tso_Meta src)"
  "m_Finalizers (tso_Meta (withVersion rv src)) = m_Finalizers (tso_Meta src)"
  "tso_Spec (withFinalizers fs src) = tso_Spec src" "tso_Status (withFinalizers fs src) = tso_Status src"
  "m_Generation (tso_Meta (withFinalizers fs src)) = m_Generation (tso_Meta src)"
  "m_Deleting (tso_Meta (withFinalizers fs src)) = m_Deleting (tso_Meta src)"
  "m_Finalizers (tso_Meta (withFinalizers fs src)) = fs"
  by (simp_all add: withVersion_def withFinalizers_def)

text \<open>Two versions of an object that differ in the finalizers only.\<close>

definition sameSource :: "target_source \<Rightarrow> target_source \<Rightarrow> bool" where
  "sameSource a b \<longleftrightarrow> tso_Spec a = tso_Spec b \<and> tso_Status a = tso_Status b \<and>
     m_Generation (tso_Meta a) = m_Generation (tso_Meta b) \<and> m_Deleting (tso_Meta a) = m_Deleting (tso_Meta b)"

lemma ensureFinalizer_reliable:
  assumes rel: "reliableSources env repr" and src: "repr w key = Some src" "\<not> m_Deleting (tso_Meta src)"
  obtains src' w' where "ensureFinalizer env src w = (Inr src', w')" and "repr w' = (repr w)(key \<mapsto> src')"
    and "sameSource src' src" "containsFinalizer src'"
proof (cases "containsFinalizer src")
  case True
  with src show thesis by (intro that [of src w]) (auto simp: ensureFinalizer_def sameSource_def)
next
  case False
  let ?fs = "m_Finalizers (tso_Meta src) @ [LabelTargetSourceFinalizer]"
  obtain rv w' where "se_Update env (withFinalizers ?fs src) w = (Inr (withVersion rv (withFinalizers ?fs src)), w')"
    "repr w' = (repr w)(key := (if m_Deleting (tso_Meta src) \<and> ?fs = [] then None else Some (withVersion rv (withFinalizers ?fs src))))"
    using rel src(1) by (rule reliableSources_update)
  with False src(2) show thesis
    by (intro that [of "withVersion rv (withFinalizers ?fs src)" w']) (simp_all add: ensureFinalizer_def sameSource_def containsFinalizer_def)
qed

text \<open>The handler takes a source off: when it is to be deleted, and when its specification has changed.\<close>

lemma reconcileDeletion_reliable:
  assumes rel: "reliableSources env repr" and src: "repr w key = Some src"
  obtains w' where "reconcileDeletion env key src st w = (None, stopDiscovery key st, w')"
    and "\<And>src'. repr w' key = Some src' \<Longrightarrow> \<not> containsFinalizer src' \<and> sameSource src' src"
    and "\<not> m_Deleting (tso_Meta src) \<Longrightarrow> repr w' key \<noteq> None" and "\<And>k. k \<noteq> key \<Longrightarrow> repr w' k = repr w k"
proof (cases "containsFinalizer src")
  case True
  let ?fs = "filter (\<lambda>f. f \<noteq> LabelTargetSourceFinalizer) (m_Finalizers (tso_Meta src))"
  obtain rv w' where "se_Update env (withFinalizers ?fs src) w = (Inr (withVersion rv (withFinalizers ?fs src)), w')"
    "repr w' = (repr w)(key := (if m_Deleting (tso_Meta src) \<and> ?fs = [] then None else Some (withVersion rv (withFinalizers ?fs src))))"
    using rel src by (rule reliableSources_update)
  with True show thesis
    by (intro that [of w']) (auto simp: reconcileDeletion_def Let_def sameSource_def containsFinalizer_def split: if_splits)
next
  case False
  with src show thesis by (intro that [of w]) (auto simp: reconcileDeletion_def sameSource_def)
qed

lemma changed_spec_stops:
  assumes rel: "reliableSources env repr" and src: "repr w key = Some src" "\<not> m_Deleting (tso_Meta src)"
    and running: "Exists key (ss_Registry st)" and changed: "m_Generation (tso_Meta src) \<noteq> tsst_ObservedGeneration (tso_Status src)"
  obtains src' w' where "Reconcile env key st w = (None, stopDiscovery key st, w')" and "repr w' key = Some src'"
    and "\<not> containsFinalizer src'" "sameSource src' src"
proof -
  obtain src1 w1 where fin: "ensureFinalizer env src w = (Inr src1, w1)" "repr w1 = (repr w)(key \<mapsto> src1)" "sameSource src1 src"
    using rel src by (rule ensureFinalizer_reliable)
  have src1: "repr w1 key = Some src1" using fin(2) by simp
  obtain w' where del: "reconcileDeletion env key src1 st w1 = (None, stopDiscovery key st, w')"
    and left: "\<And>src'. repr w' key = Some src' \<Longrightarrow> \<not> containsFinalizer src' \<and> sameSource src' src1"
      "\<not> m_Deleting (tso_Meta src1) \<Longrightarrow> repr w' key \<noteq> None"
    using rel src1 by (rule reconcileDeletion_reliable) blast
  have "Reconcile env key st w = (None, stopDiscovery key st, w')"
    using src fin(1,3) running changed del by (simp add: Reconcile_def reliableSources_get [OF rel] sameSource_def)
  moreover obtain src' where src': "repr w' key = Some src'" using left(2) fin(3) src(2) by (auto simp: sameSource_def)
  ultimately show thesis using left(1) [OF src'] fin(3) by (intro that [of w' src']) (auto simp: sameSource_def)
qed

text \<open>
  C35: A changed specification. When the specification of a source with a running discovery has changed,
  the handler stops the discovery, takes the finalizer off the source, which is not being deleted, and
  ends without an error: no runtime is started, the new generation is not observed, and no requeue is
  asked for, although the controller is documented to restart the runtime.
\<close>

theorem spec_change_stops_discovery:
  assumes rel: "reliableSources env repr" and reg: "registered st" and src: "repr w key = Some src" "\<not> m_Deleting (tso_Meta src)"
    and running: "Exists key (ss_Registry st)" and changed: "m_Generation (tso_Meta src) \<noteq> tsst_ObservedGeneration (tso_Status src)"
  shows "\<exists>st' w' src'. Reconcile env key st w = (None, st', w') \<and> liveRuntimes st' key = {} \<and> \<not> Exists key (ss_Registry st') \<and>
    length (ss_Runtimes st') = length (ss_Runtimes st) \<and> repr w' key = Some src' \<and> \<not> containsFinalizer src' \<and>
    m_Generation (tso_Meta src') \<noteq> tsst_ObservedGeneration (tso_Status src')"
proof -
  obtain v where v: "gget (ss_Registry st) key = Some v" using running by (auto simp: Exists_def)
  obtain src' w' where run: "Reconcile env key st w = (None, stopDiscovery key st, w')" "repr w' key = Some src'"
    "\<not> containsFinalizer src'" "sameSource src' src"
    using rel src running changed by (rule changed_spec_stops)
  have stop: "stopDiscovery key st = cleanup key (rv_Runtime v) st" using v by (simp add: stopDiscovery_def Get_def cleanup_def)
  have "liveRuntimes st key \<subseteq> {rv_Runtime v}" using registeredD(1) [OF reg] v by fastforce
  then have "liveRuntimes (cleanup key (rv_Runtime v) st) key = {}" by auto
  moreover have "\<not> Exists key (ss_Registry (cleanup key (rv_Runtime v) st))"
    "length (ss_Runtimes (cleanup key (rv_Runtime v) st)) = length (ss_Runtimes st)"
    by (simp_all add: cleanup_def Exists_def)
  ultimately show ?thesis
    using run changed unfolding stop by (intro exI [of _ "cleanup key (rv_Runtime v) st"] exI [of _ w'] exI [of _ src']) (simp add: sameSource_def)
qed

text \<open>The runtime a start adds.\<close>

definition newRuntime :: "'w source_env \<Rightarrow> source_key \<Rightarrow> target_source \<Rightarrow> http_config \<Rightarrow> discovery_runtime" where
  "newRuntime env key src http =
     \<lparr>rt_Key = key, rt_Source = src,
      rt_Loader = \<lparr>l_Cfg = \<lparr>cfg_Namespace = fst key, cfg_Name = snd key, cfg_ChunkSize = se_ChunkSize env,
        cfg_AcceptPush = (hc_PushEnabled http = Some True), cfg_ResourceFetcher = Some (se_Fetcher env)\<rparr>, l_Spec = http\<rparr>,
      rt_BufferSize = se_BufferSize env, rt_Cancelled = False, rt_ProcessorRuns = True, rt_LoaderRuns = True\<rparr>"

definition addRuntime :: "source_key \<Rightarrow> discovery_runtime \<Rightarrow> source_state \<Rightarrow> source_state" where
  "addRuntime key rt st =
     st\<lparr>ss_Registry := gput (ss_Registry st) key \<lparr>rv_Runtime = length (ss_Runtimes st), rv_Config = l_Cfg (rt_Loader rt)\<rparr>,
        ss_Runtimes := ss_Runtimes st @ [rt]\<rparr>"

lemma startDiscovery_http:
  "tss_HTTP (tso_Spec src) = Some http \<Longrightarrow> \<not> Exists key (ss_Registry st) \<Longrightarrow>
   startDiscovery env key src st = (None, addRuntime key (newRuntime env key src http) st)"
  by (simp add: startDiscovery_def NewLoader_def New_def Register_def Exists_def newRuntime_def addRuntime_def)

lemma addRuntime_exists [simp]: "Exists key (ss_Registry (addRuntime key rt st))"
  by (simp add: addRuntime_def Exists_def gm.get_put)

lemma reconcile_starts:
  assumes rel: "reliableSources env repr" and src: "repr w key = Some src" "\<not> m_Deleting (tso_Meta src)"
    and idle: "\<not> Exists key (ss_Registry st)" and http: "tss_HTTP (tso_Spec src) = Some http"
  obtains src' w' where "repr w' = (repr w)(key \<mapsto> src')" and "sameSource src' src" "containsFinalizer src'"
    and "Reconcile env key st w = (case se_UpdateStatus env (observe src') w' of
        (Inl e, w) \<Rightarrow> (Some (SourceApi e), addRuntime key (newRuntime env key src' http) st, w)
      | (Inr _, w) \<Rightarrow> (None, addRuntime key (newRuntime env key src' http) st, w))"
proof -
  obtain src' w' where fin: "ensureFinalizer env src w = (Inr src', w')" "repr w' = (repr w)(key \<mapsto> src')" "sameSource src' src"
    "containsFinalizer src'"
    using rel src by (rule ensureFinalizer_reliable)
  moreover have "startDiscovery env key src' st = (None, addRuntime key (newRuntime env key src' http) st)"
    using fin(3) http idle by (simp add: startDiscovery_http sameSource_def)
  ultimately show thesis
    using src idle by (intro that [of w' src']) (simp_all add: Reconcile_def reliableSources_get [OF rel])
qed

text \<open>
  C13: A discovery starts. When a source with a provider is not deleted and has no runtime, the handler
  adds exactly one: registered under the source's key, with the loader of the source's current
  specification and the configured chunk and buffer sizes, its processor and its loader running. The
  source then has the finalizer and its generation is observed, and a further run of the handler changes
  nothing at all.
\<close>

theorem discovery_starts:
  assumes rel: "reliableSources env repr" and status: "reliableStatus env repr"
    and src: "repr w key = Some src" "\<not> m_Deleting (tso_Meta src)"
    and idle: "\<not> Exists key (ss_Registry st)" and http: "tss_HTTP (tso_Spec src) = Some http"
  shows "\<exists>st' w' rt src'. Reconcile env key st w = (None, st', w') \<and> Reconcile env key st' w' = (None, st', w') \<and>
    ss_Runtimes st' = ss_Runtimes st @ [rt] \<and> rt_Key rt = key \<and> tso_Spec (rt_Source rt) = tso_Spec src \<and> l_Spec (rt_Loader rt) = http \<and>
    cfg_ChunkSize (l_Cfg (rt_Loader rt)) = se_ChunkSize env \<and> rt_BufferSize rt = se_BufferSize env \<and>
    \<not> rt_Cancelled rt \<and> rt_ProcessorRuns rt \<and> rt_LoaderRuns rt \<and>
    gget (ss_Registry st') = (gget (ss_Registry st))(key \<mapsto> \<lparr>rv_Runtime = length (ss_Runtimes st), rv_Config = l_Cfg (rt_Loader rt)\<rparr>) \<and>
    repr w' = (repr w)(key \<mapsto> src') \<and> containsFinalizer src' \<and> tso_Spec src' = tso_Spec src \<and>
    tsst_ObservedGeneration (tso_Status src') = m_Generation (tso_Meta src')"
proof -
  obtain src1 w1 where s1: "repr w1 = (repr w)(key \<mapsto> src1)" "sameSource src1 src" "containsFinalizer src1"
    and run: "Reconcile env key st w = (case se_UpdateStatus env (observe src1) w1 of
        (Inl e, w) \<Rightarrow> (Some (SourceApi e), addRuntime key (newRuntime env key src1 http) st, w)
      | (Inr _, w) \<Rightarrow> (None, addRuntime key (newRuntime env key src1 http) st, w))"
    using rel src idle http by (rule reconcile_starts)
  let ?st = "addRuntime key (newRuntime env key src1 http) st"
  obtain rv w' where w': "se_UpdateStatus env (observe src1) w1 = (Inr (withVersion rv (observe src1)), w')"
    "repr w' = (repr w1)(key \<mapsto> withVersion rv (observe src1))"
    using status s1(1) unfolding reliableStatus_def observe_def by (metis fun_upd_same)
  let ?src = "withVersion rv (observe src1)"
  have src': "containsFinalizer ?src" "\<not> m_Deleting (tso_Meta ?src)" "tso_Spec ?src = tso_Spec src"
    "tsst_ObservedGeneration (tso_Status ?src) = m_Generation (tso_Meta ?src)" "repr w' key = Some ?src"
    using s1 src(2) w'(2) by (simp_all add: containsFinalizer_def observe_def sameSource_def)
  have "Reconcile env key ?st w' = (None, ?st, w')"
    using src' by (simp add: Reconcile_def reliableSources_get [OF rel] ensureFinalizer_def)
  moreover have "Reconcile env key st w = (None, ?st, w')" using run w'(1) by simp
  moreover have "gget (ss_Registry ?st) = (gget (ss_Registry st))(key \<mapsto>
      \<lparr>rv_Runtime = length (ss_Runtimes st), rv_Config = l_Cfg (rt_Loader (newRuntime env key src1 http))\<rparr>)"
    by (rule ext) (simp add: addRuntime_def gm.get_put)
  moreover have "repr w' = (repr w)(key \<mapsto> ?src)" using w'(2) s1(1) by simp
  ultimately show ?thesis
    using src' s1(2)
    by (intro exI [of _ ?st] exI [of _ w'] exI [of _ "newRuntime env key src1 http"] exI [of _ ?src])
      (simp add: sameSource_def addRuntime_def newRuntime_def)
qed

text \<open>
  A failed status update stops the discovery. When the server does not take the status after a
  discovery was started, the handler returns the error with the runtime running; the retry finds it
  registered with a generation that is not observed, stops it and ends without an error, so the source
  is left without a discovery.
\<close>

theorem failed_status_stops_discovery:
  assumes rel: "reliableSources env repr" and fails: "\<And>s w. se_UpdateStatus env s w = (Inl e, w)"
    and src: "repr w key = Some src" "\<not> m_Deleting (tso_Meta src)"
    and idle: "\<not> Exists key (ss_Registry st)" and http: "tss_HTTP (tso_Spec src) = Some http"
    and changed: "m_Generation (tso_Meta src) \<noteq> tsst_ObservedGeneration (tso_Status src)"
  shows "\<exists>st1 w1 st2 w2. Reconcile env key st w = (Some (SourceApi e), st1, w1) \<and>
    length (ss_Runtimes st) \<in> liveRuntimes st1 key \<and> Reconcile env key st1 w1 = (None, st2, w2) \<and>
    liveRuntimes st2 key = liveRuntimes st key \<and> \<not> Exists key (ss_Registry st2)"
proof -
  obtain src1 w1 where s1: "repr w1 = (repr w)(key \<mapsto> src1)" "sameSource src1 src"
    and run: "Reconcile env key st w = (case se_UpdateStatus env (observe src1) w1 of
        (Inl e, w) \<Rightarrow> (Some (SourceApi e), addRuntime key (newRuntime env key src1 http) st, w)
      | (Inr _, w) \<Rightarrow> (None, addRuntime key (newRuntime env key src1 http) st, w))"
    using rel src idle http by (rule reconcile_starts)
  let ?st = "addRuntime key (newRuntime env key src1 http) st" and ?i = "length (ss_Runtimes st)"
  have src1: "repr w1 key = Some src1" "\<not> m_Deleting (tso_Meta src1)"
    "m_Generation (tso_Meta src1) \<noteq> tsst_ObservedGeneration (tso_Status src1)"
    using s1 src(2) changed by (simp_all add: sameSource_def)
  obtain w2 where again: "Reconcile env key ?st w1 = (None, stopDiscovery key ?st, w2)"
    using rel src1(1,2) addRuntime_exists src1(3) by (rule changed_spec_stops)
  have live: "liveRuntimes ?st key = insert ?i (liveRuntimes st key)" "?i \<notin> liveRuntimes st key"
    by (auto simp: liveRuntimes_def addRuntime_def newRuntime_def nth_append less_Suc_eq)
  have stop: "stopDiscovery key ?st = cleanup key ?i ?st"
    by (simp add: stopDiscovery_def Get_def addRuntime_def gm.get_put cleanup_def)
  have "liveRuntimes (cleanup key ?i ?st) key = liveRuntimes st key" using live by auto
  moreover have "\<not> Exists key (ss_Registry (cleanup key ?i ?st))" by (simp add: cleanup_def Exists_def)
  ultimately show ?thesis
    using run fails again live
    unfolding stop by (intro exI [of _ ?st] exI [of _ w1] exI [of _ "cleanup key ?i ?st"] exI [of _ w2]) simp
qed

section \<open>A server with one source\<close>

definition oneSource :: "target_source option \<Rightarrow> source_key \<Rightarrow> target_source option" where
  "oneSource w key = (case w of None \<Rightarrow> None | Some src \<Rightarrow> if sourceKey src = key then Some src else None)"

definition exServer :: "bool \<Rightarrow> target_source option source_env" where
  "exServer statusOK =
     \<lparr>se_Get = (\<lambda>key w. case oneSource w key of None \<Rightarrow> Inl NotFound | Some src \<Rightarrow> Inr src),
      se_Update = (\<lambda>src w. (Inr src, if m_Deleting (tso_Meta src) \<and> m_Finalizers (tso_Meta src) = [] then None else Some src)),
      se_UpdateStatus = (\<lambda>src w. if statusOK then (Inr src, Some src) else (Inl (ApiError ''conflict''), w)),
      se_Fetcher = \<lparr>rf_Secret = (\<lambda>_ _. Inl []), rf_ConfigMap = (\<lambda>_ _. Inl [])\<rparr>, se_BufferSize = 10, se_ChunkSize = 100\<rparr>"

lemma oneSource_Some: "oneSource w key = Some src \<Longrightarrow> w = Some src \<and> sourceKey src = key"
  by (auto simp: oneSource_def split: option.splits if_splits)

lemma oneSource_write: "oneSource w key = Some src \<Longrightarrow> sourceKey src' = key \<Longrightarrow> oneSource (Some src') = (oneSource w)(key \<mapsto> src')"
  by (rule ext) (auto simp: oneSource_def split: option.splits if_splits)

lemma oneSource_drop: "oneSource w key = Some src \<Longrightarrow> oneSource None = (oneSource w)(key := None)"
  by (rule ext) (auto simp: oneSource_def split: option.splits if_splits)

lemma sameVersion: "withVersion (m_ResourceVersion (tso_Meta src)) src = src"
  by (simp add: withVersion_def)

lemma exServer_reliable: "reliableSources (exServer b) oneSource"
  unfolding reliableSources_def
proof (intro conjI allI impI)
  fix key w src fs assume src: "oneSource w key = Some src"
  let ?new = "withFinalizers fs src"
  have "sourceKey ?new = key" using oneSource_Some [OF src] by (simp add: sourceKey_def withFinalizers_def)
  then show "\<exists>rv w'. se_Update (exServer b) ?new w = (Inr (withVersion rv ?new), w') \<and> oneSource w' = (oneSource w)
      (key := if m_Deleting (tso_Meta src) \<and> fs = [] then None else Some (withVersion rv ?new))"
    using oneSource_write [OF src] oneSource_drop [OF src]
    by (intro exI [of _ "m_ResourceVersion (tso_Meta ?new)"]) (simp add: sameVersion exServer_def)
qed (auto simp: exServer_def dest: oneSource_Some)

lemma exServer_status: "reliableStatus (exServer True) oneSource"
  unfolding reliableStatus_def
proof (intro allI impI)
  fix key w src x assume src: "oneSource w key = Some src"
  let ?new = "src\<lparr>tso_Status := x\<rparr>"
  have "sourceKey ?new = key" using oneSource_Some [OF src] by (simp add: sourceKey_def)
  then show "\<exists>rv w'. se_UpdateStatus (exServer True) ?new w = (Inr (withVersion rv ?new), w') \<and>
      oneSource w' = (oneSource w)(key \<mapsto> withVersion rv ?new)"
    using oneSource_write [OF src]
    by (intro exI [of _ "m_ResourceVersion (tso_Meta src)"]) (simp add: withVersion_def exServer_def)
qed

definition exPoll :: http_config where
  "exPoll = \<lparr>hc_URL = ''u'', hc_Method = [], hc_Headers = [], hc_Body = [], hc_Authentication = None, hc_Interval = None,
     hc_Timeout = None, hc_TLS = None, hc_Pagination = None, hc_ResponseMapping = None, hc_PushEnabled = None\<rparr>"

text \<open>A source in generation \<open>g\<close> whose generation \<open>o\<close> is observed.\<close>

definition exPolled :: "int \<Rightarrow> int \<Rightarrow> target_source" where
  "exPolled g obs = \<lparr>tso_Meta = \<lparr>m_Name = ''s'', m_Namespace = ''n'', m_Labels = [], m_Generation = g, m_ResourceVersion = [],
       m_Finalizers = [], m_Deleting = False\<rparr>,
     tso_Spec = \<lparr>tss_HTTP = Some exPoll, tss_TargetPort = 57400, tss_TargetLabels = [], tss_TargetProfile = []\<rparr>,
     tso_Status = \<lparr>tsst_Status = [], tsst_ObservedGeneration = obs, tsst_TargetsCount = 0, tsst_LastSync = 0\<rparr>\<rparr>"

definition exKey :: source_key where "exKey = (''n'', ''s'')"

text \<open>The handler as a function on states, and an edit of the source.\<close>

definition handled :: "source_state \<times> target_source option \<Rightarrow> source_state \<times> target_source option" where
  "handled s = snd (Reconcile (exServer True) exKey (fst s) (snd s))"

definition edited :: "source_state \<times> target_source option \<Rightarrow> source_state \<times> target_source option" where
  "edited s = (fst s, map_option (\<lambda>src. src\<lparr>tso_Meta := (tso_Meta src)\<lparr>m_Generation := m_Generation (tso_Meta src) + 1\<rparr>\<rparr>) (snd s))"

lemma handled_step: "discovery_step (exServer True) late s (handled s)"
proof -
  have "Reconcile (exServer True) exKey (fst s) (snd s) =
      (fst (Reconcile (exServer True) exKey (fst s) (snd s)), fst (handled s), snd (handled s))"
    by (simp add: handled_def)
  from discovery_step.reconciled [OF this, of late] show ?thesis by simp
qed

lemma edited_step: "discovery_step (exServer True) late s (edited s)"
  using discovery_step.world_changes [of "exServer True" late "fst s" "snd s"] by (simp add: edited_def)

lemmas exSteps = reachable.step [OF _ handled_step] reachable.step [OF _ edited_step] reachable.start

text \<open>Started; stopped by an edit; started again by the next one.\<close>

definition exFirst :: "source_state \<times> target_source option" where
  "exFirst = handled (initialState, Some (exPolled 1 0))"

definition exRestarted :: "source_state \<times> target_source option" where
  "exRestarted = handled (edited (handled (edited exFirst)))"

lemma live_iff:
  "i \<in> liveRuntimes st key \<longleftrightarrow> i < length (ss_Runtimes st) \<and> rt_Key (ss_Runtimes st ! i) = key \<and> \<not> rt_Cancelled (ss_Runtimes st ! i)"
  by (simp add: liveRuntimes_def)

theorem at_most_one_discovery_witness:
  "liveRuntimes (fst exRestarted) exKey = {1} \<and> liveRuntimes (stopDiscovery exKey (fst exRestarted)) exKey = {} \<and>
     Exists exKey (ss_Registry (fst exRestarted))"
proof -
  have "reachable (exServer True) False exRestarted"
    unfolding exRestarted_def exFirst_def by (intro exSteps)
  moreover have "1 \<in> liveRuntimes (fst exRestarted) exKey"
    unfolding live_iff by code_simp
  ultimately show ?thesis
    using at_most_one_discovery [of "exServer True" "fst exRestarted" "snd exRestarted" 1 exKey] by simp
qed

text \<open>
  C36: A late processor. When the processor of a stopped runtime returns only after its source was started
  again, its clean-up removes the registration of the new runtime; the next reconciliation starts another
  one beside it, and two discoveries of one source run, of which the handler can stop one.
\<close>

theorem late_exit_doubles_discovery:
  "\<exists>st w. reachable (exServer True) True (st, w) \<and> {1, 2} \<subseteq> liveRuntimes st exKey \<and>
     1 \<in> liveRuntimes (stopDiscovery exKey st) exKey"
proof -
  let ?late = "(processorExits 0 (fst exRestarted), snd exRestarted)"
  have restarted: "reachable (exServer True) True exRestarted"
    unfolding exRestarted_def exFirst_def by (intro exSteps)
  have "discovery_step (exServer True) True (fst exRestarted, snd exRestarted) ?late"
    by (rule discovery_step.processor_exits) code_simp+
  with restarted have "reachable (exServer True) True ?late" by (auto intro: reachable.step)
  then have "reachable (exServer True) True (handled (edited ?late))" by (intro exSteps)
  moreover have "1 \<in> liveRuntimes (fst (handled (edited ?late))) exKey" "2 \<in> liveRuntimes (fst (handled (edited ?late))) exKey"
    "1 \<in> liveRuntimes (stopDiscovery exKey (fst (handled (edited ?late)))) exKey"
    unfolding live_iff by code_simp+
  ultimately show ?thesis
    by (intro exI [of _ "fst (handled (edited ?late))"] exI [of _ "snd (handled (edited ?late))"]) simp
qed

theorem discovery_starts_witness:
  "\<exists>st' w'. Reconcile (exServer True) exKey initialState (Some (exPolled 1 0)) = (None, st', w') \<and>
     Reconcile (exServer True) exKey st' w' = (None, st', w') \<and> length (ss_Runtimes st') = 1"
proof -
  have src: "oneSource (Some (exPolled 1 0)) exKey = Some (exPolled 1 0)" "\<not> m_Deleting (tso_Meta (exPolled 1 0))"
    "\<not> Exists exKey (ss_Registry initialState)" "tss_HTTP (tso_Spec (exPolled 1 0)) = Some exPoll"
    by (simp_all add: oneSource_def exPolled_def sourceKey_def exKey_def Exists_def initialState_def)
  have "ss_Runtimes initialState = []" by (simp add: initialState_def)
  with discovery_starts [OF exServer_reliable exServer_status src] show ?thesis by fastforce
qed

theorem spec_change_stops_discovery_witness:
  "\<exists>st' w'. Reconcile (exServer True) exKey (fst exFirst) (snd (edited exFirst)) = (None, st', w') \<and>
     liveRuntimes (fst exFirst) exKey \<noteq> {} \<and> liveRuntimes st' exKey = {}"
proof -
  have "reachable (exServer True) False exFirst" unfolding exFirst_def by (intro exSteps)
  then have reg: "registered (fst exFirst)" by (rule reachable_registered)
  let ?src = "the (snd (edited exFirst))"
  have some: "snd (edited exFirst) \<noteq> None" "sourceKey ?src = exKey" by code_simp+
  then have at: "oneSource (snd (edited exFirst)) exKey = Some ?src" by (auto simp: oneSource_def)
  have src: "\<not> m_Deleting (tso_Meta ?src)" "Exists exKey (ss_Registry (fst exFirst))"
    "m_Generation (tso_Meta ?src) \<noteq> tsst_ObservedGeneration (tso_Status ?src)"
    by code_simp+
  have "0 \<in> liveRuntimes (fst exFirst) exKey" unfolding live_iff by code_simp
  with spec_change_stops_discovery [OF exServer_reliable reg at src, of True] show ?thesis by auto
qed

theorem failed_status_stops_discovery_witness:
  "\<exists>st1 w1 st2 w2. Reconcile (exServer False) exKey initialState (Some (exPolled 1 0)) = (Some (SourceApi (ApiError ''conflict'')), st1, w1) \<and>
     0 \<in> liveRuntimes st1 exKey \<and> Reconcile (exServer False) exKey st1 w1 = (None, st2, w2) \<and> liveRuntimes st2 exKey = {}"
proof -
  have src: "oneSource (Some (exPolled 1 0)) exKey = Some (exPolled 1 0)" "\<not> m_Deleting (tso_Meta (exPolled 1 0))"
    "\<not> Exists exKey (ss_Registry initialState)" "tss_HTTP (tso_Spec (exPolled 1 0)) = Some exPoll"
    "m_Generation (tso_Meta (exPolled 1 0)) \<noteq> tsst_ObservedGeneration (tso_Status (exPolled 1 0))"
    by (simp_all add: oneSource_def exPolled_def sourceKey_def exKey_def Exists_def initialState_def)
  have fails: "se_UpdateStatus (exServer False) s w = (Inl (ApiError ''conflict''), w)" for s w by (simp add: exServer_def)
  have "ss_Runtimes initialState = []" "liveRuntimes initialState exKey = {}" by (simp_all add: initialState_def liveRuntimes_def)
  with failed_status_stops_discovery [OF exServer_reliable fails src] show ?thesis by fastforce
qed

end
