(* ===== verification/Other_Controllers.thy ===== *)
theory Other_Controllers
  imports Cluster_Reconcile Cluster_Correct
begin

text \<open>
  The small controllers and servers beside the cluster controller: the pipeline controller
  (\<^verbatim>\<open>pipeline_controller.go\<close>), the tunnel target policy controller, the HTTP client of the target state
  controller, and the API server that serves cached plans (\<^verbatim>\<open>internal/apiserver/apiserver.go\<close>). The clients
  are those of \<open>cluster_env\<close>; \<open>getCluster\<close> reads a cluster.
\<close>

section \<open>The pipeline controller\<close>

definition setStatus :: "string \<Rightarrow> pipeline \<Rightarrow> pipeline" where
  "setStatus s pl = pl\<lparr>pl_Status := (pl_Status pl)\<lparr>pst_Status := s\<rparr>\<rparr>"

definition reconcilePipelineStatus ::
  "'w cluster_env \<Rightarrow> (string \<Rightarrow> string \<Rightarrow> 'w \<Rightarrow> api_error + cluster) \<Rightarrow> string \<Rightarrow> string \<Rightarrow> 'w \<Rightarrow> (api_error + requeue) \<times> 'w" where
  "reconcilePipelineStatus env getCluster reqNamespace reqName w =
     (case ce_GetPipeline env reqNamespace reqName w of
        (Inl NotFound, w) \<Rightarrow> (Inr NoRequeue, w)
      | (Inl e, w) \<Rightarrow> (Inl e, w)
      | (Inr pl, w) \<Rightarrow>
          (case getCluster (m_Namespace (pl_Meta pl)) (ps_ClusterRef (pl_Spec pl)) w of
             Inl NotFound \<Rightarrow>
               (case ce_UpdatePipeline env (setStatus ''Error: Cluster not found'' pl) w of
                  (Some e, w) \<Rightarrow> (Inl e, w)
                | (None, w) \<Rightarrow> (Inr (After (30 * second)), w))
           | Inl e \<Rightarrow> (Inl e, w)
           | Inr _ \<Rightarrow>
               (let newStatus = (if ps_Enabled (pl_Spec pl) then ''Ready'' else ''Disabled'')
                in if pst_Status (pl_Status pl) = newStatus then (Inr NoRequeue, w)
                   else (case ce_UpdatePipeline env (setStatus newStatus pl) w of
                           (Some e, w) \<Rightarrow> (Inl e, w)
                         | (None, w) \<Rightarrow> (Inr NoRequeue, w)))))"

section \<open>The tunnel target policy controller\<close>

text \<open>It does nothing; policies take effect through the pipelines that resolve them.\<close>

definition reconcileTunnelTargetPolicy :: "string \<Rightarrow> string \<Rightarrow> 'w \<Rightarrow> (api_error + requeue) \<times> 'w" where
  "reconcileTunnelTargetPolicy reqNamespace reqName w = (Inr NoRequeue, w)"

section \<open>The HTTP client of the target state controller\<close>

text \<open>The target state controller has its own \<^verbatim>\<open>getIssuerCA\<close>.\<close>

definition stateIssuerCA :: "'w cluster_env \<Rightarrow> string \<Rightarrow> string \<Rightarrow> string + string" where
  "stateIssuerCA env namespace issuerName =
     (case ce_Issuer env namespace issuerName of
        Inl e \<Rightarrow> Inl (''failed to get issuer '' @ issuerName @ '': '' @ ce_ErrText env e)
      | Inr issuer \<Rightarrow>
          if iss_CASecretName issuer = None \<or> iss_CASecretName issuer = Some []
          then Inl (''issuer '' @ issuerName @ '' is not a CA issuer or has no secret configured'')
          else
            let secretName = the (iss_CASecretName issuer)
            in (case rds_Secret (ce_Readers env) namespace secretName of
                  Inl e \<Rightarrow> Inl (''failed to get CA secret '' @ secretName @ '': '' @ ce_ErrText env e)
                | Inr data \<Rightarrow>
                    (case gget data ''tls.crt'' of
                       None \<Rightarrow> Inl (''CA secret '' @ secretName @ '' does not contain tls.crt'')
                     | Some caCert \<Rightarrow> Inr caCert)))"

definition createHTTPClient :: "'w cluster_env \<Rightarrow> cluster \<Rightarrow> string + http_client" where
  "createHTTPClient env cl =
     (case Option.bind (cs_API (cl_Spec cl)) api_TLS of
        None \<Rightarrow> Inr PlainClient
      | Some tls \<Rightarrow>
          bindE
            (if ct_IssuerRef tls = [] then Inr (None, None)
             else
               bindE (wrapE ''failed to read controller cert'' (ce_ReadFile env (GetControllerCertPath env))) (\<lambda>cert.
               bindE (wrapE ''failed to read controller key'' (ce_ReadFile env (GetControllerKeyPath env))) (\<lambda>key.
                 case ce_KeyPair env cert key of
                   Some e \<Rightarrow> Inl e
                 | None \<Rightarrow>
                     bindE (wrapE ''failed to get issuer CA'' (stateIssuerCA env (m_Namespace (cl_Meta cl)) (ct_IssuerRef tls)))
                       (\<lambda>ca. Inr (Some (cert, key), Some [ca])))))
            (\<lambda>(certificate, rootCAs).
              if ct_BundleRef tls = [] then Inr (TLSClient certificate rootCAs)
              else bindE (wrapE ''failed to read controller CA'' (ce_ReadFile env (GetControllerCAPath env))) (\<lambda>ca.
                Inr (TLSClient certificate
                  (Some ((case rootCAs of None \<Rightarrow> [] | Some cas \<Rightarrow> cas) @ [ca]))))))"

section \<open>The API server\<close>

record api_response =
  ar_Status :: int
  ar_ContentType :: string
  ar_Body :: string

text \<open>\<^verbatim>\<open>http.Error\<close>.\<close>

definition httpError :: "string \<Rightarrow> int \<Rightarrow> api_response" where
  "httpError msg code = \<lparr>ar_Status = code, ar_ContentType = ''text/plain; charset=utf-8'', ar_Body = msg @ [CHR 0x0A]\<rparr>"

definition getClusterPlan :: "(apply_plan \<Rightarrow> string + string) \<Rightarrow> plans \<Rightarrow> string \<Rightarrow> string \<Rightarrow> api_response" where
  "getClusterPlan encode plans namespace name =
     (case GetClusterPlan namespace name plans of
        Inl e \<Rightarrow> httpError e 404
      | Inr plan \<Rightarrow>
          (case encode plan of
             Inl e \<Rightarrow> httpError e 500
           | Inr body \<Rightarrow> \<lparr>ar_Status = 200, ar_ContentType = ''application/json'', ar_Body = body\<rparr>))"

text \<open>
  The one route, on the segments of a clean path: \<^verbatim>\<open>http.ServeMux\<close> serves a pattern for \<^verbatim>\<open>GET\<close> to \<^verbatim>\<open>HEAD\<close> also,
  answers 405 to the other methods and 404 elsewhere.
\<close>

definition routes :: "(apply_plan \<Rightarrow> string + string) \<Rightarrow> plans \<Rightarrow> string \<Rightarrow> string list \<Rightarrow> api_response" where
  "routes encode plans verb path =
     (case path of
        [clusters, namespace, name, plan] \<Rightarrow>
          if clusters \<noteq> ''clusters'' \<or> plan \<noteq> ''plan'' then httpError ''404 page not found'' 404
          else if verb = ''GET'' \<or> verb = ''HEAD'' then getClusterPlan encode plans namespace name
          else httpError ''Method Not Allowed'' 405
      | _ \<Rightarrow> httpError ''404 page not found'' 404)"

section \<open>Two writers of one status\<close>

definition pipelineAt :: "('w \<Rightarrow> string \<times> string \<Rightarrow> pipeline option) \<Rightarrow> 'w \<Rightarrow> pipeline \<Rightarrow> bool" where
  "pipelineAt repr w pl \<longleftrightarrow> repr w (m_Namespace (pl_Meta pl), m_Name (pl_Meta pl)) = Some pl"

text \<open>
  The server returns what it stores under a name and accepts a change of the status of a pipeline.
\<close>

definition reliablePipelines :: "'w cluster_env \<Rightarrow> ('w \<Rightarrow> string \<times> string \<Rightarrow> pipeline option) \<Rightarrow> bool" where
  "reliablePipelines env repr \<longleftrightarrow>
     (\<forall>w pl. pipelineAt repr w pl \<longrightarrow> ce_GetPipeline env (m_Namespace (pl_Meta pl)) (m_Name (pl_Meta pl)) w = (Inr pl, w)) \<and>
     (\<forall>w pl s. pipelineAt repr w pl \<longrightarrow> (\<exists>w'. ce_UpdatePipeline env (pl\<lparr>pl_Status := s\<rparr>) w = (None, w') \<and>
        repr w' = (repr w)((m_Namespace (pl_Meta pl), m_Name (pl_Meta pl)) \<mapsto> pl\<lparr>pl_Status := s\<rparr>)))"

lemma reliablePipelines_update:
  assumes "reliablePipelines env repr" and "pipelineAt repr w pl"
  obtains w' where "ce_UpdatePipeline env (pl\<lparr>pl_Status := s\<rparr>) w = (None, w')" and "pipelineAt repr w' (pl\<lparr>pl_Status := s\<rparr>)"
proof -
  obtain w' where "ce_UpdatePipeline env (pl\<lparr>pl_Status := s\<rparr>) w = (None, w')"
    "repr w' = (repr w)((m_Namespace (pl_Meta pl), m_Name (pl_Meta pl)) \<mapsto> pl\<lparr>pl_Status := s\<rparr>)"
    using assms unfolding reliablePipelines_def by blast
  then show thesis by (intro that [of w']) (simp_all add: pipelineAt_def)
qed

lemma reliablePipelines_get:
  "reliablePipelines env repr \<Longrightarrow> pipelineAt repr w pl \<Longrightarrow>
   ce_GetPipeline env (m_Namespace (pl_Meta pl)) (m_Name (pl_Meta pl)) w = (Inr pl, w)"
  unfolding reliablePipelines_def by blast

text \<open>What the pipeline controller wants a status to be.\<close>

definition wantedStatus :: "pipeline \<Rightarrow> string" where
  "wantedStatus pl = (if ps_Enabled (pl_Spec pl) then ''Ready'' else ''Disabled'')"

lemma reconcilePipelineStatus_reliable:
  assumes rel: "reliablePipelines env repr" and pl: "pipelineAt repr w pl"
    and cluster: "\<And>w. \<exists>cl. getCluster (m_Namespace (pl_Meta pl)) (ps_ClusterRef (pl_Spec pl)) w = Inr cl"
  obtains w' where "reconcilePipelineStatus env getCluster (m_Namespace (pl_Meta pl)) (m_Name (pl_Meta pl)) w = (Inr NoRequeue, w')"
    and "pipelineAt repr w' (setStatus (wantedStatus pl) pl)"
proof -
  obtain cl where cl: "getCluster (m_Namespace (pl_Meta pl)) (ps_ClusterRef (pl_Spec pl)) w = Inr cl" using cluster by blast
  note get = reliablePipelines_get [OF rel pl]
  show thesis
  proof (cases "pst_Status (pl_Status pl) = wantedStatus pl")
    case True
    then have same: "setStatus (wantedStatus pl) pl = pl" by (cases pl, cases "pl_Status pl") (simp add: setStatus_def)
    from True have "reconcilePipelineStatus env getCluster (m_Namespace (pl_Meta pl)) (m_Name (pl_Meta pl)) w = (Inr NoRequeue, w)"
      by (simp add: reconcilePipelineStatus_def get cl wantedStatus_def)
    with pl same show thesis by (intro that [of w]) simp_all
  next
    case False
    obtain w' where "ce_UpdatePipeline env (setStatus (wantedStatus pl) pl) w = (None, w')" "pipelineAt repr w' (setStatus (wantedStatus pl) pl)"
      unfolding setStatus_def using rel pl by (rule reliablePipelines_update)
    with False show thesis
      by (intro that [of w']) (simp_all add: reconcilePipelineStatus_def get cl wantedStatus_def)
  qed
qed

lemma updatePipelineStatus_reliable:
  assumes rel: "reliablePipelines env repr" and pl: "pipelineAt repr w pl"
    and differs: "\<not> pipelineStatusEqual (pl_Status pl) (pipelineStatusOf now pl pd)"
  obtains w' where "updatePipelineStatus env now pl pd w = (None, w')"
    and "pipelineAt repr w' (pl\<lparr>pl_Status := pipelineStatusOf now pl pd\<rparr>)"
proof -
  obtain w' where w': "ce_UpdatePipeline env (pl\<lparr>pl_Status := pipelineStatusOf now pl pd\<rparr>) w = (None, w')"
    "pipelineAt repr w' (pl\<lparr>pl_Status := pipelineStatusOf now pl pd\<rparr>)"
    using rel pl by (rule reliablePipelines_update)
  have "writePipelineStatus env (Suc n) (pipelineStatusOf now pl pd) (m_Namespace (pl_Meta pl)) (m_Name (pl_Meta pl)) w = (Written, w')" for n
    using w'(1) by (simp add: reliablePipelines_get [OF rel pl])
  from this [of 4] differs w' show thesis by (intro that [of w']) (simp_all add: updatePipelineStatus_def)
qed

text \<open>
  C37: Two controllers write one field. Wherever a pipeline's status stands, the pipeline controller
  makes it \<^verbatim>\<open>Ready\<close> or \<^verbatim>\<open>Disabled\<close>. That never compares equal to what the cluster controller computes, so
  its next pass over the pipeline writes \<^verbatim>\<open>Active\<close> or \<^verbatim>\<open>Incomplete\<close>, whatever the resolved data, and the
  pipeline controller, which the write wakes up, overwrites it again: the field never settles.
\<close>

theorem pipeline_status_contested:
  assumes rel: "reliablePipelines env repr" and pl: "pipelineAt repr w pl"
    and cluster: "\<And>w. \<exists>cl. getCluster (m_Namespace (pl_Meta pl)) (ps_ClusterRef (pl_Spec pl)) w = Inr cl"
  shows "let reconcile = reconcilePipelineStatus env getCluster (m_Namespace (pl_Meta pl)) (m_Name (pl_Meta pl));
      pl1 = setStatus (wantedStatus pl) pl
    in \<exists>w1. reconcile w = (Inr NoRequeue, w1) \<and> pipelineAt repr w1 pl1 \<and>
      (\<forall>now pd. \<exists>w2 pl2 w3 pl3. updatePipelineStatus env now pl1 pd w1 = (None, w2) \<and> pipelineAt repr w2 pl2 \<and>
         pst_Status (pl_Status pl2) \<in> {''Active'', ''Incomplete''} \<and>
         reconcile w2 = (Inr NoRequeue, w3) \<and> pipelineAt repr w3 pl3 \<and> pst_Status (pl_Status pl3) = wantedStatus pl \<and>
         pst_Conditions (pl_Status pl3) = pst_Conditions (pl_Status pl2))"
proof -
  let ?pl1 = "setStatus (wantedStatus pl) pl"
  obtain w1 where w1: "reconcilePipelineStatus env getCluster (m_Namespace (pl_Meta pl)) (m_Name (pl_Meta pl)) w = (Inr NoRequeue, w1)"
    "pipelineAt repr w1 ?pl1"
    using rel pl cluster by (rule reconcilePipelineStatus_reliable)
  have again: "\<exists>w2 pl2 w3 pl3. updatePipelineStatus env now ?pl1 pd w1 = (None, w2) \<and> pipelineAt repr w2 pl2 \<and>
      pst_Status (pl_Status pl2) \<in> {''Active'', ''Incomplete''} \<and>
      reconcilePipelineStatus env getCluster (m_Namespace (pl_Meta pl)) (m_Name (pl_Meta pl)) w2 = (Inr NoRequeue, w3) \<and>
      pipelineAt repr w3 pl3 \<and> pst_Status (pl_Status pl3) = wantedStatus pl \<and>
      pst_Conditions (pl_Status pl3) = pst_Conditions (pl_Status pl2)" for now pd
  proof -
    have differs: "\<not> pipelineStatusEqual (pl_Status ?pl1) (pipelineStatusOf now ?pl1 pd)"
      by (auto simp: pipelineStatusEqual_def pipelineStatusOf_def setStatus_def wantedStatus_def)
    obtain w2 where w2: "updatePipelineStatus env now ?pl1 pd w1 = (None, w2)"
      "pipelineAt repr w2 (?pl1\<lparr>pl_Status := pipelineStatusOf now ?pl1 pd\<rparr>)"
      using rel w1(2) differs by (rule updatePipelineStatus_reliable)
    let ?pl2 = "?pl1\<lparr>pl_Status := pipelineStatusOf now ?pl1 pd\<rparr>"
    have meta: "pl_Meta ?pl2 = pl_Meta pl" "pl_Spec ?pl2 = pl_Spec pl" "wantedStatus ?pl2 = wantedStatus pl"
      by (simp_all add: setStatus_def wantedStatus_def)
    obtain w3 where "reconcilePipelineStatus env getCluster (m_Namespace (pl_Meta ?pl2)) (m_Name (pl_Meta ?pl2)) w2 = (Inr NoRequeue, w3)"
      "pipelineAt repr w3 (setStatus (wantedStatus ?pl2) ?pl2)"
      using rel w2(2) cluster [folded meta(1,2)] by (rule reconcilePipelineStatus_reliable)
    with w2 show ?thesis
      unfolding meta by (intro exI [of _ w2] exI [of _ ?pl2] exI [of _ w3] exI [of _ "setStatus (wantedStatus pl) ?pl2"])
        (simp add: setStatus_def pipelineStatusOf_def)
  qed
  show ?thesis unfolding Let_def using w1 again by blast
qed

text \<open>A server that holds one pipeline.\<close>

definition onePipeline :: "pipeline \<Rightarrow> string \<times> string \<Rightarrow> pipeline option" where
  "onePipeline w key = (if key = (m_Namespace (pl_Meta w), m_Name (pl_Meta w)) then Some w else None)"

definition exPipelineEnv :: "pipeline cluster_env" where
  "exPipelineEnv = (exEnvOver exReaders (\<lambda>_ _ _ w. (Inl [], w)))
     \<lparr>ce_GetPipeline := (\<lambda>ns n w. (case onePipeline w (ns, n) of None \<Rightarrow> Inl NotFound | Some pl \<Rightarrow> Inr pl, w)),
      ce_UpdatePipeline := (\<lambda>pl w. (None, pl))\<rparr>"

lemma exPipelineEnv_reliable: "reliablePipelines exPipelineEnv onePipeline"
  unfolding reliablePipelines_def
proof (intro conjI allI impI)
  fix w pl s assume "pipelineAt onePipeline w pl"
  then have "w = pl" by (auto simp: pipelineAt_def onePipeline_def split: if_splits)
  then show "\<exists>w'. ce_UpdatePipeline exPipelineEnv (pl\<lparr>pl_Status := s\<rparr>) w = (None, w') \<and>
      onePipeline w' = (onePipeline w)((m_Namespace (pl_Meta pl), m_Name (pl_Meta pl)) \<mapsto> pl\<lparr>pl_Status := s\<rparr>)"
    by (auto simp: exPipelineEnv_def onePipeline_def fun_eq_iff)
qed (auto simp: exPipelineEnv_def pipelineAt_def)

theorem pipeline_status_contested_witness:
  "\<exists>w1 w2. reconcilePipelineStatus exPipelineEnv (\<lambda>_ _ _. Inr exCluster) ''n'' (m_Name (pl_Meta exCR)) exCR = (Inr NoRequeue, w1) \<and>
     updatePipelineStatus exPipelineEnv 0 (setStatus (wantedStatus exCR) exCR) NewPipelineData w1 = (None, w2) \<and>
     pst_Status (pl_Status w2) \<in> {''Active'', ''Incomplete''}"
proof -
  have pl: "pipelineAt onePipeline exCR exCR" by (simp add: pipelineAt_def onePipeline_def)
  have ns: "m_Namespace (pl_Meta exCR) = ''n''" by code_simp
  have "\<exists>cl. (\<lambda>_ _ _. Inr exCluster) (m_Namespace (pl_Meta exCR)) (ps_ClusterRef (pl_Spec exCR)) w = (Inr cl :: api_error + cluster)" for w :: pipeline
    by simp
  from pipeline_status_contested [OF exPipelineEnv_reliable pl this]
  obtain w1 where w1: "reconcilePipelineStatus exPipelineEnv (\<lambda>_ _ _. Inr exCluster) ''n'' (m_Name (pl_Meta exCR)) exCR = (Inr NoRequeue, w1)"
    and "\<forall>now pd. \<exists>w2 pl2 w3 pl3. updatePipelineStatus exPipelineEnv now (setStatus (wantedStatus exCR) exCR) pd w1 = (None, w2) \<and>
       pipelineAt onePipeline w2 pl2 \<and> pst_Status (pl_Status pl2) \<in> {''Active'', ''Incomplete''}"
    unfolding Let_def ns by blast
  then obtain w2 pl2 where "updatePipelineStatus exPipelineEnv 0 (setStatus (wantedStatus exCR) exCR) NewPipelineData w1 = (None, w2)"
    "pipelineAt onePipeline w2 pl2" "pst_Status (pl_Status pl2) \<in> {''Active'', ''Incomplete''}"
    by blast
  moreover from this(2) have "w2 = pl2" by (auto simp: pipelineAt_def onePipeline_def split: if_splits)
  ultimately show ?thesis using w1 by blast
qed

section \<open>Plans over HTTP\<close>

text \<open>
  A \<^verbatim>\<open>GET\<close> of a cluster's path is answered with the plan that was cached last for a cluster, under names without a
  slash as the server of Kubernetes admits them, whatever is cached for other clusters; with 404 once the
  plan is cleaned up; and with 500 only when the plan cannot be encoded.
\<close>

theorem api_serves_cached_plan:
  assumes "CHR ''/'' \<notin> set ns" "CHR ''/'' \<notin> set ns'" and "(ns', name') \<noteq> (ns, name)"
  shows "routes encode (CachePlan ns' name' plan' (CachePlan ns name plan plans)) ''GET'' [''clusters'', ns, name, ''plan''] =
      (case encode plan of Inl e \<Rightarrow> httpError e 500
       | Inr body \<Rightarrow> \<lparr>ar_Status = 200, ar_ContentType = ''application/json'', ar_Body = body\<rparr>) \<and>
    ar_Status (routes encode (cleanupPlan ns name plans) ''GET'' [''clusters'', ns, name, ''plan'']) = 404 \<and>
    routes encode (cleanupPlan ns' name' plans) ''GET'' [''clusters'', ns, name, ''plan''] =
      routes encode plans ''GET'' [''clusters'', ns, name, ''plan'']"
proof -
  have "ns' @ ''/'' @ name' \<noteq> ns @ ''/'' @ name"
    using nsname_inj [OF assms(1,2), of name name'] assms(3) by (auto simp: nsname_def Delimiter_def)
  then show ?thesis
    by (simp add: routes_def getClusterPlan_def GetClusterPlan_def CachePlan_def cleanupPlan_def gm.get_put gm.get_del httpError_def)
qed

theorem api_serves_cached_plan_witness:
  "\<forall>plan plan'. routes (\<lambda>_. Inr ''{}'') (CachePlan ''n'' ''d'' plan' (CachePlan ''n'' ''c'' plan [])) ''GET''
       [''clusters'', ''n'', ''c'', ''plan''] =
     \<lparr>ar_Status = 200, ar_ContentType = ''application/json'', ar_Body = ''{}''\<rparr>"
  using api_serves_cached_plan [of "''n''" "''n''" "''d''" "''c''" "\<lambda>_. Inr ''{}''"] by simp

section \<open>The two clients\<close>

text \<open>Results that agree up to the text of an error.\<close>

definition sameUpToError :: "string + 'a \<Rightarrow> string + 'a \<Rightarrow> bool" where
  "sameUpToError a b \<longleftrightarrow> map_sum (\<lambda>_. ()) id a = map_sum (\<lambda>_. ()) id b"

lemma sameUpToError_refl [intro]: "sameUpToError a a"
  by (simp add: sameUpToError_def)

lemma sameUpToError_bind [intro]:
  "sameUpToError a b \<Longrightarrow> (\<And>x. sameUpToError (f x) (g x)) \<Longrightarrow> sameUpToError (bindE a f) (bindE b g)"
  by (cases a; cases b) (auto simp: sameUpToError_def)

lemma sameUpToError_wrap [intro]: "sameUpToError (wrapE p r) (wrapE q r)"
  by (cases r) (simp_all add: sameUpToError_def wrapE_def)

lemma stateIssuerCA_eq [simp]: "stateIssuerCA env namespace issuerName = getIssuerCA env namespace issuerName"
  by (simp add: stateIssuerCA_def getIssuerCA_def wrapE_def split: sum.split option.split)

text \<open>
  The two HTTP clients agree. For every cluster the client with which the target state controller
  reads the state of the pods presents the same certificate and trusts the same roots as the client with
  which the cluster controller configures them; they fail for the same clusters, with errors of their own
  wording. (Only the cluster controller's client has a time limit.)
\<close>

theorem http_clients_agree:
  "sameUpToError (createHTTPClient env cl) (createHTTPClientForCluster env cl)"
  unfolding createHTTPClient_def createHTTPClientForCluster_def
  by (cases "Option.bind (cs_API (cl_Spec cl)) api_TLS")
    (auto split: option.split prod.split intro!: sameUpToError_bind)

end
