(* ===== verification/Watches.thy ===== *)
theory Watches
  imports Cluster_Reconcile Discovery_Core
begin

text \<open>
  What wakes the controllers: the \<^verbatim>\<open>SetupWithManager\<close> functions of \<^verbatim>\<open>internal/controller\<close> as functions from
  an event to the requests it adds to a controller's queue.

  An event is a change of one object. \<^verbatim>\<open>For\<close> enqueues the object itself, \<^verbatim>\<open>Owns\<close> the cluster that controls
  it, \<^verbatim>\<open>Watches\<close> what a map function finds; the map function of an update is run on the old and on the new
  object. A predicate filters updates only: every one used here passes creations and deletions.
\<close>

section \<open>Events and predicates\<close>

datatype 'a change = Created 'a | Updated 'a 'a | Deleted 'a

fun versions :: "'a change \<Rightarrow> 'a list" where
  "versions (Created x) = [x]"
| "versions (Updated old new) = [old, new]"
| "versions (Deleted x) = [x]"

type_synonym update_predicate = "object_meta \<Rightarrow> object_meta \<Rightarrow> bool"

text \<open>\<^verbatim>\<open>predicate.GenerationChangedPredicate\<close>, the predicate of this package, and no predicate.\<close>

definition generationChanged :: update_predicate where
  "generationChanged old new \<longleftrightarrow> m_Generation old \<noteq> m_Generation new"

definition specOrLabels :: update_predicate where
  "specOrLabels old new \<longleftrightarrow> generationOrLabelsChanged (Some old) (Some new)"

definition always :: update_predicate where
  "always old new \<longleftrightarrow> True"

fun passes :: "update_predicate \<Rightarrow> ('a \<Rightarrow> object_meta) \<Rightarrow> 'a change \<Rightarrow> bool" where
  "passes P meta (Updated old new) = P (meta old) (meta new)"
| "passes P meta _ = True"

definition enqueued :: "update_predicate \<Rightarrow> ('a \<Rightarrow> object_meta) \<Rightarrow> ('a \<Rightarrow> request list) \<Rightarrow> 'a change \<Rightarrow> request list" where
  "enqueued P meta mapFn c = (if passes P meta c then fold (\<lambda>x. addRequests (mapFn x)) (versions c) [] else [])"

definition itself :: "('a \<Rightarrow> object_meta) \<Rightarrow> 'a \<Rightarrow> request list" where
  "itself meta x = [(m_Namespace (meta x), m_Name (meta x))]"

section \<open>The cluster controller\<close>

text \<open>\<^verbatim>\<open>Owns\<close>: the cluster that controls the object.\<close>

definition ownerOf :: "'o kind \<Rightarrow> 'o \<Rightarrow> request list" where
  "ownerOf K x = (case k_Controller K x of None \<Rightarrow> [] | Some n \<Rightarrow> [(m_Namespace (k_Meta K x), n)])"

datatype event =
  ClusterEvent "cluster change"
| StatefulSetEvent "stateful_set change"
| ServiceEvent "service_object change"
| CertificateEvent "certificate change"
| PipelineEvent "pipeline change"
| TargetEvent "target change"
| SubscriptionEvent "subscription_spec resource change"
| OutputEvent "output_spec resource change"
| InputEvent "input_spec resource change"
| ProcessorEvent "processor_spec resource change"
| TargetProfileEvent "target_profile_spec resource change"
| TunnelTargetPolicyEvent "tunnel_policy_spec resource change"

fun clusterRequests :: "readers \<Rightarrow> selector_fn \<Rightarrow> event \<Rightarrow> request list" where
  "clusterRequests rs asSelector (ClusterEvent c) = enqueued generationChanged cl_Meta (itself cl_Meta) c"
| "clusterRequests rs asSelector (StatefulSetEvent c) = enqueued always (k_Meta stsKind) (ownerOf stsKind) c"
| "clusterRequests rs asSelector (ServiceEvent c) = enqueued generationChanged (k_Meta svcKind) (ownerOf svcKind) c"
| "clusterRequests rs asSelector (CertificateEvent c) = enqueued always (k_Meta certKind) (ownerOf certKind) c"
| "clusterRequests rs asSelector (PipelineEvent c) = enqueued generationChanged pl_Meta findClusterForPipeline c"
| "clusterRequests rs asSelector (TargetEvent c) = enqueued specOrLabels t_Meta (findClustersForTarget rs asSelector) c"
| "clusterRequests rs asSelector (SubscriptionEvent c) =
     enqueued specOrLabels r_Meta (findClustersForSubscription rs asSelector) c"
| "clusterRequests rs asSelector (OutputEvent c) = enqueued specOrLabels r_Meta (findClustersForOutput rs asSelector) c"
| "clusterRequests rs asSelector (InputEvent c) = enqueued specOrLabels r_Meta (findClustersForInput rs asSelector) c"
| "clusterRequests rs asSelector (ProcessorEvent c) = enqueued specOrLabels r_Meta (findClustersForProcessor rs asSelector) c"
| "clusterRequests rs asSelector (TargetProfileEvent c) =
     enqueued generationChanged r_Meta (findClustersForTargetProfile rs asSelector) c"
| "clusterRequests rs asSelector (TunnelTargetPolicyEvent c) =
     enqueued specOrLabels r_Meta (findClustersForTunnelTargetPolicy rs asSelector) c"

section \<open>The other controllers\<close>

definition pipelineRequests :: "pipeline change \<Rightarrow> request list" where
  "pipelineRequests c = enqueued always pl_Meta (itself pl_Meta) c"

definition targetStateRequests :: "cluster change \<Rightarrow> request list" where
  "targetStateRequests c = enqueued generationChanged cl_Meta (itself cl_Meta) c"

definition targetSourceRequests :: "target_source change \<Rightarrow> request list" where
  "targetSourceRequests c = enqueued generationChanged tso_Meta (itself tso_Meta) c"

definition tunnelTargetPolicyRequests :: "tunnel_policy_spec resource change \<Rightarrow> request list" where
  "tunnelTargetPolicyRequests c = enqueued always r_Meta (itself r_Meta) c"

end
