(* ===== verification/Plan_Stable.thy ===== *)
theory Plan_Stable
  imports Cluster_Correct
begin

text \<open>
  The plan of a cluster is a function of the specifications of the objects its pipelines reference:
  when two states of the API server agree on those, \<^verbatim>\<open>Reconcile\<close> builds the same plan in both, up to the
  current assignment, which it takes from the statuses of the targets. The proofs are relational: every
  operation between the readers and \<^verbatim>\<open>Build\<close> maps related arguments to related results.
\<close>

section \<open>Related results\<close>

lemma bindE_rel:
  assumes "rel_sum (=) A r r'" and "\<And>x y. A x y \<Longrightarrow> rel_sum (=) B (f x) (g y)"
  shows "rel_sum (=) B (bindE r f) (bindE r' g)"
  using assms by (cases r; cases r') auto

lemma foldE_rel:
  assumes "list_all2 R xs ys" and "S s t" and "\<And>x y s t. R x y \<Longrightarrow> S s t \<Longrightarrow> rel_sum (=) S (f x s) (g y t)"
  shows "rel_sum (=) S (foldE f xs s) (foldE g ys t)"
  using assms(1,2)
proof (induction arbitrary: s t rule: list_all2_induct)
  case (Cons x xs y ys)
  show ?case using assms(3) [OF Cons(1,4)] Cons(3) by (auto intro: bindE_rel)
qed simp

lemma fold_rel:
  assumes "list_all2 R xs ys" and "S s t" and "\<And>x y s t. R x y \<Longrightarrow> S s t \<Longrightarrow> S (f x s) (g y t)"
  shows "S (fold f xs s) (fold g ys t)"
  using assms(1,2) by (induction arbitrary: s t rule: list_all2_induct) (simp_all add: assms(3))

lemma fold_rel_eq:
  assumes "list_all2 R xs ys" and "\<And>x y s. R x y \<Longrightarrow> f x s = g y s"
  shows "fold f xs s = fold g ys s"
  by (rule fold_rel [OF assms(1), of "(=)"]) (simp_all add: assms(2))

text \<open>Maps with the same keys in the same order and related values.\<close>

abbreviation relMap :: "('a \<Rightarrow> 'b \<Rightarrow> bool) \<Rightarrow> ('k, 'a) gomap \<Rightarrow> ('k, 'b) gomap \<Rightarrow> bool" where
  "relMap R \<equiv> list_all2 (rel_prod (=) R)"

lemma gput_rel:
  assumes "relMap R m m'" and "R v v'"
  shows "relMap R (gput m k v) (gput m' k v')"
  using assms(1)
proof (induction rule: list_all2_induct)
  case (Cons x xs y ys)
  then show ?case using assms(2) by (cases x; cases y) (auto simp: gput_def)
qed (simp add: gput_def assms(2))

lemma gkeys_rel: "relMap R m m' \<Longrightarrow> gkeys m = gkeys m'"
  by (induction rule: list_all2_induct) (auto simp: gkeys_def)

section \<open>Objects that agree\<close>

definition sameMeta :: "object_meta \<Rightarrow> object_meta \<Rightarrow> bool" where
  "sameMeta a b \<longleftrightarrow> m_Name a = m_Name b \<and> m_Namespace a = m_Namespace b"

definition sameResource :: "'s resource \<Rightarrow> 's resource \<Rightarrow> bool" where
  "sameResource x y \<longleftrightarrow> sameMeta (r_Meta x) (r_Meta y) \<and> r_Spec x = r_Spec y"

definition sameTarget :: "target \<Rightarrow> target \<Rightarrow> bool" where
  "sameTarget x y \<longleftrightarrow> sameMeta (t_Meta x) (t_Meta y) \<and> t_Spec x = t_Spec y"

definition samePipeline :: "pipeline \<Rightarrow> pipeline \<Rightarrow> bool" where
  "samePipeline x y \<longleftrightarrow> sameMeta (pl_Meta x) (pl_Meta y) \<and> pl_Spec x = pl_Spec y"

definition sameCluster :: "cluster \<Rightarrow> cluster \<Rightarrow> bool" where
  "sameCluster x y \<longleftrightarrow> sameMeta (cl_Meta x) (cl_Meta y) \<and> cl_Spec x = cl_Spec y"

lemma sameMeta_refl [simp]: "sameMeta a a" by (simp add: sameMeta_def)

lemma sameResource_refl [simp]: "sameResource x x" by (simp add: sameResource_def)

lemma sameTarget_refl [simp]: "sameTarget x x" by (simp add: sameTarget_def)

lemma samePipeline_refl [simp]: "samePipeline x x" by (simp add: samePipeline_def)

lemma sameCluster_refl [simp]: "sameCluster x x" by (simp add: sameCluster_def)

lemma sameMeta_NN: "sameMeta a b \<Longrightarrow> metaNN a = metaNN b" by (simp add: sameMeta_def metaNN_def)

lemma sameResource_parts:
  assumes "sameResource x y"
  shows "r_Spec x = r_Spec y" and "r_Name x = r_Name y" and "metaNN (r_Meta x) = metaNN (r_Meta y)"
    and "m_Namespace (r_Meta x) = m_Namespace (r_Meta y)"
  using assms by (simp_all add: sameResource_def sameMeta_def r_Name_def metaNN_def)

lemma sameTarget_parts:
  assumes "sameTarget x y"
  shows "t_Spec x = t_Spec y" and "metaNN (t_Meta x) = metaNN (t_Meta y)" and "t_Name x = t_Name y"
  using assms by (simp_all add: sameTarget_def sameMeta_def t_Name_def metaNN_def)

lemma samePipeline_parts:
  assumes "samePipeline x y"
  shows "pl_Spec y = pl_Spec x" and "m_Namespace (pl_Meta y) = m_Namespace (pl_Meta x)" and "metaNN (pl_Meta y) = metaNN (pl_Meta x)"
  using assms by (simp_all add: samePipeline_def sameMeta_def metaNN_def)

section \<open>Reading in order\<close>

text \<open>
  A client whose lists are those of the API server: the objects of the namespace that the selector
  selects, in the order of their names.
\<close>

definition listedBy :: "(string \<times> string \<Rightarrow> 'a option) \<Rightarrow> string \<Rightarrow> ('a \<Rightarrow> bool) \<Rightarrow> 'a list" where
  "listedBy A ns P = map (\<lambda>n. the (A (ns, n))) (sorted_list_of_set {n. \<exists>x. A (ns, n) = Some x \<and> P x})"

definition listed :: "('a \<Rightarrow> object_meta) \<Rightarrow> (string \<times> string \<Rightarrow> 'a option) \<Rightarrow> string \<Rightarrow> (labels \<Rightarrow> bool) \<Rightarrow> 'a list" where
  "listed meta A ns p = listedBy A ns (\<lambda>x. p (m_Labels (meta x)))"

definition readsInOrder :: "('a \<Rightarrow> object_meta) \<Rightarrow> 'a reader \<Rightarrow> string \<Rightarrow> (string \<times> string \<Rightarrow> 'a option) \<Rightarrow> bool" where
  "readsInOrder meta rd ns A \<longleftrightarrow> finite {n. A (ns, n) \<noteq> None} \<and>
     (\<forall>n. rd_get rd ns n = (case A (ns, n) of None \<Rightarrow> Inl NotFound | Some x \<Rightarrow> Inr x)) \<and>
     (\<forall>p. rd_list rd ns p = Inr (listed meta A ns p)) \<and>
     (\<forall>n x. A (ns, n) = Some x \<longrightarrow> m_Namespace (meta x) = ns \<and> m_Name (meta x) = n)"

lemma finite_names: "finite {n. A (ns, n) \<noteq> None} \<Longrightarrow> finite {n. \<exists>x. A (ns, n) = Some x \<and> P x}"
  by (rule finite_subset [rotated]) auto

lemma listedBy_set:
  assumes "finite {n. A (ns, n) \<noteq> None}"
  shows "set (listedBy A ns P) = {x. \<exists>n. A (ns, n) = Some x \<and> P x}"
  using finite_names [OF assms, of P] by (force simp: listedBy_def)

lemma filter_listedBy:
  assumes "finite {n. A (ns, n) \<noteq> None}"
  shows "filter Q (listedBy A ns P) = listedBy A ns (\<lambda>x. P x \<and> Q x)"
proof -
  let ?ns = "sorted_list_of_set {n. \<exists>x. A (ns, n) = Some x \<and> P x}"
  have "filter (\<lambda>n. Q (the (A (ns, n)))) ?ns = sorted_list_of_set {n. \<exists>x. A (ns, n) = Some x \<and> P x \<and> Q x}"
    using finite_names [OF assms] by (intro sorted_distinct_set_unique) (auto simp: sorted_wrt_filter)
  then show ?thesis by (simp add: listedBy_def filter_map comp_def)
qed

lemma listed_set:
  "finite {n. A (ns, n) \<noteq> None} \<Longrightarrow> set (listed meta A ns p) = {x. \<exists>n. A (ns, n) = Some x \<and> p (m_Labels (meta x))}"
  by (simp add: listed_def listedBy_set)

lemma readsInOrder_reads: "readsInOrder meta rd ns A \<Longrightarrow> readsStore meta rd ns A"
  by (auto simp: readsInOrder_def readsStore_def listed_set)

lemma readsInOrder_get:
  "readsInOrder meta rd ns A \<Longrightarrow> rd_get rd ns n = (case A (ns, n) of None \<Rightarrow> Inl NotFound | Some x \<Rightarrow> Inr x)"
  by (simp add: readsInOrder_def)

lemma readsInOrder_list: "readsInOrder meta rd ns A \<Longrightarrow> rd_list rd ns p = Inr (listed meta A ns p)"
  by (simp add: readsInOrder_def)

text \<open>What a list shows of one key.\<close>

definition seen :: "('a \<Rightarrow> bool) \<Rightarrow> 'a option \<Rightarrow> 'a option" where
  "seen P v = (case v of None \<Rightarrow> None | Some x \<Rightarrow> if P x then Some x else None)"

lemma seen_Some: "seen P v = Some x \<longleftrightarrow> v = Some x \<and> P x"
  by (auto simp: seen_def split: option.splits)

lemma listedBy_rel:
  assumes "\<And>n. rel_option R (seen P (A (ns, n))) (seen P (A' (ns, n)))"
  shows "list_all2 R (listedBy A ns P) (listedBy A' ns P)"
proof -
  let ?names = "\<lambda>A. {n. \<exists>x. A (ns, n) = Some x \<and> P x}"
  have names: "?names A = ?names A'"
    using assms by (fastforce simp: rel_option_iff seen_Some split: option.splits)
  have "list_all2 R (map (\<lambda>n. the (A (ns, n))) ns') (map (\<lambda>n. the (A' (ns, n))) ns')"
    if "set ns' \<subseteq> ?names A" for ns'
  proof -
    have "R (the (A (ns, n))) (the (A' (ns, n)))" if n: "n \<in> set ns'" for n
    proof -
      have "n \<in> ?names A" "n \<in> ?names A'" using that n names \<open>set ns' \<subseteq> ?names A\<close> by blast+
      then show ?thesis using assms [of n] by (auto simp: seen_def)
    qed
    then show ?thesis by (simp add: list.rel_map list_all2_same)
  qed
  moreover have "set (sorted_list_of_set (?names A)) \<subseteq> ?names A"
    by (cases "finite (?names A)") simp_all
  ultimately show ?thesis unfolding listedBy_def names [symmetric] by blast
qed

section \<open>Resolving\<close>

text \<open>
  Two states agree, for a reference, on the objects of a namespace: an object that changed, but for its
  status, is referenced neither before nor after.
\<close>

definition agreesOn ::
  "('a \<Rightarrow> object_meta) \<Rightarrow> ('a \<Rightarrow> 'a \<Rightarrow> bool) \<Rightarrow> (string \<Rightarrow> labels \<Rightarrow> bool) \<Rightarrow> string \<Rightarrow>
   (string \<times> string \<Rightarrow> 'a option) \<Rightarrow> (string \<times> string \<Rightarrow> 'a option) \<Rightarrow> bool" where
  "agreesOn meta same refers ns A A' \<longleftrightarrow>
     (\<forall>n. rel_option (\<lambda>x y. same x y \<and> m_Labels (meta x) = m_Labels (meta y)) (A (ns, n)) (A' (ns, n)) \<or>
        (\<forall>x. A (ns, n) = Some x \<or> A' (ns, n) = Some x \<longrightarrow> \<not> refers n (m_Labels (meta x))))"

lemma agreesOn_get:
  assumes "agreesOn meta same refers ns A A'" and "\<And>l. refers n l"
  shows "rel_option same (A (ns, n)) (A' (ns, n))"
proof -
  have "rel_option (\<lambda>x y. same x y \<and> m_Labels (meta x) = m_Labels (meta y)) (A (ns, n)) (A' (ns, n)) \<or>
      (\<forall>x. A (ns, n) \<noteq> Some x \<and> A' (ns, n) \<noteq> Some x)"
    using spec [OF assms(1) [unfolded agreesOn_def], of n] assms(2) by blast
  then show ?thesis by (cases "A (ns, n)"; cases "A' (ns, n)") auto
qed

lemma agreesOn_seen:
  assumes "agreesOn meta same refers ns A A'" and "\<And>n l. p l \<Longrightarrow> refers n l"
  shows "rel_option same (seen (\<lambda>x. p (m_Labels (meta x))) (A (ns, n))) (seen (\<lambda>x. p (m_Labels (meta x))) (A' (ns, n)))"
proof -
  consider "rel_option (\<lambda>x y. same x y \<and> m_Labels (meta x) = m_Labels (meta y)) (A (ns, n)) (A' (ns, n))"
    | "\<forall>x. A (ns, n) = Some x \<or> A' (ns, n) = Some x \<longrightarrow> \<not> p (m_Labels (meta x))"
    using assms unfolding agreesOn_def by blast
  then show ?thesis
  proof cases
    case 1
    then show ?thesis by (auto simp: rel_option_iff seen_def split: option.splits)
  next
    case 2
    then show ?thesis by (auto simp: seen_def split: option.splits)
  qed
qed

lemma addUnseen_rel:
  assumes "list_all2 same xs ys" and "same x y" and "\<And>x y. same x y \<Longrightarrow> nm x = nm y"
  shows "list_all2 same (addUnseen nm x xs) (addUnseen nm y ys)"
proof -
  have "map nm xs = map nm ys" using assms(1) by (induction rule: list_all2_induct) (simp_all add: assms(3))
  then show ?thesis using assms by (simp add: addUnseen_def list_all2_appendI)
qed

lemma resolveRef_rel:
  assumes "readsInOrder meta rd ns A" and "readsInOrder meta rd' ns A'" and "rel_option same (A (ns, ref)) (A' (ns, ref))"
    and "list_all2 same xs ys" and "\<And>x y. same x y \<Longrightarrow> nm x = nm y"
  shows "rel_sum (=) (list_all2 same) (resolveRef nm rd ns ref xs) (resolveRef nm rd' ns ref ys)"
  using assms(3,4) addUnseen_rel [OF assms(4) _ assms(5)]
  by (auto simp: resolveRef_def readsInOrder_get [OF assms(1)] readsInOrder_get [OF assms(2)] rel_option_iff split: option.splits)

lemma resolveSelector_rel:
  assumes "readsInOrder meta rd ns A" and "readsInOrder meta rd' ns A'" and "agreesOn meta same refers ns A A'"
    and "\<And>n l. selects asSelector sel l \<Longrightarrow> refers n l"
    and "list_all2 same xs ys" and "\<And>x y. same x y \<Longrightarrow> nm x = nm y"
  shows "rel_sum (=) (list_all2 same) (resolveSelector nm rd asSelector ns sel xs) (resolveSelector nm rd' asSelector ns sel ys)"
proof (cases "emptySelector sel")
  case False
  show ?thesis
  proof (cases "asSelector sel")
    case (Inr p)
    have "list_all2 same (listed meta A ns p) (listed meta A' ns p)"
      unfolding listed_def by (intro listedBy_rel agreesOn_seen [OF assms(3)] assms(4)) (simp add: selects_def False Inr)
    then have "list_all2 same (fold (addUnseen nm) (listed meta A ns p) xs) (fold (addUnseen nm) (listed meta A' ns p) ys)"
      using assms(5) by (rule fold_rel) (rule addUnseen_rel [OF _ _ assms(6)])
    then show ?thesis
      by (simp add: resolveSelector_def False Inr readsInOrder_list [OF assms(1)] readsInOrder_list [OF assms(2)])
  qed (simp add: resolveSelector_def False)
qed (simp add: resolveSelector_def assms(5))

lemma resolveAll_rel:
  assumes "readsInOrder meta rd ns A" and "readsInOrder meta rd' ns A'"
    and "agreesOn meta same (\<lambda>n l. n \<in> set refs \<or> (\<exists>sel \<in> set sels. selects asSelector sel l)) ns A A'"
    and "\<And>x y. same x y \<Longrightarrow> nm x = nm y"
  shows "rel_sum (=) (list_all2 same) (resolveAll nm rd asSelector ns refs sels) (resolveAll nm rd' asSelector ns refs sels)"
  unfolding resolveAll_def
proof (rule bindE_rel [where A = "list_all2 same"])
  have "list_all2 (\<lambda>a b. a = b \<and> a \<in> set refs) refs refs" by (simp add: list_all2_same)
  then show "rel_sum (=) (list_all2 same) (foldE (resolveRef nm rd ns) refs []) (foldE (resolveRef nm rd' ns) refs [])"
  proof (rule foldE_rel)
    fix x y s t assume "x = y \<and> x \<in> set refs" "list_all2 same s t"
    then show "rel_sum (=) (list_all2 same) (resolveRef nm rd ns x s) (resolveRef nm rd' ns y t)"
      using resolveRef_rel [OF assms(1,2) agreesOn_get [OF assms(3)] _ assms(4)] by auto
  qed simp
next
  fix xs ys assume xs: "list_all2 same xs ys"
  have "list_all2 (\<lambda>a b. a = b \<and> a \<in> set sels) sels sels" by (simp add: list_all2_same)
  then show "rel_sum (=) (list_all2 same) (foldE (resolveSelector nm rd asSelector ns) sels xs)
      (foldE (resolveSelector nm rd' asSelector ns) sels ys)"
    using xs
  proof (rule foldE_rel)
    fix x y s t assume x: "x = y \<and> x \<in> set sels" and st: "list_all2 same s t"
    have "rel_sum (=) (list_all2 same) (resolveSelector nm rd asSelector ns x s) (resolveSelector nm rd' asSelector ns x t)"
      using x by (intro resolveSelector_rel [OF assms(1,2,3) _ st assms(4)]) blast+
    with x show "rel_sum (=) (list_all2 same) (resolveSelector nm rd asSelector ns x s) (resolveSelector nm rd' asSelector ns y t)"
      by simp
  qed
qed

section \<open>Processors\<close>

lemma insort_rel:
  assumes "list_all2 same xs ys" and "same x y" and "\<And>x y. same x y \<Longrightarrow> nm x = nm y"
  shows "list_all2 same (insort_key nm x xs) (insort_key nm y ys)"
  using assms(1) assms(2) by (induction rule: list_all2_induct) (auto simp: assms(3))

lemma sort_key_rel:
  assumes "list_all2 same xs ys" and "\<And>x y. same x y \<Longrightarrow> nm x = nm y"
  shows "list_all2 same (sort_key nm xs) (sort_key nm ys)"
  using assms(1) by (induction rule: list_all2_induct) (simp_all add: insort_rel [OF _ _ assms(2)])

lemma processorRefs_rel:
  assumes "readsInOrder r_Meta rd ns A" and "readsInOrder r_Meta rd' ns A'"
    and "\<And>n. n \<in> set refs \<Longrightarrow> rel_option sameResource (A (ns, n)) (A' (ns, n))" and "list_all2 sameResource xs ys"
  shows "rel_sum (=) (list_all2 sameResource) (foldE (processorRef rd ns) refs xs) (foldE (processorRef rd' ns) refs ys)"
proof -
  have "list_all2 (\<lambda>a b. a = b \<and> a \<in> set refs) refs refs" by (simp add: list_all2_same)
  then show ?thesis using assms(4)
  proof (rule foldE_rel)
    fix x y and s t :: "processor_spec resource list" assume x: "x = y \<and> x \<in> set refs" and st: "list_all2 sameResource s t"
    have "rel_option sameResource (A (ns, y)) (A' (ns, y))" using x assms(3) by blast
    then show "rel_sum (=) (list_all2 sameResource) (processorRef rd ns x s) (processorRef rd' ns y t)"
      using x st by (auto simp: processorRef_step [OF readsInOrder_reads, OF assms(1)]
          processorRef_step [OF readsInOrder_reads, OF assms(2)] list_all2_appendI rel_option_iff split: option.splits)
  qed
qed

lemma processorSelector_rel:
  assumes "readsInOrder r_Meta rd ns A" and "readsInOrder r_Meta rd' ns A'" and "agreesOn r_Meta sameResource refers ns A A'"
    and "\<And>n l. selects asSelector sel l \<Longrightarrow> refers n l" and "list_all2 sameResource xs ys"
  shows "rel_sum (=) (list_all2 sameResource) (processorSelector rd asSelector ns inRefs sel xs)
    (processorSelector rd' asSelector ns inRefs sel ys)"
proof (cases "emptySelector sel")
  case False
  show ?thesis
  proof (cases "asSelector sel")
    case (Inr p)
    have "list_all2 sameResource (listed r_Meta A ns p) (listed r_Meta A' ns p)"
      unfolding listed_def by (intro listedBy_rel agreesOn_seen [OF assms(3)] assms(4)) (simp add: selects_def False Inr)
    then have "list_all2 sameResource
        (fold (\<lambda>x ps. if r_Name x \<in> set inRefs then ps else addUnseen r_Name x ps) (listed r_Meta A ns p) xs)
        (fold (\<lambda>x ps. if r_Name x \<in> set inRefs then ps else addUnseen r_Name x ps) (listed r_Meta A' ns p) ys)"
      using assms(5) by (rule fold_rel) (simp add: sameResource_parts(2) addUnseen_rel)
    then show ?thesis
      by (simp add: processorSelector_def False Inr readsInOrder_list [OF assms(1)] readsInOrder_list [OF assms(2)])
  qed (simp add: processorSelector_def False)
qed (simp add: processorSelector_def assms(5))

lemma resolveProcessors_rel:
  assumes "readsInOrder r_Meta rd ns A" and "readsInOrder r_Meta rd' ns A'"
    and "agreesOn r_Meta sameResource (\<lambda>n l. n \<in> set refs \<or> (\<exists>sel \<in> set sels. selects asSelector sel l)) ns A A'"
  shows "rel_sum (=) (list_all2 sameResource) (resolveProcessors rd asSelector ns refs sels) (resolveProcessors rd' asSelector ns refs sels)"
  unfolding resolveProcessors_def
proof (rule bindE_rel [where A = "list_all2 sameResource"])
  show "rel_sum (=) (list_all2 sameResource) (foldE (processorRef rd ns) refs []) (foldE (processorRef rd' ns) refs [])"
    using agreesOn_get [OF assms(3)] by (intro processorRefs_rel [OF assms(1,2)]) auto
next
  fix xs ys :: "processor_spec resource list" assume xs: "list_all2 sameResource xs ys"
  then have nms: "map r_Name ys = map r_Name xs" by (induction rule: list_all2_induct) (simp_all add: sameResource_parts(2))
  have same: "list_all2 (\<lambda>a b. a = b \<and> a \<in> set sels) sels sels" by (simp add: list_all2_same)
  show "rel_sum (=) (list_all2 sameResource)
     (bindE (foldE (processorSelector rd asSelector ns (map r_Name xs)) sels []) (\<lambda>sp. Inr (xs @ sort_key r_Name sp)))
     (bindE (foldE (processorSelector rd' asSelector ns (map r_Name ys)) sels []) (\<lambda>sp. Inr (ys @ sort_key r_Name sp)))"
    unfolding nms
  proof (rule bindE_rel [where A = "list_all2 sameResource"])
    show "rel_sum (=) (list_all2 sameResource) (foldE (processorSelector rd asSelector ns (map r_Name xs)) sels [])
        (foldE (processorSelector rd' asSelector ns (map r_Name xs)) sels [])"
      using same
    proof (rule foldE_rel)
      fix x y and s t :: "processor_spec resource list" assume x: "x = y \<and> x \<in> set sels" and st: "list_all2 sameResource s t"
      have "rel_sum (=) (list_all2 sameResource) (processorSelector rd asSelector ns (map r_Name xs) x s)
          (processorSelector rd' asSelector ns (map r_Name xs) x t)"
        using x by (intro processorSelector_rel [OF assms _ st]) blast
      with x show "rel_sum (=) (list_all2 sameResource) (processorSelector rd asSelector ns (map r_Name xs) x s)
          (processorSelector rd' asSelector ns (map r_Name xs) y t)" by simp
    qed simp
  qed (simp add: xs list_all2_appendI sort_key_rel sameResource_parts(2))
qed

section \<open>Resolvers that only see what is referenced\<close>

text \<open>What two states have to agree on for one pipeline.\<close>

definition agreesFor ::
  "selector_fn \<Rightarrow> pipeline \<Rightarrow> resource_type \<Rightarrow> ('a \<Rightarrow> object_meta) \<Rightarrow> ('a \<Rightarrow> 'a \<Rightarrow> bool) \<Rightarrow>
   (string \<times> string \<Rightarrow> 'a option) \<Rightarrow> (string \<times> string \<Rightarrow> 'a option) \<Rightarrow> bool" where
  "agreesFor asSelector pl kind meta same =
     agreesOn meta same (\<lambda>n l. pipelineReferencesResource asSelector pl n l kind) (m_Namespace (pl_Meta pl))"

text \<open>
  A resolver gives the same objects in two states that agree on what the pipeline references. The
  contract extends the one of \<open>resolver\<close> and is interpreted on every kind.
\<close>

locale stable_resolver = resolver +
  fixes same :: "'a \<Rightarrow> 'a \<Rightarrow> bool"
  assumes stable: "readsInOrder meta rd (m_Namespace (pl_Meta pl)) A \<Longrightarrow> readsInOrder meta rd' (m_Namespace (pl_Meta pl)) A' \<Longrightarrow>
    agreesOn meta same (\<lambda>n l. pipelineReferencesResource asSelector pl n l kind) (m_Namespace (pl_Meta pl)) A A' \<Longrightarrow>
    samePipeline pl pl' \<Longrightarrow> rel_sum (=) (list_all2 same) (resolve rd asSelector pl) (resolve rd' asSelector pl')"
begin

lemma resolved:
  assumes "readsInOrder meta rd (m_Namespace (pl_Meta pl)) A" and "readsInOrder meta rd' (m_Namespace (pl_Meta pl)) A'"
    and "samePipeline pl pl'" and "agreesFor asSelector pl kind meta same A A'"
  shows "rel_sum (=) (\<lambda>xs ys. list_all2 same xs ys \<and> resolve rd asSelector pl = Inr xs) (resolve rd asSelector pl) (resolve rd' asSelector pl')"
  using stable [OF assms(1,2) assms(4) [unfolded agreesFor_def] assms(3)] by (auto simp: rel_sum.simps)

lemma resolved_same:
  assumes "readsInOrder meta rd (m_Namespace (pl_Meta pl)) A" and "readsInOrder meta rd' (m_Namespace (pl_Meta pl)) A'"
    and "samePipeline pl pl'" and "agreesFor asSelector pl kind meta same A A'"
  shows "rel_sum (=) (list_all2 same) (resolve rd asSelector pl) (resolve rd' asSelector pl')"
  using stable [OF assms(1,2) assms(4) [unfolded agreesFor_def] assms(3)] .

end

lemma resolveAll_stable:
  assumes "readsInOrder meta rd ns A" and "readsInOrder meta rd' ns A'"
    and "agreesOn meta same (\<lambda>n l. pipelineReferencesResource asSelector pl n l kind) ns A A'"
    and "\<And>x y. same x y \<Longrightarrow> nm x = nm y"
  shows "rel_sum (=) (list_all2 same)
    (resolveAll nm rd asSelector ns (refsOf kind (pl_Spec pl)) (selectorsOf kind (pl_Spec pl)))
    (resolveAll nm rd' asSelector ns (refsOf kind (pl_Spec pl)) (selectorsOf kind (pl_Spec pl)))"
  using assms(3) unfolding references_iff by (rule resolveAll_rel [OF assms(1,2) _ assms(4)])

interpretation stable_targets: stable_resolver t_Meta TargetType resolveTargets sameTarget
  by unfold_locales (drule (2) resolveAll_stable [where nm = t_Name]; simp add: sameTarget_parts(3) resolveTargets_def samePipeline_parts)

interpretation stable_subscriptions: stable_resolver r_Meta SubscriptionType resolveSubscriptions sameResource
  by unfold_locales (drule (2) resolveAll_stable [where nm = r_Name]; simp add: sameResource_parts(2) resolveSubscriptions_def samePipeline_parts)

interpretation stable_outputs: stable_resolver r_Meta OutputType resolveOutputs sameResource
  by unfold_locales (drule (2) resolveAll_stable [where nm = r_Name]; simp add: sameResource_parts(2) resolveOutputs_def samePipeline_parts)

interpretation stable_inputs: stable_resolver r_Meta InputType resolveInputs sameResource
  by unfold_locales (drule (2) resolveAll_stable [where nm = r_Name]; simp add: sameResource_parts(2) resolveInputs_def samePipeline_parts)

interpretation stable_policies: stable_resolver r_Meta TunnelTargetPolicyType resolveTunnelTargetPolicies sameResource
  by unfold_locales (drule (2) resolveAll_stable [where nm = r_Name]; simp add: sameResource_parts(2) resolveTunnelTargetPolicies_def samePipeline_parts)

lemma resolveProcessors_stable:
  assumes "readsInOrder r_Meta rd ns A" and "readsInOrder r_Meta rd' ns A'"
    and "agreesOn r_Meta sameResource (\<lambda>n l. pipelineReferencesResource asSelector pl n l kind) ns A A'"
  shows "rel_sum (=) (list_all2 sameResource)
    (resolveProcessors rd asSelector ns (refsOf kind (pl_Spec pl)) (selectorsOf kind (pl_Spec pl)))
    (resolveProcessors rd' asSelector ns (refsOf kind (pl_Spec pl)) (selectorsOf kind (pl_Spec pl)))"
  using assms(3) unfolding references_iff by (rule resolveProcessors_rel [OF assms(1,2)])

interpretation stable_output_processors: stable_resolver r_Meta OutputProcessorType resolveOutputProcessors sameResource
  by unfold_locales (drule (2) resolveProcessors_stable; simp add: resolveOutputProcessors_def samePipeline_parts)

interpretation stable_input_processors: stable_resolver r_Meta InputProcessorType resolveInputProcessors sameResource
  by unfold_locales (drule (2) resolveProcessors_stable; simp add: resolveInputProcessors_def samePipeline_parts)

section \<open>Gathering\<close>

text \<open>The data of a pipeline in two states that agree: only the statuses of the targets may differ.\<close>

definition sameData :: "pipeline_data \<Rightarrow> pipeline_data \<Rightarrow> bool" where
  "sameData pd pd' \<longleftrightarrow> relMap sameTarget (pd_Targets pd) (pd_Targets pd') \<and> pd\<lparr>pd_Targets := []\<rparr> = pd'\<lparr>pd_Targets := []\<rparr>"

lemma sameData_refl [simp]: "sameData pd pd"
  by (simp add: sameData_def list_all2_same prod.rel_refl_strong)

lemma sameData_parts:
  assumes "sameData pd pd'"
  shows "pd_Subscriptions pd' = pd_Subscriptions pd" and "pd_Outputs pd' = pd_Outputs pd" and "pd_Inputs pd' = pd_Inputs pd"
    and "pd_OutputProcessors pd' = pd_OutputProcessors pd" and "pd_InputProcessors pd' = pd_InputProcessors pd"
    and "pd_TargetProfiles pd' = pd_TargetProfiles pd" and "pd_TunnelTargetPolicies pd' = pd_TunnelTargetPolicies pd"
    and "pd_ResolvedOutputAddresses pd' = pd_ResolvedOutputAddresses pd"
    and "pd_OutputProcessorOrder pd' = pd_OutputProcessorOrder pd" and "pd_InputProcessorOrder pd' = pd_InputProcessorOrder pd"
    and "relMap sameTarget (pd_Targets pd) (pd_Targets pd')"
  using assms by (cases pd; cases pd'; simp add: sameData_def)+

text \<open>An update of the data that neither reads nor writes the targets keeps the relation.\<close>

lemma sameData_update:
  assumes "sameData pd pd'" and "\<And>pd. pd_Targets (f pd) = pd_Targets pd"
    and "\<And>pd ts. f (pd\<lparr>pd_Targets := ts\<rparr>) = (f pd)\<lparr>pd_Targets := ts\<rparr>"
  shows "sameData (f pd) (f pd')"
  using assms(1) unfolding sameData_def assms(2) assms(3) [symmetric] by simp

lemma putProfile_rel:
  assumes "sameResource p p'" and "sameData pd pd'"
  shows "sameData (putProfile p pd) (putProfile p' pd')"
proof -
  have "putProfile p' = putProfile p" using assms(1) by (simp add: putProfile_def sameResource_parts fun_eq_iff)
  then show ?thesis using sameData_update [OF assms(2), of "putProfile p"] by (simp add: putProfile_def)
qed

lemma putOutput_rel:
  assumes "sameResource x y" and "sameData pd pd'" and "rds_Services rs' = rds_Services rs"
  shows "sameData (putOutput rs yaml domain nn x pd) (putOutput rs' yaml domain nn y pd')"
proof -
  have "resolveOutputServiceAddresses (rds_Services rs) yaml domain x = resolveOutputServiceAddresses (rds_Services rs) yaml domain y"
    unfolding resolveOutputServiceAddresses_def sameResource_parts [OF assms(1)] ..
  then have "putOutput rs' yaml domain nn y = putOutput rs yaml domain nn x"
    by (simp only: fun_eq_iff putOutput_def sameResource_parts [OF assms(1)] assms(3)) simp
  then show ?thesis using sameData_update [OF assms(2), of "putOutput rs yaml domain nn x"]
    by (simp add: putOutput_def Let_def split: sum.split)
qed

lemma gatherTargets_rel:
  assumes "readsInOrder t_Meta (rds_Targets rs) (m_Namespace (pl_Meta pl)) A"
    and "readsInOrder t_Meta (rds_Targets rs') (m_Namespace (pl_Meta pl)) A'"
    and "readsInOrder r_Meta (rds_TargetProfiles rs) (m_Namespace (pl_Meta pl)) P"
    and "readsInOrder r_Meta (rds_TargetProfiles rs') (m_Namespace (pl_Meta pl)) P'"
    and "agreesFor asSelector pl TargetType t_Meta sameTarget A A'" and "samePipeline pl pl'"
    and "\<And>n t. A (m_Namespace (pl_Meta pl), n) = Some t \<Longrightarrow> pipelineReferencesResource asSelector pl n (m_Labels (t_Meta t)) TargetType \<Longrightarrow>
      rel_option sameResource (P (m_Namespace (pl_Meta pl), ts_Profile (t_Spec t))) (P' (m_Namespace (pl_Meta pl), ts_Profile (t_Spec t)))"
    and "sameData pd pd'"
  shows "rel_sum (=) sameData (gatherTargets rs asSelector pl pd) (gatherTargets rs' asSelector pl' pd')"
proof -
  let ?ns = "m_Namespace (pl_Meta pl)"
  let ?profiles = "\<lambda>ts. gkeys (fold (\<lambda>t m. gput m (ts_Profile (t_Spec t)) ()) ts [])"
  let ?step = "\<lambda>rs name pd. bindE (rd_get (rds_TargetProfiles rs) ?ns name) (\<lambda>p. Inr (putProfile p pd))"
  have used: "rel_option sameResource (P (?ns, n)) (P' (?ns, n))"
    if ts: "resolveTargets (rds_Targets rs) asSelector pl = Inr ts" and n: "n \<in> set (?profiles ts)" for ts n
  proof -
    obtain t where "t \<in> set ts" "n = ts_Profile (t_Spec t)" using n by (auto simp: gput_fold_keys)
    then show ?thesis
      using assms(7) resolveTargets_store [OF readsInOrder_reads [OF assms(1)] ts] by blast
  qed
  have "rel_sum (=) (\<lambda>ts ts'. list_all2 sameTarget ts ts' \<and> resolveTargets (rds_Targets rs) asSelector pl = Inr ts)
      (resolveTargets (rds_Targets rs) asSelector pl) (resolveTargets (rds_Targets rs') asSelector pl')"
    by (rule stable_targets.resolved [OF assms(1,2,6,5)])
  then show ?thesis
    unfolding gatherTargets_def samePipeline_parts [OF assms(6)] Let_def
  proof (rule bindE_rel)
    fix ts ts' assume rel: "list_all2 sameTarget ts ts' \<and> resolveTargets (rds_Targets rs) asSelector pl = Inr ts"
    have same: "?profiles ts' = ?profiles ts"
      using fold_rel_eq [OF conjunct1 [OF rel], of "\<lambda>t m. gput m (ts_Profile (t_Spec t)) ()" "\<lambda>t m. gput m (ts_Profile (t_Spec t)) ()"]
      by (simp add: sameTarget_parts)
    have "relMap sameTarget (fold (\<lambda>t m. gput m (metaNN (t_Meta t)) t) ts (pd_Targets pd))
        (fold (\<lambda>t m. gput m (metaNN (t_Meta t)) t) ts' (pd_Targets pd'))"
      by (rule fold_rel [where S = "relMap sameTarget", OF conjunct1 [OF rel] sameData_parts(11) [OF assms(8)]])
        (simp add: sameTarget_parts gput_rel)
    then have start: "sameData (pd\<lparr>pd_Targets := fold (\<lambda>t m. gput m (metaNN (t_Meta t)) t) ts (pd_Targets pd)\<rparr>)
        (pd'\<lparr>pd_Targets := fold (\<lambda>t m. gput m (metaNN (t_Meta t)) t) ts' (pd_Targets pd')\<rparr>)"
      using assms(8) by (simp add: sameData_def)
    have "list_all2 (\<lambda>a b. a = b \<and> a \<in> set (?profiles ts)) (?profiles ts) (?profiles ts)" by (simp add: list_all2_same)
    then show "rel_sum (=) sameData
        (foldE (?step rs) (?profiles ts) (pd\<lparr>pd_Targets := fold (\<lambda>t m. gput m (metaNN (t_Meta t)) t) ts (pd_Targets pd)\<rparr>))
        (foldE (?step rs') (?profiles ts') (pd'\<lparr>pd_Targets := fold (\<lambda>t m. gput m (metaNN (t_Meta t)) t) ts' (pd_Targets pd')\<rparr>))"
      unfolding same using start
    proof (rule foldE_rel)
      fix n m and pd pd' assume n: "n = m \<and> n \<in> set (?profiles ts)" and pds: "sameData pd pd'"
      have "rel_option sameResource (P (?ns, m)) (P' (?ns, m))" using used rel n by blast
      then show "rel_sum (=) sameData (?step rs n pd) (?step rs' m pd')"
        using n putProfile_rel [OF _ pds]
        by (auto simp: readsInOrder_get [OF assms(3)] readsInOrder_get [OF assms(4)] rel_option_iff split: option.splits)
    qed
  qed
qed

text \<open>The objects of the API server, by namespace and name.\<close>

type_synonym 'a stored = "string \<times> string \<Rightarrow> 'a option"

record objects_store =
  as_Clusters :: "cluster stored"
  as_Pipelines :: "pipeline stored"
  as_Targets :: "target stored"
  as_Subscriptions :: "subscription_spec resource stored"
  as_Outputs :: "output_spec resource stored"
  as_Inputs :: "input_spec resource stored"
  as_Processors :: "processor_spec resource stored"
  as_TargetProfiles :: "target_profile_spec resource stored"
  as_TunnelTargetPolicies :: "tunnel_policy_spec resource stored"

text \<open>A client that reads a namespace of the store.\<close>

definition readsNamespace :: "readers \<Rightarrow> objects_store \<Rightarrow> string \<Rightarrow> bool" where
  "readsNamespace rs S ns \<longleftrightarrow>
     readsInOrder t_Meta (rds_Targets rs) ns (as_Targets S) \<and>
     readsInOrder r_Meta (rds_TargetProfiles rs) ns (as_TargetProfiles S) \<and>
     readsInOrder r_Meta (rds_Subscriptions rs) ns (as_Subscriptions S) \<and>
     readsInOrder r_Meta (rds_Outputs rs) ns (as_Outputs S) \<and>
     readsInOrder r_Meta (rds_Inputs rs) ns (as_Inputs S) \<and>
     readsInOrder r_Meta (rds_Processors rs) ns (as_Processors S) \<and>
     readsInOrder r_Meta (rds_TunnelTargetPolicies rs) ns (as_TunnelTargetPolicies S) \<and>
     finite {n. as_Pipelines S (ns, n) \<noteq> None} \<and>
     (\<forall>n pl. as_Pipelines S (ns, n) = Some pl \<longrightarrow> m_Namespace (pl_Meta pl) = ns \<and> m_Name (pl_Meta pl) = n) \<and>
     rds_Pipelines rs ns = Inr (listed pl_Meta (as_Pipelines S) ns (\<lambda>_. True))"

text \<open>The profiles a pipeline uses: those of the targets and of the policies it references.\<close>

definition usesProfile :: "selector_fn \<Rightarrow> objects_store \<Rightarrow> pipeline \<Rightarrow> string \<Rightarrow> bool" where
  "usesProfile asSelector S pl p \<longleftrightarrow>
     (\<exists>n t. as_Targets S (m_Namespace (pl_Meta pl), n) = Some t \<and> ts_Profile (t_Spec t) = p \<and>
        pipelineReferencesResource asSelector pl n (m_Labels (t_Meta t)) TargetType) \<or>
     (\<exists>n x. as_TunnelTargetPolicies S (m_Namespace (pl_Meta pl), n) = Some x \<and> tpol_Profile (r_Spec x) = p \<and>
        pipelineReferencesResource asSelector pl n (m_Labels (r_Meta x)) TunnelTargetPolicyType)"

definition agreesOnPipeline :: "selector_fn \<Rightarrow> pipeline \<Rightarrow> objects_store \<Rightarrow> objects_store \<Rightarrow> bool" where
  "agreesOnPipeline asSelector pl S S' \<longleftrightarrow>
     agreesFor asSelector pl TargetType t_Meta sameTarget (as_Targets S) (as_Targets S') \<and>
     agreesFor asSelector pl SubscriptionType r_Meta sameResource (as_Subscriptions S) (as_Subscriptions S') \<and>
     agreesFor asSelector pl OutputType r_Meta sameResource (as_Outputs S) (as_Outputs S') \<and>
     agreesFor asSelector pl InputType r_Meta sameResource (as_Inputs S) (as_Inputs S') \<and>
     agreesFor asSelector pl OutputProcessorType r_Meta sameResource (as_Processors S) (as_Processors S') \<and>
     agreesFor asSelector pl InputProcessorType r_Meta sameResource (as_Processors S) (as_Processors S') \<and>
     agreesFor asSelector pl TunnelTargetPolicyType r_Meta sameResource (as_TunnelTargetPolicies S) (as_TunnelTargetPolicies S') \<and>
     (\<forall>p. usesProfile asSelector S pl p \<longrightarrow>
        rel_option sameResource (as_TargetProfiles S (m_Namespace (pl_Meta pl), p)) (as_TargetProfiles S' (m_Namespace (pl_Meta pl), p)))"

lemma sameData_put:
  assumes "sameData pd pd'"
  shows "sameData
      (pd\<lparr>pd_Subscriptions := fold (\<lambda>s m. gput m (metaNN (r_Meta s)) (r_Spec s)) xs (pd_Subscriptions pd)\<rparr>)
      (pd'\<lparr>pd_Subscriptions := fold (\<lambda>s m. gput m (metaNN (r_Meta s)) (r_Spec s)) xs (pd_Subscriptions pd')\<rparr>)"
    and "sameData
      (pd\<lparr>pd_Inputs := fold (\<lambda>i m. gput m (nsname nn (r_Name i)) (r_Spec i)) ys (pd_Inputs pd)\<rparr>)
      (pd'\<lparr>pd_Inputs := fold (\<lambda>i m. gput m (nsname nn (r_Name i)) (r_Spec i)) ys (pd_Inputs pd')\<rparr>)"
    and "sameData (pd\<lparr>pd_TunnelTargetPolicies := fold (\<lambda>p m. gput m (metaNN (r_Meta p)) (r_Spec p)) ps (pd_TunnelTargetPolicies pd)\<rparr>)
      (pd'\<lparr>pd_TunnelTargetPolicies := fold (\<lambda>p m. gput m (metaNN (r_Meta p)) (r_Spec p)) ps (pd_TunnelTargetPolicies pd')\<rparr>)"
    and "sameData
      (pd\<lparr>pd_OutputProcessors := gput (pd_OutputProcessors pd) k v, pd_OutputProcessorOrder := pd_OutputProcessorOrder pd @ [k]\<rparr>)
      (pd'\<lparr>pd_OutputProcessors := gput (pd_OutputProcessors pd') k v, pd_OutputProcessorOrder := pd_OutputProcessorOrder pd' @ [k]\<rparr>)"
    and "sameData
      (pd\<lparr>pd_InputProcessors := gput (pd_InputProcessors pd) k v, pd_InputProcessorOrder := pd_InputProcessorOrder pd @ [k]\<rparr>)
      (pd'\<lparr>pd_InputProcessors := gput (pd_InputProcessors pd') k v, pd_InputProcessorOrder := pd_InputProcessorOrder pd' @ [k]\<rparr>)"
  using assms by (cases pd; cases pd'; simp add: sameData_def)+

lemma specs_fold:
  assumes "list_all2 sameResource xs ys"
  shows "fold (\<lambda>s m. gput m (metaNN (r_Meta s)) (r_Spec s)) ys m = fold (\<lambda>s m. gput m (metaNN (r_Meta s)) (r_Spec s)) xs m"
    and "fold (\<lambda>s m. gput m (nsname nn (r_Name s)) (r_Spec s)) ys m = fold (\<lambda>s m. gput m (nsname nn (r_Name s)) (r_Spec s)) xs m"
  by (intro sym [OF fold_rel_eq [OF assms]]; simp add: sameResource_parts)+

lemma profiles_fold:
  assumes "list_all2 sameResource xs ys"
  shows "fold (\<lambda>p m. if tpol_Profile (r_Spec p) \<noteq> [] then gput m (tpol_Profile (r_Spec p)) () else m) ys m =
    fold (\<lambda>p m. if tpol_Profile (r_Spec p) \<noteq> [] then gput m (tpol_Profile (r_Spec p)) () else m) xs m"
  by (intro sym [OF fold_rel_eq [OF assms]]; simp add: sameResource_parts)

lemma profiles_keys:
  "set (gkeys (fold (\<lambda>p m. if tpol_Profile (r_Spec p) \<noteq> [] then gput m (tpol_Profile (r_Spec p)) () else m) xs m)) =
     set (gkeys m) \<union> (\<lambda>x. tpol_Profile (r_Spec x)) ` {x \<in> set xs. tpol_Profile (r_Spec x) \<noteq> []}"
  by (induction xs arbitrary: m) (auto simp: gm.keys_put)

lemma gatherSubscriptions_rel:
  assumes "rel_sum (=) (list_all2 sameResource) (resolveSubscriptions (rds_Subscriptions rs) asSelector pl)
      (resolveSubscriptions (rds_Subscriptions rs') asSelector pl')" and "sameData pd pd'"
  shows "rel_sum (=) sameData (gatherSubscriptions rs asSelector pl pd) (gatherSubscriptions rs' asSelector pl' pd')"
  unfolding gatherSubscriptions_def
  by (rule bindE_rel [OF assms(1)]) (simp add: specs_fold(1) sameData_put(1) [OF assms(2)])

lemma gatherInputs_rel:
  assumes "rel_sum (=) (list_all2 sameResource) (resolveInputs (rds_Inputs rs) asSelector pl)
      (resolveInputs (rds_Inputs rs') asSelector pl')" and "sameData pd pd'" and "samePipeline pl pl'"
  shows "rel_sum (=) sameData (gatherInputs rs asSelector pl pd) (gatherInputs rs' asSelector pl' pd')"
  unfolding gatherInputs_def samePipeline_parts [OF assms(3)]
  by (rule bindE_rel [OF assms(1)]) (simp add: specs_fold(2) sameData_put(2) [OF assms(2)])

lemma gatherOutputs_rel:
  assumes "rel_sum (=) (list_all2 sameResource) (resolveOutputs (rds_Outputs rs) asSelector pl)
      (resolveOutputs (rds_Outputs rs') asSelector pl')" and "sameData pd pd'" and "samePipeline pl pl'"
    and "rds_Services rs' = rds_Services rs"
  shows "rel_sum (=) sameData (gatherOutputs rs asSelector yaml domain pl pd) (gatherOutputs rs' asSelector yaml domain pl' pd')"
  unfolding gatherOutputs_def samePipeline_parts [OF assms(3)]
  by (rule bindE_rel [OF assms(1)]) (simp add: fold_rel [where S = sameData, OF _ assms(2)] putOutput_rel assms(4))

lemma gatherProcessors_rel:
  assumes "sameData pd pd'" and "samePipeline pl pl'"
  shows "rel_sum (=) (list_all2 sameResource) (resolveOutputProcessors (rds_Processors rs) asSelector pl)
        (resolveOutputProcessors (rds_Processors rs') asSelector pl') \<Longrightarrow>
      rel_sum (=) sameData (gatherOutputProcessors rs asSelector pl pd) (gatherOutputProcessors rs' asSelector pl' pd')"
    and "rel_sum (=) (list_all2 sameResource) (resolveInputProcessors (rds_Processors rs) asSelector pl)
        (resolveInputProcessors (rds_Processors rs') asSelector pl') \<Longrightarrow>
      rel_sum (=) sameData (gatherInputProcessors rs asSelector pl pd) (gatherInputProcessors rs' asSelector pl' pd')"
  unfolding gatherOutputProcessors_def gatherInputProcessors_def samePipeline_parts [OF assms(2)] Let_def
  by (erule bindE_rel; simp add: fold_rel [where S = sameData, OF _ assms(1)] sameResource_parts sameData_put)+

lemma tunnelProfile_rel:
  assumes "readsInOrder r_Meta (rds_TargetProfiles rs) (m_Namespace (pl_Meta pl)) P"
    and "readsInOrder r_Meta (rds_TargetProfiles rs') (m_Namespace (pl_Meta pl)) P'" and "samePipeline pl pl'"
    and "rel_option sameResource (P (m_Namespace (pl_Meta pl), n)) (P' (m_Namespace (pl_Meta pl), n))" and "sameData pd pd'"
  shows "rel_sum (=) sameData (tunnelProfile rs pl n pd) (tunnelProfile rs' pl' n pd')"
  using assms(4,5) putProfile_rel [OF _ assms(5)]
  by (auto simp: tunnelProfile_def samePipeline_parts [OF assms(3)] sameData_parts [OF assms(5)]
      readsInOrder_get [OF assms(1)] readsInOrder_get [OF assms(2)] rel_option_iff split: option.splits)

lemma gatherTunnelPolicies_rel:
  assumes "readsInOrder r_Meta (rds_TargetProfiles rs) (m_Namespace (pl_Meta pl)) P"
    and "readsInOrder r_Meta (rds_TargetProfiles rs') (m_Namespace (pl_Meta pl)) P'" and "samePipeline pl pl'"
    and "\<And>x. x \<in> set xs \<Longrightarrow> rel_option sameResource (P (m_Namespace (pl_Meta pl), tpol_Profile (r_Spec x)))
      (P' (m_Namespace (pl_Meta pl), tpol_Profile (r_Spec x)))"
    and "list_all2 sameResource xs ys" and "sameData pd pd'"
  shows "rel_sum (=) sameData (gatherTunnelPolicies rs pl xs pd) (gatherTunnelPolicies rs' pl' ys pd')"
proof -
  let ?profiles = "gkeys (fold (\<lambda>p m. if tpol_Profile (r_Spec p) \<noteq> [] then gput m (tpol_Profile (r_Spec p)) () else m) xs [])"
  have used: "\<exists>x \<in> set xs. n = tpol_Profile (r_Spec x)" if "n \<in> set ?profiles" for n
    using that by (auto simp: profiles_keys)
  have "list_all2 (\<lambda>a b. a = b \<and> a \<in> set ?profiles) ?profiles ?profiles" by (simp add: list_all2_same)
  then show ?thesis
    unfolding gatherTunnelPolicies_def specs_fold(1) [OF assms(5)] profiles_fold [OF assms(5)] Let_def using sameData_put(3) [OF assms(6)]
  proof (rule foldE_rel)
    fix n m and pd pd' assume n: "n = m \<and> n \<in> set ?profiles" and pds: "sameData pd pd'"
    then have "rel_option sameResource (P (m_Namespace (pl_Meta pl), n)) (P' (m_Namespace (pl_Meta pl), n))"
      using used assms(4) by blast
    with n show "rel_sum (=) sameData (tunnelProfile rs pl n pd) (tunnelProfile rs' pl' m pd')"
      using tunnelProfile_rel [OF assms(1-3) _ pds] by blast
  qed
qed

fun sameGathered :: "gathered \<Rightarrow> gathered \<Rightarrow> bool" where
  "sameGathered (Gathered pd) (Gathered pd') = sameData pd pd'"
| "sameGathered MissingTunnel MissingTunnel = True"
| "sameGathered _ _ = False"

lemma resolvePolicies_store:
  assumes "readsInOrder r_Meta rd (m_Namespace (pl_Meta pl)) A" and "resolveTunnelTargetPolicies rd asSelector pl = Inr xs" and "x \<in> set xs"
  shows "\<exists>n. A (m_Namespace (pl_Meta pl), n) = Some x \<and>
    pipelineReferencesResource asSelector pl n (m_Labels (r_Meta x)) TunnelTargetPolicyType"
  using resolveAll_set [OF readsInOrder_reads [OF assms(1)] _ assms(2) [unfolded resolveTunnelTargetPolicies_def]] assms(3)
  by (auto simp: r_Name_def references_iff)

lemma gatherPipeline_rel:
  assumes "readsNamespace rs S (m_Namespace (pl_Meta pl))" and "readsNamespace rs' S' (m_Namespace (pl_Meta pl))"
    and "rds_Services rs' = rds_Services rs" and "agreesOnPipeline asSelector pl S S'"
    and "samePipeline pl pl'" and "cl_Spec cl' = cl_Spec cl"
  shows "rel_sum (=) sameGathered (gatherPipeline rs asSelector yaml domain cl pl) (gatherPipeline rs' asSelector yaml domain cl' pl')"
proof -
  let ?ns = "m_Namespace (pl_Meta pl)"
  have reads: "readsInOrder t_Meta (rds_Targets rs) ?ns (as_Targets S)" "readsInOrder t_Meta (rds_Targets rs') ?ns (as_Targets S')"
    "readsInOrder r_Meta (rds_TargetProfiles rs) ?ns (as_TargetProfiles S)" "readsInOrder r_Meta (rds_TargetProfiles rs') ?ns (as_TargetProfiles S')"
    "readsInOrder r_Meta (rds_Subscriptions rs) ?ns (as_Subscriptions S)" "readsInOrder r_Meta (rds_Subscriptions rs') ?ns (as_Subscriptions S')"
    "readsInOrder r_Meta (rds_Outputs rs) ?ns (as_Outputs S)" "readsInOrder r_Meta (rds_Outputs rs') ?ns (as_Outputs S')"
    "readsInOrder r_Meta (rds_Inputs rs) ?ns (as_Inputs S)" "readsInOrder r_Meta (rds_Inputs rs') ?ns (as_Inputs S')"
    "readsInOrder r_Meta (rds_Processors rs) ?ns (as_Processors S)" "readsInOrder r_Meta (rds_Processors rs') ?ns (as_Processors S')"
    "readsInOrder r_Meta (rds_TunnelTargetPolicies rs) ?ns (as_TunnelTargetPolicies S)"
    "readsInOrder r_Meta (rds_TunnelTargetPolicies rs') ?ns (as_TunnelTargetPolicies S')"
    using assms(1,2) unfolding readsNamespace_def by blast+
  have agree: "agreesFor asSelector pl TargetType t_Meta sameTarget (as_Targets S) (as_Targets S')"
    "agreesFor asSelector pl SubscriptionType r_Meta sameResource (as_Subscriptions S) (as_Subscriptions S')"
    "agreesFor asSelector pl OutputType r_Meta sameResource (as_Outputs S) (as_Outputs S')"
    "agreesFor asSelector pl InputType r_Meta sameResource (as_Inputs S) (as_Inputs S')"
    "agreesFor asSelector pl OutputProcessorType r_Meta sameResource (as_Processors S) (as_Processors S')"
    "agreesFor asSelector pl InputProcessorType r_Meta sameResource (as_Processors S) (as_Processors S')"
    "agreesFor asSelector pl TunnelTargetPolicyType r_Meta sameResource (as_TunnelTargetPolicies S) (as_TunnelTargetPolicies S')"
    and profiles: "usesProfile asSelector S pl p \<Longrightarrow> rel_option sameResource (as_TargetProfiles S (?ns, p)) (as_TargetProfiles S' (?ns, p))" for p
    using assms(4) by (simp_all add: agreesOnPipeline_def)
  note resolved = stable_subscriptions.resolved_same [OF reads(5,6) assms(5) agree(2)] stable_outputs.resolved_same [OF reads(7,8) assms(5) agree(3)]
    stable_inputs.resolved_same [OF reads(9,10) assms(5) agree(4)] stable_output_processors.resolved_same [OF reads(11,12) assms(5) agree(5)]
    stable_input_processors.resolved_same [OF reads(11,12) assms(5) agree(6)]
  have "rel_sum (=) (\<lambda>xs ys. list_all2 sameResource xs ys \<and> resolveTunnelTargetPolicies (rds_TunnelTargetPolicies rs) asSelector pl = Inr xs)
      (resolveTunnelTargetPolicies (rds_TunnelTargetPolicies rs) asSelector pl)
      (resolveTunnelTargetPolicies (rds_TunnelTargetPolicies rs') asSelector pl')"
    by (rule stable_policies.resolved [OF reads(13,14) assms(5) agree(7)])
  moreover have "rel_sum (=) sameGathered
      (if xs \<noteq> [] \<and> cs_GRPCTunnel (cl_Spec cl) = None then Inr MissingTunnel
       else bindE (gatherTunnelPolicies rs pl xs pd) (\<lambda>pd. Inr (Gathered pd)))
      (if ys \<noteq> [] \<and> cs_GRPCTunnel (cl_Spec cl') = None then Inr MissingTunnel
       else bindE (gatherTunnelPolicies rs' pl' ys pd') (\<lambda>pd. Inr (Gathered pd)))"
    if xs: "list_all2 sameResource xs ys \<and> resolveTunnelTargetPolicies (rds_TunnelTargetPolicies rs) asSelector pl = Inr xs"
      and pd: "sameData pd pd'" for xs ys pd pd'
  proof -
    have "rel_option sameResource (as_TargetProfiles S (?ns, tpol_Profile (r_Spec x))) (as_TargetProfiles S' (?ns, tpol_Profile (r_Spec x)))"
      if "x \<in> set xs" for x
      using profiles resolvePolicies_store [OF reads(13) _ that] xs unfolding usesProfile_def by blast
    then have "rel_sum (=) sameGathered (bindE (gatherTunnelPolicies rs pl xs pd) (\<lambda>pd. Inr (Gathered pd)))
        (bindE (gatherTunnelPolicies rs' pl' ys pd') (\<lambda>pd. Inr (Gathered pd)))"
      using xs by (intro bindE_rel [OF gatherTunnelPolicies_rel [OF reads(3,4) assms(5) _ _ pd]]) simp_all
    moreover have "xs = [] \<longleftrightarrow> ys = []" using xs by auto
    ultimately show ?thesis by (auto simp: assms(6))
  qed
  moreover have "rel_sum (=) sameData (gatherTargets rs asSelector pl NewPipelineData) (gatherTargets rs' asSelector pl' NewPipelineData)"
    using profiles by (intro gatherTargets_rel [OF reads(1-4) agree(1) assms(5)]) (auto simp: usesProfile_def)
  ultimately show ?thesis
    unfolding gatherPipeline_def
    by (blast intro!: bindE_rel [where A = sameData] intro: bindE_rel gatherSubscriptions_rel [OF resolved(1)]
        gatherOutputs_rel [OF resolved(2) _ assms(5,3)] gatherInputs_rel [OF resolved(3) _ assms(5)]
        gatherProcessors_rel(1) [OF _ assms(5) resolved(4)] gatherProcessors_rel(2) [OF _ assms(5) resolved(5)])
qed

section \<open>Building\<close>

text \<open>Plans that differ in nothing but what the statuses of the targets say.\<close>

definition samePlan :: "apply_plan \<Rightarrow> apply_plan \<Rightarrow> bool" where
  "samePlan p q \<longleftrightarrow> p\<lparr>ap_CurrentTargetAssignment := []\<rparr> = q\<lparr>ap_CurrentTargetAssignment := []\<rparr>"

lemma samePlan_refl [simp]: "samePlan p p" by (simp add: samePlan_def)

lemma samePlan_parts:
  assumes "samePlan p q"
  shows "ap_Targets q = ap_Targets p" and "ap_Subscriptions q = ap_Subscriptions p" and "ap_Outputs q = ap_Outputs p"
    and "ap_Inputs q = ap_Inputs p" and "ap_Processors q = ap_Processors p"
    and "ap_TunnelTargetMatches q = ap_TunnelTargetMatches p" and "ap_PrometheusPorts q = ap_PrometheusPorts p"
  using assms by (cases p; cases q; simp add: samePlan_def)+

lemma samePlan_update:
  assumes "samePlan p q"
  shows "samePlan (p\<lparr>ap_Targets := ts\<rparr>) (q\<lparr>ap_Targets := ts\<rparr>)" and "samePlan (p\<lparr>ap_Subscriptions := ss\<rparr>) (q\<lparr>ap_Subscriptions := ss\<rparr>)"
    and "samePlan (p\<lparr>ap_Outputs := os\<rparr>) (q\<lparr>ap_Outputs := os\<rparr>)" and "samePlan (p\<lparr>ap_Inputs := is\<rparr>) (q\<lparr>ap_Inputs := is\<rparr>)"
    and "samePlan (p\<lparr>ap_Processors := ps\<rparr>) (q\<lparr>ap_Processors := ps\<rparr>)"
    and "samePlan (p\<lparr>ap_TunnelTargetMatches := ms\<rparr>) (q\<lparr>ap_TunnelTargetMatches := ms\<rparr>)"
    and "samePlan (p\<lparr>ap_PrometheusPorts := pp, ap_Outputs := os\<rparr>) (q\<lparr>ap_PrometheusPorts := pp, ap_Outputs := os\<rparr>)"
  using assms by (cases p; cases q; simp add: samePlan_def)+

lemma build_missing_rel:
  assumes "relMap R xs ys" and "\<And>k x y. R x y \<Longrightarrow> g k y = f k x"
  shows "build_missing g ys m = build_missing f xs m"
proof -
  have "rel_sum (=) (=) (foldE (missing_step f) xs m) (foldE (missing_step g) ys m)"
    using assms(1) by (rule foldE_rel) (auto simp: missing_step_def assms(2) sum.rel_eq)
  then show ?thesis by (simp add: build_missing_def sum.rel_eq)
qed

lemma bindE_plan_rel:
  assumes "r = r'" and "\<And>m. samePlan (f m) (g m)"
  shows "rel_sum (=) samePlan (bindE r (\<lambda>m. Inr (f m))) (bindE r' (\<lambda>m. Inr (g m)))"
  using assms by (cases r') auto

lemma fetchCreds_pipelines: "fetchCreds (b\<lparr>b_pipelines := pds\<rparr>) = fetchCreds b"
  by (simp add: fun_eq_iff fetchCreds_def)

lemma buildTargetConfig_same: "sameTarget x y \<Longrightarrow> buildTargetConfig y = buildTargetConfig x"
  by (simp only: fun_eq_iff buildTargetConfig_def sameTarget_def sameMeta_def) simp

lemma buildTargets_rel:
  assumes "sameData pd pd'" and "samePlan p q" and "b' = b\<lparr>b_pipelines := pds\<rparr>"
  shows "rel_sum (=) samePlan (buildTargets b pd p) (buildTargets b' pd' q)"
proof -
  have "buildTarget b' pd' k y = buildTarget b pd k x" if "sameTarget x y" for k x y
    using sameTarget_parts(1) [OF that] buildTargetConfig_same [OF that]
    by (simp add: buildTarget_def assms(3) sameData_parts [OF assms(1)] fetchCreds_pipelines cong: option.case_cong)
  from build_missing_rel [OF sameData_parts(11) [OF assms(1)] this] show ?thesis
    unfolding buildTargets_def samePlan_parts [OF assms(2)] by (intro bindE_plan_rel samePlan_update [OF assms(2)]) simp
qed

lemma buildPipeline_rel:
  assumes "sameData pd pd'" and "samePlan p q" and "b' = b\<lparr>b_pipelines := pds\<rparr>"
  shows "rel_sum (=) samePlan (buildPipeline yaml b pd p) (buildPipeline yaml b' pd' q)"
  unfolding buildPipeline_def
proof (rule bindE_rel [OF buildTargets_rel [OF assms]])
  note data = sameData_parts [OF assms(1)]
  fix p q assume "samePlan p q"
  then have "rel_sum (=) samePlan (buildSubscriptions b pd p) (buildSubscriptions b' pd' q)"
    by (simp add: buildSubscriptions_def buildSubscription_def [abs_def] samePlan_parts data assms(3) bindE_plan_rel samePlan_update)
  moreover have "rel_sum (=) samePlan (buildOutputs yaml b pd p) (buildOutputs yaml b' pd' q)" if "samePlan p q" for p q
    using that by (simp add: buildOutputs_def buildOutput_def [abs_def] samePlan_parts data assms(3) bindE_plan_rel samePlan_update)
  moreover have "rel_sum (=) samePlan (buildInputs yaml b pd p) (buildInputs yaml b' pd' q)" if "samePlan p q" for p q
    using that by (simp add: buildInputs_def buildInput_def [abs_def] samePlan_parts data assms(3) bindE_plan_rel samePlan_update)
  moreover have "rel_sum (=) samePlan (buildProcessors yaml pd p) (buildProcessors yaml pd' q)" if "samePlan p q" for p q
    using that by (auto simp: buildProcessors_def samePlan_parts data samePlan_update bindE_def split: sum.split)
  moreover have "rel_sum (=) samePlan (buildTunnelTargetMatches b pd p) (buildTunnelTargetMatches b' pd' q)" if "samePlan p q" for p q
    using that by (simp add: buildTunnelTargetMatches_def buildTunnelTarget_def [abs_def] fetchCreds_pipelines
        samePlan_parts data assms(3) bindE_plan_rel samePlan_update cong: option.case_cong)
  moreover have "rel_sum (=) samePlan (assignPrometheusOutputPorts pd p) (assignPrometheusOutputPorts pd' q)" if "samePlan p q" for p q
    using that by (auto simp: assignPrometheusOutputPorts_def promOutputs_def samePlan_parts data samePlan_update split: sum.split)
  ultimately show "rel_sum (=) samePlan
     (bindE (buildSubscriptions b pd p) (\<lambda>plan. bindE (buildOutputs yaml b pd plan) (\<lambda>plan. bindE (buildInputs yaml b pd plan) (\<lambda>plan.
        bindE (buildProcessors yaml pd plan) (\<lambda>plan. bindE (buildTunnelTargetMatches b pd plan) (assignPrometheusOutputPorts pd))))))
     (bindE (buildSubscriptions b' pd' q) (\<lambda>plan. bindE (buildOutputs yaml b' pd' plan) (\<lambda>plan. bindE (buildInputs yaml b' pd' plan) (\<lambda>plan.
        bindE (buildProcessors yaml pd' plan) (\<lambda>plan. bindE (buildTunnelTargetMatches b' pd' plan) (assignPrometheusOutputPorts pd'))))))"
    by (blast intro!: bindE_rel [where A = samePlan])
qed

lemma Build_rel:
  assumes "relMap sameData (b_pipelines b) pds"
  shows "rel_sum (=) samePlan (Build yaml b) (Build yaml (b\<lparr>b_pipelines := pds\<rparr>))"
proof -
  have pds: "list_all2 sameData (map snd (b_pipelines b)) (map snd pds)"
    using assms by (auto simp: list.rel_map elim: list_all2_mono)
  let ?f = "collectPipeline (b_clusterName b)" and ?s = "(b_relationships b, ap_CurrentTargetAssignment emptyPlan)"
  have "fst (fold ?f (map snd (b_pipelines b)) ?s) = fst (fold ?f (map snd pds) ?s)"
    by (rule fold_rel [where S = "\<lambda>s t. fst s = fst t", OF pds])
      (auto simp: collectPipeline_def sameData_parts gkeys_rel [OF sameData_parts(11)] split: prod.splits)
  then obtain rel cur cur' where rel: "fold ?f (map snd (b_pipelines b)) ?s = (rel, cur)" "fold ?f (map snd pds) ?s = (rel, cur')"
    by (metis prod.collapse)
  have "rel_sum (=) samePlan
      (foldE (buildPipeline yaml (b\<lparr>b_relationships := rel\<rparr>)) (map snd (b_pipelines b)) (emptyPlan\<lparr>ap_CurrentTargetAssignment := cur\<rparr>))
      (foldE (buildPipeline yaml (b\<lparr>b_pipelines := pds, b_relationships := rel\<rparr>)) (map snd pds) (emptyPlan\<lparr>ap_CurrentTargetAssignment := cur'\<rparr>))"
    using pds
  proof (rule foldE_rel)
    fix pd pd' p q assume "sameData pd pd'" "samePlan p q"
    then show "rel_sum (=) samePlan (buildPipeline yaml (b\<lparr>b_relationships := rel\<rparr>) pd p)
        (buildPipeline yaml (b\<lparr>b_pipelines := pds, b_relationships := rel\<rparr>) pd' q)"
      by (rule buildPipeline_rel [where pds = pds]) simp
  qed (simp add: samePlan_def)
  then show ?thesis by (simp add: Build_def collectRelationships_def rel)
qed

section \<open>The plan of a cluster\<close>

definition ofCluster :: "string \<Rightarrow> pipeline \<Rightarrow> bool" where
  "ofCluster name pl \<longleftrightarrow> ps_ClusterRef (pl_Spec pl) = name \<and> ps_Enabled (pl_Spec pl)"

text \<open>Two states agree on a cluster: on its enabled pipelines and on what they reference.\<close>

definition agreesOnCluster :: "selector_fn \<Rightarrow> string \<times> string \<Rightarrow> objects_store \<Rightarrow> objects_store \<Rightarrow> bool" where
  "agreesOnCluster asSelector = (\<lambda>(ns, name) S S'.
     (\<forall>n. rel_option samePipeline (seen (ofCluster name) (as_Pipelines S (ns, n))) (seen (ofCluster name) (as_Pipelines S' (ns, n)))) \<and>
     (\<forall>n pl. as_Pipelines S (ns, n) = Some pl \<longrightarrow> ofCluster name pl \<longrightarrow> agreesOnPipeline asSelector pl S S'))"

text \<open>The parameters the plan depends on: selectors, YAML, the domain, the texts of errors, secrets and services.\<close>

definition sameOutside :: "'w cluster_env \<Rightarrow> 'v cluster_env \<Rightarrow> bool" where
  "sameOutside env env' \<longleftrightarrow> ce_AsSelector env' = ce_AsSelector env \<and> ce_Yaml env' = ce_Yaml env \<and>
     ce_Domain env' = ce_Domain env \<and> ce_ErrText env' = ce_ErrText env \<and>
     rds_Secret (ce_Readers env') = rds_Secret (ce_Readers env) \<and> rds_Services (ce_Readers env') = rds_Services (ce_Readers env)"

lemma pipelines_rel:
  assumes "readsNamespace rs S ns" and "readsNamespace rs' S' ns" and "agreesOnCluster asSelector (ns, name) S S'"
    and "m_Namespace (cl_Meta cl) = ns" and "m_Name (cl_Meta cl) = name" and "sameCluster cl cl'"
  shows "rel_sum (=) (list_all2 (\<lambda>x y. samePipeline x y \<and> m_Namespace (pl_Meta x) = ns \<and> agreesOnPipeline asSelector x S S'))
    (listPipelinesForCluster rs cl) (listPipelinesForCluster rs' cl')"
proof -
  let ?P = "ofCluster name"
  have reads: "finite {n. as_Pipelines T (ns, n) \<noteq> None}" "rds_Pipelines r ns = Inr (listed pl_Meta (as_Pipelines T) ns (\<lambda>_. True))"
    if "readsNamespace r T ns" for r T
    using that unfolding readsNamespace_def by blast+
  have lists: "listPipelinesForCluster r c = Inr (listedBy (as_Pipelines T) ns ?P)"
    if "readsNamespace r T ns" "sameCluster cl c" for r T c
  proof -
    have "m_Namespace (cl_Meta c) = ns" "m_Name (cl_Meta c) = name"
      using that(2) assms(4,5) by (simp_all add: sameCluster_def sameMeta_def)
    moreover have "filter (\<lambda>pl. ps_ClusterRef (pl_Spec pl) = name \<and> ps_Enabled (pl_Spec pl)) (listed pl_Meta (as_Pipelines T) ns (\<lambda>_. True)) =
        listedBy (as_Pipelines T) ns ?P"
      unfolding listed_def filter_listedBy [OF reads(1) [OF that(1)]] ofCluster_def by simp
    ultimately show ?thesis by (simp add: listPipelinesForCluster_def reads(2) [OF that(1)])
  qed
  have "list_all2 samePipeline (listedBy (as_Pipelines S) ns ?P) (listedBy (as_Pipelines S') ns ?P)"
    using assms(3) by (intro listedBy_rel) (simp add: agreesOnCluster_def)
  moreover have "m_Namespace (pl_Meta x) = ns \<and> agreesOnPipeline asSelector x S S'" if x: "x \<in> set (listedBy (as_Pipelines S) ns ?P)" for x
  proof -
    obtain n where n: "as_Pipelines S (ns, n) = Some x" "?P x" using x listedBy_set [OF reads(1) [OF assms(1)], of ?P] by auto
    have "\<forall>n pl. as_Pipelines S (ns, n) = Some pl \<longrightarrow> m_Namespace (pl_Meta pl) = ns \<and> m_Name (pl_Meta pl) = n"
      using assms(1) unfolding readsNamespace_def by (elim conjE)
    with n assms(3) show ?thesis unfolding agreesOnCluster_def prod.case by blast
  qed
  ultimately have "list_all2 (\<lambda>x y. samePipeline x y \<and> m_Namespace (pl_Meta x) = ns \<and> agreesOnPipeline asSelector x S S')
      (listedBy (as_Pipelines S) ns ?P) (listedBy (as_Pipelines S') ns ?P)"
    by (simp add: list_all2_conv_all_nth)
  then show ?thesis by (simp add: lists [OF assms(1)] lists [OF assms(2,6)])
qed

lemma foldW_rel:
  assumes "list_all2 R xs ys" and "S s t" and "\<And>x y s t v w. R x y \<Longrightarrow> S s t \<Longrightarrow> rel_sum (=) S (fst (f x s v)) (fst (g y t w))"
  shows "rel_sum (=) S (fst (foldW f xs s v)) (fst (foldW g ys t w))"
  using assms(1,2)
proof (induction arbitrary: s t v w rule: list_all2_induct)
  case (Cons x xs y ys)
  have "rel_sum (=) S (fst (f x s v)) (fst (g y t w))" by (rule assms(3) [OF Cons(1,4)])
  then show ?case
  proof cases
    case (2 s' t')
    then show ?thesis using Cons(3) [of s' t' "snd (f x s v)" "snd (g y t w)"] by (cases "f x s v"; cases "g y t w") simp
  qed (cases "f x s v"; cases "g y t w"; simp)
qed simp

text \<open>The loop over the pipelines: the builder holds the data it has collected.\<close>

definition sameLoop ::
  "plan_builder \<Rightarrow> plan_builder \<times> (string, pipeline_data) gomap \<Rightarrow> plan_builder \<times> (string, pipeline_data) gomap \<Rightarrow> bool" where
  "sameLoop b0 = (\<lambda>(b, pds) (b', pds'). relMap sameData pds pds' \<and> b = b0\<lparr>b_pipelines := pds\<rparr> \<and> b' = b0\<lparr>b_pipelines := pds'\<rparr>)"

lemma newBuilder_same: "sameOutside env env' \<Longrightarrow> sameCluster cl cl' \<Longrightarrow> newBuilder env' cl' = newBuilder env cl"
  by (simp add: newBuilder_def FetchCredentials_def sameOutside_def sameCluster_def sameMeta_def)

lemma reconcilePipeline_rel:
  assumes "readsNamespace (ce_Readers env) S (m_Namespace (pl_Meta pl))" and "readsNamespace (ce_Readers env') S' (m_Namespace (pl_Meta pl))"
    and "sameOutside env env'" and "agreesOnPipeline (ce_AsSelector env) pl S S'" and "samePipeline pl pl'" and "sameCluster cl cl'"
    and "sameLoop b0 s t"
  shows "rel_sum (=) (sameLoop b0) (fst (reconcilePipeline env now cl pl s v)) (fst (reconcilePipeline env' now' cl' pl' t w))"
proof -
  obtain b pds b' pds' where s: "s = (b, pds)" "t = (b', pds')" by (cases s; cases t)
  have "rel_sum (=) sameGathered (gatherPipeline (ce_Readers env) (ce_AsSelector env) (ce_Yaml env) (ce_Domain env) cl pl)
      (gatherPipeline (ce_Readers env') (ce_AsSelector env') (ce_Yaml env') (ce_Domain env') cl' pl')"
    using assms(3,6) gatherPipeline_rel [OF assms(1,2) _ assms(4,5)] by (simp add: sameOutside_def sameCluster_def)
  then show ?thesis
  proof cases
    case (2 x y)
    then show ?thesis
      using assms(7) samePipeline_parts [OF assms(5)]
      by (cases x; cases y) (auto simp: s reconcilePipeline_def sameLoop_def AddPipeline_def gput_rel)
  qed (use assms(7) samePipeline_parts [OF assms(5)] in \<open>auto simp: s reconcilePipeline_def\<close>)
qed

text \<open>
  Up to the current assignment the plan of a cluster is the same in two states that agree on it, or its
  construction fails with the same error in both.
\<close>

definition samePlans ::
  "pipeline list \<times> (string, pipeline_data) gomap \<times> apply_plan \<times> plans \<Rightarrow>
   pipeline list \<times> (string, pipeline_data) gomap \<times> apply_plan \<times> plans \<Rightarrow> bool" where
  "samePlans = (\<lambda>(_, pds, plan, _) (_, pds', plan', _). relMap sameData pds pds' \<and> samePlan plan plan')"

theorem reconcilePlan_rel:
  assumes "readsNamespace (ce_Readers env) S ns" and "readsNamespace (ce_Readers env') S' ns" and "sameOutside env env'"
    and "m_Namespace (cl_Meta cl) = ns" and "m_Name (cl_Meta cl) = name" and "sameCluster cl cl'"
    and "agreesOnCluster (ce_AsSelector env) (ns, name) S S'"
  shows "rel_sum (=) samePlans (fst (reconcilePlan env now cl plans v)) (fst (reconcilePlan env' now' cl' plans' w))"
  using pipelines_rel [OF assms(1,2,7,4-6)]
proof cases
  case (2 pls pls')
  have loop: "rel_sum (=) (sameLoop (newBuilder env cl)) (fst (foldW (reconcilePipeline env now cl) pls (newBuilder env cl, []) v))
      (fst (foldW (reconcilePipeline env' now' cl') pls' (newBuilder env cl, []) w))"
    using 2(3)
  proof (rule foldW_rel)
    show "sameLoop (newBuilder env cl) (newBuilder env cl, []) (newBuilder env cl, [])"
      using newBuilder_fields(2) [of env cl] by (simp add: sameLoop_def)
  next
    fix x y s t v w
    assume "samePipeline x y \<and> m_Namespace (pl_Meta x) = ns \<and> agreesOnPipeline (ce_AsSelector env) x S S'"
      and "sameLoop (newBuilder env cl) s t"
    then show "rel_sum (=) (sameLoop (newBuilder env cl)) (fst (reconcilePipeline env now cl x s v)) (fst (reconcilePipeline env' now' cl' y t w))"
      using reconcilePipeline_rel [OF _ _ assms(3) _ _ assms(6)] assms(1,2) by blast
  qed
  have yaml: "ce_Yaml env' = ce_Yaml env" using assms(3) by (simp add: sameOutside_def)
  from loop show ?thesis
  proof cases
    case loop: (2 s t)
    obtain pds pds' where st: "s = ((newBuilder env cl)\<lparr>b_pipelines := pds\<rparr>, pds)" "t = ((newBuilder env cl)\<lparr>b_pipelines := pds'\<rparr>, pds')"
      "relMap sameData pds pds'"
      using loop(3) by (cases s; cases t) (auto simp: sameLoop_def)
    have "rel_sum (=) samePlan (Build (ce_Yaml env) ((newBuilder env cl)\<lparr>b_pipelines := pds\<rparr>))
        (Build (ce_Yaml env) ((newBuilder env cl)\<lparr>b_pipelines := pds'\<rparr>))"
      using Build_rel [of "(newBuilder env cl)\<lparr>b_pipelines := pds\<rparr>" pds'] st(3) by simp
    then show ?thesis
      using loop(1,2) unfolding st(1,2)
      by cases (auto simp: reconcilePlan_def 2 newBuilder_same [OF assms(3,6)] yaml samePlans_def st(3) split: prod.splits)
  qed (auto simp: reconcilePlan_def 2 newBuilder_same [OF assms(3,6)] split: prod.splits)
qed (auto simp: reconcilePlan_def)

end
