(* ===== verification/Watches_Correct.thy ===== *)
theory Watches_Correct
  imports Watches Plan_Stable Reconcile_Correct
begin

text \<open>
  Does a change of an object reach the plans it matters for? The cluster controller as a system: objects
  change, events are delivered to the queue in any order and at any later time, requests are handled. In
  every state that can be reached the plan of a cluster is up to date, or a request for the cluster is in
  the queue, or an event that will put one there has not been delivered yet. The predicates that filter
  updates and the functions that map an object to clusters therefore lose no change, with the exception
  the step relation names: profiles that only a tunnel target policy uses.
\<close>

section \<open>Changes of the stored objects\<close>

definition keyOfMeta :: "object_meta \<Rightarrow> string \<times> string" where
  "keyOfMeta m = (m_Namespace m, m_Name m)"

fun changed :: "('a \<Rightarrow> object_meta) \<Rightarrow> 'a change \<Rightarrow> 'a stored \<Rightarrow> 'a stored" where
  "changed meta (Created x) A = A(keyOfMeta (meta x) \<mapsto> x)"
| "changed meta (Updated old new) A = A(keyOfMeta (meta new) \<mapsto> new)"
| "changed meta (Deleted x) A = A(keyOfMeta (meta x) := None)"

text \<open>
  What the API server does: a created object was not there, an updated or deleted one was, names do not
  change, and a changed specification has a new generation. Equal label maps are the same list.
\<close>

fun legal :: "('a \<Rightarrow> object_meta) \<Rightarrow> ('a \<Rightarrow> 's) \<Rightarrow> 'a change \<Rightarrow> 'a stored \<Rightarrow> bool" where
  "legal meta spec (Created x) A \<longleftrightarrow> A (keyOfMeta (meta x)) = None"
| "legal meta spec (Updated old new) A \<longleftrightarrow> A (keyOfMeta (meta old)) = Some old \<and> keyOfMeta (meta new) = keyOfMeta (meta old) \<and>
     (spec new \<noteq> spec old \<longrightarrow> m_Generation (meta new) \<noteq> m_Generation (meta old)) \<and>
     (maps_Equal (m_Labels (meta old)) (m_Labels (meta new)) \<longrightarrow> m_Labels (meta new) = m_Labels (meta old))"
| "legal meta spec (Deleted x) A \<longleftrightarrow> A (keyOfMeta (meta x)) = Some x"

text \<open>The start of a deletion is a new generation too.\<close>

fun storeChange :: "event \<Rightarrow> objects_store \<Rightarrow> objects_store" where
  "storeChange (ClusterEvent c) S = S\<lparr>as_Clusters := changed cl_Meta c (as_Clusters S)\<rparr>"
| "storeChange (PipelineEvent c) S = S\<lparr>as_Pipelines := changed pl_Meta c (as_Pipelines S)\<rparr>"
| "storeChange (TargetEvent c) S = S\<lparr>as_Targets := changed t_Meta c (as_Targets S)\<rparr>"
| "storeChange (SubscriptionEvent c) S = S\<lparr>as_Subscriptions := changed r_Meta c (as_Subscriptions S)\<rparr>"
| "storeChange (OutputEvent c) S = S\<lparr>as_Outputs := changed r_Meta c (as_Outputs S)\<rparr>"
| "storeChange (InputEvent c) S = S\<lparr>as_Inputs := changed r_Meta c (as_Inputs S)\<rparr>"
| "storeChange (ProcessorEvent c) S = S\<lparr>as_Processors := changed r_Meta c (as_Processors S)\<rparr>"
| "storeChange (TargetProfileEvent c) S = S\<lparr>as_TargetProfiles := changed r_Meta c (as_TargetProfiles S)\<rparr>"
| "storeChange (TunnelTargetPolicyEvent c) S = S\<lparr>as_TunnelTargetPolicies := changed r_Meta c (as_TunnelTargetPolicies S)\<rparr>"
| "storeChange _ S = S"

fun legalEvent :: "event \<Rightarrow> objects_store \<Rightarrow> bool" where
  "legalEvent (ClusterEvent c) S \<longleftrightarrow> legal cl_Meta (\<lambda>cl. (cl_Spec cl, m_Deleting (cl_Meta cl))) c (as_Clusters S)"
| "legalEvent (PipelineEvent c) S \<longleftrightarrow> legal pl_Meta pl_Spec c (as_Pipelines S)"
| "legalEvent (TargetEvent c) S \<longleftrightarrow> legal t_Meta t_Spec c (as_Targets S)"
| "legalEvent (SubscriptionEvent c) S \<longleftrightarrow> legal r_Meta r_Spec c (as_Subscriptions S)"
| "legalEvent (OutputEvent c) S \<longleftrightarrow> legal r_Meta r_Spec c (as_Outputs S)"
| "legalEvent (InputEvent c) S \<longleftrightarrow> legal r_Meta r_Spec c (as_Inputs S)"
| "legalEvent (ProcessorEvent c) S \<longleftrightarrow> legal r_Meta r_Spec c (as_Processors S)"
| "legalEvent (TargetProfileEvent c) S \<longleftrightarrow> legal r_Meta r_Spec c (as_TargetProfiles S)"
| "legalEvent (TunnelTargetPolicyEvent c) S \<longleftrightarrow> legal r_Meta r_Spec c (as_TunnelTargetPolicies S)"
| "legalEvent _ S \<longleftrightarrow> True"

text \<open>The watch on profiles does not look at tunnel target policies: a profile one of them names must not change.\<close>

fun seenByWatches :: "event \<Rightarrow> objects_store \<Rightarrow> bool" where
  "seenByWatches (TargetProfileEvent c) S \<longleftrightarrow>
     (\<forall>p \<in> set (versions c). \<forall>n x. as_TunnelTargetPolicies S (m_Namespace (r_Meta p), n) = Some x \<longrightarrow>
        tpol_Profile (r_Spec x) \<noteq> m_Name (r_Meta p))"
| "seenByWatches _ S \<longleftrightarrow> True"

section \<open>The system\<close>

record watch_state =
  ws_Store :: objects_store
  ws_Events :: "event list" \<comment> \<open>not delivered yet\<close>
  ws_Queue :: "request list"
  ws_Plans :: plans

text \<open>What the handler reads: the clients of the state, and a fixed outside world.\<close>

definition readsState :: "(objects_store \<Rightarrow> readers) \<Rightarrow> 'w cluster_env \<Rightarrow> objects_store \<Rightarrow> 'w owned_env \<Rightarrow> bool" where
  "readsState client out S env \<longleftrightarrow> ce_Readers (oe_Cluster env) = client S \<and> sameOutside out (oe_Cluster env) \<and>
     (\<forall>ns n w. oe_GetCluster env ns n w = (case as_Clusters S (ns, n) of None \<Rightarrow> Inl NotFound | Some cl \<Rightarrow> Inr cl))"

text \<open>
  A handled request leaves the queue when the handler returns without an error and without asking to be
  called again.
\<close>

inductive cluster_system :: "(objects_store \<Rightarrow> readers) \<Rightarrow> 'w cluster_env \<Rightarrow> watch_state \<Rightarrow> watch_state \<Rightarrow> bool"
  for client :: "objects_store \<Rightarrow> readers" and out :: "'w cluster_env" where
  change: "legalEvent e (ws_Store s) \<Longrightarrow> seenByWatches e (ws_Store s) \<Longrightarrow>
    cluster_system client out s (s\<lparr>ws_Store := storeChange e (ws_Store s), ws_Events := ws_Events s @ [e]\<rparr>)"
| deliver: "e \<in> set (ws_Events s) \<Longrightarrow>
    cluster_system client out s (s\<lparr>ws_Events := remove1 e (ws_Events s),
      ws_Queue := addRequests (clusterRequests (client (ws_Store s)) (ce_AsSelector out) e) (ws_Queue s)\<rparr>)"
| handle: "(ns, n) \<in> set (ws_Queue s) \<Longrightarrow> CHR ''/'' \<notin> set ns \<Longrightarrow> readsState client out (ws_Store s) env \<Longrightarrow>
    Reconcile env now ns n (ws_Plans s) w = (r, plans, w') \<Longrightarrow>
    cluster_system client out s (s\<lparr>ws_Plans := plans,
      ws_Queue := (if r = Inr NoRequeue then removeAll (ns, n) (ws_Queue s) else ws_Queue s)\<rparr>)"

inductive_cases cluster_systemE: "cluster_system client out s s'"

section \<open>Objects the server can hold\<close>

definition wellKeyed :: "('a \<Rightarrow> object_meta) \<Rightarrow> 'a stored \<Rightarrow> bool" where
  "wellKeyed meta A \<longleftrightarrow> finite (dom A) \<and> (\<forall>k x. A k = Some x \<longrightarrow> keyOfMeta (meta x) = k)"

definition wellStored :: "objects_store \<Rightarrow> bool" where
  "wellStored S \<longleftrightarrow> wellKeyed cl_Meta (as_Clusters S) \<and> wellKeyed pl_Meta (as_Pipelines S) \<and> wellKeyed t_Meta (as_Targets S) \<and>
     wellKeyed r_Meta (as_Subscriptions S) \<and> wellKeyed r_Meta (as_Outputs S) \<and> wellKeyed r_Meta (as_Inputs S) \<and>
     wellKeyed r_Meta (as_Processors S) \<and> wellKeyed r_Meta (as_TargetProfiles S) \<and> wellKeyed r_Meta (as_TunnelTargetPolicies S)"

lemma wellKeyed_changed: "wellKeyed meta A \<Longrightarrow> wellKeyed meta (changed meta c A)"
  by (cases c) (auto simp: wellKeyed_def split: if_splits)

lemma wellStored_changed: "wellStored S \<Longrightarrow> wellStored (storeChange e S)"
  by (cases e) (simp_all add: wellStored_def wellKeyed_changed)

text \<open>A client that shows the stored objects, next to secrets and services that do not change.\<close>

definition showsStore :: "(objects_store \<Rightarrow> readers) \<Rightarrow> 'w cluster_env \<Rightarrow> bool" where
  "showsStore client out \<longleftrightarrow> (\<forall>S ns. wellStored S \<longrightarrow> readsNamespace (client S) S ns \<and>
     rds_Secret (client S) = rds_Secret (ce_Readers out) \<and> rds_Services (client S) = rds_Services (ce_Readers out))"

section \<open>The clusters an event finds\<close>

lemma readsNamespace_pipelines:
  assumes "readsNamespace rs S ns"
  obtains pls where "rds_Pipelines rs ns = Inr pls" and "set pls = {pl. \<exists>n. as_Pipelines S (ns, n) = Some pl}"
proof -
  have reads: "finite {n. as_Pipelines S (ns, n) \<noteq> None}" "rds_Pipelines rs ns = Inr (listed pl_Meta (as_Pipelines S) ns (\<lambda>_. True))"
    using assms unfolding readsNamespace_def by blast+
  from that [OF reads(2)] listed_set [OF reads(1)] show thesis by simp
qed

text \<open>An enabled pipeline of the cluster references an object of this name and with these labels.\<close>

definition refersTo :: "selector_fn \<Rightarrow> objects_store \<Rightarrow> request \<Rightarrow> object_meta \<Rightarrow> resource_type \<Rightarrow> bool" where
  "refersTo asSelector S = (\<lambda>(ns, name) m kind. m_Namespace m = ns \<and>
     (\<exists>k pl. as_Pipelines S (ns, k) = Some pl \<and> ofCluster name pl \<and>
        pipelineReferencesResource asSelector pl (m_Name m) (m_Labels m) kind))"

lemma findClusters_refers:
  assumes "readsNamespace rs S (m_Namespace m)"
  shows "req \<in> set (findClustersReferencingResource rs asSelector (m_Namespace m) (m_Name m) (m_Labels m) kind) \<longleftrightarrow>
    refersTo asSelector S req m kind"
proof -
  obtain pls where "rds_Pipelines rs (m_Namespace m) = Inr pls" "set pls = {pl. \<exists>n. as_Pipelines S (m_Namespace m, n) = Some pl}"
    by (rule readsNamespace_pipelines [OF assms])
  then show ?thesis by (cases req) (auto simp: findClusters_set refersTo_def ofCluster_def)
qed

lemma enqueued_iff: "req \<in> set (enqueued P meta f c) \<longleftrightarrow> passes P meta c \<and> (\<exists>x \<in> set (versions c). req \<in> set (f x))"
  by (cases c) (auto simp: enqueued_def addRequests_set)

definition usesNamed :: "selector_fn \<Rightarrow> objects_store \<Rightarrow> request \<Rightarrow> object_meta \<Rightarrow> bool" where
  "usesNamed asSelector S req m \<longleftrightarrow>
     (\<exists>n t. as_Targets S (m_Namespace m, n) = Some t \<and> ts_Profile (t_Spec t) = m_Name m \<and> refersTo asSelector S req (t_Meta t) TargetType)"

lemma findForProfile_uses:
  assumes "readsNamespace rs S (m_Namespace (r_Meta p))"
  shows "req \<in> set (findClustersForTargetProfile rs asSelector p) \<longleftrightarrow> usesNamed asSelector S req (r_Meta p)"
proof -
  let ?ns = "m_Namespace (r_Meta p)"
  have order: "readsInOrder t_Meta (rds_Targets rs) ?ns (as_Targets S)" using assms unfolding readsNamespace_def by blast
  have at: "m_Namespace (t_Meta t) = ?ns" if "as_Targets S (?ns, n) = Some t" for n t
    using order that by (simp add: readsInOrder_def)
  have fin: "finite {n. as_Targets S (?ns, n) \<noteq> None}" using order by (simp add: readsInOrder_def)
  have "req \<in> set (findClustersForTargetProfile rs asSelector p) \<longleftrightarrow>
      (\<exists>t \<in> set (listed t_Meta (as_Targets S) ?ns (\<lambda>_. True)). ts_Profile (t_Spec t) = m_Name (r_Meta p) \<and>
         req \<in> set (findClustersForTarget rs asSelector t))"
    by (simp add: findClustersForTargetProfile_set [OF readsInOrder_list [OF order]])
  also have "\<dots> \<longleftrightarrow> (\<exists>t n. as_Targets S (?ns, n) = Some t \<and> ts_Profile (t_Spec t) = m_Name (r_Meta p) \<and>
      req \<in> set (findClustersForTarget rs asSelector t))"
    by (auto simp: listed_set [OF fin])
  also have "\<dots> \<longleftrightarrow> usesNamed asSelector S req (r_Meta p)"
    unfolding usesNamed_def findClustersForTarget_def using findClusters_refers assms at by metis
  finally show ?thesis .
qed

text \<open>Which requests an event gives in a state.\<close>

fun wakes :: "selector_fn \<Rightarrow> objects_store \<Rightarrow> request \<Rightarrow> event \<Rightarrow> bool" where
  "wakes asSelector S req (ClusterEvent c) \<longleftrightarrow> passes generationChanged cl_Meta c \<and> (\<exists>x \<in> set (versions c). req = keyOfMeta (cl_Meta x))"
| "wakes asSelector S req (StatefulSetEvent c) \<longleftrightarrow> (\<exists>x \<in> set (versions c). req \<in> set (ownerOf stsKind x))"
| "wakes asSelector S req (ServiceEvent c) \<longleftrightarrow> passes generationChanged (k_Meta svcKind) c \<and> (\<exists>x \<in> set (versions c). req \<in> set (ownerOf svcKind x))"
| "wakes asSelector S req (CertificateEvent c) \<longleftrightarrow> (\<exists>x \<in> set (versions c). req \<in> set (ownerOf certKind x))"
| "wakes asSelector S req (PipelineEvent c) \<longleftrightarrow> passes generationChanged pl_Meta c \<and>
     (\<exists>x \<in> set (versions c). ps_ClusterRef (pl_Spec x) \<noteq> [] \<and> req = (m_Namespace (pl_Meta x), ps_ClusterRef (pl_Spec x)))"
| "wakes asSelector S req (TargetEvent c) \<longleftrightarrow> passes specOrLabels t_Meta c \<and> (\<exists>x \<in> set (versions c). refersTo asSelector S req (t_Meta x) TargetType)"
| "wakes asSelector S req (SubscriptionEvent c) \<longleftrightarrow>
     passes specOrLabels r_Meta c \<and> (\<exists>x \<in> set (versions c). refersTo asSelector S req (r_Meta x) SubscriptionType)"
| "wakes asSelector S req (OutputEvent c) \<longleftrightarrow> passes specOrLabels r_Meta c \<and> (\<exists>x \<in> set (versions c). refersTo asSelector S req (r_Meta x) OutputType)"
| "wakes asSelector S req (InputEvent c) \<longleftrightarrow> passes specOrLabels r_Meta c \<and> (\<exists>x \<in> set (versions c). refersTo asSelector S req (r_Meta x) InputType)"
| "wakes asSelector S req (ProcessorEvent c) \<longleftrightarrow> passes specOrLabels r_Meta c \<and>
     (\<exists>x \<in> set (versions c). refersTo asSelector S req (r_Meta x) OutputProcessorType \<or> refersTo asSelector S req (r_Meta x) InputProcessorType)"
| "wakes asSelector S req (TargetProfileEvent c) \<longleftrightarrow> passes generationChanged r_Meta c \<and> (\<exists>x \<in> set (versions c). usesNamed asSelector S req (r_Meta x))"
| "wakes asSelector S req (TunnelTargetPolicyEvent c) \<longleftrightarrow>
     passes specOrLabels r_Meta c \<and> (\<exists>x \<in> set (versions c). refersTo asSelector S req (r_Meta x) TunnelTargetPolicyType)"

lemma passes_always [simp]: "passes always meta c"
  by (cases c) (simp_all add: always_def)

lemma findClusterForPipeline_iff:
  "req \<in> set (findClusterForPipeline pl) \<longleftrightarrow>
     ps_ClusterRef (pl_Spec pl) \<noteq> [] \<and> req = (m_Namespace (pl_Meta pl), ps_ClusterRef (pl_Spec pl))"
  by (simp add: findClusterForPipeline_def)

lemma clusterRequests_wakes:
  assumes "\<And>ns. readsNamespace rs S ns"
  shows "req \<in> set (clusterRequests rs asSelector e) \<longleftrightarrow> wakes asSelector S req e"
  by (cases e) (simp_all add: enqueued_iff itself_def keyOfMeta_def findClusterForPipeline_iff findClustersForTarget_def
      findClustersForSubscription_def findClustersForOutput_def findClustersForInput_def findClustersForTunnelTargetPolicy_def
      findClustersForProcessor_def Let_def addRequests_set findClusters_refers [OF assms] findForProfile_uses [OF assms]
      disj_commute)

section \<open>A change that matters wakes the cluster\<close>

lemma changed_elsewhere: "legal meta spec c A \<Longrightarrow> (\<And>x. x \<in> set (versions c) \<Longrightarrow> keyOfMeta (meta x) \<noteq> k) \<Longrightarrow> changed meta c A k = A k"
  by (cases c) auto

text \<open>An update that a predicate holds back changes neither the specification nor, for the one on labels, the labels.\<close>

lemma heldBack:
  assumes "legal meta spec c A" and "\<not> passes P meta c" and "P = generationChanged \<or> P = specOrLabels"
  obtains old new where "c = Updated old new" and "A (keyOfMeta (meta old)) = Some old" and "keyOfMeta (meta new) = keyOfMeta (meta old)"
    and "spec new = spec old"
  using assms by (cases c) (auto simp: generationChanged_def specOrLabels_def generationOrLabelsChanged_def split: if_splits)

lemma heldBack_labels:
  "legal meta spec (Updated old new) A \<Longrightarrow> \<not> passes specOrLabels meta (Updated old new) \<Longrightarrow> m_Labels (meta new) = m_Labels (meta old)"
  by (auto simp: specOrLabels_def generationOrLabelsChanged_def split: if_splits)

lemma legal_old:
  assumes "legal meta spec c A" and "A k = Some x" and "wellKeyed meta A" and "y \<in> set (versions c)" and "keyOfMeta (meta y) = k"
  shows "x \<in> set (versions c)"
  using assms by (cases c) (auto simp: wellKeyed_def)

lemma changed_version:
  assumes "legal meta spec c A" and "changed meta c A k = Some x" and "y \<in> set (versions c)" and "keyOfMeta (meta y) = k"
  shows "x \<in> set (versions c)"
  using assms by (cases c) auto

lemma legal_key: "legal meta spec c A \<Longrightarrow> x \<in> set (versions c) \<Longrightarrow> y \<in> set (versions c) \<Longrightarrow> keyOfMeta (meta x) = keyOfMeta (meta y)"
  by (cases c) auto

lemma agreesFor_refl [simp]:
  assumes "\<And>x. same x x"
  shows "agreesFor asSelector pl kind meta same A A"
  by (simp add: agreesFor_def agreesOn_def option.rel_refl_strong assms)

lemma change_agrees:
  assumes "legal meta spec c A" and "wellKeyed meta A" and same: "\<And>x y. sameMeta (meta x) (meta y) \<Longrightarrow> spec x = spec y \<Longrightarrow> same x y"
    and "as_Pipelines S (m_Namespace (pl_Meta pl), k) = Some pl" and "ofCluster name pl"
    and "passes specOrLabels meta c \<Longrightarrow> \<forall>x \<in> set (versions c). \<not> refersTo asSelector S (m_Namespace (pl_Meta pl), name) (meta x) kind"
  shows "agreesFor asSelector pl kind meta same A (changed meta c A)"
  unfolding agreesFor_def agreesOn_def
proof
  fix n
  let ?ns = "m_Namespace (pl_Meta pl)" and ?A' = "changed meta c A"
  consider "\<forall>x \<in> set (versions c). keyOfMeta (meta x) \<noteq> (?ns, n)"
    | y where "y \<in> set (versions c)" "keyOfMeta (meta y) = (?ns, n)" by blast
  then show "rel_option (\<lambda>x y. same x y \<and> m_Labels (meta x) = m_Labels (meta y)) (A (?ns, n)) (?A' (?ns, n)) \<or>
      (\<forall>x. A (?ns, n) = Some x \<or> ?A' (?ns, n) = Some x \<longrightarrow> \<not> pipelineReferencesResource asSelector pl n (m_Labels (meta x)) kind)"
  proof cases
    case 1
    then have "?A' (?ns, n) = A (?ns, n)" using changed_elsewhere [OF assms(1)] by blast
    then show ?thesis by (simp add: option.rel_refl_strong same)
  next
    case (2 y)
    show ?thesis
    proof (cases "passes specOrLabels meta c")
      case True
      have "\<not> pipelineReferencesResource asSelector pl n (m_Labels (meta x)) kind" if x: "A (?ns, n) = Some x \<or> ?A' (?ns, n) = Some x" for x
      proof -
        have v: "x \<in> set (versions c)" using x legal_old [OF assms(1) _ assms(2) 2] changed_version [OF assms(1) _ 2] by blast
        then have "keyOfMeta (meta x) = (?ns, n)" using legal_key [OF assms(1) v 2(1)] 2(2) by simp
        then show ?thesis using assms(6) [OF True] v assms(4,5) by (auto simp: refersTo_def keyOfMeta_def)
      qed
      then show ?thesis by blast
    next
      case False
      obtain old new where c: "c = Updated old new" "A (keyOfMeta (meta old)) = Some old" "keyOfMeta (meta new) = keyOfMeta (meta old)"
        "spec new = spec old"
        by (rule heldBack [OF assms(1) False]) simp_all
      moreover have "m_Labels (meta new) = m_Labels (meta old)" using heldBack_labels assms(1) False unfolding c(1) .
      moreover have "keyOfMeta (meta old) = (?ns, n)" using 2 c(1,3) by auto
      ultimately show ?thesis by (auto simp: same sameMeta_def keyOfMeta_def)
    qed
  qed
qed

lemma rel_option_refl: "(\<And>x. R x x) \<Longrightarrow> rel_option R v v"
  by (cases v) simp_all

lemma refersTo_pipelines: "as_Pipelines S' = as_Pipelines S \<Longrightarrow> refersTo asSelector S' = refersTo asSelector S"
  by (simp add: fun_eq_iff refersTo_def)

lemma pipeline_at:
  "wellStored S \<Longrightarrow> as_Pipelines S (ns, n) = Some pl \<Longrightarrow> m_Namespace (pl_Meta pl) = ns \<and> m_Name (pl_Meta pl) = n"
  unfolding wellStored_def wellKeyed_def keyOfMeta_def by blast

lemma agreesOnClusterI:
  assumes "wellStored S" and "as_Pipelines S' = as_Pipelines S"
    and "\<And>n pl. as_Pipelines S (m_Namespace (pl_Meta pl), n) = Some pl \<Longrightarrow> m_Namespace (pl_Meta pl) = ns \<Longrightarrow> ofCluster name pl \<Longrightarrow>
      agreesOnPipeline asSelector pl S S'"
  shows "agreesOnCluster asSelector (ns, name) S S'"
  unfolding agreesOnCluster_def prod.case assms(2)
proof (intro conjI allI impI)
  fix n pl assume pl: "as_Pipelines S (ns, n) = Some pl" "ofCluster name pl"
  then have "m_Namespace (pl_Meta pl) = ns" using pipeline_at [OF assms(1)] by blast
  with pl show "agreesOnPipeline asSelector pl S S'" using assms(3) by blast
qed (simp add: rel_option_refl)

lemma agreesOnPipeline_refl:
  assumes "as_Targets S' = as_Targets S" and "as_Subscriptions S' = as_Subscriptions S" and "as_Outputs S' = as_Outputs S"
    and "as_Inputs S' = as_Inputs S" and "as_Processors S' = as_Processors S" and "as_TargetProfiles S' = as_TargetProfiles S"
    and "as_TunnelTargetPolicies S' = as_TunnelTargetPolicies S"
  shows "agreesOnPipeline asSelector pl S S'"
  by (simp add: agreesOnPipeline_def assms rel_option_refl)

lemma pipeline_change_agrees:
  assumes "wellStored S" and "legal pl_Meta pl_Spec c (as_Pipelines S)" and "name \<noteq> []"
    and "\<not> wakes asSelector T (ns, name) (PipelineEvent c)"
  shows "rel_option samePipeline (seen (ofCluster name) (as_Pipelines S (ns, n))) (seen (ofCluster name) (changed pl_Meta c (as_Pipelines S) (ns, n)))"
proof -
  let ?A = "as_Pipelines S"
  have keyed: "wellKeyed pl_Meta ?A" using assms(1) by (simp add: wellStored_def)
  consider "\<forall>x \<in> set (versions c). keyOfMeta (pl_Meta x) \<noteq> (ns, n)"
    | y where "y \<in> set (versions c)" "keyOfMeta (pl_Meta y) = (ns, n)" by blast
  then show ?thesis
  proof cases
    case 1
    then show ?thesis using changed_elsewhere [OF assms(2)] by (simp add: rel_option_refl)
  next
    case (2 y)
    show ?thesis
    proof (cases "passes generationChanged pl_Meta c")
      case True
      have "\<not> ofCluster name x" if x: "?A (ns, n) = Some x \<or> changed pl_Meta c ?A (ns, n) = Some x" for x
      proof -
        have v: "x \<in> set (versions c)" using x legal_old [OF assms(2) _ keyed 2] changed_version [OF assms(2) _ 2] by blast
        then have "m_Namespace (pl_Meta x) = ns" using legal_key [OF assms(2) v 2(1)] 2(2) by (simp add: keyOfMeta_def)
        then show ?thesis using assms(3,4) True v by (auto simp: ofCluster_def)
      qed
      then have "seen (ofCluster name) (?A (ns, n)) = None" "seen (ofCluster name) (changed pl_Meta c ?A (ns, n)) = None"
        by (auto simp: seen_def split: option.splits)
      then show ?thesis by simp
    next
      case False
      obtain old new where c: "c = Updated old new" "?A (keyOfMeta (pl_Meta old)) = Some old"
        "keyOfMeta (pl_Meta new) = keyOfMeta (pl_Meta old)" "pl_Spec new = pl_Spec old"
        by (rule heldBack [OF assms(2) False]) simp_all
      moreover have "keyOfMeta (pl_Meta old) = (ns, n)" using 2 c(1,3) by auto
      ultimately show ?thesis by (auto simp: seen_def ofCluster_def samePipeline_def sameMeta_def keyOfMeta_def)
    qed
  qed
qed

lemma profile_change_agrees:
  assumes "wellStored S" and "legal r_Meta r_Spec c (as_TargetProfiles S)" and "seenByWatches (TargetProfileEvent c) S"
    and "\<not> wakes asSelector S (m_Namespace (pl_Meta pl), name) (TargetProfileEvent c)"
    and "as_Pipelines S (m_Namespace (pl_Meta pl), k) = Some pl" and "ofCluster name pl" and "usesProfile asSelector S pl p"
  shows "rel_option sameResource (as_TargetProfiles S (m_Namespace (pl_Meta pl), p))
    (changed r_Meta c (as_TargetProfiles S) (m_Namespace (pl_Meta pl), p))"
proof -
  let ?ns = "m_Namespace (pl_Meta pl)" and ?A = "as_TargetProfiles S"
  consider "\<forall>x \<in> set (versions c). keyOfMeta (r_Meta x) \<noteq> (?ns, p)"
    | y where "y \<in> set (versions c)" "keyOfMeta (r_Meta y) = (?ns, p)" by blast
  then show ?thesis
  proof cases
    case 1
    then show ?thesis using changed_elsewhere [OF assms(2)] by (simp add: rel_option_refl)
  next
    case (2 y)
    then have y: "m_Namespace (r_Meta y) = ?ns" "m_Name (r_Meta y) = p" by (simp_all add: keyOfMeta_def)
    have "\<not> (as_TunnelTargetPolicies S (?ns, n) = Some x \<and> tpol_Profile (r_Spec x) = p)" for n x
      using assms(3) 2(1) y by auto
    then obtain n t where t: "as_Targets S (?ns, n) = Some t" "ts_Profile (t_Spec t) = p"
      "pipelineReferencesResource asSelector pl n (m_Labels (t_Meta t)) TargetType"
      using assms(7) unfolding usesProfile_def by blast
    moreover have "keyOfMeta (t_Meta t) = (?ns, n)" using assms(1) t(1) by (simp add: wellStored_def wellKeyed_def)
    ultimately have "usesNamed asSelector S (?ns, name) (r_Meta y)"
      using assms(5,6) y unfolding usesNamed_def refersTo_def keyOfMeta_def by auto
    then have "\<not> passes generationChanged r_Meta c" using assms(4) 2(1) by auto
    then obtain old new where c: "c = Updated old new" "?A (keyOfMeta (r_Meta old)) = Some old"
      "keyOfMeta (r_Meta new) = keyOfMeta (r_Meta old)" "r_Spec new = r_Spec old"
      by (rule heldBack [OF assms(2)]) simp_all
    moreover have "keyOfMeta (r_Meta old) = (?ns, p)" using 2 c(1,3) by auto
    ultimately show ?thesis by (auto simp: sameResource_def sameMeta_def keyOfMeta_def)
  qed
qed

text \<open>A change either wakes a cluster or leaves everything its plan is made from as it was.\<close>

lemmas agrees_simps = agreesOnPipeline_def rel_option_refl wellStored_def

lemma sameResource_by: "sameMeta (r_Meta x) (r_Meta y) \<Longrightarrow> r_Spec x = r_Spec y \<Longrightarrow> sameResource x y"
  by (simp add: sameResource_def)

lemmas resource_change_agrees =
  change_agrees [where meta = r_Meta and spec = r_Spec and same = sameResource, OF _ _ sameResource_by]

lemma change_wakes_or_agrees:
  assumes well: "wellStored S" and "legalEvent e S" and "seenByWatches e S" and "name \<noteq> []"
    and quiet: "\<not> wakes asSelector (storeChange e S) (ns, name) e"
  shows "agreesOnCluster asSelector (ns, name) S (storeChange e S)"
proof (cases e)
  case (PipelineEvent c)
  have "agreesOnPipeline asSelector pl S (storeChange e S)" for pl
    by (rule agreesOnPipeline_refl) (simp_all add: PipelineEvent)
  then show ?thesis
    using pipeline_change_agrees [OF well _ assms(4)] assms(2) quiet by (simp add: PipelineEvent agreesOnCluster_def)
next
  case (TargetProfileEvent c)
  have quietS: "\<not> wakes asSelector S (ns, name) (TargetProfileEvent c)"
    using quiet refersTo_pipelines [of "storeChange e S" S asSelector] by (simp add: TargetProfileEvent usesNamed_def)
  have "agreesOnPipeline asSelector pl S (storeChange e S)"
    if pl: "as_Pipelines S (m_Namespace (pl_Meta pl), n) = Some pl" "m_Namespace (pl_Meta pl) = ns" "ofCluster name pl" for n pl
    using profile_change_agrees [OF well _ assms(3) [unfolded TargetProfileEvent] quietS [folded pl(2)] pl(1,3)] assms(2)
    by (simp add: TargetProfileEvent agreesOnPipeline_def)
  then show ?thesis by (intro agreesOnClusterI [OF well]) (simp_all add: TargetProfileEvent)
next
  case (TargetEvent c)
  show ?thesis
    using change_agrees [of t_Meta t_Spec c "as_Targets S" sameTarget] assms(2) well quiet refersTo_pipelines [of "storeChange e S" S]
    by (intro agreesOnClusterI [OF well]) (auto simp: TargetEvent agrees_simps sameTarget_def)
next
  case (SubscriptionEvent c)
  then show ?thesis
    using resource_change_agrees [of c "as_Subscriptions S"] assms(2) well quiet refersTo_pipelines [of "storeChange e S" S]
    by (intro agreesOnClusterI [OF well]) (auto simp: agrees_simps)
next
  case (OutputEvent c)
  then show ?thesis
    using resource_change_agrees [of c "as_Outputs S"] assms(2) well quiet refersTo_pipelines [of "storeChange e S" S]
    by (intro agreesOnClusterI [OF well]) (auto simp: agrees_simps)
next
  case (InputEvent c)
  then show ?thesis
    using resource_change_agrees [of c "as_Inputs S"] assms(2) well quiet refersTo_pipelines [of "storeChange e S" S]
    by (intro agreesOnClusterI [OF well]) (auto simp: agrees_simps)
next
  case (ProcessorEvent c)
  then show ?thesis
    using resource_change_agrees [of c "as_Processors S"] assms(2) well quiet refersTo_pipelines [of "storeChange e S" S]
    by (intro agreesOnClusterI [OF well]) (auto simp: agrees_simps)
next
  case (TunnelTargetPolicyEvent c)
  then show ?thesis
    using resource_change_agrees [of c "as_TunnelTargetPolicies S"] assms(2) well quiet refersTo_pipelines [of "storeChange e S" S]
    by (intro agreesOnClusterI [OF well]) (auto simp: agrees_simps)
qed (rule agreesOnClusterI [OF well], simp, rule agreesOnPipeline_refl, simp_all)+

section \<open>An undelivered event keeps its effect\<close>

text \<open>A later change that takes away the reason for a request gives the request itself.\<close>

lemma refersTo_kept:
  assumes "wellStored S" and "legalEvent e S" and "name \<noteq> []" and "refersTo asSelector S (ns, name) m kind"
  shows "refersTo asSelector (storeChange e S) (ns, name) m kind \<or> wakes asSelector T (ns, name) e"
proof (cases "\<exists>c. e = PipelineEvent c")
  case True
  then obtain c where e: "e = PipelineEvent c" ..
  show ?thesis
  proof (cases "wakes asSelector T (ns, name) e")
    case False
    obtain k pl where pl: "as_Pipelines S (ns, k) = Some pl" "ofCluster name pl" "m_Namespace m = ns"
      "pipelineReferencesResource asSelector pl (m_Name m) (m_Labels m) kind"
      using assms(4) by (auto simp: refersTo_def)
    have "rel_option samePipeline (seen (ofCluster name) (as_Pipelines S (ns, k)))
        (seen (ofCluster name) (as_Pipelines (storeChange e S) (ns, k)))"
      using pipeline_change_agrees [OF assms(1) _ assms(3)] assms(2) False by (simp add: e)
    then obtain pl' where "as_Pipelines (storeChange e S) (ns, k) = Some pl'" "ofCluster name pl'" "samePipeline pl pl'"
      using pl(1,2) by (auto simp: seen_def rel_option_iff split: option.splits if_splits)
    with pl(3,4) show ?thesis by (auto simp: refersTo_def references_iff samePipeline_def)
  qed simp
next
  case False
  then have "as_Pipelines (storeChange e S) = as_Pipelines S" by (cases e) auto
  from refersTo_pipelines [OF this, of asSelector] assms(4) show ?thesis by simp
qed

lemma refersTo_cong:
  "keyOfMeta m' = keyOfMeta m \<Longrightarrow> m_Labels m' = m_Labels m \<Longrightarrow> refersTo asSelector S req m' kind = refersTo asSelector S req m kind"
  by (simp add: refersTo_def keyOfMeta_def split: prod.split)

lemma usesNamed_kept:
  assumes "wellStored S" and "legalEvent e S" and "name \<noteq> []" and "usesNamed asSelector S (ns, name) m"
  shows "usesNamed asSelector (storeChange e S) (ns, name) m \<or> wakes asSelector (storeChange e S) (ns, name) e"
proof (cases "wakes asSelector (storeChange e S) (ns, name) e")
  case False
  obtain n t where t: "as_Targets S (m_Namespace m, n) = Some t" "ts_Profile (t_Spec t) = m_Name m"
    "refersTo asSelector (storeChange e S) (ns, name) (t_Meta t) TargetType"
    using assms(4) refersTo_kept [OF assms(1-3)] False unfolding usesNamed_def by blast
  show ?thesis
  proof (cases "as_Targets (storeChange e S) (m_Namespace m, n) = Some t")
    case True
    with t show ?thesis unfolding usesNamed_def by blast
  next
    case moved: False
    then obtain c where e: "e = TargetEvent c" using t(1) by (cases e) auto
    have legal: "legal t_Meta t_Spec c (as_Targets S)" and keyed: "wellKeyed t_Meta (as_Targets S)"
      using assms(1,2) by (simp_all add: e wellStored_def)
    obtain y where y: "y \<in> set (versions c)" "keyOfMeta (t_Meta y) = (m_Namespace m, n)"
      using changed_elsewhere [OF legal] moved t(1) by (fastforce simp: e)
    have v: "t \<in> set (versions c)" by (rule legal_old [OF legal t(1) keyed y])
    then have "\<not> passes specOrLabels t_Meta c" using False t(3) by (auto simp: e)
    then obtain old new where c: "c = Updated old new" "as_Targets S (keyOfMeta (t_Meta old)) = Some old"
      "keyOfMeta (t_Meta new) = keyOfMeta (t_Meta old)" "t_Spec new = t_Spec old"
      by (rule heldBack [OF legal]) simp_all
    have lbls: "m_Labels (t_Meta new) = m_Labels (t_Meta old)"
      using heldBack_labels legal \<open>\<not> passes specOrLabels t_Meta c\<close> unfolding c(1) .
    have key: "keyOfMeta (t_Meta old) = (m_Namespace m, n)" using y c(1,3) by auto
    then have "old = t" using c(2) t(1) by simp
    then have "as_Targets (storeChange e S) (m_Namespace m, n) = Some new" "ts_Profile (t_Spec new) = m_Name m"
      "refersTo asSelector (storeChange e S) (ns, name) (t_Meta new) TargetType"
      using t(2,3) c(3,4) key lbls refersTo_cong [of "t_Meta new" "t_Meta old"] by (simp_all add: e c(1))
    then show ?thesis unfolding usesNamed_def by blast
  qed
qed simp

lemma pending_kept:
  assumes "wellStored S" and "legalEvent e S" and "name \<noteq> []" and "wakes asSelector S (ns, name) pending"
  shows "wakes asSelector (storeChange e S) (ns, name) pending \<or> wakes asSelector (storeChange e S) (ns, name) e"
  using assms(4) refersTo_kept [OF assms(1-3), of asSelector ns _ _ "storeChange e S"] usesNamed_kept [OF assms(1-3), of asSelector ns]
  by (cases pending) auto

section \<open>A handled request\<close>

lemma Reconcile_other_plans:
  assumes "Reconcile env now ns n plans w = (r, plans', w')" and "k \<noteq> ns @ ''/'' @ n"
    and "\<And>cl. oe_GetCluster env ns n w = Inr cl \<Longrightarrow> keyOfMeta (cl_Meta cl) = (ns, n)"
  shows "gget plans' k = gget plans k"
proof (cases "oe_GetCluster env ns n w")
  case (Inl e)
  then show ?thesis
    using assms(1,2) by (auto simp: Reconcile_def cleanupPlan_def gm.get_del split: sum.splits prod.splits api_error.splits)
next
  case (Inr cl)
  have "m_Namespace (cl_Meta cl) = ns" "m_Name (cl_Meta cl) = n" using assms(3) [OF Inr] by (simp_all add: keyOfMeta_def)
  then show ?thesis
    using assms(1,2) by (auto simp: Inr Reconcile_def reconcileWorkload_def reconcilePlan_def cleanupPlan_def CachePlan_def Let_def
        gm.get_del gm.get_put split: sum.splits prod.splits if_splits bool.splits)
qed

text \<open>A handler that is done has cached the plan of a cluster that is not being deleted.\<close>

lemma requeued [simp]: "map_sum f (\<lambda>_. Requeue) r \<noteq> Inr NoRequeue"
  by (cases r) simp_all

lemma Reconcile_caches:
  assumes "Reconcile env now ns n plans w = (Inr NoRequeue, plans', w')" and "oe_GetCluster env ns n w = Inr cl"
    and "keyOfMeta (cl_Meta cl) = (ns, n)" and "\<not> m_Deleting (cl_Meta cl)"
  obtains v pipelines pds plan ports plans1 where "fst (reconcilePlan (oe_Cluster env) now cl plans v) = Inr (pipelines, pds, plan, plans1)"
    and "GetClusterPlan ns n plans' = Inr (plan\<lparr>ap_PrometheusPorts := ports\<rparr>)"
proof -
  have meta: "m_Namespace (cl_Meta cl) = ns" "m_Name (cl_Meta cl) = n" using assms(3) by (simp_all add: keyOfMeta_def)
  obtain v where "reconcileWorkload env now cl plans v = (Inr NoRequeue, plans', w')"
    using assms(1,2,4) by (auto simp: Reconcile_def failW_def split: sum.splits prod.splits if_splits bool.splits)
  then obtain v' pipelines pds plan ports plans1 where
    "reconcilePlan (oe_Cluster env) now cl plans v = (Inr (pipelines, pds, plan, plans1), v')"
    "plans' = CachePlan ns n (plan\<lparr>ap_PrometheusPorts := ports\<rparr>) plans1"
    by (auto simp: reconcileWorkload_def Let_def meta split: sum.splits prod.splits)
  with that [of v pipelines pds plan plans1 ports] show thesis
    by (simp add: GetClusterPlan_def CachePlan_def gm.get_put)
qed

section \<open>The invariant\<close>

text \<open>Up to what the statuses of the targets say, and the ports that services add to it.\<close>

definition sameCached :: "apply_plan \<Rightarrow> apply_plan \<Rightarrow> bool" where
  "sameCached p q \<longleftrightarrow> p\<lparr>ap_CurrentTargetAssignment := [], ap_PrometheusPorts := []\<rparr> = q\<lparr>ap_CurrentTargetAssignment := [], ap_PrometheusPorts := []\<rparr>"

lemma samePlan_cached: "samePlan p q \<Longrightarrow> sameCached p r \<Longrightarrow> sameCached q r"
  by (cases p; cases q; cases r) (simp add: samePlan_def sameCached_def)

lemma sameCached_ports [simp]: "sameCached p (p\<lparr>ap_PrometheusPorts := ports\<rparr>)"
  by (cases p) (simp add: sameCached_def)

text \<open>The cached plan of a cluster is the one that would be built now.\<close>

definition planFor :: "'w cluster_env \<Rightarrow> cluster \<Rightarrow> apply_plan \<Rightarrow> bool" where
  "planFor env cl plan \<longleftrightarrow>
     (\<forall>now plans w. \<exists>pipelines pds built plans'.
        fst (reconcilePlan env now cl plans w) = Inr (pipelines, pds, built, plans') \<and> sameCached built plan)"

definition upToDate :: "(objects_store \<Rightarrow> readers) \<Rightarrow> 'w cluster_env \<Rightarrow> watch_state \<Rightarrow> cluster \<Rightarrow> bool" where
  "upToDate client out s cl \<longleftrightarrow>
     (\<exists>plan. GetClusterPlan (m_Namespace (cl_Meta cl)) (m_Name (cl_Meta cl)) (ws_Plans s) = Inr plan \<and>
        planFor (out\<lparr>ce_Readers := client (ws_Store s)\<rparr>) cl plan)"

lemma planFor_rel:
  assumes "readsNamespace (ce_Readers env) S ns" and "readsNamespace (ce_Readers env') S' ns" and "sameOutside env env'"
    and "keyOfMeta (cl_Meta cl) = (ns, n)" and "sameCluster cl cl'" and "agreesOnCluster (ce_AsSelector env) (ns, n) S S'"
    and "fst (reconcilePlan env now cl plans v) = Inr (pipelines, pds, built, plans')" and "sameCached built plan"
  shows "planFor env' cl' plan"
  unfolding planFor_def
proof (intro allI)
  fix now' plans1 w
  have meta: "m_Namespace (cl_Meta cl) = ns" "m_Name (cl_Meta cl) = n" using assms(4) by (simp_all add: keyOfMeta_def)
  have "rel_sum (=) samePlans (Inr (pipelines, pds, built, plans')) (fst (reconcilePlan env' now' cl' plans1 w))"
    using reconcilePlan_rel [OF assms(1-3) meta assms(5,6), of now plans v now' plans1 w] unfolding assms(7) .
  then obtain pls pds' built' plans2 where "fst (reconcilePlan env' now' cl' plans1 w) = Inr (pls, pds', built', plans2)" "samePlan built built'"
    by (cases "fst (reconcilePlan env' now' cl' plans1 w)") (auto simp: samePlans_def)
  with samePlan_cached [OF _ assms(8)] show "\<exists>pipelines pds built plans'.
      fst (reconcilePlan env' now' cl' plans1 w) = Inr (pipelines, pds, built, plans') \<and> sameCached built plan" by blast
qed

text \<open>What holds of every cluster that is not being deleted.\<close>

definition notForgotten :: "(objects_store \<Rightarrow> readers) \<Rightarrow> 'w cluster_env \<Rightarrow> watch_state \<Rightarrow> cluster \<Rightarrow> bool" where
  "notForgotten client out s cl \<longleftrightarrow>
     (let req = (m_Namespace (cl_Meta cl), m_Name (cl_Meta cl))
      in req \<in> set (ws_Queue s) \<or>
         (\<exists>e \<in> set (ws_Events s). req \<in> set (clusterRequests (client (ws_Store s)) (ce_AsSelector out) e)) \<or>
         upToDate client out s cl)"

definition liveCluster :: "objects_store \<Rightarrow> cluster \<Rightarrow> bool" where
  "liveCluster S cl \<longleftrightarrow> as_Clusters S (m_Namespace (cl_Meta cl), m_Name (cl_Meta cl)) = Some cl \<and> \<not> m_Deleting (cl_Meta cl) \<and>
     m_Name (cl_Meta cl) \<noteq> [] \<and> CHR ''/'' \<notin> set (m_Namespace (cl_Meta cl))"

lemma showsStore_parts:
  assumes "showsStore client out" and "wellStored S"
  shows "readsNamespace (client S) S ns" and "rds_Secret (client S) = rds_Secret (ce_Readers out)"
    and "rds_Services (client S) = rds_Services (ce_Readers out)"
  using assms by (simp_all add: showsStore_def)

lemma cluster_kept:
  assumes "wellStored S" and "legalEvent e S" and "\<not> wakes asSelector T (keyOfMeta (cl_Meta cl')) e" and "liveCluster (storeChange e S) cl'"
  obtains cl where "liveCluster S cl" and "sameCluster cl cl'"
proof (cases "as_Clusters S (keyOfMeta (cl_Meta cl')) = Some cl'")
  case True
  with that [of cl'] assms(4) show thesis by (simp add: liveCluster_def keyOfMeta_def)
next
  case False
  have at: "as_Clusters (storeChange e S) (keyOfMeta (cl_Meta cl')) = Some cl'" using assms(4) by (simp add: liveCluster_def keyOfMeta_def)
  with False obtain c where e: "e = ClusterEvent c" by (cases e) auto
  have legal: "legal cl_Meta (\<lambda>cl. (cl_Spec cl, m_Deleting (cl_Meta cl))) c (as_Clusters S)" using assms(2) by (simp add: e)
  obtain y where y: "y \<in> set (versions c)" "keyOfMeta (cl_Meta y) = keyOfMeta (cl_Meta cl')"
    using changed_elsewhere [OF legal] False at by (fastforce simp: e)
  then have "\<not> passes generationChanged cl_Meta c" using assms(3) by (auto simp: e)
  then obtain old new where c: "c = Updated old new" "as_Clusters S (keyOfMeta (cl_Meta old)) = Some old"
    "keyOfMeta (cl_Meta new) = keyOfMeta (cl_Meta old)" "cl_Spec new = cl_Spec old" "m_Deleting (cl_Meta new) = m_Deleting (cl_Meta old)"
    by (rule heldBack [OF legal]) simp_all
  moreover have "new = cl'" using at y c(1,3) by (auto simp: e)
  ultimately show thesis
    using that [of old] assms(4) by (simp add: liveCluster_def sameCluster_def sameMeta_def keyOfMeta_def)
qed

lemma notForgotten_change:
  assumes served: "showsStore client out" and well: "wellStored (ws_Store s)" and e: "legalEvent e (ws_Store s)" "seenByWatches e (ws_Store s)"
    and IH: "\<And>cl. liveCluster (ws_Store s) cl \<Longrightarrow> notForgotten client out s cl"
    and s': "s' = s\<lparr>ws_Store := storeChange e (ws_Store s), ws_Events := ws_Events s @ [e]\<rparr>" and live: "liveCluster (ws_Store s') cl'"
  shows "notForgotten client out s' cl'"
proof -
  let ?S = "ws_Store s" and ?S' = "storeChange e (ws_Store s)" and ?sel = "ce_AsSelector out"
  let ?ns = "m_Namespace (cl_Meta cl')" and ?n = "m_Name (cl_Meta cl')"
  have well': "wellStored ?S'" using well by (rule wellStored_changed)
  note reqs = clusterRequests_wakes [OF showsStore_parts(1) [OF served well]] clusterRequests_wakes [OF showsStore_parts(1) [OF served well']]
  have name: "?n \<noteq> []" using live by (simp add: liveCluster_def)
  show ?thesis
  proof (cases "wakes ?sel ?S' (?ns, ?n) e")
    case True
    then show ?thesis by (simp add: notForgotten_def Let_def s' reqs)
  next
    case quiet: False
    obtain cl where cl: "liveCluster ?S cl" "sameCluster cl cl'"
      using cluster_kept [OF well e(1), of ?sel ?S' cl'] quiet live by (auto simp: s' keyOfMeta_def)
    have key: "keyOfMeta (cl_Meta cl) = (?ns, ?n)" using cl(2) by (simp add: sameCluster_def sameMeta_def keyOfMeta_def)
    have kept: "wakes ?sel ?S (?ns, ?n) p \<Longrightarrow> wakes ?sel ?S' (?ns, ?n) p" for p
      using pending_kept [OF well e(1) name] quiet by blast
    have "upToDate client out s' cl'" if fresh: "upToDate client out s cl"
    proof -
      obtain plan where plan: "GetClusterPlan ?ns ?n (ws_Plans s) = Inr plan" "planFor (out\<lparr>ce_Readers := client ?S\<rparr>) cl plan"
        using fresh key by (auto simp: upToDate_def keyOfMeta_def)
      obtain pipelines pds built plans' where built: "sameCached built plan"
        "fst (reconcilePlan (out\<lparr>ce_Readers := client ?S\<rparr>) 0 cl [] undefined) = Inr (pipelines, pds, built, plans')"
        using plan(2) unfolding planFor_def by blast
      have "planFor (out\<lparr>ce_Readers := client ?S'\<rparr>) cl' plan"
        using built change_wakes_or_agrees [OF well e name quiet] showsStore_parts [OF served well] showsStore_parts [OF served well']
        by (intro planFor_rel [OF _ _ _ key cl(2)]) (simp_all add: sameOutside_def)
      with plan(1) show ?thesis by (simp add: upToDate_def s')
    qed
    then show ?thesis
      using IH [OF cl(1)] kept key by (auto simp: notForgotten_def Let_def s' reqs keyOfMeta_def)
  qed
qed

lemma notForgotten_handle:
  assumes served: "showsStore client out" and well: "wellStored (ws_Store s)" and queued: "(ns, n) \<in> set (ws_Queue s)" and slash: "CHR ''/'' \<notin> set ns"
    and env: "readsState client out (ws_Store s) env" and run: "Reconcile env now ns n (ws_Plans s) w = (r, plans, w')"
    and IH: "notForgotten client out s cl"
    and s': "s' = s\<lparr>ws_Plans := plans, ws_Queue := (if r = Inr NoRequeue then removeAll (ns, n) (ws_Queue s) else ws_Queue s)\<rparr>"
    and live: "liveCluster (ws_Store s) cl"
  shows "notForgotten client out s' cl"
proof -
  let ?S = "ws_Store s" and ?ns = "m_Namespace (cl_Meta cl)" and ?n = "m_Name (cl_Meta cl)"
  have get: "oe_GetCluster env a b v = (case as_Clusters ?S (a, b) of None \<Rightarrow> Inl NotFound | Some cl \<Rightarrow> Inr cl)" for a b v
    using env by (simp add: readsState_def)
  have keyed: "as_Clusters ?S k = Some c \<Longrightarrow> keyOfMeta (cl_Meta c) = k" for k c
    using well unfolding wellStored_def wellKeyed_def by blast
  show ?thesis
  proof (cases "(?ns, ?n) = (ns, n)")
    case False
    have "?ns @ ''/'' @ ?n \<noteq> ns @ ''/'' @ n"
      using nsname_inj [of ?ns ns ?n n] False slash live by (auto simp: nsname_def Delimiter_def liveCluster_def)
    then have "gget plans (?ns @ ''/'' @ ?n) = gget (ws_Plans s) (?ns @ ''/'' @ ?n)"
      using keyed by (intro Reconcile_other_plans [OF run]) (auto simp: get split: option.splits)
    then show ?thesis using IH False by (auto simp: notForgotten_def upToDate_def GetClusterPlan_def s' Let_def)
  next
    case req: True
    show ?thesis
    proof (cases "r = Inr NoRequeue")
      case True
      have cl: "oe_GetCluster env ns n w = Inr cl" "keyOfMeta (cl_Meta cl) = (ns, n)" "\<not> m_Deleting (cl_Meta cl)"
        using live req get by (auto simp: liveCluster_def keyOfMeta_def)
      obtain v pipelines pds plan ports plans1 where
        built: "fst (reconcilePlan (oe_Cluster env) now cl (ws_Plans s) v) = Inr (pipelines, pds, plan, plans1)"
        and cached: "GetClusterPlan ns n plans = Inr (plan\<lparr>ap_PrometheusPorts := ports\<rparr>)"
        by (rule Reconcile_caches [OF run [unfolded True] cl])
      have "planFor (out\<lparr>ce_Readers := client ?S\<rparr>) cl (plan\<lparr>ap_PrometheusPorts := ports\<rparr>)"
      proof (rule planFor_rel [OF _ _ _ cl(2) sameCluster_refl _ built sameCached_ports])
        show "readsNamespace (ce_Readers (oe_Cluster env)) ?S ns" "readsNamespace (ce_Readers (out\<lparr>ce_Readers := client ?S\<rparr>)) ?S ns"
          using env showsStore_parts(1) [OF served well] by (simp_all add: readsState_def)
        show "sameOutside (oe_Cluster env) (out\<lparr>ce_Readers := client ?S\<rparr>)"
          using env showsStore_parts [OF served well] by (simp add: readsState_def sameOutside_def)
        show "agreesOnCluster (ce_AsSelector (oe_Cluster env)) (ns, n) ?S ?S"
          by (intro agreesOnClusterI [OF well] agreesOnPipeline_refl) simp_all
      qed
      then show ?thesis using cached req by (auto simp: notForgotten_def upToDate_def s' Let_def)
    next
      case False
      then show ?thesis using queued req by (simp add: notForgotten_def s' Let_def)
    qed
  qed
qed

lemma notForgotten_deliver:
  assumes "e \<in> set (ws_Events s)" and "notForgotten client out s cl"
    and "s' = s\<lparr>ws_Events := remove1 e (ws_Events s),
      ws_Queue := addRequests (clusterRequests (client (ws_Store s)) (ce_AsSelector out) e) (ws_Queue s)\<rparr>"
  shows "notForgotten client out s' cl"
proof -
  have "d \<in> set (remove1 e (ws_Events s)) \<or> d = e" if "d \<in> set (ws_Events s)" for d using that by auto
  then show ?thesis using assms(2) by (fastforce simp: assms(3) notForgotten_def upToDate_def Let_def addRequests_set)
qed

text \<open>
  The operator starts without plans; its first events are the creations of the objects that are there.
\<close>

definition started :: "watch_state \<Rightarrow> bool" where
  "started s \<longleftrightarrow> wellStored (ws_Store s) \<and> ws_Queue s = [] \<and> ws_Plans s = [] \<and>
     (\<forall>cl. liveCluster (ws_Store s) cl \<longrightarrow> ClusterEvent (Created cl) \<in> set (ws_Events s))"

lemma system_invariant:
  assumes "showsStore client out" and "started s0" and "(cluster_system client out)\<^sup>*\<^sup>* s0 s"
  shows "wellStored (ws_Store s) \<and> (\<forall>cl. liveCluster (ws_Store s) cl \<longrightarrow> notForgotten client out s cl)"
  using assms(3)
proof (induction rule: rtranclp_induct)
  case base
  have "notForgotten client out s0 cl" if "liveCluster (ws_Store s0) cl" for cl
  proof -
    have "(m_Namespace (cl_Meta cl), m_Name (cl_Meta cl)) \<in>
        set (clusterRequests (client (ws_Store s0)) (ce_AsSelector out) (ClusterEvent (Created cl)))"
      by (simp add: enqueued_iff itself_def)
    then show ?thesis using that assms(2) unfolding started_def notForgotten_def Let_def by blast
  qed
  then show ?case using assms(2) by (simp add: started_def)
next
  case (step s s')
  from step(2) show ?case
  proof cases
    case (change e)
    then show ?thesis using step(3) notForgotten_change [OF assms(1) _ change(2,3) _ change(1)] wellStored_changed by simp
  next
    case (deliver e)
    then show ?thesis using step(3) notForgotten_deliver [where client = client and out = out and s = s, OF deliver(2) _ deliver(1)] by simp
  next
    case (handle ns n env now w r plans w')
    then show ?thesis using step(3) notForgotten_handle [OF assms(1) _ handle(2-5) _ handle(1)] by simp
  qed
qed

text \<open>
  C4: No change is lost. In every state the operator can reach, a cluster that is not being deleted has a
  request in the queue, or an event that has not been delivered yet gives it one, or its cached plan is
  the plan that would be built from the objects as they are now, up to the current assignment of targets
  and the ports of its services. When the queue is empty and all events are delivered, every plan is up to
  date. (Secrets and the services of outputs are not watched and taken as constant, and a profile that a
  tunnel target policy names does not change.)
\<close>

theorem no_change_lost:
  assumes "showsStore client out" and "started s0" and "(cluster_system client out)\<^sup>*\<^sup>* s0 s" and "liveCluster (ws_Store s) cl"
  shows "(m_Namespace (cl_Meta cl), m_Name (cl_Meta cl)) \<in> set (ws_Queue s) \<or>
    (\<exists>e \<in> set (ws_Events s). (m_Namespace (cl_Meta cl), m_Name (cl_Meta cl)) \<in>
       set (clusterRequests (client (ws_Store s)) (ce_AsSelector out) e)) \<or>
    (\<exists>plan. GetClusterPlan (m_Namespace (cl_Meta cl)) (m_Name (cl_Meta cl)) (ws_Plans s) = Inr plan \<and>
       (\<forall>now plans w. \<exists>pipelines pds built plans'.
          fst (reconcilePlan (out\<lparr>ce_Readers := client (ws_Store s)\<rparr>) now cl plans w) = Inr (pipelines, pds, built, plans') \<and>
          sameCached built plan))"
  using system_invariant [OF assms(1-3)] assms(4)
  unfolding notForgotten_def upToDate_def planFor_def Let_def by blast

section \<open>A run\<close>

text \<open>A client that shows what is stored.\<close>

definition storeReader :: "('a \<Rightarrow> object_meta) \<Rightarrow> 'a stored \<Rightarrow> 'a reader" where
  "storeReader meta A = \<lparr>rd_get = (\<lambda>ns n. case A (ns, n) of None \<Rightarrow> Inl NotFound | Some x \<Rightarrow> Inr x),
     rd_list = (\<lambda>ns p. Inr (listed meta A ns p))\<rparr>"

definition storeClient :: "objects_store \<Rightarrow> readers" where
  "storeClient S = \<lparr>rds_Targets = storeReader t_Meta (as_Targets S), rds_TargetProfiles = storeReader r_Meta (as_TargetProfiles S),
     rds_Subscriptions = storeReader r_Meta (as_Subscriptions S), rds_Outputs = storeReader r_Meta (as_Outputs S),
     rds_Inputs = storeReader r_Meta (as_Inputs S), rds_Processors = storeReader r_Meta (as_Processors S),
     rds_TunnelTargetPolicies = storeReader r_Meta (as_TunnelTargetPolicies S), rds_Services = listReader sv_Meta [],
     rds_Pipelines = (\<lambda>ns. Inr (listed pl_Meta (as_Pipelines S) ns (\<lambda>_. True))), rds_Secret = (\<lambda>_ _. Inl NotFound)\<rparr>"

lemma wellKeyed_names:
  assumes "wellKeyed meta A"
  shows "finite {n. A (ns, n) \<noteq> None}" and "A (ns, n) = Some x \<Longrightarrow> m_Namespace (meta x) = ns \<and> m_Name (meta x) = n"
proof -
  have "inj (Pair ns :: string \<Rightarrow> string \<times> string)" by (simp add: inj_def)
  moreover have "{n. A (ns, n) \<noteq> None} = Pair ns -` dom A" by auto
  moreover have "finite (dom A)" using assms by (simp add: wellKeyed_def)
  ultimately show "finite {n. A (ns, n) \<noteq> None}" by (simp only: finite_vimageI)
  show "A (ns, n) = Some x \<Longrightarrow> m_Namespace (meta x) = ns \<and> m_Name (meta x) = n"
    using assms unfolding wellKeyed_def keyOfMeta_def by blast
qed

lemma storeReader_order: "wellKeyed meta A \<Longrightarrow> readsInOrder meta (storeReader meta A) ns A"
  unfolding readsInOrder_def using wellKeyed_names [of meta A] by (simp add: storeReader_def)

lemma storeClient_reads: "wellStored S \<Longrightarrow> readsNamespace (storeClient S) S ns"
  unfolding readsNamespace_def using wellKeyed_names [of pl_Meta "as_Pipelines S"]
  by (simp add: storeClient_def storeReader_order wellStored_def)

definition exOut :: "mem_world cluster_env" where
  "exOut = exEnvOver (storeClient undefined) (\<lambda>_ _ _ w. (Inl [], w))"

lemma storeClient_shows: "showsStore storeClient exOut"
proof -
  have "rds_Secret (storeClient S) = (\<lambda>_ _. Inl NotFound)" "rds_Services (storeClient S) = listReader sv_Meta []" for S
    by (simp_all add: storeClient_def)
  then show ?thesis by (simp add: showsStore_def storeClient_reads exOut_def exEnvOver_def)
qed

text \<open>A cluster without pipelines and replicas: its creation is delivered and handled, then a target appears.\<close>

definition exQuiet :: cluster where
  "exQuiet = exCluster\<lparr>cl_Meta := (exMeta ''c1'')\<lparr>m_Finalizers := [clusterFinalizer]\<rparr>,
     cl_Spec := (cl_Spec exCluster)\<lparr>cs_Replicas := Some 0\<rparr>\<rparr>"

definition exQuietStore :: objects_store where
  "exQuietStore = \<lparr>as_Clusters = [(''n'', ''c1'') \<mapsto> exQuiet], as_Pipelines = Map.empty, as_Targets = Map.empty,
     as_Subscriptions = Map.empty, as_Outputs = Map.empty, as_Inputs = Map.empty, as_Processors = Map.empty,
     as_TargetProfiles = Map.empty, as_TunnelTargetPolicies = Map.empty\<rparr>"

definition noReader :: "'a reader" where
  "noReader = \<lparr>rd_get = (\<lambda>_ _. Inl NotFound), rd_list = (\<lambda>_ _. Inr [])\<rparr>"

definition noReaders :: readers where
  "noReaders = \<lparr>rds_Targets = noReader, rds_TargetProfiles = noReader, rds_Subscriptions = noReader, rds_Outputs = noReader,
     rds_Inputs = noReader, rds_Processors = noReader, rds_TunnelTargetPolicies = noReader, rds_Services = listReader sv_Meta [],
     rds_Pipelines = (\<lambda>_. Inr []), rds_Secret = (\<lambda>_ _. Inl NotFound)\<rparr>"

lemma exQuiet_client: "storeClient exQuietStore = noReaders"
  by (simp add: storeClient_def noReaders_def exQuietStore_def storeReader_def noReader_def listed_def listedBy_def)

definition exQuietEnv :: "mem_world owned_env" where
  "exQuietEnv = memEnv\<lparr>oe_Cluster := exEnvOver noReaders (\<lambda>_ _ _ w. (Inl [], w)),
     oe_GetCluster := (\<lambda>ns n w. if (ns, n) = (''n'', ''c1'') then Inr exQuiet else Inl NotFound)\<rparr>"

definition exQuietWorld :: mem_world where
  "exQuietWorld = \<lparr>mw_Certs = [], mw_Services = [], mw_ConfigMaps = [], mw_Sets = [], mw_Clusters = [exQuiet]\<rparr>"

lemma exQuiet_done: "fst (Reconcile exQuietEnv 0 ''n'' ''c1'' [] exQuietWorld) = Inr NoRequeue"
  by code_simp

definition exStart :: watch_state where
  "exStart = \<lparr>ws_Store = exQuietStore, ws_Events = [ClusterEvent (Created exQuiet)], ws_Queue = [], ws_Plans = []\<rparr>"

lemma exStart_started: "started exStart"
proof -
  have "wellStored exQuietStore"
    by (simp add: exQuietStore_def wellStored_def wellKeyed_def keyOfMeta_def exQuiet_def exCluster_def exMeta_def)
  moreover have "cl = exQuiet" if "liveCluster exQuietStore cl" for cl
    using that by (auto simp: liveCluster_def exQuietStore_def split: if_splits)
  ultimately show ?thesis by (auto simp: started_def exStart_def)
qed

lemma exRun:
  obtains plans where "(cluster_system storeClient exOut)\<^sup>*\<^sup>* exStart
    \<lparr>ws_Store = exQuietStore\<lparr>as_Targets := [(''n'', ''t1'') \<mapsto> exTarget ''t1'']\<rparr>,
     ws_Events = [TargetEvent (Created (exTarget ''t1''))], ws_Queue = [], ws_Plans = plans\<rparr>"
proof -
  let ?S = "exQuietStore" and ?S' = "exQuietStore\<lparr>as_Targets := [(''n'', ''t1'') \<mapsto> exTarget ''t1'']\<rparr>"
  let ?steps = "cluster_system storeClient exOut"
  obtain plans w' where run: "Reconcile exQuietEnv 0 ''n'' ''c1'' [] exQuietWorld = (Inr NoRequeue, plans, w')"
    using exQuiet_done by (cases "Reconcile exQuietEnv 0 ''n'' ''c1'' [] exQuietWorld") auto
  let ?s1 = "\<lparr>ws_Store = ?S, ws_Events = [], ws_Queue = [(''n'', ''c1'')], ws_Plans = []\<rparr>"
  let ?s2 = "\<lparr>ws_Store = ?S, ws_Events = [], ws_Queue = [], ws_Plans = plans\<rparr>"
  let ?s3 = "\<lparr>ws_Store = ?S', ws_Events = [TargetEvent (Created (exTarget ''t1''))], ws_Queue = [], ws_Plans = plans\<rparr>"
  have "?steps exStart ?s1"
    using cluster_system.deliver [of "ClusterEvent (Created exQuiet)" exStart storeClient exOut]
    by (simp add: exStart_def enqueued_def itself_def addRequests_def exQuiet_def exCluster_def exMeta_def)
  moreover have "?steps ?s1 ?s2"
  proof -
    have "readsState storeClient exOut ?S exQuietEnv"
      by (simp add: readsState_def exQuiet_client exQuietEnv_def exEnvOver_def exOut_def sameOutside_def)
        (simp add: exQuietStore_def storeClient_def noReaders_def)
    then show ?thesis
      using cluster_system.handle [of "''n''" "''c1''" ?s1 storeClient exOut exQuietEnv 0 exQuietWorld] run by simp
  qed
  moreover have "?steps ?s2 ?s3"
    using cluster_system.change [of "TargetEvent (Created (exTarget ''t1''))" ?s2 storeClient exOut]
    by (simp add: exQuietStore_def keyOfMeta_def exTarget_def exMeta_def)
  ultimately have "?steps\<^sup>*\<^sup>* exStart ?s3" by (meson converse_rtranclp_into_rtranclp rtranclp.rtrancl_refl)
  then show thesis by (rule that)
qed

theorem no_change_lost_witness:
  "\<exists>s plan. (cluster_system storeClient exOut)\<^sup>*\<^sup>* exStart s \<and> ws_Queue s = [] \<and> ws_Events s = [TargetEvent (Created (exTarget ''t1''))] \<and>
     GetClusterPlan ''n'' ''c1'' (ws_Plans s) = Inr plan \<and>
     (\<exists>pipelines pds built plans'. fst (reconcilePlan (exOut\<lparr>ce_Readers := storeClient (ws_Store s)\<rparr>) 0 exQuiet [] exQuietWorld) =
        Inr (pipelines, pds, built, plans') \<and> sameCached built plan)"
proof -
  obtain plans where run: "(cluster_system storeClient exOut)\<^sup>*\<^sup>* exStart
    \<lparr>ws_Store = exQuietStore\<lparr>as_Targets := [(''n'', ''t1'') \<mapsto> exTarget ''t1'']\<rparr>,
     ws_Events = [TargetEvent (Created (exTarget ''t1''))], ws_Queue = [], ws_Plans = plans\<rparr>" (is "rtranclp _ _ ?s")
    by (rule exRun)
  have live: "liveCluster (ws_Store ?s) exQuiet"
    by (simp add: liveCluster_def exQuietStore_def exQuiet_def exCluster_def exMeta_def)
  have well: "wellStored (ws_Store ?s)" using system_invariant [OF storeClient_shows exStart_started run] by blast
  have quiet: "(''n'', ''c1'') \<notin> set (clusterRequests (storeClient (ws_Store ?s)) sel (TargetEvent (Created (exTarget ''t1''))))" for sel
    by (simp only: clusterRequests_wakes [OF storeClient_reads [OF well]]) (simp add: refersTo_def exQuietStore_def)
  have meta: "m_Namespace (cl_Meta exQuiet) = ''n''" "m_Name (cl_Meta exQuiet) = ''c1''" by (simp_all add: exQuiet_def exMeta_def)
  from no_change_lost [OF storeClient_shows exStart_started run live, unfolded meta] quiet
  obtain plan where "GetClusterPlan ''n'' ''c1'' (ws_Plans ?s) = Inr plan"
    "\<forall>now plans w. \<exists>pipelines pds built plans'. fst (reconcilePlan (exOut\<lparr>ce_Readers := storeClient (ws_Store ?s)\<rparr>) now exQuiet plans w) =
        Inr (pipelines, pds, built, plans') \<and> sameCached built plan"
    by auto
  with run show ?thesis by (intro exI [of _ ?s] exI [of _ plan]) auto
qed

section \<open>What the watches miss\<close>

text \<open>A cluster with a tunnel, a pipeline that references one policy, and the policy's profile.\<close>

definition exTunnelProfile :: "int \<Rightarrow> target_profile_spec resource" where
  "exTunnelProfile t = \<lparr>r_Meta = (exMeta ''p'')\<lparr>m_Generation := t\<rparr>, r_Spec = exProfile\<lparr>tp_Timeout := t\<rparr>\<rparr>"

definition exTunnelPipeline :: pipeline where
  "exTunnelPipeline = exCR\<lparr>pl_Spec := (pl_Spec exCR)\<lparr>ps_TargetSelectors := [], ps_TargetRefs := [], ps_TunnelTargetPolicyRefs := [''pol'']\<rparr>\<rparr>"

definition exTunnelReaders :: "int \<Rightarrow> readers" where
  "exTunnelReaders t = (exReadersOf [] ''p'' exTunnelPipeline)\<lparr>rds_TargetProfiles := listReader r_Meta [exTunnelProfile t],
     rds_TunnelTargetPolicies := listReader r_Meta [\<lparr>r_Meta = exMeta ''pol'',
       r_Spec = \<lparr>tpol_Match = Some \<lparr>tm_Type = ''router'', tm_ID = ''r1''\<rparr>, tpol_Profile = ''p''\<rparr>\<rparr>]\<rparr>"

definition exTunnelCluster :: cluster where
  "exTunnelCluster = exCluster\<lparr>cl_Spec := (cl_Spec exCluster)\<lparr>cs_GRPCTunnel := Some \<lparr>gt_Port = 57401, gt_TLS = None, gt_Service = None\<rparr>\<rparr>\<rparr>"

definition exTunnelTimeouts :: "int \<Rightarrow> plan_failure + duration option list" where
  "exTunnelTimeouts t = map_sum id (\<lambda>(_, _, plan, _). map (\<lambda>(_, m). map_option tc_Timeout (ttm_Config m)) (ap_TunnelTargetMatches plan))
     (fst (reconcilePlan (exEnvOver (exTunnelReaders t) (\<lambda>_ _ _ w. (Inl [], w))) 0 exTunnelCluster [] ()))"

text \<open>
  C38: The exception. A changed profile that a tunnel target policy of the cluster uses, and no target,
  gives no request, although the plan built from the changed profile is another one: the cached plan stays
  as it was until something else wakes the cluster.
\<close>

theorem tunnel_profile_unwatched:
  "clusterRequests (exTunnelReaders 7) exSelector (TargetProfileEvent (Updated (exTunnelProfile 5) (exTunnelProfile 7))) = [] \<and>
   exTunnelTimeouts 5 = Inr [Some 5] \<and> exTunnelTimeouts 7 = Inr [Some 7]"
  by code_simp

end
