(* ===== verification/Operator_Setup.thy ===== *)
theory Operator_Setup
  imports Webhooks Watches
begin

text \<open>
  The entry point \<^verbatim>\<open>cmd/main.go\<close> and what it registers: the controllers, the webhooks of every kind with
  their defaulters (\<^verbatim>\<open>internal/webhook/v1alpha1\<close>), the health checks and the API server. The flags are
  given as the record that package \<^verbatim>\<open>flag\<close> fills. Parameters: what controller-runtime answers to each
  registration, and the environment of the process.
\<close>

section \<open>Defaulters\<close>

text \<open>They check the kind and change nothing.\<close>

definition ClusterCustomDefaulter :: "object \<Rightarrow> admission_error + object" where
  "ClusterCustomDefaulter obj = (case obj of ClusterObject _ \<Rightarrow> Inr obj | _ \<Rightarrow> Inl (WrongKind ''Cluster''))"

definition PipelineCustomDefaulter :: "object \<Rightarrow> admission_error + object" where
  "PipelineCustomDefaulter obj = (case obj of PipelineObject _ \<Rightarrow> Inr obj | _ \<Rightarrow> Inl (WrongKind ''Pipeline''))"

definition SubscriptionCustomDefaulter :: "object \<Rightarrow> admission_error + object" where
  "SubscriptionCustomDefaulter obj = (case obj of SubscriptionObject _ _ \<Rightarrow> Inr obj | _ \<Rightarrow> Inl (WrongKind ''Subscription''))"

definition TargetProfileCustomDefaulter :: "object \<Rightarrow> admission_error + object" where
  "TargetProfileCustomDefaulter obj = (case obj of TargetProfileObject _ _ \<Rightarrow> Inr obj | _ \<Rightarrow> Inl (WrongKind ''TargetProfile''))"

definition TargetCustomDefaulter :: "object \<Rightarrow> admission_error + object" where
  "TargetCustomDefaulter obj = (case obj of TargetObject _ \<Rightarrow> Inr obj | _ \<Rightarrow> Inl (WrongKind ''Target''))"

definition TunnelTargetPolicyCustomDefaulter :: "object \<Rightarrow> admission_error + object" where
  "TunnelTargetPolicyCustomDefaulter obj = (case obj of TunnelTargetPolicyObject _ _ \<Rightarrow> Inr obj | _ \<Rightarrow> Inl (WrongKind ''TunnelTargetPolicy''))"

definition OutputCustomDefaulter :: "object \<Rightarrow> admission_error + object" where
  "OutputCustomDefaulter obj = (case obj of OutputObject _ _ \<Rightarrow> Inr obj | _ \<Rightarrow> Inl (WrongKind ''Output''))"

definition InputCustomDefaulter :: "object \<Rightarrow> admission_error + object" where
  "InputCustomDefaulter obj = (case obj of InputObject _ _ \<Rightarrow> Inr obj | _ \<Rightarrow> Inl (WrongKind ''Input''))"

definition ProcessorCustomDefaulter :: "object \<Rightarrow> admission_error + object" where
  "ProcessorCustomDefaulter obj = (case obj of ProcessorObject _ _ \<Rightarrow> Inr obj | _ \<Rightarrow> Inl (WrongKind ''Processor''))"

definition TargetSourceCustomDefaulter :: "object \<Rightarrow> admission_error + object" where
  "TargetSourceCustomDefaulter obj = (case obj of TargetSourceObject _ \<Rightarrow> Inr obj | _ \<Rightarrow> Inl (WrongKind ''TargetSource''))"

section \<open>The manager\<close>

record webhook =
  wh_For :: string
  wh_Validator :: validator
  wh_Defaulter :: "object \<Rightarrow> admission_error + object"

record manager_options =
  mo_MetricsAddr :: string
  mo_ProbeAddr :: string
  mo_LeaderElection :: bool
  mo_LeaderElectionID :: string

record manager =
  mg_Options :: "manager_options option"
  mg_Controllers :: "string list"
  mg_SourceSizes :: "(int \<times> int) option" \<comment> \<open>\<^verbatim>\<open>BufferSize\<close> and \<^verbatim>\<open>ChunkSize\<close> of the target source controller\<close>
  mg_Webhooks :: "webhook list"
  mg_Checks :: "string list"
  mg_ApiAddr :: "string option"
  mg_Started :: bool

definition newManager :: manager where
  "newManager = \<lparr>mg_Options = None, mg_Controllers = [], mg_SourceSizes = None, mg_Webhooks = [], mg_Checks = [], mg_ApiAddr = None, mg_Started = False\<rparr>"

definition addWebhook :: "webhook \<Rightarrow> manager \<Rightarrow> manager" where
  "addWebhook w mgr = mgr\<lparr>mg_Webhooks := mg_Webhooks mgr @ [w]\<rparr>"

definition SetupClusterWebhookWithManager :: "manager \<Rightarrow> manager" where
  "SetupClusterWebhookWithManager = addWebhook
     \<lparr>wh_For = ''Cluster'', wh_Validator = ClusterCustomValidator, wh_Defaulter = ClusterCustomDefaulter\<rparr>"

definition SetupPipelineWebhookWithManager :: "manager \<Rightarrow> manager" where
  "SetupPipelineWebhookWithManager = addWebhook
     \<lparr>wh_For = ''Pipeline'', wh_Validator = PipelineCustomValidator, wh_Defaulter = PipelineCustomDefaulter\<rparr>"

definition SetupSubscriptionWebhookWithManager :: "manager \<Rightarrow> manager" where
  "SetupSubscriptionWebhookWithManager = addWebhook
     \<lparr>wh_For = ''Subscription'', wh_Validator = SubscriptionCustomValidator, wh_Defaulter = SubscriptionCustomDefaulter\<rparr>"

definition SetupTargetProfileWebhookWithManager :: "manager \<Rightarrow> manager" where
  "SetupTargetProfileWebhookWithManager = addWebhook
     \<lparr>wh_For = ''TargetProfile'', wh_Validator = TargetProfileCustomValidator, wh_Defaulter = TargetProfileCustomDefaulter\<rparr>"

definition SetupTargetWebhookWithManager :: "manager \<Rightarrow> manager" where
  "SetupTargetWebhookWithManager = addWebhook
     \<lparr>wh_For = ''Target'', wh_Validator = TargetCustomValidator, wh_Defaulter = TargetCustomDefaulter\<rparr>"

definition SetupTunnelTargetPolicyWebhookWithManager :: "(string \<Rightarrow> string option) \<Rightarrow> manager \<Rightarrow> manager" where
  "SetupTunnelTargetPolicyWebhookWithManager regexError = addWebhook
     \<lparr>wh_For = ''TunnelTargetPolicy'', wh_Validator = TunnelTargetPolicyCustomValidator regexError, wh_Defaulter = TunnelTargetPolicyCustomDefaulter\<rparr>"

definition SetupOutputWebhookWithManager :: "manager \<Rightarrow> manager" where
  "SetupOutputWebhookWithManager = addWebhook
     \<lparr>wh_For = ''Output'', wh_Validator = OutputCustomValidator, wh_Defaulter = OutputCustomDefaulter\<rparr>"

definition SetupInputWebhookWithManager :: "manager \<Rightarrow> manager" where
  "SetupInputWebhookWithManager = addWebhook
     \<lparr>wh_For = ''Input'', wh_Validator = InputCustomValidator, wh_Defaulter = InputCustomDefaulter\<rparr>"

definition SetupProcessorWebhookWithManager :: "manager \<Rightarrow> manager" where
  "SetupProcessorWebhookWithManager = addWebhook
     \<lparr>wh_For = ''Processor'', wh_Validator = ProcessorCustomValidator, wh_Defaulter = ProcessorCustomDefaulter\<rparr>"

definition SetupTargetSourceWebhookWithManager :: "manager \<Rightarrow> manager" where
  "SetupTargetSourceWebhookWithManager = addWebhook
     \<lparr>wh_For = ''TargetSource'', wh_Validator = TargetSourceCustomValidator, wh_Defaulter = TargetSourceCustomDefaulter\<rparr>"

section \<open>The program\<close>

record flags =
  fl_MetricsAddr :: string
  fl_LeaderElect :: bool
  fl_ProbeAddr :: string
  fl_DevMode :: bool
  fl_ApiAddr :: string
  fl_ChunkSize :: int
  fl_BufferSize :: int

definition defaultFlags :: flags where
  "defaultFlags = \<lparr>fl_MetricsAddr = '':8080'', fl_LeaderElect = False, fl_ProbeAddr = '':8081'', fl_DevMode = False,
     fl_ApiAddr = [], fl_ChunkSize = 100, fl_BufferSize = 10\<rparr>"

text \<open>
  The options of the logger are copied from the variable of the flag before \<^verbatim>\<open>flag.Parse\<close> sets it. (Package
  \<^verbatim>\<open>zap\<close> binds flags of its own, which are not these.)
\<close>

definition zapDevelopment :: "flags \<Rightarrow> bool" where
  "zapDevelopment fl = fl_DevMode defaultFlags"

text \<open>One call of \<^verbatim>\<open>main\<close> each that may fail: the message it logs before it exits with code 1, and what it does.\<close>

type_synonym setup_step = "string \<times> (manager \<Rightarrow> manager)"

definition controllerStep :: "string \<Rightarrow> string \<Rightarrow> setup_step" where
  "controllerStep msg name = (''unable to create controller '' @ msg, \<lambda>mgr. mgr\<lparr>mg_Controllers := mg_Controllers mgr @ [name]\<rparr>)"

definition webhookSteps :: "(string \<Rightarrow> string) \<Rightarrow> string \<Rightarrow> (manager \<Rightarrow> manager) \<Rightarrow> setup_step list" where
  "webhookSteps getenv kind f = (if getenv ''ENABLE_WEBHOOKS'' \<noteq> ''false'' then [(''unable to create webhook '' @ kind, f)] else [])"

definition mainSteps :: "(string \<Rightarrow> string option) \<Rightarrow> flags \<Rightarrow> (string \<Rightarrow> string) \<Rightarrow> setup_step list" where
  "mainSteps regexError fl getenv =
     [(''unable to start manager'', \<lambda>mgr. mgr\<lparr>mg_Options := Some \<lparr>mo_MetricsAddr = fl_MetricsAddr fl, mo_ProbeAddr = fl_ProbeAddr fl,
         mo_LeaderElection = fl_LeaderElect fl, mo_LeaderElectionID = ''47942d33.gnmic.dev''\<rparr>\<rparr>),
      controllerStep ''Cluster'' ''cluster'', controllerStep ''Pipeline'' ''pipeline'',
      (''unable to create controller TargetSource'', \<lambda>mgr. mgr\<lparr>mg_Controllers := mg_Controllers mgr @ [''targetsource''],
         mg_SourceSizes := Some (fl_BufferSize fl, fl_ChunkSize fl)\<rparr>)] @
     webhookSteps getenv ''TargetSource'' SetupTargetSourceWebhookWithManager @
     webhookSteps getenv ''Cluster'' SetupClusterWebhookWithManager @
     webhookSteps getenv ''Pipeline'' SetupPipelineWebhookWithManager @
     webhookSteps getenv ''Subscription'' SetupSubscriptionWebhookWithManager @
     webhookSteps getenv ''Target'' SetupTargetWebhookWithManager @
     webhookSteps getenv ''Output'' SetupOutputWebhookWithManager @
     webhookSteps getenv ''Input'' SetupInputWebhookWithManager @
     webhookSteps getenv ''Processor'' SetupProcessorWebhookWithManager @
     webhookSteps getenv ''TargetProfile'' SetupTargetProfileWebhookWithManager @
     [controllerStep ''TargetState'' ''targetstate'', controllerStep ''TunnelTargetPolicy'' ''tunneltargetpolicy''] @
     webhookSteps getenv ''TunnelTargetPolicy'' (SetupTunnelTargetPolicyWebhookWithManager regexError) @
     [(''unable to set up health check'', \<lambda>mgr. mgr\<lparr>mg_Checks := mg_Checks mgr @ [''healthz'']\<rparr>),
      (''unable to set up ready check'', \<lambda>mgr. mgr\<lparr>mg_Checks := mg_Checks mgr @ [''readyz'']\<rparr>)] @
     (if fl_ApiAddr fl \<noteq> [] then [(''unable to add api server'', \<lambda>mgr. mgr\<lparr>mg_ApiAddr := Some (fl_ApiAddr fl)\<rparr>)] else []) @
     [(''problem running manager'', \<lambda>mgr. mgr\<lparr>mg_Started := True\<rparr>)]"

text \<open>\<open>Inl\<close> is the message logged before \<^verbatim>\<open>os.Exit(1)\<close>; \<open>fails\<close> is the error a registration returns, by its message.\<close>

definition main :: "(string \<Rightarrow> string option) \<Rightarrow> (string \<Rightarrow> bool) \<Rightarrow> flags \<Rightarrow> (string \<Rightarrow> string) \<Rightarrow> string + manager" where
  "main regexError fails fl getenv =
     foldE (\<lambda>(msg, f) mgr. if fails msg then Inl msg else Inr (f mgr)) (mainSteps regexError fl getenv) newManager"

text \<open>The API server as a runnable: it ends with the error of the server, or is shut down with its context.\<close>

datatype api_end = ServerError string | ContextDone

definition apiRunnable :: "(unit \<Rightarrow> string option) \<Rightarrow> api_end \<Rightarrow> string option" where
  "apiRunnable shutdown e = (case e of ServerError err \<Rightarrow> Some err | ContextDone \<Rightarrow> shutdown ())"

section \<open>What a started operator has registered\<close>

fun kindOf :: "object \<Rightarrow> string" where
  "kindOf (ClusterObject _) = ''Cluster''"
| "kindOf (PipelineObject _) = ''Pipeline''"
| "kindOf (SubscriptionObject _ _) = ''Subscription''"
| "kindOf (TargetProfileObject _ _) = ''TargetProfile''"
| "kindOf (TargetObject _) = ''Target''"
| "kindOf (TunnelTargetPolicyObject _ _) = ''TunnelTargetPolicy''"
| "kindOf (OutputObject _ _) = ''Output''"
| "kindOf (InputObject _ _) = ''Input''"
| "kindOf (ProcessorObject _ _) = ''Processor''"
| "kindOf (TargetSourceObject _) = ''TargetSource''"

text \<open>A webhook takes the objects of its kind, unchanged, and no others.\<close>

definition handlesKind :: "webhook \<Rightarrow> bool" where
  "handlesKind w \<longleftrightarrow> (\<forall>obj old.
     wh_Defaulter w obj = (if kindOf obj = wh_For w then Inr obj else Inl (WrongKind (wh_For w))) \<and>
     (ValidateCreate (wh_Validator w) obj = Some (WrongKind (wh_For w)) \<longleftrightarrow> kindOf obj \<noteq> wh_For w) \<and>
     (ValidateUpdate (wh_Validator w) old obj = Some (WrongKind (wh_For w)) \<longleftrightarrow> kindOf obj \<noteq> wh_For w) \<and>
     (ValidateDelete (wh_Validator w) obj = Some (WrongKind (wh_For w)) \<longleftrightarrow> kindOf obj \<noteq> wh_For w))"

lemma invalid_not_wrong [simp]: "invalidUnless kind name errs \<noteq> Some (WrongKind k)"
  by (simp add: invalidUnless_def)

lemma specs_not_wrong [simp]:
  "validateClusterSpec cs \<noteq> Some (WrongKind k)" "validatePipelineSpec ps \<noteq> Some (WrongKind k)"
  "validateSubscriptionSpec n ss \<noteq> Some (WrongKind k)" "validateTargetSpec n t \<noteq> Some (WrongKind k)"
  "validateTunnelTargetPolicySpec r n tp \<noteq> Some (WrongKind k)"
  by (simp_all add: validateClusterSpec_def validatePipelineSpec_def validateSubscriptionSpec_def validateTargetSpec_def
      validateTunnelTargetPolicySpec_def Let_def split: option.split)

lemma handlers:
  "handlesKind \<lparr>wh_For = ''Cluster'', wh_Validator = ClusterCustomValidator, wh_Defaulter = ClusterCustomDefaulter\<rparr>"
  "handlesKind \<lparr>wh_For = ''Pipeline'', wh_Validator = PipelineCustomValidator, wh_Defaulter = PipelineCustomDefaulter\<rparr>"
  "handlesKind \<lparr>wh_For = ''Subscription'', wh_Validator = SubscriptionCustomValidator, wh_Defaulter = SubscriptionCustomDefaulter\<rparr>"
  "handlesKind \<lparr>wh_For = ''TargetProfile'', wh_Validator = TargetProfileCustomValidator, wh_Defaulter = TargetProfileCustomDefaulter\<rparr>"
  "handlesKind \<lparr>wh_For = ''Target'', wh_Validator = TargetCustomValidator, wh_Defaulter = TargetCustomDefaulter\<rparr>"
  "handlesKind \<lparr>wh_For = ''TunnelTargetPolicy'', wh_Validator = TunnelTargetPolicyCustomValidator regexError, wh_Defaulter = TunnelTargetPolicyCustomDefaulter\<rparr>"
  "handlesKind \<lparr>wh_For = ''Output'', wh_Validator = OutputCustomValidator, wh_Defaulter = OutputCustomDefaulter\<rparr>"
  "handlesKind \<lparr>wh_For = ''Input'', wh_Validator = InputCustomValidator, wh_Defaulter = InputCustomDefaulter\<rparr>"
  "handlesKind \<lparr>wh_For = ''Processor'', wh_Validator = ProcessorCustomValidator, wh_Defaulter = ProcessorCustomDefaulter\<rparr>"
  "handlesKind \<lparr>wh_For = ''TargetSource'', wh_Validator = TargetSourceCustomValidator, wh_Defaulter = TargetSourceCustomDefaulter\<rparr>"
  unfolding handlesKind_def
  by (intro allI, case_tac obj; simp add: ClusterCustomValidator_def ClusterCustomDefaulter_def PipelineCustomValidator_def PipelineCustomDefaulter_def SubscriptionCustomValidator_def SubscriptionCustomDefaulter_def TargetProfileCustomValidator_def TargetProfileCustomDefaulter_def TargetCustomValidator_def TargetCustomDefaulter_def TunnelTargetPolicyCustomValidator_def TunnelTargetPolicyCustomDefaulter_def OutputCustomValidator_def OutputCustomDefaulter_def InputCustomValidator_def InputCustomDefaulter_def ProcessorCustomValidator_def ProcessorCustomDefaulter_def TargetSourceCustomValidator_def TargetSourceCustomDefaulter_def)+

lemmas webhook_setups = SetupClusterWebhookWithManager_def SetupPipelineWebhookWithManager_def SetupSubscriptionWebhookWithManager_def SetupTargetProfileWebhookWithManager_def SetupTargetWebhookWithManager_def SetupTunnelTargetPolicyWebhookWithManager_def SetupOutputWebhookWithManager_def SetupInputWebhookWithManager_def SetupProcessorWebhookWithManager_def SetupTargetSourceWebhookWithManager_def

lemma steps_run:
  assumes "foldE (\<lambda>(msg, f) mgr. if fails msg then Inl msg else Inr (f mgr)) steps mgr = Inr mgr'"
  shows "mgr' = fold (\<lambda>(_, f). f) steps mgr" and "\<forall>(msg, _) \<in> set steps. \<not> fails msg"
  using assms by (induction steps arbitrary: mgr) (fastforce simp: bindE_Inr_iff split: if_splits)+

text \<open>
  C34: A started operator is complete. When \<^verbatim>\<open>main\<close> starts the manager, no registration has failed, the five
  controllers are registered under distinct names, the target source controller has the sizes of the
  flags, leader election is on as the flag says, and unless \<^verbatim>\<open>ENABLE_WEBHOOKS\<close> is \<^verbatim>\<open>false\<close> every kind has exactly one webhook, whose defaulter and
  validator are those of the kind: they take its objects, unchanged, and refuse all others.
\<close>

theorem operator_complete:
  assumes "main regexError fails fl getenv = Inr mgr"
  shows "mg_Started mgr \<and> (\<forall>(msg, _) \<in> set (mainSteps regexError fl getenv). \<not> fails msg) \<and>
    distinct (mg_Controllers mgr) \<and>
    set (mg_Controllers mgr) = {''cluster'', ''pipeline'', ''targetsource'', ''targetstate'', ''tunneltargetpolicy''} \<and>
    mg_SourceSizes mgr = Some (fl_BufferSize fl, fl_ChunkSize fl) \<and>
    map_option mo_LeaderElection (mg_Options mgr) = Some (fl_LeaderElect fl) \<and>
    mg_ApiAddr mgr = (if fl_ApiAddr fl = [] then None else Some (fl_ApiAddr fl)) \<and>
    distinct (map wh_For (mg_Webhooks mgr)) \<and>
    set (map wh_For (mg_Webhooks mgr)) = (if getenv ''ENABLE_WEBHOOKS'' = ''false'' then {} else range kindOf) \<and>
    (\<forall>w \<in> set (mg_Webhooks mgr). handlesKind w)"
proof -
  have mgr: "mgr = fold (\<lambda>(_, f). f) (mainSteps regexError fl getenv) newManager"
    and ok: "\<forall>(msg, _) \<in> set (mainSteps regexError fl getenv). \<not> fails msg"
    using steps_run [OF assms [unfolded main_def]] by blast+
  have kinds: "range kindOf = {''Cluster'', ''Pipeline'', ''Subscription'', ''TargetProfile'', ''Target'', ''TunnelTargetPolicy'',
      ''Output'', ''Input'', ''Processor'', ''TargetSource''}" (is "_ = ?K")
  proof
    have "kindOf obj \<in> ?K" for obj by (cases obj) simp_all
    then show "range kindOf \<subseteq> ?K" by blast
    show "?K \<subseteq> range kindOf" by (simp add: image_iff) (metis kindOf.simps)
  qed
  show ?thesis
    unfolding kinds mgr using ok handlers
    by (auto simp: mainSteps_def controllerStep_def webhookSteps_def newManager_def addWebhook_def webhook_setups)
qed

theorem operator_complete_witness:
  "\<exists>mgr. main (\<lambda>_. None) (\<lambda>_. False) defaultFlags (\<lambda>_. []) = Inr mgr \<and> ''TargetProfile'' \<in> set (map wh_For (mg_Webhooks mgr)) \<and>
     mg_SourceSizes mgr = Some (10, 100)"
proof -
  have "\<not> isl (main (\<lambda>_. None) (\<lambda>_. False) defaultFlags (\<lambda>_. []))" by code_simp
  then obtain mgr where mgr: "main (\<lambda>_. None) (\<lambda>_. False) defaultFlags (\<lambda>_. []) = Inr mgr"
    by (cases "main (\<lambda>_. None) (\<lambda>_. False) defaultFlags (\<lambda>_. [])") auto
  have "''TargetProfile'' \<in> range kindOf" by (metis kindOf.simps(4) rangeI)
  with operator_complete [OF mgr] mgr show ?thesis by (auto simp: defaultFlags_def)
qed

section \<open>Flags that are not checked\<close>

text \<open>
  The chunk size is taken from a flag without a check. A source with targets sends its snapshot
  exactly when the size is positive; with zero and with a negative size the loader panics.
\<close>

theorem chunk_size_unchecked:
  assumes "targets \<noteq> []" and "main regexError fails fl getenv = Inr mgr" and "mg_SourceSizes mgr = Some (buffer, chunk)"
  shows "((\<exists>batches. SendSnapshot None targets sid chunk [] = Some (Inr batches)) \<longleftrightarrow> 0 < fl_ChunkSize fl) \<and>
    (fl_ChunkSize fl = 0 \<longrightarrow> SendSnapshot None targets sid chunk [] = Some (Inl DividePanic)) \<and>
    (fl_ChunkSize fl < 0 \<longrightarrow> SendSnapshot None targets sid chunk [] = Some (Inl SlicePanic))"
proof -
  have "mg_SourceSizes mgr = Some (fl_BufferSize fl, fl_ChunkSize fl)"
    unfolding steps_run(1) [OF assms(2) [unfolded main_def]]
    by (simp add: mainSteps_def controllerStep_def webhookSteps_def newManager_def addWebhook_def webhook_setups)
  with assms(3) have chunk: "chunk = fl_ChunkSize fl" by simp
  have zero: "SendSnapshot None targets sid 0 [] = Some (Inl DividePanic)"
    using assms(1) by (simp add: SendSnapshot_def createDiscoverySnapshots_def)
  have neg: "SendSnapshot None targets sid c [] = Some (Inl SlicePanic)" if "c < 0" for c
    using assms(1) that
    by (simp add: SendSnapshot_def createDiscoverySnapshots_def Let_def forEachChunk.simps snapshotChunk_def slice_def)
  have pos: "\<exists>batches. SendSnapshot None targets sid c [] = Some (Inr batches)" if c: "0 < c" for c
  proof -
    obtain ss where "createDiscoverySnapshots targets sid c = Some (Inr ss)"
      using createDiscoverySnapshots_chunks [OF c] by blast
    moreover have "\<exists>out'. foldE (\<lambda>s. sendMessages None [Snapshot s]) ss out = Inr out' \<and> True" for out
      by (rule foldE_total) (simp_all add: sendMessages_def)
    ultimately show ?thesis using assms(1) by (auto simp: SendSnapshot_def)
  qed
  show ?thesis
    unfolding chunk using zero neg [of "fl_ChunkSize fl"] pos [of "fl_ChunkSize fl"] by (cases "fl_ChunkSize fl = 0"; cases "0 < fl_ChunkSize fl") auto
qed

theorem chunk_size_unchecked_witness:
  "\<forall>t. \<exists>mgr. main (\<lambda>_. None) (\<lambda>_. False) (defaultFlags\<lparr>fl_ChunkSize := 0\<rparr>) (\<lambda>_. []) = Inr mgr \<and>
     mg_SourceSizes mgr = Some (10, 0) \<and> SendSnapshot None [t] ''s'' 0 [] = Some (Inl DividePanic)"
proof
  fix t
  let ?fl = "defaultFlags\<lparr>fl_ChunkSize := 0\<rparr>"
  have run: "map_sum id mg_SourceSizes (main (\<lambda>_. None) (\<lambda>_. False) ?fl (\<lambda>_. [])) = Inr (Some (10, 0))" by code_simp
  then obtain mgr where mgr: "main (\<lambda>_. None) (\<lambda>_. False) ?fl (\<lambda>_. []) = Inr mgr" "mg_SourceSizes mgr = Some (10, 0)"
    by (cases "main (\<lambda>_. None) (\<lambda>_. False) ?fl (\<lambda>_. [])") auto
  from chunk_size_unchecked [OF _ mgr, of "[t]" "''s''"] have "SendSnapshot None [t] ''s'' 0 [] = Some (Inl DividePanic)" by simp
  with mgr show "\<exists>mgr. main (\<lambda>_. None) (\<lambda>_. False) ?fl (\<lambda>_. []) = Inr mgr \<and>
     mg_SourceSizes mgr = Some (10, 0) \<and> SendSnapshot None [t] ''s'' 0 [] = Some (Inl DividePanic)" by blast
qed

text \<open>The flag \<^verbatim>\<open>-dev-mode\<close> has no effect: the logger's options do not depend on it.\<close>

lemma dev_mode_ignored: "zapDevelopment (fl\<lparr>fl_DevMode := b\<rparr>) = False"
  by (simp add: zapDevelopment_def defaultFlags_def)

end
