(* ===== verification/Spec2Isabelle.thy ===== *)
theory Spec2Isabelle
  imports Processor_Correct Target_State_Correct Webhooks Http_Correct Pods_Correct Stateful_Set_Correct Source_Controller Other_Controllers Watches_Correct Operator_Setup
begin

text \<open>
  The gNMIc operator, a Kubernetes operator in Go. Custom resources describe collectors (clusters),
  targets, subscriptions, outputs, inputs, processors and the pipelines that tie them together; target
  sources discover targets. The operator runs the collectors as StatefulSets, computes for each cluster
  a plan of everything its pipelines collect, distributes the targets over the pods and sends each pod
  its part. This library models \<^verbatim>\<open>cmd/main.go\<close>, the packages under \<^verbatim>\<open>internal/\<close> and the types under \<^verbatim>\<open>api/v1alpha1\<close> and
  proves what makes them correct. The names of the definitions are those of the source.

  \<^bold>\<open>How the parts interact.\<close> A target source's loader (\<^verbatim>\<open>discovery/loaders/http\<close>) fetches pages from an HTTP
  endpoint and sends them in chunks to the message processor (\<^verbatim>\<open>discovery/message_processor.go\<close>), which
  makes the source's Target objects equal to them; the target source controller starts and stops both. A
  change of a target or any other resource wakes the clusters whose pipelines reference it.
  The cluster controller (\<^verbatim>\<open>controller/cluster_controller.go\<close>) then resolves the pipelines, has the plan
  built (\<^verbatim>\<open>gnmic/plan.go\<close>), keeps certificates, services and the StatefulSet in line, distributes the targets
  (\<^verbatim>\<open>gnmic/placement_blrh.go\<close>, \<^verbatim>\<open>gnmic/distribute.go\<close>) and sends the plans. The target state controller
  follows the pods' event streams and writes the state of each target back, from which the next plan takes
  the current assignment. Webhooks check what users write.

  \<^bold>\<open>Theories.\<close>
  \<^item> \<open>Gnmic_Prelude\<close>, \<open>Go_Strings\<close>: Go's maps as association lists without duplicate keys, with the locale
    \<open>go_map\<close> and its interpretation \<open>gm\<close>; sums for errors, \<open>bindE\<close> and \<open>foldE\<close>; \<^verbatim>\<open>strings\<close>, \<^verbatim>\<open>strconv\<close>
    and truncating division.
  \<^item> \<open>Api_Types\<close>: the custom resources. \<open>Naming\<close>: pod, certificate, stream and namespaced names, with the
    round trips of their parsers (\<^verbatim>\<open>utils.go\<close>, \<^verbatim>\<open>parseTargetName\<close>, \<^verbatim>\<open>extractOrdinalFromCertName\<close>).
  \<^item> \<open>Target_Config\<close>, \<open>Io_Config\<close>, \<open>Ports\<close>, \<open>Plan_Builder\<close>, \<open>Plan_Correct\<close>: the plan builder and the
    configuration of each resource. No dangling reference, exactly the targets that have a profile, a plan
    whenever the inputs are in order; the port loop ends for up to 1009 outputs, the size of its pool.
  \<^item> \<open>Placement\<close>, \<open>Distribute\<close>: bounded-load rendezvous hashing. A partition of the targets, within capacity,
    sticky, and independent of map order; the locale \<open>placement_strategy\<close> states what the distribution
    relies on.
  \<^item> \<open>Discovery_Core\<close>, \<open>Http_Loader\<close>, \<open>Http_Correct\<close>, \<open>Message_Processor\<close>, \<open>Processor_Correct\<close>: discovery.
    Chunking loses nothing, a fetch returns all pages in order and ends on cyclic ones, a processed snapshot
    leaves exactly its targets.
  \<^item> \<open>Source_Controller\<close>: discovery runtimes as a list, the registry, the handler, and goroutines as steps of
    \<open>discovery_step\<close>, interleaved with the handler at the granularity of one call.
  \<^item> \<open>Pipeline_Resolve\<close>, \<open>Pipeline_Correct\<close>, \<open>Cluster_Plan\<close>, \<open>Cluster_Correct\<close>, \<open>Cluster_Apply\<close>,
    \<open>Pods_Correct\<close>: references and selectors, watches, the plan of a cluster, its cache, the requests to the
    pods, and the statuses.
  \<^item> \<open>Owned_Objects\<close>, \<open>Certificates\<close>, \<open>Services\<close>, \<open>Services_Correct\<close>, \<open>Stateful_Set\<close>: the objects a cluster
    owns. The three request sequences every kind repeats are stated once over the record \<open>objects\<close> of a
    client; the locale \<open>pod_certificates\<close> is interpreted on the API and on the tunnel certificates.
  \<^item> \<open>Cluster_Reconcile\<close>, \<open>Reconcile_Correct\<close>, \<open>Stateful_Set_Correct\<close>: \<^verbatim>\<open>ClusterReconciler.Reconcile\<close> as a
    whole: deletion, certificates before pods, a StatefulSet that settles.
  \<^item> \<open>Plan_Stable\<close>: the plan of a cluster is a function of the specifications its pipelines reference. The
    locale \<open>stable_resolver\<close> extends \<open>resolver\<close> and is interpreted on the resolution of every kind.
  \<^item> \<open>Watches\<close>, \<open>Watches_Correct\<close>: the \<^verbatim>\<open>SetupWithManager\<close> functions as maps from events to requests, and the
    cluster controller as a system \<open>cluster_system\<close> of changes, deliveries and handled requests. No change is
    lost, with one exception that is proved: profiles of tunnel target policies.
  \<^item> \<open>Target_State\<close>, \<open>Target_State_Correct\<close>: event streams, polls, optimistic updates, stale entries.
  \<^item> \<open>Webhooks\<close>: the validators. \<open>Other_Controllers\<close>: the pipeline controller, the API server, and the target
    state controller's HTTP client. \<open>Operator_Setup\<close>: \<^verbatim>\<open>main\<close>, the defaulters and the registrations; a started
    operator has every controller, and every kind its own webhook.
  \<^item> This theory: properties that span the loader, the processor and the cluster controller.

  \<^bold>\<open>State and effects.\<close> A handler is a function on an explicit world \<open>'w\<close>, which only the clients read and
  write; its own state (plan cache, registry, streams) is a further argument. An error is the left of a sum,
  a followed nil pointer the value \<open>NilPanic\<close>, an \<^verbatim>\<open>int32\<close> that may overflow is wrapped by \<open>int32\<close>. Loops are
  folds or structural recursion; the chunk loop and the fetch of pages are partial functions into \<open>option\<close>
  that are proved to return, nested subscriptions have a termination measure, the port loop has the length
  of its pool as its bound, the retry loops the bound of the source.

  \<^bold>\<open>Parameters.\<close> What is not in the repository is an argument: the Kubernetes API client, YAML, JSON, CEL,
  JSONPath, label selectors, HTTP exchanges, the file system, the clock and X.509 parsing. Predicates such as \<open>reliableClient\<close>, \<open>reliableObjects\<close>, \<open>reliableSources\<close> and \<open>clusterReads\<close>
  state the documented behaviour of a server that answers; each has an instance in memory that serves the
  witnesses. \<open>reliableObjects\<close> has the defaults a server fills in as a function.

  \<^bold>\<open>Not modelled.\<close> Generated deep copies and empty conversion hubs (values of the model are immutable), the
  registration of types with a scheme, the parsing of flags, log output, metrics, and time limits of HTTP
  clients. Calls inside one handler are not interleaved with other handlers; where the source relies on
  optimistic concurrency (\<open>handleEvent_atomic\<close>) or starts goroutines (\<open>Source_Controller\<close>), the interleaving
  is explicit. In \<open>cluster_system\<close> a handler and the delivery of an event read the objects of the moment, lists
  come in the order of names, and secrets and the services of outputs, which nothing watches, do not change.
\<close>

section \<open>From an inventory to the cluster's objects\<close>

text \<open>A fetch over the pages of an endpoint and the processor that reads what it sends.\<close>

lemma emitted_snapshot:
  assumes "fetchTargetsFromHTTPEndpoint env send l = Some (Inr targets)"
    and "SendSnapshot None targets (cfg_Namespace (l_Cfg l) @ ''-'' @ cfg_Name (l_Cfg l) @ ''-'' @ uuid) (cfg_ChunkSize (l_Cfg l)) [] =
      Some (Inr batches)"
  shows "fetchAndEmit env send l uuid = Emitted batches"
  unfolding fetchAndEmit_def assms(1) option.case sum.case Let_def assms(2) ..



section \<open>From the cluster's objects to the pods\<close>

lemma generated_source_label:
  "gget (m_Labels (t_Meta (generateTargetResource d ts))) LabelTargetSourceName = Some (m_Name (tso_Meta ts))"
  by (simp add: generateTargetResource_def Let_def gm.get_put)

lemma discovered_stored:
  assumes "appliedSnapshot repr ts ds m m'" and "d \<in> set ds"
  shows "\<exists>t. repr (mp_world m') (m_Namespace (tso_Meta ts), dt_Name d) = Some t \<and>
    gget (m_Labels (t_Meta t)) LabelTargetSourceName = Some (m_Name (tso_Meta ts))"
proof -
  obtain d' where "lastNamed ds (dt_Name d) = Some d'"
    using assms(2) by (cases "lastNamed ds (dt_Name d)") (auto simp: lastNamed_def find_None_iff)
  from appliedSnapshot_specs [OF assms(1) this] show ?thesis using generated_source_label by metis
qed


text \<open>A pipeline that selects what the example source discovers.\<close>

definition exFoundTarget :: target where
  "exFoundTarget = \<lparr>t_Meta = (exMeta ''s1-a'')\<lparr>m_Labels := [(''env'', ''lab''), (LabelTargetSourceName, ''s1'')], m_Generation := 0\<rparr>,
     t_Spec = \<lparr>ts_Address = ''10.0.0.1:57400'', ts_Profile = ''default''\<rparr>,
     t_Status = \<lparr>tst_Clusters = 0, tst_State = [], tst_ClusterStates = None\<rparr>\<rparr>"

definition exSourceCR :: pipeline where
  "exSourceCR = \<lparr>pl_Meta = exMeta ''pipe'',
     pl_Spec = (pl_Spec exCR)\<lparr>ps_TargetRefs := [],
       ps_TargetSelectors := [\<lparr>ls_MatchLabels = [(LabelTargetSourceName, ''s1'')], ls_MatchExpressions = []\<rparr>]\<rparr>,
     pl_Status = pl_Status exCR\<rparr>"

definition exSourceEnv :: "unit cluster_env" where
  "exSourceEnv = exEnvOver (exReadersOf [exFoundTarget] ''default'' exSourceCR) (\<lambda>_ _ _ w. (Inl [], w))"

lemma exPort: "Itoa 57400 = ''57400''"
  by (simp add: Itoa_def nat_dec.simps digit_char_def char_of_def bit_Suc_0_iff)

lemma exFound_stored:
  assumes "appliedSnapshot memStore exSource [normalizeTarget (exDiscovered ''a'') ''s1''] m m'" and "mp_world m = []"
  shows "memStore (mp_world m') = listStore t_Meta [exFoundTarget]"
proof -
  have empty: "memStore [] = Map.empty" by (rule ext) (simp add: memStore_def split: prod.split)
  obtain existing where "(\<lambda>e. m_Name (t_Meta e)) ` set existing = {}"
    "memStore (mp_world m') = snapshotStore exSource existing [normalizeTarget (exDiscovered ''a'') ''s1''] Map.empty"
    using assms by (auto simp: appliedSnapshot_def ownedNames_def empty)
  then have "memStore (mp_world m') = applyToStore exSource (applyEventOf (normalizeTarget (exDiscovered ''a'') ''s1'')) Map.empty"
    by (simp add: snapshotStore_def generateEvents_def)
  also have "\<dots> = Map.empty((''n'', ''s1-a'') \<mapsto> exFoundTarget)"
    by (simp add: applyToStore_def applyEventOf_def stored_def blankTarget_def exFoundTarget_def normalizeTarget_def exDiscovered_def
        exSource_def exMeta_def generateTargetResource_def maps_Copy_def gput_def LabelTargetSourceName_def JoinHostPort_def
        Let_def exPort)
  also have "\<dots> = listStore t_Meta [exFoundTarget]"
    by (rule ext) (simp add: listStore_def exFoundTarget_def exMeta_def split: prod.split)
  finally show ?thesis .
qed

lemma exSource_plan: "\<not> isl (fst (reconcilePlan exSourceEnv 0 exCluster [] ()))"
  by code_simp

lemma exSource_part: "\<exists>pd. takesPart exSourceEnv exCluster exSourceCR pd"
proof -
  have "case gatherPipeline (ce_Readers exSourceEnv) (ce_AsSelector exSourceEnv) (ce_Yaml exSourceEnv) (ce_Domain exSourceEnv)
      exCluster exSourceCR of Inr (Gathered pd) \<Rightarrow> True | _ \<Rightarrow> False"
    by code_simp
  then show ?thesis by (auto simp: takesPart_def exSourceCR_def exCR_def split: sum.splits gathered.splits)
qed

lemma exSource_reads:
  assumes "memStore w = listStore t_Meta [exFoundTarget]"
  shows "clusterReads exSourceEnv (m_Namespace (cl_Meta exCluster)) (memStore w)
    (listStore r_Meta [\<lparr>r_Meta = exMeta ''default'', r_Spec = exProfile\<rparr>]) [exSourceCR]"
proof -
  have "readsStore t_Meta (listReader t_Meta [exFoundTarget]) ''n'' (memStore w)"
    unfolding assms by (rule listReader_readsStore) simp
  moreover have "readsStore r_Meta (listReader r_Meta [\<lparr>r_Meta = exMeta ''default'', r_Spec = exProfile\<rparr>]) ''n''
      (listStore r_Meta [\<lparr>r_Meta = exMeta ''default'', r_Spec = exProfile\<rparr>])"
    by (rule listReader_readsStore) simp
  ultimately show ?thesis
    by (simp add: clusterReads_def exSourceEnv_def exEnvOver_def exReadersOf_def exSourceCR_def exCR_def exCluster_def exMeta_def)
qed


end
